(* ===== verification/Prelude.thy ===== *)
theory Prelude
  imports Main "HOL-Library.Word"
begin

text \<open>
  What the component theories share.

  Rust's \<open>Result<T, E>\<close> is the sum type \<open>'e + 'a\<close>, \<open>Inl\<close> for \<open>Err\<close> and \<open>Inr\<close> for \<open>Ok\<close>;
  the operator \<open>?\<close> is \<open>rbind\<close>.
  A Rust \<open>str\<close> is the list of its Unicode scalar values (\<open>rstr\<close>), because \<open>trim\<close>,
  \<open>chars\<close> and \<open>is_control\<close> look at characters and not at bytes; a byte offset into a string is
  \<open>blen\<close> (the UTF-8 length) of a prefix.
  The string functions below are those of Rust's standard library that the source calls.
  The fixed-width integers are \<open>word\<close>s; an index or a length is a \<open>nat\<close>.
\<close>

section \<open>Results\<close>

named_theorems result_simps \<open>unfolding of the error monad\<close>

fun rbind :: "'e + 'a \<Rightarrow> ('a \<Rightarrow> 'e + 'b) \<Rightarrow> 'e + 'b" where
  "rbind (Inl e) f = Inl e"
| "rbind (Inr x) f = f x"

definition ok_or :: "'e \<Rightarrow> 'a option \<Rightarrow> 'e + 'a" where
  "ok_or e x = (case x of None \<Rightarrow> Inl e | Some v \<Rightarrow> Inr v)"

fun rmap :: "('a \<Rightarrow> 'e + 'b) \<Rightarrow> 'a list \<Rightarrow> 'e + 'b list" where
  "rmap f [] = Inr []"
| "rmap f (x # xs) = rbind (f x) (\<lambda>y. rbind (rmap f xs) (\<lambda>ys. Inr (y # ys)))"

lemma rbind_eq_Inr [result_simps]:
  "rbind x f = Inr y \<longleftrightarrow> (\<exists>v. x = Inr v \<and> f v = Inr y)"
  by (cases x) auto

lemma rbind_eq_Inl [result_simps]:
  "rbind x f = Inl e \<longleftrightarrow> x = Inl e \<or> (\<exists>v. x = Inr v \<and> f v = Inl e)"
  by (cases x) auto

lemma ok_or_simps [simp]:
  "ok_or e None = Inl e"
  "ok_or e (Some v) = Inr v"
  by (simp_all add: ok_or_def)

lemma ok_or_eq_Inr [result_simps]: "ok_or e x = Inr v \<longleftrightarrow> x = Some v"
  by (cases x) auto

text \<open>\<open>rmap\<close> collects an iterator of results: the values, or the first error.\<close>

lemma rmap_Inr: "(\<And>x. x \<in> set xs \<Longrightarrow> f x = Inr (g x)) \<Longrightarrow> rmap f xs = Inr (map g xs)"
  by (induction xs) simp_all

lemma rmap_eq_Inr: "rmap f xs = Inr ys \<longleftrightarrow> map f xs = map Inr ys"
  by (induction xs arbitrary: ys) (auto simp: rbind_eq_Inr map_eq_Cons_conv Cons_eq_map_conv)

section \<open>Machine integers\<close>

type_synonym u8 = "8 word"
type_synonym u16 = "16 word"
type_synonym u32 = "32 word"
type_synonym u64 = "64 word"

definition u64_max :: nat where "u64_max = 2 ^ 64 - 1"

text \<open>\<open>saturating_add\<close> and \<open>saturating_mul\<close> of \<open>u64\<close> and \<open>usize\<close> (64 bits), on the values.\<close>

definition sat_add :: "nat \<Rightarrow> nat \<Rightarrow> nat" where
  "sat_add a b = min (a + b) u64_max"

definition sat_mul :: "nat \<Rightarrow> nat \<Rightarrow> nat" where
  "sat_mul a b = min (a * b) u64_max"

lemma sat_bounds [simp]: "sat_add a b \<le> u64_max" "sat_mul a b \<le> u64_max"
  by (simp_all add: sat_add_def sat_mul_def)

lemma sat_add_ge: "a \<le> u64_max \<Longrightarrow> a \<le> sat_add a b"
  by (simp add: sat_add_def)

lemma sat_mul_ge: "a \<le> u64_max \<Longrightarrow> 0 < k \<Longrightarrow> a \<le> sat_mul a k"
  by (cases k) (simp_all add: sat_mul_def)

section \<open>Strings\<close>

type_synonym uchar = nat
type_synonym rstr = "uchar list"

definition lit :: "string \<Rightarrow> rstr" where
  "lit s = map of_char s"

lemma lit_Nil [simp]: "lit [] = []"
  by (simp add: lit_def)

lemma lit_Cons [simp]: "lit (c # cs) = of_char c # lit cs"
  by (simp add: lit_def)

lemma length_lit [simp]: "length (lit s) = length s"
  by (simp add: lit_def)

subsection \<open>Characters\<close>

text \<open>\<open>char::is_whitespace\<close> (the Unicode property White\_Space) and \<open>char::is_control\<close>
  (the category Cc).\<close>

definition is_ws :: "uchar \<Rightarrow> bool" where
  "is_ws c \<longleftrightarrow> (9 \<le> c \<and> c \<le> 13) \<or> c = 32 \<or> c = 133 \<or> c = 160 \<or> c = 5760
     \<or> (8192 \<le> c \<and> c \<le> 8202) \<or> c = 8232 \<or> c = 8233 \<or> c = 8239 \<or> c = 8287 \<or> c = 12288"

definition is_control :: "uchar \<Rightarrow> bool" where
  "is_control c \<longleftrightarrow> c < 32 \<or> (127 \<le> c \<and> c \<le> 159)"

definition is_ascii_digit :: "uchar \<Rightarrow> bool" where
  "is_ascii_digit c \<longleftrightarrow> 48 \<le> c \<and> c \<le> 57"

definition ascii_lower :: "uchar \<Rightarrow> uchar" where
  "ascii_lower c = (if 65 \<le> c \<and> c \<le> 90 then c + 32 else c)"

text \<open>\<open>char::len_utf8\<close> and \<open>str::len\<close>.\<close>

definition len_utf8 :: "uchar \<Rightarrow> nat" where
  "len_utf8 c = (if c < 128 then 1 else if c < 2048 then 2 else if c < 65536 then 3 else 4)"

definition blen :: "rstr \<Rightarrow> nat" where
  "blen s = sum_list (map len_utf8 s)"

lemma len_utf8_pos [simp]: "0 < len_utf8 c"
  by (simp add: len_utf8_def)

lemma len_utf8_ge [simp]: "Suc 0 \<le> len_utf8 c"
  by (simp add: len_utf8_def)

lemma blen_simps [simp]:
  "blen [] = 0"
  "blen (c # cs) = len_utf8 c + blen cs"
  "blen (s @ t) = blen s + blen t"
  by (simp_all add: blen_def)

lemma blen_eq_0 [simp]: "blen s = 0 \<longleftrightarrow> s = []"
  by (cases s) auto

text \<open>\<open>str::as_bytes\<close>, the UTF-8 encoding.\<close>

definition utf8_char :: "uchar \<Rightarrow> u8 list" where
  "utf8_char c =
     (if c < 128 then [of_nat c]
      else if c < 2048 then [of_nat (192 + c div 64), of_nat (128 + c mod 64)]
      else if c < 65536
        then [of_nat (224 + c div 4096), of_nat (128 + c div 64 mod 64), of_nat (128 + c mod 64)]
      else [of_nat (240 + c div 262144), of_nat (128 + c div 4096 mod 64),
            of_nat (128 + c div 64 mod 64), of_nat (128 + c mod 64)])"

definition utf8 :: "rstr \<Rightarrow> u8 list" where
  "utf8 s = concat (map utf8_char s)"

lemma utf8_simps [simp]:
  "utf8 [] = []"
  "utf8 (c # s) = utf8_char c @ utf8 s"
  "utf8 (s @ t) = utf8 s @ utf8 t"
  by (simp_all add: utf8_def)

lemma length_utf8: "length (utf8 s) = blen s"
  by (induction s) (simp_all add: utf8_char_def len_utf8_def)

subsection \<open>Searching and slicing\<close>

text \<open>\<open>str::find\<close> and \<open>str::rfind\<close> of a character class, as an index into the characters; the
  source only uses the result to slice the same string.\<close>

fun str_find :: "(uchar \<Rightarrow> bool) \<Rightarrow> rstr \<Rightarrow> nat option" where
  "str_find P [] = None"
| "str_find P (c # cs) = (if P c then Some 0 else map_option Suc (str_find P cs))"

definition str_rfind :: "(uchar \<Rightarrow> bool) \<Rightarrow> rstr \<Rightarrow> nat option" where
  "str_rfind P s = map_option (\<lambda>i. length s - Suc i) (str_find P (rev s))"

definition strip_prefix :: "rstr \<Rightarrow> rstr \<Rightarrow> rstr option" where
  "strip_prefix p s = (if take (length p) s = p then Some (drop (length p) s) else None)"

definition starts_with :: "rstr \<Rightarrow> rstr \<Rightarrow> bool" where
  "starts_with p s \<longleftrightarrow> take (length p) s = p"

definition ends_with :: "rstr \<Rightarrow> rstr \<Rightarrow> bool" where
  "ends_with p s \<longleftrightarrow> length p \<le> length s \<and> drop (length s - length p) s = p"

definition trim_start :: "(uchar \<Rightarrow> bool) \<Rightarrow> rstr \<Rightarrow> rstr" where
  "trim_start P s = dropWhile P s"

definition trim_end :: "(uchar \<Rightarrow> bool) \<Rightarrow> rstr \<Rightarrow> rstr" where
  "trim_end P s = rev (dropWhile P (rev s))"

definition trim :: "rstr \<Rightarrow> rstr" where
  "trim s = trim_end is_ws (trim_start is_ws s)"

definition replace_char :: "uchar \<Rightarrow> rstr \<Rightarrow> rstr \<Rightarrow> rstr" where
  "replace_char c r s = concat (map (\<lambda>x. if x = c then r else [x]) s)"

fun split_on :: "'a \<Rightarrow> 'a list \<Rightarrow> 'a list list" where
  "split_on d [] = [[]]"
| "split_on d (c # cs) =
     (if c = d then [] # split_on d cs
      else (case split_on d cs of [] \<Rightarrow> [[c]] | p # ps \<Rightarrow> (c # p) # ps))"

lemma str_find_None: "str_find P s = None \<longleftrightarrow> (\<forall>c \<in> set s. \<not> P c)"
  by (induction s) auto

lemma str_find_at:
  assumes "\<forall>c \<in> set s. \<not> P c" and "P d"
  shows "str_find P (s @ d # t) = Some (length s)"
  using assms by (induction s) auto

lemma str_find_Some:
  "str_find P s = Some i \<Longrightarrow> i < length s \<and> P (s ! i) \<and> (\<forall>j < i. \<not> P (s ! j))"
proof (induction s arbitrary: i)
  case (Cons c cs)
  then show ?case by (auto split: if_splits simp: nth_Cons split: nat.splits)
qed simp

lemma str_find_lt: "str_find P s = Some i \<Longrightarrow> i < length s"
  by (simp add: str_find_Some)

lemma str_rfind_None: "str_rfind P s = None \<longleftrightarrow> (\<forall>c \<in> set s. \<not> P c)"
  by (simp add: str_rfind_def str_find_None)

lemma str_rfind_at:
  assumes "\<forall>c \<in> set t. \<not> P c" and "P d"
  shows "str_rfind P (s @ d # t) = Some (length s)"
proof -
  have "str_find P (rev t @ d # rev s) = Some (length t)"
    using assms str_find_at [of "rev t" P d "rev s"] by simp
  then show ?thesis by (simp add: str_rfind_def)
qed

lemma str_rfind_Some:
  assumes "str_rfind P s = Some i"
  shows "i < length s" and "P (s ! i)" and "\<forall>c \<in> set (drop (Suc i) s). \<not> P c"
proof -
  obtain k where k: "str_find P (rev s) = Some k" and i: "i = length s - Suc k"
    using assms by (auto simp: str_rfind_def)
  note f = str_find_Some [OF k]
  then show "i < length s" using i by auto
  have kl: "k < length s" using f by simp
  from f have "P (rev s ! k)" by simp
  then show "P (s ! i)" using kl i by (simp add: rev_nth)
  show "\<forall>c \<in> set (drop (Suc i) s). \<not> P c"
  proof
    fix c assume "c \<in> set (drop (Suc i) s)"
    then obtain m where m: "m < length s - Suc i" "c = s ! (Suc i + m)"
      by (auto simp: in_set_conv_nth)
    define j where "j = length s - Suc (Suc i + m)"
    have "j < k" using m i kl by (auto simp: j_def)
    moreover have "rev s ! j = c" using m by (simp add: j_def rev_nth)
    ultimately show "\<not> P c" using f by metis
  qed
qed

lemma strip_prefix_append [simp]: "strip_prefix p (p @ s) = Some s"
  by (simp add: strip_prefix_def)

lemma strip_prefix_Some: "strip_prefix p s = Some t \<longleftrightarrow> s = p @ t"
  by (auto simp: strip_prefix_def) (metis append_take_drop_id)

lemma starts_with_iff: "starts_with p s \<longleftrightarrow> (\<exists>t. s = p @ t)"
  by (auto simp: starts_with_def) (metis append_take_drop_id)

lemma trim_id:
  "s = [] \<or> (\<not> is_ws (hd s) \<and> \<not> is_ws (last s)) \<Longrightarrow> trim s = s"
proof (cases s rule: rev_cases)
  case (snoc ys y)
  assume "s = [] \<or> (\<not> is_ws (hd s) \<and> \<not> is_ws (last s))"
  then have "\<not> is_ws (hd s)" "\<not> is_ws y" using snoc by auto
  then have "dropWhile is_ws s = s" by (cases s) auto
  then show ?thesis using \<open>\<not> is_ws y\<close> snoc
    by (simp add: trim_def trim_start_def trim_end_def)
qed (simp add: trim_def trim_start_def trim_end_def)

lemma trim_start_hd: "trim_start P s = [] \<or> \<not> P (hd (trim_start P s))"
  by (induction s) (auto simp: trim_start_def)

lemma trim_end_last: "trim_end P s = [] \<or> \<not> P (last (trim_end P s))"
  by (induction s rule: rev_induct) (auto simp: trim_end_def)

lemma trim_end_snoc [simp]:
  "trim_end P (s @ [c]) = (if P c then trim_end P s else s @ [c])"
  by (simp add: trim_end_def)

lemma trim_end_Nil [simp]: "trim_end P [] = []"
  by (simp add: trim_end_def)

lemma trim_end_prefix: "\<exists>t. s = trim_end P s @ t \<and> (\<forall>c \<in> set t. P c)"
proof (induction s rule: rev_induct)
  case (snoc c s)
  then obtain t where t: "s = trim_end P s @ t" "\<forall>c \<in> set t. P c" by blast
  show ?case
  proof (cases "P c")
    case True
    then have "s @ [c] = trim_end P (s @ [c]) @ (t @ [c])" using t(1) by simp
    then show ?thesis using t(2) True by (metis set_append Un_iff empty_iff list.set(1) set_ConsD)
  qed simp
qed simp

lemma length_trim_end: "length (trim_end P s) \<le> length s"
  by (simp add: trim_end_def) (metis length_dropWhile_le length_rev)

lemma set_trim_end: "set (trim_end P s) \<subseteq> set s"
  by (metis trim_end_prefix set_append Un_upper1)

lemma set_trim: "set (trim s) \<subseteq> set s"
  unfolding trim_def trim_start_def using set_trim_end set_dropWhileD by fastforce

lemma split_on_not_Nil [simp]: "split_on d s \<noteq> []"
  by (induction s) (auto split: list.splits)

lemma split_on_no_sep: "p \<in> set (split_on d s) \<Longrightarrow> d \<notin> set p"
  by (induction s arbitrary: p) (fastforce split: if_splits list.splits)+

lemma split_on_chars: "p \<in> set (split_on d s) \<Longrightarrow> set p \<subseteq> set s"
proof (induction s arbitrary: p)
  case (Cons c cs)
  then show ?case by (fastforce split: if_splits list.splits)
qed simp

subsection \<open>Decimal numbers\<close>

text \<open>\<open>str::parse\<close> of an unsigned type with maximum \<open>mx\<close> (one leading \<open>+\<close> is accepted, an
  empty string and an overflow are errors) and the formatting of an unsigned number.\<close>

fun parse_digits :: "nat \<Rightarrow> nat \<Rightarrow> rstr \<Rightarrow> nat option" where
  "parse_digits mx acc [] = Some acc"
| "parse_digits mx acc (c # cs) =
     (if is_ascii_digit c
      then (let acc' = acc * 10 + (c - 48) in if acc' \<le> mx then parse_digits mx acc' cs else None)
      else None)"

definition parse_uint :: "nat \<Rightarrow> rstr \<Rightarrow> nat option" where
  "parse_uint mx s =
     (case s of
        [] \<Rightarrow> None
      | c # cs \<Rightarrow> if c = 43 then (if cs = [] then None else parse_digits mx 0 cs)
                   else parse_digits mx 0 s)"

fun show_nat :: "nat \<Rightarrow> rstr" where
  "show_nat n = (if n < 10 then [48 + n] else show_nat (n div 10) @ [48 + n mod 10])"

declare show_nat.simps [simp del]

lemma parse_digits_append:
  "parse_digits mx acc (s @ t) = Option.bind (parse_digits mx acc s) (\<lambda>a. parse_digits mx a t)"
  by (induction s arbitrary: acc) (auto simp: Let_def)

lemma parse_digits_bound: "parse_digits mx acc s = Some n \<Longrightarrow> acc \<le> mx \<Longrightarrow> n \<le> mx"
  by (induction s arbitrary: acc) (auto simp: Let_def split: if_splits)

lemma parse_uint_bound: "parse_uint mx s = Some n \<Longrightarrow> n \<le> mx"
  by (auto simp: parse_uint_def Let_def split: list.splits if_splits dest: parse_digits_bound)

lemma show_nat_not_Nil [simp]: "show_nat n \<noteq> []"
  by (subst show_nat.simps) simp

lemma show_nat_digits: "c \<in> set (show_nat n) \<Longrightarrow> is_ascii_digit c"
proof (induction n rule: show_nat.induct)
  case (1 n)
  show ?case
  proof (cases "n < 10")
    case True
    then show ?thesis using "1.prems" by (subst (asm) show_nat.simps) (auto simp: is_ascii_digit_def)
  next
    case False
    then have "c \<in> set (show_nat (n div 10)) \<or> c = 48 + n mod 10"
      using "1.prems" by (subst (asm) show_nat.simps) auto
    then show ?thesis using 1 False by (auto simp: is_ascii_digit_def)
  qed
qed

lemma parse_digits_show: "n \<le> mx \<Longrightarrow> parse_digits mx 0 (show_nat n) = Some n"
proof (induction n rule: show_nat.induct)
  case (1 n)
  show ?case
  proof (cases "n < 10")
    case True
    then show ?thesis using 1 by (subst show_nat.simps) (simp add: is_ascii_digit_def)
  next
    case False
    have "n div 10 \<le> mx" using "1.prems" by (meson div_le_dividend le_trans)
    with False 1 have "parse_digits mx 0 (show_nat (n div 10)) = Some (n div 10)" by simp
    then show ?thesis using False "1.prems"
      by (subst show_nat.simps) (simp add: parse_digits_append is_ascii_digit_def Let_def)
  qed
qed

lemma parse_uint_show: "n \<le> mx \<Longrightarrow> parse_uint mx (show_nat n) = Some n"
proof -
  assume n: "n \<le> mx"
  obtain c cs where s: "show_nat n = c # cs" by (cases "show_nat n") auto
  then have "is_ascii_digit c" using show_nat_digits [of c n] by simp
  then have "c \<noteq> 43" by (auto simp: is_ascii_digit_def)
  then show ?thesis using parse_digits_show [OF n] s by (simp add: parse_uint_def)
qed

subsection \<open>Lines\<close>

text \<open>\<open>str::lines\<close>: the pieces between line feeds, without a carriage return at their end and without
  the empty piece after a final line feed.\<close>

definition strip_cr :: "rstr \<Rightarrow> rstr" where
  "strip_cr l = (if ends_with [13] l then butlast l else l)"

definition str_lines :: "rstr \<Rightarrow> rstr list" where
  "str_lines s =
     (let ls = split_on 10 s in
      map strip_cr (butlast ls) @ (if last ls = [] then [] else [strip_cr (last ls)]))"

subsection \<open>Paths\<close>

text \<open>\<open>std::path::Path\<close> on Unix: the components of a path (empty pieces and inner dots dropped), its
  file name, its parent and the extension of its file name.\<close>

definition path_components :: "rstr \<Rightarrow> rstr list" where
  "path_components p =
     (let cs = split_on 47 p in
      (if hd cs = [46] then [[46]] else []) @ filter (\<lambda>c. c \<noteq> [] \<and> c \<noteq> [46]) cs)"

definition path_is_absolute :: "rstr \<Rightarrow> bool" where
  "path_is_absolute p = starts_with [47] p"

fun join_with :: "uchar \<Rightarrow> rstr list \<Rightarrow> rstr" where
  "join_with d [] = []"
| "join_with d [x] = x"
| "join_with d (x # y # xs) = x @ d # join_with d (y # xs)"

definition path_file_name :: "rstr \<Rightarrow> rstr option" where
  "path_file_name p =
     (let cs = path_components p in
      if cs = [] \<or> last cs = [46] \<or> last cs = [46, 46] then None else Some (last cs))"

definition path_parent :: "rstr \<Rightarrow> rstr option" where
  "path_parent p =
     (let cs = path_components p in
      if cs = [] then None
      else Some ((if path_is_absolute p then [47] else []) @ join_with 47 (butlast cs)))"

definition path_extension :: "rstr \<Rightarrow> rstr option" where
  "path_extension p =
     (case path_file_name p of
        None \<Rightarrow> None
      | Some n \<Rightarrow>
          (case str_rfind (\<lambda>c. c = 46) n of
             None \<Rightarrow> None
           | Some i \<Rightarrow> if i = 0 then None else Some (drop (i + 1) n)))"

section \<open>Lists\<close>

text \<open>\<open>Vec::insert\<close> and \<open>Vec::remove\<close> at an index in range; both panic out of range, which the
  callers rule out.\<close>

definition list_insert :: "nat \<Rightarrow> 'a \<Rightarrow> 'a list \<Rightarrow> 'a list" where
  "list_insert i x xs = take i xs @ x # drop i xs"

definition list_remove :: "nat \<Rightarrow> 'a list \<Rightarrow> 'a list" where
  "list_remove i xs = take i xs @ drop (Suc i) xs"

text \<open>\<open>Iterator::position\<close>.\<close>

fun position :: "('a \<Rightarrow> bool) \<Rightarrow> 'a list \<Rightarrow> nat option" where
  "position P [] = None"
| "position P (x # xs) = (if P x then Some 0 else map_option Suc (position P xs))"

text \<open>\<open>slice::get\<close>.\<close>

definition nth_opt :: "'a list \<Rightarrow> nat \<Rightarrow> 'a option" where
  "nth_opt xs i = (if i < length xs then Some (xs ! i) else None)"

lemma position_None: "position P xs = None \<longleftrightarrow> (\<forall>x \<in> set xs. \<not> P x)"
  by (induction xs) auto

lemma position_Some:
  "position P xs = Some i \<Longrightarrow> i < length xs \<and> P (xs ! i) \<and> (\<forall>j < i. \<not> P (xs ! j))"
  by (induction xs arbitrary: i) (auto split: if_splits simp: nth_Cons split: nat.splits)

lemma position_lt: "position P xs = Some i \<Longrightarrow> i < length xs"
  by (simp add: position_Some)

lemma find_SomeD: "List.find P xs = Some x \<Longrightarrow> x \<in> set xs \<and> P x"
  by (induction xs) (auto split: if_splits)

lemma nth_opt_Some: "nth_opt xs i = Some x \<longleftrightarrow> i < length xs \<and> xs ! i = x"
  by (auto simp: nth_opt_def)

lemma nth_opt_set: "nth_opt xs i = Some x \<Longrightarrow> x \<in> set xs"
  by (auto simp: nth_opt_Some)

lemma length_list_insert [simp]: "length (list_insert i x xs) = Suc (length xs)"
  by (simp add: list_insert_def)

lemma set_list_insert [simp]: "set (list_insert i x xs) = insert x (set xs)"
  unfolding list_insert_def
  by (metis Un_insert_right append_take_drop_id list.simps(15) set_append)

lemma map_list_insert: "map f (list_insert i x xs) = list_insert i (f x) (map f xs)"
  by (simp add: list_insert_def take_map drop_map)

lemma distinct_list_insert:
  "distinct (list_insert i x xs) \<longleftrightarrow> distinct xs \<and> x \<notin> set xs"
proof -
  have "distinct (list_insert i x xs) \<longleftrightarrow> distinct (x # (take i xs @ drop i xs))"
    unfolding list_insert_def by (auto simp del: append_take_drop_id)
  then show ?thesis by auto
qed

lemma length_list_remove: "i < length xs \<Longrightarrow> length (list_remove i xs) = length xs - 1"
  by (simp add: list_remove_def)

lemma set_list_remove_subset: "set (list_remove i xs) \<subseteq> set xs"
  by (auto simp: list_remove_def dest: in_set_takeD in_set_dropD)

lemma map_list_remove: "map f (list_remove i xs) = list_remove i (map f xs)"
  by (simp add: list_remove_def take_map drop_map)

lemma distinct_list_remove: "distinct xs \<Longrightarrow> distinct (list_remove i xs)"
  by (simp add: list_remove_def set_take_disj_set_drop_if_distinct)

lemma set_list_remove:
  assumes "distinct xs" "i < length xs"
  shows "set (list_remove i xs) = set xs - {xs ! i}"
proof -
  have "xs = take i xs @ xs ! i # drop (Suc i) xs" using assms(2) by (rule id_take_nth_drop)
  then have "distinct (take i xs @ xs ! i # drop (Suc i) xs)"
    and "set xs = set (take i xs @ xs ! i # drop (Suc i) xs)"
    using assms(1) by metis+
  then show ?thesis by (auto simp: list_remove_def)
qed

end
