(* ===== verification/Languages.thy ===== *)
theory Languages
  imports Prelude
begin

text \<open>
  The languages of the editor, \<^verbatim>\<open>src/fulgur/languages/supported_languages.rs\<close>: the enumeration, its
  correspondence with the languages of the editor component, the names, and the detection of a
  language from a file name and its contents. A constructor is the source's variant with the prefix
  \<open>L\<close> (the enumeration of the program) or \<open>N\<close> (the enumeration \<open>Language\<close> of the component).

  \<open>Language::from_str\<close> and \<open>Language::name\<close> of the component are parameters.
\<close>

section \<open>The enumerations\<close>

datatype (plugins only: code size) supported_language =
    L_Ada | L_Asm | L_Astro | L_Bash | L_C | L_Clojure | L_CMake | L_CSharp | L_Cpp | L_Css |
    L_Csv | L_D | L_Dart | L_Diff | L_Dockerfile | L_Ejs | L_Elixir | L_Erb | L_Erlang |
    L_Fortran | L_FSharp | L_Go | L_GraphQl | L_Groovy | L_Haskell | L_Html | L_Ini |
    L_Jinja2 | L_Java | L_JavaScript | L_JsDoc | L_Json | L_Julia | L_Kotlin | L_Lua | L_Make |
    L_Markdown | L_MarkdownInline | L_Matlab | L_ObjectiveC | L_Ocaml | L_Pascal | L_Perl |
    L_Php | L_Plain | L_Powershell | L_Prolog | L_Proto | L_Python | L_R | L_React | L_Ruby |
    L_Rust | L_Scala | L_Scss | L_Sql | L_Svelte | L_Svg | L_Swift | L_Toml | L_TypeScript |
    L_Vue | L_Xml | L_Yaml | L_Zig

datatype (plugins only: code size) native_language =
    N_Astro | N_Bash | N_C | N_CMake | N_CSharp | N_Cpp | N_Css | N_Diff | N_Ejs | N_Elixir |
    N_Erb | N_Go | N_GraphQL | N_Html | N_Java | N_JavaScript | N_JsDoc | N_Json | N_Kotlin |
    N_Lua | N_Make | N_Markdown | N_MarkdownInline | N_Php | N_Plain | N_Proto | N_Python |
    N_Ruby | N_Rust | N_Scala | N_Sql | N_Svelte | N_Swift | N_Toml | N_Tsx | N_TypeScript |
    N_Yaml | N_Zig

definition ALL_LANGUAGES :: "supported_language list" where
  "ALL_LANGUAGES =
     [L_Ada, L_Asm, L_Astro, L_Bash, L_C, L_Clojure, L_CMake, L_CSharp, L_Cpp, L_Css, L_Csv,
      L_D, L_Dart, L_Diff, L_Dockerfile, L_Ejs, L_Elixir, L_Erb, L_Erlang, L_Fortran, L_FSharp,
      L_Go, L_GraphQl, L_Groovy, L_Haskell, L_Html, L_Ini, L_Jinja2, L_Java, L_JavaScript,
      L_JsDoc, L_Json, L_Julia, L_Kotlin, L_Lua, L_Make, L_Markdown, L_MarkdownInline,
      L_Matlab, L_ObjectiveC, L_Ocaml, L_Pascal, L_Perl, L_Php, L_Plain, L_Powershell,
      L_Prolog, L_Proto, L_Python, L_R, L_React, L_Ruby, L_Rust, L_Scala, L_Scss, L_Sql,
      L_Svelte, L_Svg, L_Swift, L_Toml, L_TypeScript, L_Vue, L_Xml, L_Yaml, L_Zig]"

section \<open>Correspondence and names\<close>

primrec from_language :: "native_language \<Rightarrow> supported_language" where
  "from_language N_Astro = L_Astro"
| "from_language N_Bash = L_Bash"
| "from_language N_C = L_C"
| "from_language N_CMake = L_CMake"
| "from_language N_CSharp = L_CSharp"
| "from_language N_Cpp = L_Cpp"
| "from_language N_Css = L_Css"
| "from_language N_Diff = L_Diff"
| "from_language N_Ejs = L_Ejs"
| "from_language N_Elixir = L_Elixir"
| "from_language N_Erb = L_Erb"
| "from_language N_Go = L_Go"
| "from_language N_GraphQL = L_GraphQl"
| "from_language N_Html = L_Html"
| "from_language N_Java = L_Java"
| "from_language N_JavaScript = L_JavaScript"
| "from_language N_JsDoc = L_JsDoc"
| "from_language N_Json = L_Json"
| "from_language N_Kotlin = L_Kotlin"
| "from_language N_Lua = L_Lua"
| "from_language N_Make = L_Make"
| "from_language N_Markdown = L_Markdown"
| "from_language N_MarkdownInline = L_MarkdownInline"
| "from_language N_Php = L_Php"
| "from_language N_Plain = L_Plain"
| "from_language N_Proto = L_Proto"
| "from_language N_Python = L_Python"
| "from_language N_Ruby = L_Ruby"
| "from_language N_Rust = L_Rust"
| "from_language N_Scala = L_Scala"
| "from_language N_Sql = L_Sql"
| "from_language N_Svelte = L_Svelte"
| "from_language N_Swift = L_Swift"
| "from_language N_Toml = L_Toml"
| "from_language N_Tsx = L_React"
| "from_language N_TypeScript = L_TypeScript"
| "from_language N_Yaml = L_Yaml"
| "from_language N_Zig = L_Zig"

primrec to_language :: "supported_language \<Rightarrow> native_language" where
  "to_language L_Ada = N_Plain"
| "to_language L_Asm = N_Plain"
| "to_language L_Astro = N_Astro"
| "to_language L_Bash = N_Bash"
| "to_language L_C = N_C"
| "to_language L_Clojure = N_Plain"
| "to_language L_CMake = N_CMake"
| "to_language L_CSharp = N_CSharp"
| "to_language L_Cpp = N_Cpp"
| "to_language L_Css = N_Css"
| "to_language L_Csv = N_Plain"
| "to_language L_D = N_Plain"
| "to_language L_Dart = N_Plain"
| "to_language L_Diff = N_Diff"
| "to_language L_Dockerfile = N_Plain"
| "to_language L_Ejs = N_Ejs"
| "to_language L_Elixir = N_Elixir"
| "to_language L_Erb = N_Erb"
| "to_language L_Erlang = N_Plain"
| "to_language L_Fortran = N_Plain"
| "to_language L_FSharp = N_Plain"
| "to_language L_Go = N_Go"
| "to_language L_GraphQl = N_GraphQL"
| "to_language L_Groovy = N_Plain"
| "to_language L_Haskell = N_Plain"
| "to_language L_Html = N_Html"
| "to_language L_Ini = N_Plain"
| "to_language L_Jinja2 = N_Plain"
| "to_language L_Java = N_Java"
| "to_language L_JavaScript = N_JavaScript"
| "to_language L_JsDoc = N_JsDoc"
| "to_language L_Json = N_Json"
| "to_language L_Julia = N_Plain"
| "to_language L_Kotlin = N_Kotlin"
| "to_language L_Lua = N_Lua"
| "to_language L_Make = N_Make"
| "to_language L_Markdown = N_Markdown"
| "to_language L_MarkdownInline = N_MarkdownInline"
| "to_language L_Matlab = N_Plain"
| "to_language L_ObjectiveC = N_Plain"
| "to_language L_Ocaml = N_Plain"
| "to_language L_Pascal = N_Plain"
| "to_language L_Perl = N_Plain"
| "to_language L_Php = N_Php"
| "to_language L_Plain = N_Plain"
| "to_language L_Powershell = N_Plain"
| "to_language L_Prolog = N_Plain"
| "to_language L_Proto = N_Proto"
| "to_language L_Python = N_Python"
| "to_language L_R = N_Plain"
| "to_language L_React = N_Plain"
| "to_language L_Ruby = N_Ruby"
| "to_language L_Rust = N_Rust"
| "to_language L_Scala = N_Scala"
| "to_language L_Scss = N_Plain"
| "to_language L_Sql = N_Sql"
| "to_language L_Svelte = N_Svelte"
| "to_language L_Svg = N_Html"
| "to_language L_Swift = N_Swift"
| "to_language L_Toml = N_Toml"
| "to_language L_TypeScript = N_TypeScript"
| "to_language L_Vue = N_Plain"
| "to_language L_Xml = N_Plain"
| "to_language L_Yaml = N_Yaml"
| "to_language L_Zig = N_Zig"

primrec pretty_name :: "supported_language \<Rightarrow> string" where
  "pretty_name L_Ada = ''Ada''"
| "pretty_name L_Asm = ''Assembly''"
| "pretty_name L_Astro = ''Astro''"
| "pretty_name L_Bash = ''Bash''"
| "pretty_name L_C = ''C''"
| "pretty_name L_Clojure = ''Clojure''"
| "pretty_name L_CMake = ''CMake''"
| "pretty_name L_CSharp = ''C#''"
| "pretty_name L_Cpp = ''C++''"
| "pretty_name L_Css = ''CSS''"
| "pretty_name L_Csv = ''CSV''"
| "pretty_name L_D = ''D''"
| "pretty_name L_Dart = ''Dart''"
| "pretty_name L_Diff = ''Diff''"
| "pretty_name L_Dockerfile = ''Dockerfile''"
| "pretty_name L_Ejs = ''EJS''"
| "pretty_name L_Elixir = ''Elixir''"
| "pretty_name L_Erb = ''ERB''"
| "pretty_name L_Erlang = ''Erlang''"
| "pretty_name L_Fortran = ''Fortran''"
| "pretty_name L_FSharp = ''F#''"
| "pretty_name L_Go = ''Go''"
| "pretty_name L_GraphQl = ''GraphQL''"
| "pretty_name L_Groovy = ''Groovy''"
| "pretty_name L_Haskell = ''Haskell''"
| "pretty_name L_Html = ''HTML''"
| "pretty_name L_Ini = ''INI''"
| "pretty_name L_Jinja2 = ''Jinja2''"
| "pretty_name L_Java = ''Java''"
| "pretty_name L_JavaScript = ''JavaScript''"
| "pretty_name L_JsDoc = ''JSDoc''"
| "pretty_name L_Json = ''JSON''"
| "pretty_name L_Julia = ''Julia''"
| "pretty_name L_Kotlin = ''Kotlin''"
| "pretty_name L_Lua = ''Lua''"
| "pretty_name L_Make = ''Make''"
| "pretty_name L_Markdown = ''Markdown''"
| "pretty_name L_MarkdownInline = ''Markdown Inline''"
| "pretty_name L_Matlab = ''MATLAB''"
| "pretty_name L_ObjectiveC = ''Objective-C''"
| "pretty_name L_Ocaml = ''OCaml''"
| "pretty_name L_Pascal = ''Pascal''"
| "pretty_name L_Perl = ''Perl''"
| "pretty_name L_Php = ''PHP''"
| "pretty_name L_Plain = ''Plain Text''"
| "pretty_name L_Powershell = ''PowerShell''"
| "pretty_name L_Prolog = ''Prolog''"
| "pretty_name L_Proto = ''Protocol Buffers''"
| "pretty_name L_Python = ''Python''"
| "pretty_name L_R = ''R''"
| "pretty_name L_React = ''React''"
| "pretty_name L_Ruby = ''Ruby''"
| "pretty_name L_Rust = ''Rust''"
| "pretty_name L_Scala = ''Scala''"
| "pretty_name L_Scss = ''SCSS''"
| "pretty_name L_Sql = ''SQL''"
| "pretty_name L_Svelte = ''Svelte''"
| "pretty_name L_Svg = ''SVG''"
| "pretty_name L_Swift = ''Swift''"
| "pretty_name L_Toml = ''TOML''"
| "pretty_name L_TypeScript = ''TypeScript''"
| "pretty_name L_Vue = ''Vue''"
| "pretty_name L_Xml = ''XML''"
| "pretty_name L_Yaml = ''YAML''"
| "pretty_name L_Zig = ''Zig''"

text \<open>The name a language is registered under; the ones the program does not register itself have the
  name the component gives them.\<close>

definition registry_names :: "(supported_language \<times> string) list" where
  "registry_names =
     [(L_Ada, ''ada''),
      (L_Asm, ''asm''),
      (L_Clojure, ''clojure''),
      (L_Erlang, ''erlang''),
      (L_Fortran, ''fortran''),
      (L_FSharp, ''fsharp''),
      (L_D, ''d''),
      (L_Dart, ''dart''),
      (L_Dockerfile, ''dockerfile''),
      (L_Groovy, ''groovy''),
      (L_Haskell, ''haskell''),
      (L_Ini, ''ini''),
      (L_Jinja2, ''jinja2''),
      (L_Julia, ''julia''),
      (L_Matlab, ''matlab''),
      (L_ObjectiveC, ''objective-c''),
      (L_Ocaml, ''ocaml''),
      (L_Pascal, ''pascal''),
      (L_Perl, ''perl''),
      (L_Powershell, ''powershell''),
      (L_Prolog, ''prolog''),
      (L_R, ''r''),
      (L_React, ''react''),
      (L_Scss, ''scss''),
      (L_Vue, ''vue''),
      (L_Xml, ''html'')]"

definition registry_override :: "supported_language \<Rightarrow> string option" where
  "registry_override l = map_of registry_names l"

definition language_registry_name :: "(native_language \<Rightarrow> rstr) \<Rightarrow> supported_language \<Rightarrow> rstr" where
  "language_registry_name nm l =
     (case registry_override l of Some s \<Rightarrow> lit s | None \<Rightarrow> nm (to_language l))"

section \<open>Detection\<close>

text \<open>\<open>to_lowercase\<close>, as far as the comparison with ASCII names can tell: of the other characters only
  the Kelvin sign has an ASCII lower case.\<close>

definition lower_for_ascii :: "rstr \<Rightarrow> rstr" where
  "lower_for_ascii s = map (\<lambda>c. if c = 8490 then 107 else ascii_lower c) s"

definition extension_or_empty :: "rstr \<Rightarrow> rstr" where
  "extension_or_empty f = (case path_extension f of Some e \<Rightarrow> e | None \<Rightarrow> [])"

text \<open>The names the second table of the source lists, in its order.\<close>

definition extension_table :: "(string list \<times> supported_language) list" where
  "extension_table =
     [([''ada'', ''ads'', ''adb''], L_Ada),
      ([''asm'', ''s'', ''S'', ''nasm'', ''masm''], L_Asm),
      ([''clojure'', ''clj'', ''cljs''], L_Clojure),
      ([''d'', ''di''], L_D),
      ([''dart''], L_Dart),
      ([''dockerfile''], L_Dockerfile),
      ([''erl'', ''hrl'', ''escript''], L_Erlang),
      ([''f'', ''f77'', ''f90'', ''f95'', ''f03'', ''f08'', ''for'', ''ftn'', ''pf''], L_Fortran),
      ([''fs'', ''fsi'', ''fsx'', ''fsscript''], L_FSharp),
      ([''hs'', ''lhs''], L_Haskell),
      ([''ini'', ''cfg'', ''conf'', ''config''], L_Ini),
      ([''jinja'', ''jinja2'', ''j2''], L_Jinja2),
      ([''jl''], L_Julia),
      ([''lock''], L_Toml),
      ([''groovy'', ''gvy'', ''gy'', ''gsh''], L_Groovy),
      ([''mjs''], L_JavaScript),
      ([''pas'', ''pp'', ''dpr'', ''dpk'', ''lpr''], L_Pascal),
      ([''perl'', ''pl'', ''pm'', ''plx''], L_Perl),
      ([''powershell'', ''ps1'', ''psm1'', ''psd1''], L_Powershell),
      ([''pro'', ''prolog''], L_Prolog),
      ([''m'', ''M'', ''mm''], L_ObjectiveC),
      ([''ml'', ''mli''], L_Ocaml),
      ([''r'', ''rmd''], L_R),
      ([''svg''], L_Html),
      ([''tsx'', ''jsx''], L_React),
      ([''vue''], L_Vue),
      ([''xml''], L_Xml)]"

fun table_lookup :: "(string list \<times> 'a) list \<Rightarrow> rstr \<Rightarrow> 'a option" where
  "table_lookup [] x = None"
| "table_lookup ((ks, v) # t) x = (if x \<in> set (map lit ks) then Some v else table_lookup t x)"

definition language_from_filename :: "(rstr \<Rightarrow> native_language) \<Rightarrow> rstr \<Rightarrow> supported_language" where
  "language_from_filename from_ext f =
     (let lower = lower_for_ascii f in
      if lower = lit ''dockerfile'' then L_Dockerfile
      else if lower \<in> {lit ''makefile'', lit ''gnumakefile''} then L_Make
      else if lower \<in> {lit ''gemfile'', lit ''rakefile'', lit ''guardfile'', lit ''podfile''} then L_Ruby
      else
        let extension = extension_or_empty f in
        if extension = lit ''txt'' then L_Plain
        else if extension = lit ''scss'' then L_Scss
        else if extension \<in> {lit ''csv'', lit ''tsv''} then L_Csv
        else
          let language = from_language (from_ext extension) in
          if language = L_Plain
          then (case table_lookup extension_table extension of Some l \<Rightarrow> l | None \<Rightarrow> L_Plain)
          else language)"

definition objc_prefixes :: "string list" where
  "objc_prefixes =
     [''#import'', ''#include'', ''@interface'', ''@implementation'', ''@protocol'', ''@property'',
      ''- ('', ''+ ('']"

fun detect_m_lines :: "rstr list \<Rightarrow> supported_language" where
  "detect_m_lines [] = L_ObjectiveC"
| "detect_m_lines (line # ls) =
     (let trimmed = trim line in
      if \<exists>p \<in> set objc_prefixes. starts_with (lit p) trimmed then L_ObjectiveC
      else if starts_with [37] trimmed \<or> starts_with (lit ''function '') trimmed
           \<or> trimmed = lit ''function'' \<or> starts_with (lit ''classdef '') trimmed
      then L_Matlab
      else detect_m_lines ls)"

definition detect_m_file_language :: "rstr \<Rightarrow> supported_language" where
  "detect_m_file_language content = detect_m_lines (take 50 (str_lines content))"

definition language_from_content :: "(rstr \<Rightarrow> native_language) \<Rightarrow> rstr \<Rightarrow> rstr \<Rightarrow> supported_language" where
  "language_from_content from_ext f content =
     (let base = language_from_filename from_ext f in
      if base = L_ObjectiveC \<and> extension_or_empty f = lit ''m''
      then detect_m_file_language content else base)"

section \<open>Properties\<close>

lemma pretty_names_distinct: "distinct (map pretty_name ALL_LANGUAGES)"
  by (simp add: ALL_LANGUAGES_def)

lemma in_ALL_LANGUAGES: "l \<in> set ALL_LANGUAGES"
  by (cases l) (simp_all add: ALL_LANGUAGES_def)

lemma detect_m_lines_range: "detect_m_lines ls \<in> {L_ObjectiveC, L_Matlab}"
  by (induction ls) (simp_all add: Let_def)

text \<open>Every language is in the list the pickers show, once, and no two share the name shown for
  them, so a name chosen there denotes one language.\<close>

theorem picker_names_unambiguous:
  "distinct ALL_LANGUAGES \<and> set ALL_LANGUAGES = UNIV
   \<and> (pretty_name a = pretty_name b \<longleftrightarrow> a = b)"
proof -
  have "inj_on pretty_name (set ALL_LANGUAGES)"
    using pretty_names_distinct by (simp only: distinct_map)
  then have "pretty_name a = pretty_name b \<longleftrightarrow> a = b"
    using in_ALL_LANGUAGES by (meson inj_onD)
  moreover have "distinct ALL_LANGUAGES" using pretty_names_distinct by (simp only: distinct_map)
  ultimately show ?thesis using in_ALL_LANGUAGES by blast
qed

text \<open>The language of a file is a function of its name alone, except for a file with extension m
  that the name makes Objective-C: its first lines decide between Objective-C and Matlab.\<close>

theorem content_only_decides_m_files:
  assumes "language_from_content from_ext f content \<noteq> language_from_filename from_ext f"
  shows "extension_or_empty f = lit ''m'' \<and> language_from_filename from_ext f = L_ObjectiveC
    \<and> language_from_content from_ext f content = L_Matlab"
  using assms detect_m_lines_range [of "take 50 (str_lines content)"]
  by (auto simp: language_from_content_def detect_m_file_language_def Let_def split: if_splits)

lemmas detect_defs = language_from_content_def language_from_filename_def detect_m_file_language_def
  lower_for_ascii_def ascii_lower_def extension_or_empty_def path_extension_def path_file_name_def
  path_components_def str_rfind_def extension_table_def str_lines_def strip_cr_def ends_with_def
  trim_def trim_start_def trim_end_def is_ws_def starts_with_def objc_prefixes_def

lemma content_only_decides_m_files_witness:
  "language_from_content (\<lambda>_. N_Plain) (lit ''a.m'') (lit ''%x'') = L_Matlab
   \<and> extension_or_empty (lit ''a.m'') = lit ''m''"
proof -
  have "language_from_content (\<lambda>_. N_Plain) (lit ''a.m'') (lit ''%x'') \<noteq> language_from_filename (\<lambda>_. N_Plain) (lit ''a.m'')"
    by (simp add: detect_defs)
  from content_only_decides_m_files [OF this] show ?thesis by simp
qed

lemma to_from_language: "l \<noteq> N_Tsx \<Longrightarrow> to_language (from_language l) = l"
  by (cases l) simp_all

end
