(* ===== verification/Csv.thy ===== *)
theory Csv
  imports Prelude
begin

text \<open>
  Comma-separated values: delimiter detection, parsing and writing (\<^verbatim>\<open>src/fulgur/files/csv_support.rs\<close>)
  and the operations of the table view (\<^verbatim>\<open>src/fulgur/ui/tabs/editor_tab/csv_table/\<close>), whose delegate is
  the record \<open>csv_delegate\<close>; the editor buffer it writes to is the field \<open>cd_content\<close>.

  The reader and the writer of the \<^verbatim>\<open>csv\<close> crate are parameters: the reader gives for a text the records
  it decodes, each a list of fields or an error; the writer gives the text of a list of records or an
  error. Column widths and other presentation are left out, only the titles of the columns are kept.
\<close>

section \<open>Parsing and writing\<close>

type_synonym record_row = "rstr list"
type_synonym csv_reader = "u8 \<Rightarrow> rstr \<Rightarrow> (rstr + record_row) list"
type_synonym csv_writer = "u8 \<Rightarrow> record_row list \<Rightarrow> rstr + rstr"

definition DEFAULT_DELIMITER :: u8 where "DEFAULT_DELIMITER = 44"

definition CANDIDATE_DELIMITERS :: "u8 list" where
  "CANDIDATE_DELIMITERS = [44, 59, 9]"

record csv_data =
  csv_headers :: record_row
  csv_rows :: "record_row list"

record csv_parse_outcome =
  co_data :: csv_data
  co_dropped :: nat

definition empty_csv :: csv_data where
  "empty_csv = \<lparr>csv_headers = [], csv_rows = []\<rparr>"

fun best_delimiter :: "u8 list \<Rightarrow> u8 \<Rightarrow> nat \<Rightarrow> u8 list \<Rightarrow> u8" where
  "best_delimiter line best best_count [] = best"
| "best_delimiter line best best_count (candidate # cs) =
     (let count = count_list line candidate in
      if count > best_count then best_delimiter line candidate count cs
      else best_delimiter line best best_count cs)"

definition detect_delimiter :: "rstr \<Rightarrow> u8" where
  "detect_delimiter text =
     (let first_line = (case List.find (\<lambda>l. trim l \<noteq> []) (str_lines text) of Some l \<Rightarrow> l | None \<Rightarrow> [])
      in best_delimiter (utf8 first_line) DEFAULT_DELIMITER 0 CANDIDATE_DELIMITERS)"

fun read_records :: "record_row list \<Rightarrow> nat \<Rightarrow> (rstr + record_row) list \<Rightarrow> record_row list \<times> nat" where
  "read_records records dropped [] = (records, dropped)"
| "read_records records dropped (Inr r # rs) = read_records (records @ [r]) dropped rs"
| "read_records records dropped (Inl e # rs) = read_records records (dropped + 1) rs"

definition resize_record :: "nat \<Rightarrow> record_row \<Rightarrow> record_row" where
  "resize_record width r = take width r @ replicate (width - length r) []"

definition parse_csv :: "csv_reader \<Rightarrow> rstr \<Rightarrow> u8 \<Rightarrow> csv_parse_outcome" where
  "parse_csv reader text delimiter =
     (let (records, dropped) = read_records [] 0 (reader delimiter text) in
      if records = [] then \<lparr>co_data = empty_csv, co_dropped = dropped\<rparr>
      else
        let width = Max (set (map length records));
            resized = map (resize_record width) records
        in \<lparr>co_data = \<lparr>csv_headers = hd resized, csv_rows = tl resized\<rparr>, co_dropped = dropped\<rparr>)"

definition serialize_csv :: "csv_writer \<Rightarrow> csv_data \<Rightarrow> u8 \<Rightarrow> rstr + rstr" where
  "serialize_csv writer t delimiter = writer delimiter (csv_headers t # csv_rows t)"

section \<open>Operations on the table\<close>

datatype edit_target = Header nat | Cell nat nat

datatype csv_selection = SelCell nat nat | SelColumn nat | SelRow nat

definition value_at_in :: "csv_data \<Rightarrow> edit_target \<Rightarrow> rstr" where
  "value_at_in t target =
     (case target of
        Header col \<Rightarrow> (case nth_opt (csv_headers t) col of Some v \<Rightarrow> v | None \<Rightarrow> [])
      | Cell row col \<Rightarrow>
          (case nth_opt (csv_rows t) row of
             None \<Rightarrow> []
           | Some cells \<Rightarrow> (case nth_opt cells col of Some v \<Rightarrow> v | None \<Rightarrow> [])))"

text \<open>\<open>get_mut\<close> with an assignment: a list update, which out of range changes nothing.\<close>

definition apply_edit_in :: "edit_target \<Rightarrow> rstr \<Rightarrow> csv_data \<Rightarrow> csv_data" where
  "apply_edit_in target v t =
     (case target of
        Header col \<Rightarrow> t\<lparr>csv_headers := (csv_headers t)[col := v]\<rparr>
      | Cell row col \<Rightarrow>
          (case nth_opt (csv_rows t) row of
             None \<Rightarrow> t
           | Some cells \<Rightarrow> t\<lparr>csv_rows := (csv_rows t)[row := cells[col := v]]\<rparr>))"

definition insert_column_at_in :: "nat \<Rightarrow> csv_data \<Rightarrow> csv_data" where
  "insert_column_at_in i t =
     (let index = min i (length (csv_headers t)) in
      \<lparr>csv_headers = list_insert index [] (csv_headers t),
       csv_rows = map (\<lambda>row. list_insert (min index (length row)) [] row) (csv_rows t)\<rparr>)"

definition insert_column_before_in :: "nat option \<Rightarrow> csv_data \<Rightarrow> csv_data" where
  "insert_column_before_in selected t =
     insert_column_at_in (case selected of Some c \<Rightarrow> c | None \<Rightarrow> length (csv_headers t)) t"

definition insert_column_after_in :: "nat option \<Rightarrow> csv_data \<Rightarrow> csv_data" where
  "insert_column_after_in selected t =
     insert_column_at_in (case selected of Some c \<Rightarrow> c + 1 | None \<Rightarrow> length (csv_headers t)) t"

definition delete_column_in :: "nat option \<Rightarrow> csv_data \<Rightarrow> csv_data option" where
  "delete_column_in selected t =
     (if csv_headers t = [] then None
      else
        let lst = length (csv_headers t) - 1;
            index = min (case selected of Some c \<Rightarrow> c | None \<Rightarrow> lst) lst
        in Some \<lparr>csv_headers = list_remove index (csv_headers t),
                 csv_rows = map (\<lambda>row. if index < length row then list_remove index row else row) (csv_rows t)\<rparr>)"

definition move_item :: "nat \<Rightarrow> nat \<Rightarrow> 'a list \<Rightarrow> 'a list" where
  "move_item from to xs =
     (let rest = list_remove from xs in list_insert (min to (length rest)) (xs ! from) rest)"

definition move_column_in :: "nat \<Rightarrow> nat \<Rightarrow> csv_data \<Rightarrow> csv_data option" where
  "move_column_in col_ix to_ix t =
     (if col_ix = 0 then None
      else
        let from_data = col_ix - 1 in
        if from_data \<ge> length (csv_headers t) then None
        else
          let to_data = min (to_ix - 1) (length (csv_headers t) - 1) in
          if from_data = to_data then None
          else Some
            \<lparr>csv_headers = list_insert to_data (csv_headers t ! from_data) (list_remove from_data (csv_headers t)),
             csv_rows = map (\<lambda>row. if from_data < length row then move_item from_data to_data row else row)
                          (csv_rows t)\<rparr>)"

definition insert_row_at_in :: "nat \<Rightarrow> csv_data \<Rightarrow> csv_data" where
  "insert_row_at_in i t =
     (let index = min i (length (csv_rows t)) in
      t\<lparr>csv_rows := list_insert index (replicate (length (csv_headers t)) []) (csv_rows t)\<rparr>)"

definition insert_row_above_in :: "nat option \<Rightarrow> csv_data \<Rightarrow> csv_data" where
  "insert_row_above_in selected t =
     insert_row_at_in (case selected of Some r \<Rightarrow> r | None \<Rightarrow> length (csv_rows t)) t"

definition insert_row_below_in :: "nat option \<Rightarrow> csv_data \<Rightarrow> csv_data" where
  "insert_row_below_in selected t =
     insert_row_at_in (case selected of Some r \<Rightarrow> r + 1 | None \<Rightarrow> length (csv_rows t)) t"

definition delete_row_in :: "nat option \<Rightarrow> csv_data \<Rightarrow> csv_data option" where
  "delete_row_in selected t =
     (if csv_rows t = [] then None
      else
        let lst = length (csv_rows t) - 1;
            index = min (case selected of Some r \<Rightarrow> r | None \<Rightarrow> lst) lst
        in Some (t\<lparr>csv_rows := list_remove index (csv_rows t)\<rparr>))"

section \<open>The table view\<close>

record csv_delegate =
  cd_table :: csv_data
  cd_columns :: "rstr list"
  cd_delimiter :: u8
  cd_content :: rstr
  cd_last_selection :: "csv_selection option"
  cd_last_commit_hash :: "u64 option"

text \<open>The titles of the columns: an untitled one for the row numbers, then the headers.\<close>

definition compute_columns :: "csv_data \<Rightarrow> rstr list" where
  "compute_columns t = [] # csv_headers t"

definition new_delegate :: "csv_data \<Rightarrow> u8 \<Rightarrow> rstr \<Rightarrow> csv_delegate" where
  "new_delegate data delimiter content =
     \<lparr>cd_table = data, cd_columns = compute_columns data, cd_delimiter = delimiter,
      cd_content = content, cd_last_selection = None, cd_last_commit_hash = None\<rparr>"

definition refresh_columns :: "csv_delegate \<Rightarrow> csv_delegate" where
  "refresh_columns d = d\<lparr>cd_columns := compute_columns (cd_table d)\<rparr>"

datatype table_event = SelectCell nat nat | SelectColumn nat | SelectRow nat | ClearSelection | OtherEvent

definition track_selection :: "table_event \<Rightarrow> csv_delegate \<Rightarrow> csv_delegate" where
  "track_selection ev d =
     (case ev of
        SelectCell r c \<Rightarrow> d\<lparr>cd_last_selection := Some (SelCell r c)\<rparr>
      | SelectColumn c \<Rightarrow> d\<lparr>cd_last_selection := Some (SelColumn c)\<rparr>
      | SelectRow r \<Rightarrow> d\<lparr>cd_last_selection := Some (SelRow r)\<rparr>
      | ClearSelection \<Rightarrow> d\<lparr>cd_last_selection := None\<rparr>
      | OtherEvent \<Rightarrow> d)"

fun selected_row_of :: "csv_selection option \<Rightarrow> nat option" where
  "selected_row_of (Some (SelCell row col)) = Some row"
| "selected_row_of (Some (SelRow row)) = Some row"
| "selected_row_of (Some (SelColumn col)) = None"
| "selected_row_of None = None"

definition checked_pred :: "nat \<Rightarrow> nat option" where
  "checked_pred n = (if n = 0 then None else Some (n - 1))"

fun selected_data_column_of :: "csv_selection option \<Rightarrow> nat option" where
  "selected_data_column_of (Some (SelCell row col)) = checked_pred col"
| "selected_data_column_of (Some (SelColumn col)) = checked_pred col"
| "selected_data_column_of (Some (SelRow row)) = None"
| "selected_data_column_of None = None"

text \<open>Writing the table to the buffer; \<open>fp\<close> is the fingerprint of a text. A table that cannot be written
  leaves the buffer as it was.\<close>

definition commit_to_buffer :: "csv_writer \<Rightarrow> (rstr \<Rightarrow> u64) \<Rightarrow> csv_delegate \<Rightarrow> csv_delegate" where
  "commit_to_buffer writer fp d =
     (case serialize_csv writer (cd_table d) (cd_delimiter d) of
        Inl e \<Rightarrow> d
      | Inr text \<Rightarrow> d\<lparr>cd_last_commit_hash := Some (fp text), cd_content := text\<rparr>)"

definition commit_and_refresh :: "csv_writer \<Rightarrow> (rstr \<Rightarrow> u64) \<Rightarrow> csv_delegate \<Rightarrow> csv_delegate" where
  "commit_and_refresh writer fp d = commit_to_buffer writer fp (refresh_columns d)"

datatype csv_command =
    EditValue edit_target rstr
  | InsertColumnBefore
  | InsertColumnAfter
  | DeleteColumn
  | MoveColumn nat nat
  | InsertRowAbove
  | InsertRowBelow
  | DeleteRow

text \<open>What each command of the view does to the table; \<open>None\<close> when it does nothing.\<close>

definition table_command :: "csv_command \<Rightarrow> csv_selection option \<Rightarrow> csv_data \<Rightarrow> csv_data option" where
  "table_command c sel t =
     (case c of
        EditValue target v \<Rightarrow> Some (apply_edit_in target v t)
      | InsertColumnBefore \<Rightarrow> Some (insert_column_before_in (selected_data_column_of sel) t)
      | InsertColumnAfter \<Rightarrow> Some (insert_column_after_in (selected_data_column_of sel) t)
      | DeleteColumn \<Rightarrow> delete_column_in (selected_data_column_of sel) t
      | MoveColumn col_ix to_ix \<Rightarrow> move_column_in col_ix to_ix t
      | InsertRowAbove \<Rightarrow> Some (insert_row_above_in (selected_row_of sel) t)
      | InsertRowBelow \<Rightarrow> Some (insert_row_below_in (selected_row_of sel) t)
      | DeleteRow \<Rightarrow> delete_row_in (selected_row_of sel) t)"

definition csv_step :: "csv_writer \<Rightarrow> (rstr \<Rightarrow> u64) \<Rightarrow> csv_command \<Rightarrow> csv_delegate \<Rightarrow> csv_delegate" where
  "csv_step writer fp c d =
     (case table_command c (cd_last_selection d) (cd_table d) of
        None \<Rightarrow> d
      | Some t \<Rightarrow> commit_and_refresh writer fp (d\<lparr>cd_table := t\<rparr>))"

section \<open>Rectangular tables\<close>

definition csv_wf :: "csv_data \<Rightarrow> bool" where
  "csv_wf t \<longleftrightarrow> (\<forall>r \<in> set (csv_rows t). length r = length (csv_headers t))"

definition delegate_wf :: "csv_delegate \<Rightarrow> bool" where
  "delegate_wf d \<longleftrightarrow> csv_wf (cd_table d) \<and> cd_columns d = compute_columns (cd_table d)"

text \<open>The contract of an operation of the view: it keeps the table rectangular. The view then keeps the
  column titles and the table in step.\<close>

locale csv_operation =
  fixes f :: "csv_data \<Rightarrow> csv_data option"
  assumes keeps_wf: "csv_wf t \<Longrightarrow> f t = Some t' \<Longrightarrow> csv_wf t'"
begin

definition run :: "csv_writer \<Rightarrow> (rstr \<Rightarrow> u64) \<Rightarrow> csv_delegate \<Rightarrow> csv_delegate" where
  "run writer fp d =
     (case f (cd_table d) of None \<Rightarrow> d | Some t \<Rightarrow> commit_and_refresh writer fp (d\<lparr>cd_table := t\<rparr>))"

lemma run_wf: "delegate_wf d \<Longrightarrow> delegate_wf (run writer fp d)"
  using keeps_wf [of "cd_table d"]
  by (auto simp: run_def delegate_wf_def commit_and_refresh_def commit_to_buffer_def refresh_columns_def
      split: option.splits sum.splits)

lemma run_table:
  "cd_table (run writer fp d) = (case f (cd_table d) of None \<Rightarrow> cd_table d | Some t \<Rightarrow> t)"
  by (auto simp: run_def commit_and_refresh_def commit_to_buffer_def refresh_columns_def
      split: option.splits sum.splits)

end

lemma apply_edit_wf: "csv_wf t \<Longrightarrow> csv_wf (apply_edit_in target v t)"
  by (cases target) (auto simp: apply_edit_in_def csv_wf_def nth_opt_Some split: option.splits
      dest!: set_update_subset_insert [THEN subsetD])

lemma insert_column_wf: "csv_wf t \<Longrightarrow> csv_wf (insert_column_at_in i t)"
  by (auto simp: insert_column_at_in_def csv_wf_def Let_def)

lemma insert_row_wf: "csv_wf t \<Longrightarrow> csv_wf (insert_row_at_in i t)"
  by (auto simp: insert_row_at_in_def csv_wf_def Let_def)

lemma delete_column_wf: "csv_wf t \<Longrightarrow> delete_column_in sel t = Some t' \<Longrightarrow> csv_wf t'"
proof -
  assume wf: "csv_wf t" and d: "delete_column_in sel t = Some t'"
  define i where "i = min (case sel of Some c \<Rightarrow> c | None \<Rightarrow> length (csv_headers t) - 1) (length (csv_headers t) - 1)"
  have "csv_headers t \<noteq> []" using d by (auto simp: delete_column_in_def)
  then have "i < length (csv_headers t)" by (cases "csv_headers t") (auto simp: i_def)
  moreover have "t' = \<lparr>csv_headers = list_remove i (csv_headers t),
      csv_rows = map (\<lambda>row. if i < length row then list_remove i row else row) (csv_rows t)\<rparr>"
    using d by (cases sel) (auto simp: delete_column_in_def i_def Let_def split: if_splits)
  ultimately show ?thesis using wf by (auto simp: csv_wf_def length_list_remove)
qed

lemma delete_row_wf: "csv_wf t \<Longrightarrow> delete_row_in sel t = Some t' \<Longrightarrow> csv_wf t'"
  using set_list_remove_subset by (fastforce simp: delete_row_in_def csv_wf_def Let_def split: if_splits)

lemma length_move_item: "from < length xs \<Longrightarrow> length (move_item from to xs) = length xs"
  by (simp add: move_item_def Let_def length_list_remove)

lemma move_column_wf: "csv_wf t \<Longrightarrow> move_column_in a b t = Some t' \<Longrightarrow> csv_wf t'"
  by (auto simp: move_column_in_def csv_wf_def Let_def length_list_remove length_move_item split: if_splits)

interpretation csvop: csv_operation "table_command c sel" for c sel
proof
  fix t t'
  assume "csv_wf t" "table_command c sel t = Some t'"
  then show "csv_wf t'"
    by (cases c)
      (fastforce simp: table_command_def insert_column_before_in_def insert_column_after_in_def
        insert_row_above_in_def insert_row_below_in_def
        intro: apply_edit_wf insert_column_wf insert_row_wf delete_column_wf delete_row_wf move_column_wf)+
qed

lemma csv_step_run: "csv_step writer fp c d = csvop.run c (cd_last_selection d) writer fp d"
  by (simp add: csv_step_def csvop.run_def)

lemma track_selection_wf: "delegate_wf d \<Longrightarrow> delegate_wf (track_selection ev d)"
  by (cases ev) (simp_all add: track_selection_def delegate_wf_def)

section \<open>Parsing\<close>

lemma length_resize [simp]: "length (resize_record w r) = w"
  by (simp add: resize_record_def)

lemma resize_same: "length r = w \<Longrightarrow> resize_record w r = r"
  by (simp add: resize_record_def)

lemma parse_csv_wf: "csv_wf (co_data (parse_csv reader text d))"
  by (auto simp: parse_csv_def Let_def csv_wf_def empty_csv_def split: prod.splits list.splits
      dest!: list.set_sel(2) [rotated]) (auto simp: hd_map)

lemma read_records_Inr: "read_records acc n (map Inr recs) = (acc @ recs, n)"
  by (induction recs arbitrary: acc) auto

lemma parse_csv_rectangular:
  assumes "reader d text = map Inr (csv_headers t # csv_rows t)" and "csv_wf t"
  shows "parse_csv reader text d = \<lparr>co_data = t, co_dropped = 0\<rparr>"
proof -
  let ?recs = "csv_headers t # csv_rows t"
  have len: "\<forall>r \<in> set ?recs. length r = length (csv_headers t)" using assms(2) by (simp add: csv_wf_def)
  have "map length ?recs = replicate (length ?recs) (length (csv_headers t))"
    using len by (intro replicate_eqI) auto
  then have "Max (set (map length ?recs)) = length (csv_headers t)"
    by (simp only: set_replicate) (simp add: set_replicate_conv_if)
  moreover have "map (resize_record (length (csv_headers t))) ?recs = ?recs"
    using len by (intro map_idI resize_same) blast
  ultimately show ?thesis
    using assms(1) read_records_Inr [of "[]" 0 ?recs] by (simp only: parse_csv_def Let_def) simp
qed

lemma best_delimiter_max:
  assumes "count_list line best = n"
  shows "count_list line (best_delimiter line best n cs) \<ge> n
    \<and> (\<forall>c \<in> set cs. count_list line c \<le> count_list line (best_delimiter line best n cs))
    \<and> best_delimiter line best n cs \<in> insert best (set cs)"
  using assms
proof (induction cs arbitrary: best n)
  case (Cons c cs)
  show ?case
  proof (cases "count_list line c > n")
    case True
    then show ?thesis using Cons.IH [of c "count_list line c"] by (auto simp: Let_def)
  next
    case False
    then show ?thesis using Cons.IH [of best n] Cons.prems by (auto simp: Let_def)
  qed
qed simp

section \<open>Properties\<close>

lemma csv_step_wf: "delegate_wf d \<Longrightarrow> delegate_wf (csv_step writer fp c d)"
  unfolding csv_step_run by (rule csvop.run_wf)

lemma csv_steps_wf: "delegate_wf d \<Longrightarrow> delegate_wf (fold (\<lambda>(ev, c). csv_step writer fp c \<circ> track_selection ev) cs d)"
  by (induction cs arbitrary: d) (simp_all add: csv_step_wf track_selection_wf split_beta)

text \<open>A table opened from any text and changed by any commands, whatever is selected in between, is
  rectangular, and the view has one titled column for each header besides the row numbers.\<close>

theorem csv_view_stays_rectangular:
  "delegate_wf (fold (\<lambda>(ev, c). csv_step writer fp c \<circ> track_selection ev) cs
     (new_delegate (co_data (parse_csv reader text delimiter)) delimiter text))"
  by (intro csv_steps_wf) (simp add: delegate_wf_def new_delegate_def parse_csv_wf)



text \<open>The delimiter detected for a text is one of the three candidates and no candidate occurs more
  often in the first line that is not blank.\<close>

theorem detected_delimiter_is_most_frequent:
  "detect_delimiter text \<in> set CANDIDATE_DELIMITERS
   \<and> (\<forall>first. List.find (\<lambda>l. trim l \<noteq> []) (str_lines text) = Some first \<longrightarrow>
        (\<forall>c \<in> set CANDIDATE_DELIMITERS.
           count_list (utf8 first) c \<le> count_list (utf8 first) (detect_delimiter text)))"
proof -
  let ?line = "utf8 (case List.find (\<lambda>l. trim l \<noteq> []) (str_lines text) of Some l \<Rightarrow> l | None \<Rightarrow> [])"
  have "detect_delimiter text = best_delimiter ?line 44 (count_list ?line 44) [59, 9]"
    by (simp add: detect_delimiter_def DEFAULT_DELIMITER_def CANDIDATE_DELIMITERS_def Let_def)
  then show ?thesis
    using best_delimiter_max [of ?line 44 "count_list ?line 44" "[59, 9]"]
    by (auto simp: CANDIDATE_DELIMITERS_def simp del: best_delimiter.simps)
qed

lemma detected_delimiter_is_most_frequent_witness: "detect_delimiter (lit ''a;b;c,d'') = 59"
proof -
  have f: "List.find (\<lambda>l. trim l \<noteq> []) (str_lines (lit ''a;b;c,d'')) = Some (lit ''a;b;c,d'')"
    by (simp add: str_lines_def strip_cr_def ends_with_def trim_def trim_start_def trim_end_def is_ws_def)
  note detected_delimiter_is_most_frequent [of "lit ''a;b;c,d''"]
  then have m: "detect_delimiter (lit ''a;b;c,d'') \<in> {44, 59, 9}"
    and "count_list (utf8 (lit ''a;b;c,d'')) 59 \<le> count_list (utf8 (lit ''a;b;c,d'')) (detect_delimiter (lit ''a;b;c,d''))"
    using f by (auto simp: CANDIDATE_DELIMITERS_def)
  moreover have "count_list (utf8 (lit ''a;b;c,d'')) 59 = 2" "count_list (utf8 (lit ''a;b;c,d'')) 44 = 1"
    "count_list (utf8 (lit ''a;b;c,d'')) 9 = 0"
    by (simp_all add: utf8_char_def)
  ultimately show ?thesis by auto
qed

end
