(* ===== verification/Remote_Url.thy ===== *)
theory Remote_Url
  imports Prelude
begin

text \<open>
  Remote file locations: \<^verbatim>\<open>src/fulgur/sync/ssh/url.rs\<close> (parsing a user-supplied URL or
  scp-style string, formatting the canonical URL), the error type of
  \<^verbatim>\<open>src/fulgur/sync/ssh/error.rs\<close>, and the persisted form of a location,
  \<^verbatim>\<open>SerializedRemoteSpec\<close> of \<^verbatim>\<open>src/fulgur/state/persistence/tabs.rs\<close>.

  A byte index the code takes from \<open>find\<close> or \<open>rfind\<close> of an ASCII character and uses to slice the
  same string is an index into the characters here. \<open>Zeroizing<String>\<close> is the string it wraps.
\<close>

section \<open>Types\<close>

datatype ssh_error =
    ParseError rstr
  | ConnectionFailed rstr
  | HostKeyMismatch rstr u16
  | UnknownHost rstr u16 rstr
  | AuthFailed
  | SftpError rstr
  | IoError rstr

record remote_spec =
  rs_host :: rstr
  rs_port :: u16
  rs_user :: "rstr option"
  rs_path :: rstr
  rs_password :: "rstr option"

definition REMOTE_ROOT_PATH :: rstr where
  "REMOTE_ROOT_PATH = [47]"

text \<open>The characters the parsers look for.\<close>

abbreviation (input) SLASH :: uchar where "SLASH \<equiv> 47"
abbreviation (input) COLON :: uchar where "COLON \<equiv> 58"
abbreviation (input) AT :: uchar where "AT \<equiv> 64"
abbreviation (input) LBRACKET :: uchar where "LBRACKET \<equiv> 91"
abbreviation (input) RBRACKET :: uchar where "RBRACKET \<equiv> 93"
abbreviation (input) TILDE :: uchar where "TILDE \<equiv> 126"

definition u16_max :: nat where "u16_max = 65535"

definition show_port :: "u16 \<Rightarrow> rstr" where
  "show_port p = show_nat (unat p)"

definition parse_port :: "rstr \<Rightarrow> u16 option" where
  "parse_port s = map_option of_nat (parse_uint u16_max s)"

section \<open>Formatting\<close>

definition format_path_for_url :: "rstr \<Rightarrow> rstr" where
  "format_path_for_url p =
     (case strip_prefix [TILDE, SLASH] p of
        Some relative \<Rightarrow> [SLASH, TILDE, SLASH] @ relative
      | None \<Rightarrow>
          if p = [TILDE] then [SLASH, TILDE]
          else if starts_with [SLASH] p then p
          else SLASH # p)"

definition format_host_for_url :: "rstr \<Rightarrow> rstr" where
  "format_host_for_url h =
     (if COLON \<in> set h \<and> \<not> starts_with [LBRACKET] h \<and> \<not> ends_with [RBRACKET] h
      then LBRACKET # h @ [RBRACKET] else h)"

definition format_remote_url :: "remote_spec \<Rightarrow> rstr" where
  "format_remote_url spec =
     (let h = format_host_for_url (rs_host spec);
          authority =
            (case rs_user spec of
               Some u \<Rightarrow> if u \<noteq> [] then u @ [AT] @ h @ [COLON] @ show_port (rs_port spec)
                         else h @ [COLON] @ show_port (rs_port spec)
             | None \<Rightarrow> h @ [COLON] @ show_port (rs_port spec))
      in lit ''ssh://'' @ authority @ format_path_for_url (rs_path spec))"

section \<open>Parsing\<close>

definition normalize_url_style_path :: "rstr \<Rightarrow> rstr" where
  "normalize_url_style_path p =
     (if p = [SLASH, TILDE] then [TILDE]
      else (case strip_prefix [SLASH, TILDE, SLASH] p of
              Some relative \<Rightarrow> [TILDE, SLASH] @ relative
            | None \<Rightarrow> p))"

definition parse_hostport :: "rstr \<Rightarrow> ssh_error + (rstr \<times> u16)" where
  "parse_hostport hp =
     (if hp = [] then Inl (ParseError (lit ''Host must not be empty''))
      else if starts_with [LBRACKET] hp then
        (case str_find (\<lambda>c. c = RBRACKET) hp of
           None \<Rightarrow> Inl (ParseError (lit ''Unclosed '' @ [39, LBRACKET, 39] @ lit '' in IPv6 address''))
         | Some close \<Rightarrow>
             let h = drop 1 (take close hp); rest = drop (close + 1) hp in
             if h = [] then Inl (ParseError (lit ''Host must not be empty''))
             else if rest = [] then Inr (h, 22)
             else (case strip_prefix [COLON] rest of
                     Some p \<Rightarrow>
                       if p = [] then Inl (ParseError (lit ''Port must not be empty''))
                       else (case parse_port p of
                               None \<Rightarrow> Inl (ParseError (lit ''Invalid port: '' @ p))
                             | Some n \<Rightarrow> Inr (h, n))
                   | None \<Rightarrow> Inl (ParseError (lit ''Invalid IPv6 host suffix: '' @ rest))))
      else
        (case str_rfind (\<lambda>c. c = COLON) hp of
           None \<Rightarrow> Inr (hp, 22)
         | Some idx \<Rightarrow>
             let h = take idx hp; port_str = drop (idx + 1) hp in
             if h = [] then Inl (ParseError (lit ''Host must not be empty''))
             else (case parse_port port_str of
                     None \<Rightarrow> Inl (ParseError (lit ''Invalid port: '' @ port_str))
                   | Some n \<Rightarrow> Inr (h, n))))"

definition parse_url_style :: "rstr \<Rightarrow> ssh_error + remote_spec" where
  "parse_url_style rest =
     (let (authority, p) =
            (case str_find (\<lambda>c. c = SLASH) rest of
               Some i \<Rightarrow> (take i rest, normalize_url_style_path (drop i rest))
             | None \<Rightarrow> (rest, REMOTE_ROOT_PATH))
      in if authority = [] then Inl (ParseError (lit ''Host must not be empty''))
         else
           let (userinfo, hostport) =
                 (case str_rfind (\<lambda>c. c = AT) authority of
                    Some i \<Rightarrow> (Some (take i authority), drop (i + 1) authority)
                  | None \<Rightarrow> (None, authority))
           in rbind (parse_hostport hostport) (\<lambda>(h, n).
                let (u, pw) =
                      (case userinfo of
                         None \<Rightarrow> (None, None)
                       | Some ui \<Rightarrow>
                           (case str_find (\<lambda>c. c = COLON) ui of
                              None \<Rightarrow> (Some ui, None)
                            | Some i \<Rightarrow> (Some (take i ui), Some (drop (i + 1) ui))))
                in Inr \<lparr>rs_host = h, rs_port = n, rs_user = u, rs_path = p, rs_password = pw\<rparr>))"

text \<open>The loop over \<open>char_indices\<close> with its flag \<open>in_brackets\<close>.\<close>

fun find_scp_sep :: "bool \<Rightarrow> rstr \<Rightarrow> nat option" where
  "find_scp_sep in_brackets [] = None"
| "find_scp_sep in_brackets (c # cs) =
     (if c = LBRACKET then map_option Suc (find_scp_sep True cs)
      else if c = RBRACKET then map_option Suc (find_scp_sep False cs)
      else if c = COLON \<and> \<not> in_brackets then Some 0
      else map_option Suc (find_scp_sep in_brackets cs))"

definition find_scp_path_separator :: "rstr \<Rightarrow> nat option" where
  "find_scp_path_separator s = find_scp_sep False s"

definition parse_scp_style :: "rstr \<Rightarrow> ssh_error + remote_spec" where
  "parse_scp_style input =
     (let (authority, p) =
            (case find_scp_path_separator input of
               Some i \<Rightarrow>
                 (let authority = take i input; raw_path = drop (i + 1) input in
                  if raw_path = [] then (authority, REMOTE_ROOT_PATH)
                  else if starts_with REMOTE_ROOT_PATH raw_path then (authority, raw_path)
                  else (authority, [TILDE, SLASH] @ raw_path))
             | None \<Rightarrow> (input, REMOTE_ROOT_PATH));
          (u, host_str) =
            (case str_find (\<lambda>c. c = AT) authority of
               Some i \<Rightarrow> (Some (take i authority), drop (i + 1) authority)
             | None \<Rightarrow> (None, authority))
      in rbind (parse_hostport host_str) (\<lambda>(h, n).
           Inr \<lparr>rs_host = h, rs_port = n, rs_user = u, rs_path = p, rs_password = None\<rparr>))"

definition parse_remote_url :: "rstr \<Rightarrow> ssh_error + remote_spec" where
  "parse_remote_url raw =
     (let input = trim raw in
      if input = [] then Inl (ParseError (lit ''URL must not be empty''))
      else (case strip_prefix (lit ''ssh://'') input of
              Some rest \<Rightarrow> parse_url_style rest
            | None \<Rightarrow> (case strip_prefix (lit ''sftp://'') input of
                         Some rest \<Rightarrow> parse_url_style rest
                       | None \<Rightarrow> parse_scp_style input)))"

section \<open>Persisted locations\<close>

record serialized_remote_spec =
  s_host :: rstr
  s_port :: u16
  s_user :: rstr
  s_path :: rstr

definition from_remote_spec :: "remote_spec \<Rightarrow> serialized_remote_spec" where
  "from_remote_spec spec =
     \<lparr>s_host = rs_host spec, s_port = rs_port spec,
      s_user = (case rs_user spec of None \<Rightarrow> [] | Some u \<Rightarrow> u), s_path = rs_path spec\<rparr>"

definition to_remote_spec :: "serialized_remote_spec \<Rightarrow> remote_spec" where
  "to_remote_spec s =
     \<lparr>rs_host = s_host s, rs_port = s_port s,
      rs_user = (if trim (s_user s) \<noteq> [] then Some (s_user s) else None),
      rs_path = s_path s, rs_password = None\<rparr>"

section \<open>Ports\<close>

lemma parse_port_show [simp]: "parse_port (show_port p) = Some p"
proof -
  have "unat p < 2 ^ LENGTH(16)" by (rule unsigned_less)
  then have "unat p \<le> u16_max" by (simp add: u16_max_def)
  then show ?thesis by (simp add: parse_port_def show_port_def parse_uint_show)
qed

lemma show_port_not_Nil [simp]: "show_port p \<noteq> []"
  by (simp add: show_port_def)

lemma show_port_digits: "c \<in> set (show_port p) \<Longrightarrow> 48 \<le> c \<and> c \<le> 57"
  unfolding show_port_def using show_nat_digits by (auto simp: is_ascii_digit_def)

lemma show_port_no [simp]:
  "COLON \<notin> set (show_port p)" "SLASH \<notin> set (show_port p)" "AT \<notin> set (show_port p)"
  using show_port_digits by fastforce+

section \<open>Hosts and authorities\<close>

text \<open>The hosts that survive formatting: no separator of the URL grammar and no bracket.\<close>

definition host_ok :: "rstr \<Rightarrow> bool" where
  "host_ok h \<longleftrightarrow> h \<noteq> [] \<and> SLASH \<notin> set h \<and> AT \<notin> set h \<and> LBRACKET \<notin> set h \<and> RBRACKET \<notin> set h"

definition user_ok :: "rstr option \<Rightarrow> bool" where
  "user_ok u \<longleftrightarrow> (case u of None \<Rightarrow> True | Some x \<Rightarrow> x \<noteq> [] \<and> SLASH \<notin> set x \<and> COLON \<notin> set x)"

text \<open>Absolute paths outside the encoding of the home directory, and home-relative paths.\<close>

definition path_ok :: "rstr \<Rightarrow> bool" where
  "path_ok p \<longleftrightarrow>
     p = [TILDE] \<or> starts_with [TILDE, SLASH] p
     \<or> (starts_with [SLASH] p \<and> p \<noteq> [SLASH, TILDE] \<and> \<not> starts_with [SLASH, TILDE, SLASH] p)"

lemma parse_hostport_format:
  assumes "host_ok h"
  shows "parse_hostport (format_host_for_url h @ [COLON] @ show_port n) = Inr (h, n)"
proof (cases "COLON \<in> set h")
  case True
  have lb: "\<not> starts_with [LBRACKET] h" and rb: "\<not> ends_with [RBRACKET] h"
    using assms by (auto simp: host_ok_def starts_with_iff ends_with_def dest: arg_cong [of _ _ set] in_set_dropD)
      (metis in_set_dropD list.set_intros(1))
  have "str_find (\<lambda>c. c = RBRACKET) ((LBRACKET # h) @ RBRACKET # COLON # show_port n)
      = Some (length (LBRACKET # h))"
    using assms by (intro str_find_at) (auto simp: host_ok_def)
  then show ?thesis
    using True lb rb assms
    by (simp add: format_host_for_url_def parse_hostport_def starts_with_def strip_prefix_def host_ok_def)
next
  case False
  have "str_rfind (\<lambda>c. c = COLON) (h @ COLON # show_port n) = Some (length h)"
    by (intro str_rfind_at) (auto dest: show_port_digits)
  moreover have "\<not> starts_with [LBRACKET] (h @ COLON # show_port n)"
    using assms by (cases h) (auto simp: host_ok_def starts_with_def)
  ultimately show ?thesis
    using False assms by (simp add: format_host_for_url_def parse_hostport_def host_ok_def)
qed

lemma format_host_chars:
  "host_ok h \<Longrightarrow> SLASH \<notin> set (format_host_for_url h) \<and> AT \<notin> set (format_host_for_url h)"
  by (auto simp: host_ok_def format_host_for_url_def)

section \<open>Paths\<close>

lemma path_ok_cases:
  assumes "path_ok p"
  obtains (home) "p = [TILDE]"
  | (relative) r where "p = TILDE # SLASH # r"
  | (absolute) r where "p = SLASH # r" "r \<noteq> [TILDE]" "\<And>t. r \<noteq> TILDE # SLASH # t"
  using assms unfolding path_ok_def starts_with_iff by auto

lemma normalize_format_path: "path_ok p \<Longrightarrow> normalize_url_style_path (format_path_for_url p) = p"
proof (erule path_ok_cases)
  fix r assume p: "p = SLASH # r" "r \<noteq> [TILDE]" "\<And>t. r \<noteq> TILDE # SLASH # t"
  then have "strip_prefix [SLASH, TILDE, SLASH] p = None"
    by (cases "strip_prefix [SLASH, TILDE, SLASH] p") (auto simp: strip_prefix_Some)
  then show ?thesis using p
    by (simp add: normalize_url_style_path_def format_path_for_url_def strip_prefix_def starts_with_def)
qed (simp_all add: normalize_url_style_path_def format_path_for_url_def strip_prefix_def)

lemma format_path_slash: "path_ok p \<Longrightarrow> \<exists>q. format_path_for_url p = SLASH # q"
  by (erule path_ok_cases) (simp_all add: format_path_for_url_def strip_prefix_def starts_with_def)

lemma last_format_path: "path_ok p \<Longrightarrow> last (format_path_for_url p) = last p"
  by (erule path_ok_cases) (simp_all add: format_path_for_url_def strip_prefix_def starts_with_def)

section \<open>The round trip\<close>

definition spec_ok :: "remote_spec \<Rightarrow> bool" where
  "spec_ok spec \<longleftrightarrow> host_ok (rs_host spec) \<and> user_ok (rs_user spec) \<and> path_ok (rs_path spec)
     \<and> \<not> is_ws (last (rs_path spec))"

lemma rfind_at_None: "AT \<notin> set s \<Longrightarrow> str_rfind (\<lambda>c. c = AT) s = None"
  by (auto simp: str_rfind_None)

lemma parse_url_style_format:
  assumes "spec_ok spec"
  shows "parse_url_style (drop 6 (format_remote_url spec)) = Inr (spec\<lparr>rs_password := None\<rparr>)"
proof -
  let ?hp = "format_host_for_url (rs_host spec) @ [COLON] @ show_port (rs_port spec)"
  let ?p = "format_path_for_url (rs_path spec)"
  from assms have h: "host_ok (rs_host spec)" and u: "user_ok (rs_user spec)"
    and p: "path_ok (rs_path spec)" by (simp_all add: spec_ok_def)
  note hc = format_host_chars [OF h] and ph = parse_hostport_format [OF h, of "rs_port spec"]
  obtain q where q: "?p = SLASH # q" using format_path_slash [OF p] by blast
  have hpc: "SLASH \<notin> set ?hp" "AT \<notin> set ?hp" using hc by simp_all
  show ?thesis
  proof (cases "rs_user spec")
    case None
    have "str_find (\<lambda>c. c = SLASH) (?hp @ SLASH # q) = Some (length ?hp)"
      using hpc by (intro str_find_at) auto
    then show ?thesis
      using None q ph hpc normalize_format_path [OF p] rfind_at_None [OF hpc(2)]
      by (cases spec) (simp add: format_remote_url_def parse_url_style_def)
  next
    case (Some x)
    with u have x: "x \<noteq> []" "SLASH \<notin> set x" "COLON \<notin> set x" by (simp_all add: user_ok_def)
    have "str_find (\<lambda>c. c = SLASH) ((x @ [AT] @ ?hp) @ SLASH # q) = Some (length (x @ [AT] @ ?hp))"
      using hpc x by (intro str_find_at) auto
    moreover have "str_rfind (\<lambda>c. c = AT) (x @ AT # ?hp) = Some (length x)"
      using hpc by (intro str_rfind_at) auto
    moreover have "str_find (\<lambda>c. c = COLON) x = None" using x by (auto simp: str_find_None)
    ultimately show ?thesis
      using Some x q ph normalize_format_path [OF p]
      by (cases spec) (simp add: format_remote_url_def parse_url_style_def)
  qed
qed

lemma format_remote_url_shape: "\<exists>a. format_remote_url spec = lit ''ssh://'' @ a @ format_path_for_url (rs_path spec)"
  by (auto simp: format_remote_url_def Let_def split: option.split)

lemma trim_format_remote_url:
  assumes "spec_ok spec"
  shows "trim (format_remote_url spec) = format_remote_url spec"
proof (rule trim_id)
  obtain a where a: "format_remote_url spec = lit ''ssh://'' @ a @ format_path_for_url (rs_path spec)"
    using format_remote_url_shape by blast
  have p: "path_ok (rs_path spec)" "\<not> is_ws (last (rs_path spec))"
    using assms by (simp_all add: spec_ok_def)
  obtain q where "format_path_for_url (rs_path spec) = SLASH # q"
    using format_path_slash [OF p(1)] by blast
  then have "last (format_remote_url spec) = last (rs_path spec)"
    using last_format_path [OF p(1)] by (simp add: a)
  moreover have "hd (format_remote_url spec) = 115" by (simp add: a)
  ultimately show "format_remote_url spec = []
    \<or> \<not> is_ws (hd (format_remote_url spec)) \<and> \<not> is_ws (last (format_remote_url spec))"
    using p(2) by (simp add: is_ws_def)
qed

lemma parse_format_spec_ok:
  assumes "spec_ok spec"
  shows "parse_remote_url (format_remote_url spec) = Inr (spec\<lparr>rs_password := None\<rparr>)"
proof -
  let ?u = "format_remote_url spec"
  have "?u = lit ''ssh://'' @ drop 6 ?u" by (simp add: format_remote_url_def Let_def)
  then have "strip_prefix (lit ''ssh://'') ?u = Some (drop 6 ?u)" by (metis strip_prefix_append)
  moreover have "?u \<noteq> []" by (simp add: format_remote_url_def Let_def)
  ultimately show ?thesis
    using parse_url_style_format [OF assms] trim_format_remote_url [OF assms]
    by (simp add: parse_remote_url_def)
qed



section \<open>What parsing returns\<close>

lemma parse_hostport_Inr:
  "parse_hostport hp = Inr (h, n) \<Longrightarrow> h \<noteq> [] \<and> set h \<subseteq> set hp"
  by (auto simp: parse_hostport_def Let_def split: if_splits option.splits dest: in_set_takeD in_set_dropD)

lemma str_find_take: "str_find P s = Some i \<Longrightarrow> c \<in> set (take i s) \<Longrightarrow> \<not> P c"
  using str_find_Some [of P s i] by (auto simp: in_set_conv_nth)

lemma str_find_drop: "str_find P s = Some i \<Longrightarrow> \<exists>c t. drop i s = c # t \<and> P c"
  using str_find_Some [of P s i] by (metis Cons_nth_drop_Suc)

lemma normalize_path_ok: "path_ok (normalize_url_style_path (SLASH # q))"
proof (cases "strip_prefix [SLASH, TILDE, SLASH] (SLASH # q)")
  case None
  then have "\<not> starts_with [SLASH, TILDE, SLASH] (SLASH # q)"
    by (auto simp: strip_prefix_def starts_with_def)
  then show ?thesis using None by (auto simp: normalize_url_style_path_def path_ok_def starts_with_def)
qed (auto simp: normalize_url_style_path_def path_ok_def starts_with_def)

lemma last_normalize_path:
  "last (normalize_url_style_path (SLASH # q)) = last (SLASH # q)"
  by (auto simp: normalize_url_style_path_def strip_prefix_Some split: option.splits)

lemma url_authority_split:
  assumes "str_rfind (\<lambda>c. c = AT) a = Some i"
  shows "AT \<notin> set (drop (Suc i) a)"
  using str_rfind_Some(3) [OF assms] by auto

text \<open>The user a URL can carry: an empty one is not written.\<close>

definition canonical_user :: "rstr option \<Rightarrow> rstr option" where
  "canonical_user u = (case u of Some x \<Rightarrow> if x = [] then None else Some x | None \<Rightarrow> None)"

lemma format_canonical_user:
  "format_remote_url (spec\<lparr>rs_user := canonical_user (rs_user spec), rs_password := pw\<rparr>)
   = format_remote_url spec"
  by (simp add: format_remote_url_def canonical_user_def Let_def split: option.split)

definition split_authority :: "rstr \<Rightarrow> rstr option \<times> rstr" where
  "split_authority authority =
     (case str_rfind (\<lambda>c. c = AT) authority of
        Some i \<Rightarrow> (Some (take i authority), drop (i + 1) authority)
      | None \<Rightarrow> (None, authority))"

lemma split_authority_chars:
  assumes "split_authority a = (ui, hp)" and "SLASH \<notin> set a"
  shows "AT \<notin> set hp" "SLASH \<notin> set hp" "ui = Some x \<Longrightarrow> SLASH \<notin> set x"
  using assms by (auto simp: split_authority_def str_rfind_None dest: url_authority_split in_set_dropD in_set_takeD
      split: option.splits)

lemma parse_url_style_Inr:
  assumes "parse_url_style rest = Inr spec"
  shows "rs_host spec \<noteq> []" "SLASH \<notin> set (rs_host spec)" "AT \<notin> set (rs_host spec)"
    "user_ok (canonical_user (rs_user spec))" "path_ok (rs_path spec)"
    "last (rs_path spec) = last (lit ''/'') \<or> last (rs_path spec) = last rest"
proof -
  define i where "i = str_find (\<lambda>c. c = SLASH) rest"
  define a where "a = (case i of Some k \<Rightarrow> take k rest | None \<Rightarrow> rest)"
  define pth where "pth = (case i of Some k \<Rightarrow> normalize_url_style_path (drop k rest) | None \<Rightarrow> REMOTE_ROOT_PATH)"
  obtain ui hp where sa: "split_authority a = (ui, hp)" by (cases "split_authority a") auto
  have a: "SLASH \<notin> set a"
    using str_find_take [of "\<lambda>c. c = SLASH" rest] str_find_None [of "\<lambda>c. c = SLASH" rest]
    by (auto simp: a_def i_def split: option.splits)
  obtain h n where hp: "parse_hostport hp = Inr (h, n)" and hs: "rs_host spec = h"
    and ps: "rs_path spec = pth"
    and us: "rs_user spec = (case ui of None \<Rightarrow> None | Some x \<Rightarrow>
        (case str_find (\<lambda>c. c = COLON) x of None \<Rightarrow> Some x | Some k \<Rightarrow> Some (take k x)))"
    using assms sa
    by (auto simp: parse_url_style_def split_authority_def a_def pth_def i_def result_simps
        split: option.splits if_splits)
  note sc = split_authority_chars [OF sa a]
  show "rs_host spec \<noteq> []" "SLASH \<notin> set (rs_host spec)" "AT \<notin> set (rs_host spec)"
    using parse_hostport_Inr [OF hp] sc hs by auto
  show "user_ok (canonical_user (rs_user spec))"
    using sc(3) us by (auto simp: canonical_user_def user_ok_def str_find_None
        split: option.splits dest: in_set_takeD str_find_take)
  show "path_ok (rs_path spec)"
  proof (cases i)
    case None
    then show ?thesis by (simp add: ps pth_def REMOTE_ROOT_PATH_def path_ok_def starts_with_def)
  next
    case (Some k)
    then obtain t where "drop k rest = SLASH # t"
      using str_find_drop [of "\<lambda>c. c = SLASH" rest k] i_def by auto
    then show ?thesis using Some normalize_path_ok [of t] by (simp add: ps pth_def)
  qed
  show "last (rs_path spec) = last (lit ''/'') \<or> last (rs_path spec) = last rest"
  proof (cases i)
    case None
    then show ?thesis by (simp add: ps pth_def REMOTE_ROOT_PATH_def)
  next
    case (Some k)
    then obtain t where t: "drop k rest = SLASH # t"
      using str_find_drop [of "\<lambda>c. c = SLASH" rest k] i_def by auto
    then have "last (SLASH # t) = last rest" by (metis last_drop list.discI drop_eq_Nil not_le)
    then show ?thesis using Some t by (simp add: ps pth_def last_normalize_path)
  qed
qed

text \<open>Every location parsed from an \<^verbatim>\<open>ssh://\<close> URL has a stable canonical form: formatting it
  and parsing again gives the same host, port, user and path, with the password gone, as long as
  the host holds no bracket (a bracket can only come from a malformed IPv6 literal).\<close>

theorem canonical_url_stable:
  assumes "parse_remote_url (lit ''ssh://'' @ rest) = Inr spec"
    and "trim (lit ''ssh://'' @ rest) = lit ''ssh://'' @ rest"
    and "LBRACKET \<notin> set (rs_host spec)" and "RBRACKET \<notin> set (rs_host spec)"
  shows "parse_remote_url (format_remote_url spec)
     = Inr (spec\<lparr>rs_user := canonical_user (rs_user spec), rs_password := None\<rparr>)"
proof -
  let ?spec = "spec\<lparr>rs_user := canonical_user (rs_user spec), rs_password := None\<rparr>"
  have p: "parse_url_style rest = Inr spec"
    using assms(1,2) by (simp add: parse_remote_url_def Let_def del: lit_Cons split: if_splits)
  have "rest \<noteq> []" using p by (auto simp: parse_url_style_def)
  then have "last rest = last (trim (lit ''ssh://'' @ rest))" by (simp add: assms(2) del: lit_Cons)
  then have ws: "\<not> is_ws (last rest)"
    using trim_end_last [of is_ws "trim_start is_ws (lit ''ssh://'' @ rest)"] assms(2) \<open>rest \<noteq> []\<close>
    by (simp add: trim_def del: lit_Cons)
  have "\<not> is_ws SLASH" by (simp add: is_ws_def)
  then have "\<not> is_ws (last (rs_path spec))"
    using parse_url_style_Inr(6) [OF p] ws by auto
  then have "spec_ok ?spec"
    using parse_url_style_Inr [OF p] assms(3,4) by (simp add: spec_ok_def host_ok_def)
  from parse_format_spec_ok [OF this] show ?thesis by (simp add: format_canonical_user)
qed

lemmas url_defs = parse_remote_url_def parse_url_style_def parse_scp_style_def parse_hostport_def
  trim_def trim_start_def trim_end_def is_ws_def strip_prefix_def starts_with_def ends_with_def
  normalize_url_style_path_def str_rfind_def canonical_user_def find_scp_path_separator_def
  REMOTE_ROOT_PATH_def format_remote_url_def format_host_for_url_def format_path_for_url_def
  show_port_def parse_port_def parse_uint_def is_ascii_digit_def show_nat.simps u16_max_def Let_def

theorem canonical_url_stable_witness:
  "parse_remote_url (format_remote_url
     \<lparr>rs_host = lit ''h'', rs_port = 22, rs_user = Some (lit ''u''), rs_path = lit ''~/x'',
      rs_password = Some (lit ''p'')\<rparr>)
   = Inr \<lparr>rs_host = lit ''h'', rs_port = 22, rs_user = Some (lit ''u''), rs_path = lit ''~/x'',
      rs_password = None\<rparr>"
  using canonical_url_stable [of "lit ''u:p@h/~/x''" "\<lparr>rs_host = lit ''h'', rs_port = 22,
      rs_user = Some (lit ''u''), rs_path = lit ''~/x'', rs_password = Some (lit ''p'')\<rparr>"]
  by (simp add: url_defs)

text \<open>The scp-style parser splits at the first at-sign and the URL parser at the last one, so an
  scp-style location with two of them names another host once it went through its canonical URL;
  and an absolute scp path below a directory called \<^verbatim>\<open>~\<close> turns into a home-relative one.\<close>

lemma scp_double_at_changes_host:
  "parse_remote_url (lit ''a@b@c'') = Inr \<lparr>rs_host = lit ''b@c'', rs_port = 22,
     rs_user = Some (lit ''a''), rs_path = lit ''/'', rs_password = None\<rparr>"
  "parse_remote_url (format_remote_url \<lparr>rs_host = lit ''b@c'', rs_port = 22,
     rs_user = Some (lit ''a''), rs_path = lit ''/'', rs_password = None\<rparr>)
   = Inr \<lparr>rs_host = lit ''c'', rs_port = 22, rs_user = Some (lit ''a@b''), rs_path = lit ''/'',
     rs_password = None\<rparr>"
  by (simp_all add: url_defs)

lemma scp_absolute_tilde_changes_path:
  "parse_remote_url (lit ''h:/~/x'') = Inr \<lparr>rs_host = lit ''h'', rs_port = 22, rs_user = None,
     rs_path = lit ''/~/x'', rs_password = None\<rparr>"
  "parse_remote_url (format_remote_url \<lparr>rs_host = lit ''h'', rs_port = 22, rs_user = None,
     rs_path = lit ''/~/x'', rs_password = None\<rparr>)
   = Inr \<lparr>rs_host = lit ''h'', rs_port = 22, rs_user = None, rs_path = lit ''~/x'',
     rs_password = None\<rparr>"
  by (simp_all add: url_defs)

text \<open>No input is parsed into a location with an empty host.\<close>

theorem parse_remote_url_host:
  "parse_remote_url raw = Inr spec \<Longrightarrow> rs_host spec \<noteq> []"
  by (auto simp: parse_remote_url_def parse_scp_style_def Let_def result_simps
      split: option.splits if_splits prod.splits dest: parse_url_style_Inr(1) parse_hostport_Inr)

theorem parse_remote_url_host_witness:
  "rs_host \<lparr>rs_host = lit ''h'', rs_port = 22, rs_user = None, rs_path = lit ''/~/x'',
     rs_password = None\<rparr> \<noteq> []"
  by (rule parse_remote_url_host [of "lit ''h:/~/x''"]) (rule scp_absolute_tilde_changes_path)

end
