(* ===== verification/Known_Hosts.thy ===== *)
theory Known_Hosts
  imports Remote_Url
begin

text \<open>
  Host-key verification and session set-up of the SSH client: pattern matching on
  \<^verbatim>\<open>known_hosts\<close> entries (\<^verbatim>\<open>src/fulgur/sync/ssh/session/host_patterns.rs\<close>), the trust decision and
  the entry appended for an accepted key (\<^verbatim>\<open>host_key.rs\<close>), and \<open>connect\<close> with its password
  authentication (\<^verbatim>\<open>mod.rs\<close>).

  What the code asks of \<^verbatim>\<open>ssh2\<close>, \<^verbatim>\<open>ssh-key\<close>, the hash crates, the file system and the network is a
  field of the records \<open>host_key_env\<close> and \<open>connect_env\<close>; the contents of the \<^verbatim>\<open>known_hosts\<close> file, the
  one thing the code changes, is the state (\<open>None\<close>: there is no file).
\<close>

section \<open>Wildcard patterns\<close>

abbreviation (input) STAR :: uchar where "STAR \<equiv> 42"
abbreviation (input) QMARK :: uchar where "QMARK \<equiv> 63"
abbreviation (input) BANG :: uchar where "BANG \<equiv> 33"
abbreviation (input) COMMA :: uchar where "COMMA \<equiv> 44"
abbreviation (input) SPACE :: uchar where "SPACE \<equiv> 32"

text \<open>The first loop of \<^verbatim>\<open>wildcard_pattern_matches\<close>: \<open>Some None\<close> is its \<open>return false\<close>, \<open>Some (Some i)\<close>
  the pattern index it leaves; the second loop skips the stars from there.\<close>

partial_function (option) wild_loop ::
  "rstr \<Rightarrow> rstr \<Rightarrow> nat \<Rightarrow> nat \<Rightarrow> nat option \<Rightarrow> nat \<Rightarrow> nat option option" where
  [code]: "wild_loop p t pi ti star_pi star_ti =
     (if ti < length t then
        if pi < length p \<and> (p ! pi = QMARK \<or> p ! pi = t ! ti)
        then wild_loop p t (pi + 1) (ti + 1) star_pi star_ti
        else if pi < length p \<and> p ! pi = STAR
        then wild_loop p t (pi + 1) ti (Some pi) ti
        else (case star_pi of
                Some s \<Rightarrow> wild_loop p t (s + 1) (star_ti + 1) star_pi (star_ti + 1)
              | None \<Rightarrow> Some None)
      else Some (Some pi))"

definition wildcard_pattern_matches :: "rstr \<Rightarrow> rstr \<Rightarrow> bool" where
  "wildcard_pattern_matches p t =
     (case wild_loop p t 0 0 None 0 of
        Some (Some pi) \<Rightarrow> pi + length (takeWhile (\<lambda>c. c = STAR) (drop pi p)) = length p
      | _ \<Rightarrow> False)"

text \<open>The reference: a star matches any number of characters, a question mark one.\<close>

fun glob :: "rstr \<Rightarrow> rstr \<Rightarrow> bool" where
  "glob [] t \<longleftrightarrow> t = []"
| "glob (c # p) t \<longleftrightarrow>
     (if c = STAR then (\<exists>k \<le> length t. glob p (drop k t))
      else (case t of [] \<Rightarrow> False | d # u \<Rightarrow> (c = QMARK \<or> c = d) \<and> glob p u))"

definition wild_wf :: "nat \<Rightarrow> nat \<Rightarrow> nat option \<Rightarrow> nat \<Rightarrow> rstr \<Rightarrow> rstr \<Rightarrow> bool" where
  "wild_wf pi ti sp sti p t \<longleftrightarrow>
     (case sp of None \<Rightarrow> True
      | Some s \<Rightarrow> s < pi \<and> ti = sti + (pi - s - 1) \<and> (STAR \<notin> set t \<longrightarrow> STAR \<notin> set (drop (s + 1) (take pi p))))"

definition wild_answer :: "rstr \<Rightarrow> rstr \<Rightarrow> nat \<Rightarrow> nat \<Rightarrow> nat option \<Rightarrow> nat \<Rightarrow> bool" where
  "wild_answer p t pi ti sp sti \<longleftrightarrow>
     glob (drop pi p) (drop ti t)
     \<or> (case sp of None \<Rightarrow> False
        | Some s \<Rightarrow> \<exists>k. sti < k \<and> k \<le> length t \<and> glob (drop (s + 1) p) (drop k t))"

lemma glob_stars: "glob p [] \<longleftrightarrow> set p \<subseteq> {STAR}"
  by (induction p) auto

lemma glob_segment:
  "STAR \<notin> set seg \<Longrightarrow> glob (seg @ p) u \<Longrightarrow> length seg \<le> length u \<and> glob p (drop (length seg) u)"
  by (induction seg arbitrary: u) (auto split: list.splits)

lemma drop_segment: "a \<le> b \<Longrightarrow> drop a p = drop a (take b p) @ drop b p"
  using drop_append [of a "take b p" "drop b p"] by (cases "b \<le> length p") auto

lemma glob_star_mono:
  assumes "glob (STAR # p) (drop j t)" "i \<le> j" 
  shows "glob (STAR # p) (drop i t)"
proof -
  obtain k where "k \<le> length (drop j t)" "glob p (drop (j + k) t)"
    using assms(1) by (auto simp: add.commute)
  then show ?thesis
  proof (cases "j \<le> length t")
    case True
    with \<open>i \<le> j\<close> \<open>k \<le> length (drop j t)\<close> have "j + k - i \<le> length (drop i t)" by auto
    moreover have "drop (j + k) t = drop (j + k - i) (drop i t)" using \<open>i \<le> j\<close> by simp
    ultimately show ?thesis using \<open>glob p (drop (j + k) t)\<close> 
      by (auto intro!: exI [of _ "j + k - i"])
  next
    case False
    then have "glob p []" using \<open>glob p (drop (j + k) t)\<close> by simp
    then show ?thesis by (auto intro!: exI [of _ "length (drop i t)"])
  qed
qed

lemma wild_answer_star:
  assumes wf: "wild_wf pi ti sp sti p t" and ti: "ti \<le> length t" and pi: "pi < length p" "p ! pi = STAR"
    and nt: "STAR \<notin> set t"
  shows "wild_answer p t pi ti sp sti = wild_answer p t (pi + 1) ti (Some pi) ti"
proof -
  have dr: "drop pi p = STAR # drop (pi + 1) p" using pi Cons_nth_drop_Suc [of pi p] by simp
  have g: "glob (STAR # drop (pi + 1) p) (drop ti t) \<longleftrightarrow>
     glob (drop (pi + 1) p) (drop ti t) \<or> (\<exists>k. ti < k \<and> k \<le> length t \<and> glob (drop (pi + 1) p) (drop k t))"
    (is "?l \<longleftrightarrow> ?r")
  proof
    assume ?l
    then obtain k where "k \<le> length t - ti" "glob (drop (pi + 1) p) (drop (k + ti) t)" by auto
    then show ?r using ti by (cases k) (auto intro!: exI [of _ "k + ti"])
  next
    assume ?r
    then obtain k where "ti \<le> k" "k \<le> length t" "glob (drop (pi + 1) p) (drop k t)"
      using ti by (meson less_imp_le order_refl)
    then show ?l by (auto intro!: exI [of _ "k - ti"])
  qed
  have "glob (drop pi p) (drop ti t)"
    if s: "sp = Some s" and k: "sti < k" "k \<le> length t" "glob (drop (s + 1) p) (drop k t)" for s k
  proof -
    define seg where "seg = drop (s + 1) (take pi p)"
    have "drop (s + 1) p = seg @ drop pi p" using wf s drop_segment [of "s + 1" pi p]
        by (simp add: seg_def wild_wf_def)
    moreover have "STAR \<notin> set seg" using wf s nt by (simp add: seg_def wild_wf_def)
    ultimately have "glob (drop pi p) (drop (length seg) (drop k t))"
      using k glob_segment by metis
    then have "glob (STAR # drop (pi + 1) p) (drop (length seg + k) t)" using dr
      by (simp add: add.commute)
    moreover have "ti \<le> length seg + k" using wf s k pi by (simp add: seg_def wild_wf_def)
    ultimately show ?thesis using dr glob_star_mono by metis
  qed
  then show ?thesis using g dr by (auto simp: wild_answer_def split: option.splits)
qed

definition wild_ok :: "rstr \<Rightarrow> rstr \<Rightarrow> bool \<Rightarrow> nat option \<Rightarrow> bool" where
  "wild_ok p t a r \<longleftrightarrow>
     (STAR \<notin> set t \<longrightarrow>
       (case r of None \<Rightarrow> \<not> a
        | Some i \<Rightarrow> i \<le> length p \<and> (a \<longleftrightarrow> set (drop i p) \<subseteq> {STAR})))"

lemma wild_ok_cong: "(STAR \<notin> set t \<Longrightarrow> a = b) \<Longrightarrow> wild_ok p t a r = wild_ok p t b r"
  by (auto simp: wild_ok_def)

lemma wild_loop_answer:
  assumes "wild_wf pi ti sp sti p t" "ti \<le> length t" "sti \<le> ti" "pi \<le> length p"
  shows "\<exists>r. wild_loop p t pi ti sp sti = Some r \<and> wild_ok p t (wild_answer p t pi ti sp sti) r"
  using assms
proof (induction "(case sp of None \<Rightarrow> length p + 1 | Some s \<Rightarrow> length p - s, length t - sti, length t - ti)"
       arbitrary: pi ti sp sti rule: wf_induct_rule [OF wf_lex_prod [OF wf_less_than wf_lex_prod [OF wf_less_than wf_less_than]]])
  case (1 ti sp sti pi)
  note IH = "1.hyps" and wf = "1.prems"(1) and b = "1.prems"(2-4)
  show ?case
  proof (cases "ti < length t")
    case False
    then have "ti = length t" using b by simp
    moreover have "glob (drop pi p) []" if "STAR \<notin> set t" "sp = Some s" "sti < k" "k \<le> length t" "glob (drop (s + 1) p) (drop k t)" for s k
    proof -
      define seg where "seg = drop (s + 1) (take pi p)"
      have w: "s < pi" "ti = sti + (pi - s - 1)" "STAR \<notin> set seg"
        using wf that(1,2) by (simp_all add: seg_def wild_wf_def)
      have "drop (s + 1) p = seg @ drop pi p" using w(1) drop_segment [of "s + 1" pi p]
        by (simp add: seg_def)
      then have "length seg \<le> length (drop k t)" using that(5) glob_segment [OF w(3)] by metis
      moreover have "length seg = pi - s - 1" using b by (simp add: seg_def)
      ultimately show ?thesis using that(3,4) w(2) \<open>ti = length t\<close> by simp
    qed
    moreover have "wild_loop p t pi ti sp sti = Some (Some pi)"
      using False by (subst wild_loop.simps) simp
    ultimately show ?thesis using b
      by (cases sp) (auto simp: wild_answer_def wild_ok_def glob_stars)
  next
    case True
    have dt: "drop ti t = t ! ti # drop (ti + 1) t" using True Cons_nth_drop_Suc [of ti t] by simp
    consider (m) "pi < length p" "p ! pi = QMARK \<or> p ! pi = t ! ti"
      | (s) "pi < length p" "\<not> (p ! pi = QMARK \<or> p ! pi = t ! ti)" "p ! pi = STAR"
      | (b) s where "\<not> (pi < length p \<and> (p ! pi = QMARK \<or> p ! pi = t ! ti))" "\<not> (pi < length p \<and> p ! pi = STAR)" "sp = Some s"
      | (f) "\<not> (pi < length p \<and> (p ! pi = QMARK \<or> p ! pi = t ! ti))" "\<not> (pi < length p \<and> p ! pi = STAR)" "sp = None"
      by (cases sp) blast+
    then show ?thesis
    proof cases
      case m
      have dp: "drop pi p = p ! pi # drop (pi + 1) p" using m Cons_nth_drop_Suc [of pi p] by simp
      have st: "wild_loop p t pi ti sp sti = wild_loop p t (pi + 1) (ti + 1) sp sti"
        using m True by (subst wild_loop.simps) simp
      have "t ! ti \<in> set t" using True by simp
      then have ns: "p ! pi \<noteq> STAR" if "STAR \<notin> set t" using m that by auto
      then have w: "wild_wf (pi + 1) (ti + 1) sp sti p t" using wf m True
        by (auto simp: wild_wf_def take_Suc_conv_app_nth drop_Cons' split: option.splits)
      have e: "wild_answer p t pi ti sp sti = wild_answer p t (pi + 1) (ti + 1) sp sti" if "STAR \<notin> set t"
      proof -
        show ?thesis using dp dt m ns [OF that] by (auto simp: wild_answer_def)
      qed
      have "length t - Suc ti < length t - ti" using True by arith
      then obtain r where "wild_loop p t (pi + 1) (ti + 1) sp sti = Some r"
          "wild_ok p t (wild_answer p t (pi + 1) (ti + 1) sp sti) r"
        using IH [of sp sti "ti + 1" "pi + 1"] True b m w by auto
      then show ?thesis unfolding st using wild_ok_cong [OF e] by blast
    next
      case s
      have st: "wild_loop p t pi ti sp sti = wild_loop p t (pi + 1) ti (Some pi) ti"
        using s True by (subst wild_loop.simps) simp
      have "wild_wf (pi + 1) ti (Some pi) ti p t" using s by (simp add: wild_wf_def)
      moreover have "length p - pi < (case sp of None \<Rightarrow> length p + 1 | Some s \<Rightarrow> length p - s)"
        using wf s by (auto simp: wild_wf_def split: option.splits)
      ultimately show ?thesis unfolding st
        using wild_ok_cong [OF wild_answer_star [OF wf b(1) s(1) s(3)]]
          IH [of "Some pi" ti ti "pi + 1"] b s by auto
    next
      case (b s)
      have st: "wild_loop p t pi ti sp sti = wild_loop p t (s + 1) (sti + 1) sp (sti + 1)"
        using b True by (subst wild_loop.simps) auto
      have ng: "\<not> glob (drop pi p) (drop ti t)"
      proof (cases "pi < length p")
        case True
        then have "drop pi p = p ! pi # drop (pi + 1) p" using Cons_nth_drop_Suc [of pi p] by simp
        then show ?thesis using b True dt by auto
      next
        case False
        then show ?thesis using dt by simp
      qed
      have le: "sti < length t" using True 1(4) by simp
      have "(\<exists>k. sti < k \<and> k \<le> length t \<and> Q k) \<longleftrightarrow> Q (sti + 1) \<or> (\<exists>k. sti + 1 < k \<and> k \<le> length t \<and> Q k)" for Q
        using le by (metis Suc_eq_plus1 Suc_leI Suc_lessD le_neq_implies_less lessI)
      then have e: "wild_answer p t pi ti sp sti = wild_answer p t (s + 1) (sti + 1) sp (sti + 1)"
        using ng b(3) by (simp add: wild_answer_def)
      have "wild_wf (s + 1) (sti + 1) sp (sti + 1) p t" using b(3) by (simp add: wild_wf_def)
      moreover have "s < length p" using wf 1(5) b(3) by (simp add: wild_wf_def)
      moreover have "length t - Suc sti < length t - sti" using le by arith
      ultimately show ?thesis unfolding st e
        using IH [of sp "sti + 1" "sti + 1" "s + 1"] le by simp
    next
      case f
      have "\<not> glob (drop pi p) (drop ti t)"
      proof (cases "pi < length p")
        case True
        then have "drop pi p = p ! pi # drop (pi + 1) p" using Cons_nth_drop_Suc [of pi p] by simp
        then show ?thesis using f True dt by auto
      next
        case False
        then show ?thesis using dt by simp
      qed
      then show ?thesis using f True by (subst wild_loop.simps) (auto simp: wild_answer_def wild_ok_def)
    qed
  qed
qed

lemma takeWhile_length_iff: "length (takeWhile P xs) = length xs \<longleftrightarrow> (\<forall>x \<in> set xs. P x)"
  by (induction xs) auto

lemma wild_loop_total: "\<exists>r. wild_loop p t 0 0 None 0 = Some r"
  using wild_loop_answer [of 0 0 None 0 p t] by (auto simp: wild_wf_def)

lemma wildcard_glob:
  assumes "STAR \<notin> set t"
  shows "wildcard_pattern_matches p t \<longleftrightarrow> glob p t"
proof -
  obtain r where r: "wild_loop p t 0 0 None 0 = Some r"
    and a: "case r of None \<Rightarrow> \<not> wild_answer p t 0 0 None 0
        | Some pi' \<Rightarrow> pi' \<le> length p \<and> (wild_answer p t 0 0 None 0 \<longleftrightarrow> set (drop pi' p) \<subseteq> {STAR})"
    using wild_loop_answer [of 0 0 None 0 p t] assms by (auto simp: wild_wf_def wild_ok_def)
  have g: "wild_answer p t 0 0 None 0 \<longleftrightarrow> glob p t" by (simp add: wild_answer_def)
  show ?thesis
  proof (cases r)
    case None
    then show ?thesis using r a g by (simp add: wildcard_pattern_matches_def)
  next
    case (Some i)
    then have i: "i \<le> length p" "glob p t \<longleftrightarrow> (\<forall>c \<in> set (drop i p). c = STAR)"
      using a g by auto
    moreover have "i + length (takeWhile (\<lambda>c. c = STAR) (drop i p)) = length p
        \<longleftrightarrow> length (takeWhile (\<lambda>c. c = STAR) (drop i p)) = length (drop i p)"
      using i(1) by auto
    ultimately show ?thesis using r Some
      by (simp add: wildcard_pattern_matches_def takeWhile_length_iff del: length_drop)
  qed
qed

lemma glob_literal: "STAR \<notin> set p \<Longrightarrow> QMARK \<notin> set p \<Longrightarrow> glob p t \<longleftrightarrow> p = t"
  by (induction p arbitrary: t) (auto split: list.splits)

section \<open>Entries and host patterns\<close>

datatype host_patterns = Patterns "rstr list" | HashedName "u8 list" "u8 list"

record known_host_entry =
  kh_patterns :: host_patterns
  kh_algorithm :: rstr
  kh_key_data :: "u8 list"

definition bracket_host :: "rstr \<Rightarrow> u16 \<Rightarrow> rstr" where
  "bracket_host h p = LBRACKET # h @ [RBRACKET, COLON] @ show_port p"

definition host_match_candidates :: "rstr \<Rightarrow> u16 \<Rightarrow> rstr list" where
  "host_match_candidates h p =
     (if p = 22 then [h, LBRACKET # h @ RBRACKET # lit '':22''] else [bracket_host h p])"

fun match_patterns_loop :: "bool \<Rightarrow> rstr list \<Rightarrow> rstr list \<Rightarrow> bool" where
  "match_patterns_loop matched [] candidates = matched"
| "match_patterns_loop matched (p # ps) candidates =
     (let (negated, token) =
            (case strip_prefix [BANG] p of Some stripped \<Rightarrow> (True, stripped) | None \<Rightarrow> (False, p))
      in if \<exists>c \<in> set candidates. wildcard_pattern_matches token c
         then (if negated then False else match_patterns_loop True ps candidates)
         else match_patterns_loop matched ps candidates)"

definition match_known_host_patterns :: "rstr list \<Rightarrow> rstr list \<Rightarrow> bool" where
  "match_known_host_patterns patterns candidates = match_patterns_loop False patterns candidates"

text \<open>\<open>mac\<close> is HMAC-SHA1 of a salt and a message, \<open>None\<close> when the salt is refused as a key.\<close>

type_synonym mac = "u8 list \<Rightarrow> u8 list \<Rightarrow> u8 list option"

definition hashed_host_matches :: "mac \<Rightarrow> u8 list \<Rightarrow> u8 list \<Rightarrow> rstr \<Rightarrow> bool" where
  "hashed_host_matches hmac salt expected candidate =
     (case hmac salt (utf8 candidate) of None \<Rightarrow> False | Some h \<Rightarrow> h = expected)"

definition known_host_patterns_match :: "mac \<Rightarrow> host_patterns \<Rightarrow> rstr \<Rightarrow> u16 \<Rightarrow> bool" where
  "known_host_patterns_match hmac patterns h p =
     (let candidates = host_match_candidates h p in
      case patterns of
        Patterns ps \<Rightarrow> match_known_host_patterns ps candidates
      | HashedName salt hash \<Rightarrow> (\<exists>c \<in> set candidates. hashed_host_matches hmac salt hash c))"

definition known_host_entry_matches_target :: "mac \<Rightarrow> known_host_entry \<Rightarrow> rstr \<Rightarrow> u16 \<Rightarrow> bool" where
  "known_host_entry_matches_target hmac entry h p =
     known_host_patterns_match hmac (kh_patterns entry) h p"

section \<open>Host-key algorithm preferences\<close>

definition push_unique_hostkey_alg :: "rstr list \<Rightarrow> rstr \<Rightarrow> rstr list" where
  "push_unique_hostkey_alg xs alg = (if alg \<noteq> [] \<and> alg \<notin> set xs then xs @ [alg] else xs)"

definition default_hostkey_algorithms :: "rstr list" where
  "default_hostkey_algorithms =
     [lit ''ssh-ed25519'', lit ''ecdsa-sha2-nistp256'', lit ''ecdsa-sha2-nistp384'',
      lit ''ecdsa-sha2-nistp521'', lit ''rsa-sha2-512'', lit ''rsa-sha2-256'', lit ''ssh-rsa'']"

definition known_host_algorithms_for_target ::
  "mac \<Rightarrow> known_host_entry list option \<Rightarrow> rstr \<Rightarrow> u16 \<Rightarrow> rstr list option" where
  "known_host_algorithms_for_target hmac read h p =
     map_option (foldl (\<lambda>ks e. if known_host_entry_matches_target hmac e h p
                               then push_unique_hostkey_alg ks (kh_algorithm e) else ks) []) read"

definition merged_preferences :: "rstr list \<Rightarrow> rstr list" where
  "merged_preferences known =
     foldl push_unique_hostkey_alg (foldl push_unique_hostkey_alg [] known) default_hostkey_algorithms"

definition hostkey_method_preferences_from_known_hosts ::
  "mac \<Rightarrow> known_host_entry list option \<Rightarrow> rstr \<Rightarrow> u16 \<Rightarrow> rstr option" where
  "hostkey_method_preferences_from_known_hosts hmac read h p =
     (case known_host_algorithms_for_target hmac read h p of
        None \<Rightarrow> None
      | Some known \<Rightarrow> if known = [] then None else Some (join_with COMMA (merged_preferences known)))"

section \<open>The trust decision\<close>

datatype check_result = CheckMatch | CheckMismatch | CheckNotFound | CheckFailure

datatype host_key_decision = Accept | Reject

text \<open>What \<^verbatim>\<open>check_host_key\<close> asks of the libraries and of the system: the errors of
  \<open>known_hosts_path\<close>, \<open>Session::known_hosts\<close>, \<open>read_file\<close>, \<open>ensure_ssh_dir\<close> and of opening, reading and
  appending to the file; the server's key; libssh2's \<open>check\<close> and \<open>check_port\<close> on the file that was
  read; the parser of \<^verbatim>\<open>ssh-key\<close> for the file and for a key; HMAC, SHA-256 and Base64.
  A failing write has appended a prefix of the new bytes.\<close>

record host_key_env =
  hk_path_error :: "ssh_error option"
  hk_session_error :: "rstr option"
  hk_read_error :: "u8 list \<Rightarrow> rstr option"
  hk_server_key :: "u8 list option"
  hk_check :: "u8 list option \<Rightarrow> rstr \<Rightarrow> u8 list \<Rightarrow> check_result"
  hk_check_port :: "u8 list option \<Rightarrow> rstr \<Rightarrow> u16 \<Rightarrow> u8 list \<Rightarrow> check_result"
  hk_parse_file :: "u8 list option \<Rightarrow> known_host_entry list option"
  hk_parse_key :: "u8 list \<Rightarrow> u8 list option"
  hk_mac :: mac
  hk_sha256 :: "u8 list \<Rightarrow> u8 list"
  hk_base64 :: "u8 list \<Rightarrow> rstr"
  hk_ensure_dir_error :: "ssh_error option"
  hk_tail_error :: "rstr option"
  hk_open_error :: "rstr option"
  hk_write_error :: "(nat \<times> rstr) option"

fun aggregate_loop :: "bool \<Rightarrow> bool \<Rightarrow> check_result list \<Rightarrow> check_result" where
  "aggregate_loop mm nf [] =
     (if mm then CheckMismatch else if nf then CheckNotFound else CheckFailure)"
| "aggregate_loop mm nf (r # rs) =
     (case r of
        CheckMatch \<Rightarrow> CheckMatch
      | CheckMismatch \<Rightarrow> aggregate_loop True nf rs
      | CheckNotFound \<Rightarrow> aggregate_loop mm True rs
      | CheckFailure \<Rightarrow> aggregate_loop mm nf rs)"

definition aggregate_check_results :: "check_result list \<Rightarrow> check_result" where
  "aggregate_check_results rs = aggregate_loop False False rs"

definition resolve_known_host_check_result ::
  "host_key_env \<Rightarrow> u8 list option \<Rightarrow> rstr \<Rightarrow> u16 \<Rightarrow> u8 list \<Rightarrow> check_result" where
  "resolve_known_host_check_result env file h p key =
     (if p = 22 then
        aggregate_check_results
          [hk_check_port env file h p key, hk_check env file h key,
           hk_check env file (bracket_host h p) key]
      else
        aggregate_check_results
          [hk_check_port env file h p key, hk_check env file (bracket_host h p) key])"

fun entries_loop :: "mac \<Rightarrow> bool \<Rightarrow> known_host_entry list \<Rightarrow> rstr \<Rightarrow> u16 \<Rightarrow> u8 list \<Rightarrow> check_result" where
  "entries_loop hmac saw [] h p k = (if saw then CheckMismatch else CheckNotFound)"
| "entries_loop hmac saw (e # es) h p k =
     (if \<not> known_host_entry_matches_target hmac e h p then entries_loop hmac saw es h p k
      else if kh_key_data e = k then CheckMatch
      else entries_loop hmac True es h p k)"

definition resolve_known_host_check_result_from_entries ::
  "mac \<Rightarrow> known_host_entry list \<Rightarrow> rstr \<Rightarrow> u16 \<Rightarrow> u8 list \<Rightarrow> check_result" where
  "resolve_known_host_check_result_from_entries hmac es h p k = entries_loop hmac False es h p k"

definition check_known_hosts_with_parser ::
  "host_key_env \<Rightarrow> u8 list option \<Rightarrow> rstr \<Rightarrow> u16 \<Rightarrow> u8 list \<Rightarrow> check_result option" where
  "check_known_hosts_with_parser env file h p key =
     (case hk_parse_file env file of
        None \<Rightarrow> None
      | Some es \<Rightarrow>
          (case hk_parse_key env key of
             None \<Rightarrow> None
           | Some k \<Rightarrow> Some (resolve_known_host_check_result_from_entries (hk_mac env) es h p k)))"

definition resolve_with_fallback ::
  "host_key_env \<Rightarrow> u8 list option \<Rightarrow> rstr \<Rightarrow> u16 \<Rightarrow> u8 list \<Rightarrow> check_result" where
  "resolve_with_fallback env file h p key =
     (let primary = resolve_known_host_check_result env file h p key in
      if primary = CheckMatch then primary
      else (case check_known_hosts_with_parser env file h p key of
              Some CheckMatch \<Rightarrow> CheckMatch
            | Some CheckMismatch \<Rightarrow> CheckMismatch
            | Some CheckNotFound \<Rightarrow> (if primary = CheckFailure then CheckNotFound else primary)
            | Some CheckFailure \<Rightarrow> primary
            | None \<Rightarrow> primary))"

section \<open>Storing an accepted key\<close>

definition known_hosts_entry_host :: "rstr \<Rightarrow> u16 \<Rightarrow> rstr" where
  "known_hosts_entry_host h p = (if p = 22 then h else bracket_host h p)"

definition hex_digit :: "nat \<Rightarrow> uchar" where
  "hex_digit n = (if n < 10 then 48 + n else 87 + n)"

definition hex_byte :: "u8 \<Rightarrow> rstr" where
  "hex_byte b = [hex_digit (unat b div 16), hex_digit (unat b mod 16)]"

definition sha256_fingerprint :: "host_key_env \<Rightarrow> u8 list \<Rightarrow> rstr" where
  "sha256_fingerprint env key = join_with COLON (map hex_byte (hk_sha256 env key))"

text \<open>A name that is not valid UTF-8, or that holds a character beyond ASCII, has a byte from 128 on;
  the code refuses both, so the test on the bytes decides.\<close>

definition host_key_algorithm_name :: "u8 list \<Rightarrow> rstr option" where
  "host_key_algorithm_name key =
     (case key of
        b0 # b1 # b2 # b3 # rest \<Rightarrow>
          (let n = unat b0 * 16777216 + unat b1 * 65536 + unat b2 * 256 + unat b3 in
           if n \<le> length rest then
             (let name = map unat (take n rest) in
              if name \<noteq> [] \<and> (\<forall>c \<in> set name. 33 \<le> c \<and> c \<le> 126) then Some name else None)
           else None)
      | _ \<Rightarrow> None)"

definition known_hosts_entry_line :: "host_key_env \<Rightarrow> rstr \<Rightarrow> u8 list \<Rightarrow> ssh_error + rstr" where
  "known_hosts_entry_line env host key =
     rbind (ok_or (ConnectionFailed (lit ''Server host key is not in a recognizable SSH wire format''))
              (host_key_algorithm_name key))
       (\<lambda>algorithm. Inr (host @ [SPACE] @ algorithm @ [SPACE] @ hk_base64 env key))"

definition known_hosts_ends_mid_line :: "host_key_env \<Rightarrow> u8 list option \<Rightarrow> ssh_error + bool" where
  "known_hosts_ends_mid_line env file =
     (case file of
        None \<Rightarrow> Inr False
      | Some bs \<Rightarrow>
          (case hk_tail_error env of
             Some e \<Rightarrow> Inl (ConnectionFailed (lit ''Failed to read known_hosts: '' @ e))
           | None \<Rightarrow> if bs = [] then Inr False else Inr (last bs \<noteq> 10)))"

definition append_known_hosts_entry ::
  "host_key_env \<Rightarrow> u8 list option \<Rightarrow> rstr \<Rightarrow> u8 list \<Rightarrow> (ssh_error + unit) \<times> u8 list option" where
  "append_known_hosts_entry env file host key =
     (case rbind (known_hosts_entry_line env host key) (\<lambda>entry.
             rbind (known_hosts_ends_mid_line env file) (\<lambda>mid.
               Inr (entry, if mid then [10] else []))) of
        Inl e \<Rightarrow> (Inl e, file)
      | Inr (entry, separator) \<Rightarrow>
          (case hk_open_error env of
             Some e \<Rightarrow> (Inl (ConnectionFailed (lit ''Failed to open known_hosts: '' @ e)), file)
           | None \<Rightarrow>
               let old = (case file of None \<Rightarrow> [] | Some bs \<Rightarrow> bs) in
               let new = utf8 (separator @ entry @ [10]) in
               (case hk_write_error env of
                  Some (written, e) \<Rightarrow>
                    (Inl (ConnectionFailed (lit ''Failed to write known_hosts: '' @ e)),
                     Some (old @ take written new))
                | None \<Rightarrow> (Inr (), Some (old @ new)))))"

text \<open>The result, the file afterwards, and the questions the user was asked.\<close>

definition check_host_key ::
  "host_key_env \<Rightarrow> u8 list option \<Rightarrow> rstr \<Rightarrow> u16 \<Rightarrow> (rstr \<Rightarrow> rstr \<Rightarrow> u16 \<Rightarrow> host_key_decision)
     \<Rightarrow> (ssh_error + unit) \<times> u8 list option \<times> (rstr \<times> rstr \<times> u16) list" where
  "check_host_key env file h p decide =
     (case hk_path_error env of Some e \<Rightarrow> (Inl e, file, [])
      | None \<Rightarrow>
     (case hk_session_error env of Some e \<Rightarrow> (Inl (ConnectionFailed e), file, [])
      | None \<Rightarrow>
     (case (case file of None \<Rightarrow> None | Some bs \<Rightarrow> hk_read_error env bs) of
        Some e \<Rightarrow> (Inl (ConnectionFailed (lit ''Failed to read known_hosts: '' @ e)), file, [])
      | None \<Rightarrow>
     (case hk_server_key env of
        None \<Rightarrow> (Inl (ConnectionFailed (lit ''Server provided no host key'')), file, [])
      | Some key \<Rightarrow>
          let unknown =
            (let fp = sha256_fingerprint env key in
             case decide fp h p of
               Reject \<Rightarrow> (Inl (ConnectionFailed (lit ''Host key rejected for '' @ h @ [COLON] @ show_port p)),
                          file, [(fp, h, p)])
             | Accept \<Rightarrow>
                 (case hk_ensure_dir_error env of
                    Some e \<Rightarrow> (Inl e, file, [(fp, h, p)])
                  | None \<Rightarrow>
                      let (r, file') = append_known_hosts_entry env file (known_hosts_entry_host h p) key
                      in (r, file', [(fp, h, p)])))
          in (case resolve_with_fallback env file h p key of
                CheckMatch \<Rightarrow> (Inr (), file, [])
              | CheckMismatch \<Rightarrow> (Inl (HostKeyMismatch h p), file, [])
              | CheckNotFound \<Rightarrow> unknown
              | CheckFailure \<Rightarrow> unknown)))))"

section \<open>Connecting\<close>

definition LIBSSH2_AUTHENTICATION_FAILED_CODE :: int where
  "LIBSSH2_AUTHENTICATION_FAILED_CODE = -18"

datatype ssh2_code = SessionCode int | SftpCode int

definition map_password_auth_error :: "ssh2_code \<Rightarrow> rstr \<Rightarrow> ssh_error" where
  "map_password_auth_error code message =
     (case code of
        SessionCode n \<Rightarrow>
          (if n = LIBSSH2_AUTHENTICATION_FAILED_CODE then AuthFailed
           else ConnectionFailed (lit ''SSH authentication request failed: '' @ message))
      | SftpCode n \<Rightarrow> ConnectionFailed (lit ''SSH authentication request failed: '' @ message))"

text \<open>The environment of \<open>connect\<close>: the addresses the host resolves to, each with the outcome of
  connecting to it (an error text or a stream), and the outcomes of the library calls.\<close>

record connect_env =
  cn_resolve :: "rstr + (rstr + nat) list"
  cn_session_error :: "rstr option"
  cn_handshake_error :: "rstr option"
  cn_host_key :: host_key_env
  cn_userauth_error :: "(ssh2_code \<times> rstr) option"
  cn_authenticated :: bool
  cn_sftp_error :: "rstr option"

datatype connect_event =
    MethodPref rstr
  | Handshake nat
  | AskedHostKey rstr rstr u16
  | SentPassword rstr rstr

fun connect_first :: "rstr option \<Rightarrow> (rstr + nat) list \<Rightarrow> rstr option + nat" where
  "connect_first last_err [] = Inl last_err"
| "connect_first last_err (Inr stream # addrs) = Inr stream"
| "connect_first last_err (Inl e # addrs) = connect_first (Some e) addrs"

definition connect_tcp :: "connect_env \<Rightarrow> rstr \<Rightarrow> ssh_error + nat" where
  "connect_tcp env addr =
     (case cn_resolve env of
        Inl e \<Rightarrow> Inl (ConnectionFailed (lit ''Cannot resolve '' @ addr @ lit '': '' @ e))
      | Inr addrs \<Rightarrow>
          if addrs = [] then Inl (ConnectionFailed (lit ''No addresses found for '' @ addr))
          else (case connect_first None addrs of
                  Inr stream \<Rightarrow> Inr stream
                | Inl None \<Rightarrow> Inl (ConnectionFailed (lit ''unknown error''))
                | Inl (Some e) \<Rightarrow> Inl (ConnectionFailed e)))"

definition hostkey_preferences :: "connect_env \<Rightarrow> u8 list option \<Rightarrow> remote_spec \<Rightarrow> rstr option" where
  "hostkey_preferences env file spec =
     (case hk_path_error (cn_host_key env) of
        Some e \<Rightarrow> None
      | None \<Rightarrow> hostkey_method_preferences_from_known_hosts (hk_mac (cn_host_key env))
                  (hk_parse_file (cn_host_key env) file) (rs_host spec) (rs_port spec))"

definition connect ::
  "connect_env \<Rightarrow> u8 list option \<Rightarrow> remote_spec \<Rightarrow> rstr \<Rightarrow> rstr
     \<Rightarrow> (rstr \<Rightarrow> rstr \<Rightarrow> u16 \<Rightarrow> host_key_decision)
     \<Rightarrow> (ssh_error + nat) \<times> u8 list option \<times> connect_event list" where
  "connect env file spec u pw decide =
     (case connect_tcp env (rs_host spec @ [COLON] @ show_port (rs_port spec)) of
        Inl e \<Rightarrow> (Inl e, file, [])
      | Inr stream \<Rightarrow>
     (case cn_session_error env of
        Some e \<Rightarrow> (Inl (ConnectionFailed e), file, [])
      | None \<Rightarrow>
          let prefs = (case hostkey_preferences env file spec of
                         Some pr \<Rightarrow> [MethodPref pr] | None \<Rightarrow> []);
              ev1 = prefs @ [Handshake stream]
          in (case cn_handshake_error env of
                Some e \<Rightarrow> (Inl (ConnectionFailed e), file, ev1)
              | None \<Rightarrow>
                  let (checked, file', asked) =
                        check_host_key (cn_host_key env) file (rs_host spec) (rs_port spec) decide;
                      ev2 = ev1 @ map (\<lambda>(fp, h, p). AskedHostKey fp h p) asked
                  in (case checked of
                        Inl e \<Rightarrow> (Inl e, file', ev2)
                      | Inr _ \<Rightarrow>
                          let ev3 = ev2 @ [SentPassword u pw] in
                          (case cn_userauth_error env of
                             Some (code, msg) \<Rightarrow> (Inl (map_password_auth_error code msg), file', ev3)
                           | None \<Rightarrow>
                               if \<not> cn_authenticated env then (Inl AuthFailed, file', ev3)
                               else (case cn_sftp_error env of
                                       Some e \<Rightarrow> (Inl (SftpError e), file', ev3)
                                     | None \<Rightarrow> (Inr stream, file', ev3)))))))"

section \<open>Matching\<close>

lemma match_patterns_loop_iff:
  "match_patterns_loop m ps cs \<longleftrightarrow>
     (m \<or> (\<exists>p \<in> set ps. \<not> starts_with [BANG] p \<and> (\<exists>c \<in> set cs. wildcard_pattern_matches p c)))
     \<and> (\<forall>p \<in> set ps. starts_with [BANG] p \<longrightarrow> \<not> (\<exists>c \<in> set cs. wildcard_pattern_matches (drop 1 p) c))"
proof (induction ps arbitrary: m)
  case (Cons p ps)
  have sp: "strip_prefix [BANG] p = (if starts_with [BANG] p then Some (drop 1 p) else None)"
    by (simp add: strip_prefix_def starts_with_def)
  show ?case by (auto simp: sp Cons.IH Let_def)
qed simp

lemma entries_loop_iff:
  "entries_loop hmac saw es h p k =
     (if \<exists>e \<in> set es. known_host_entry_matches_target hmac e h p \<and> kh_key_data e = k then CheckMatch
      else if saw \<or> (\<exists>e \<in> set es. known_host_entry_matches_target hmac e h p) then CheckMismatch
      else CheckNotFound)"
  by (induction es arbitrary: saw) auto

lemma aggregate_loop_iff:
  "aggregate_loop mm nf rs =
     (if CheckMatch \<in> set rs then CheckMatch
      else if mm \<or> CheckMismatch \<in> set rs then CheckMismatch
      else if nf \<or> CheckNotFound \<in> set rs then CheckNotFound else CheckFailure)"
  by (induction rs arbitrary: mm nf) (auto split: check_result.splits)

lemma show_port_chars: "c \<in> set (show_port p) \<Longrightarrow> 48 \<le> c \<and> c \<le> 57"
  using show_nat_digits [of c "unat p"] by (simp add: show_port_def is_ascii_digit_def)

lemma show_port_inj: "show_port p = show_port q \<longleftrightarrow> p = q"
proof
  assume "show_port p = show_port q"
  then have "parse_uint u16_max (show_nat (unat p)) = parse_uint u16_max (show_nat (unat q))"
    by (simp add: show_port_def)
  moreover have "unat (x :: u16) \<le> u16_max" for x
  proof -
    have "unat x < 2 ^ LENGTH(16)" by (rule unsigned_less)
    then show ?thesis by (simp add: u16_max_def)
  qed
  ultimately show "p = q" by (simp add: parse_uint_show word_unat_eq_iff)
qed simp

lemma bracket_host_inj: "bracket_host h p = bracket_host h' p' \<longleftrightarrow> h = h' \<and> p = p'"
proof
  assume eq: "bracket_host h p = bracket_host h' p'"
  have nc: "\<forall>c \<in> set (show_port q). \<not> c = COLON" for q using show_port_chars by fastforce
  have "str_rfind (\<lambda>c. c = COLON) (bracket_host x q) = Some (Suc (Suc (length x)))" for x q
    using str_rfind_at [OF nc, of COLON "LBRACKET # x @ [RBRACKET]" q] by (simp add: bracket_host_def)
  then have "length h = length h'" using eq by (metis Suc_inject option.inject)
  then show "h = h' \<and> p = p'" using eq by (simp add: bracket_host_def show_port_inj)
qed simp

lemma show_port_22: "show_port 22 = lit ''22''"
  by (simp add: show_port_def show_nat.simps)

lemma host_match_candidates_alt:
  "host_match_candidates h p = (if p = 22 then [h, bracket_host h 22] else [bracket_host h p])"
  by (simp add: host_match_candidates_def bracket_host_def show_port_22)

lemma bracket_host_chars: "set (bracket_host h p) \<subseteq> {LBRACKET, RBRACKET, COLON} \<union> {48..57} \<union> set h"
  using show_port_chars by (auto simp: bracket_host_def)

text \<open>A host with no character that is special in a pattern.\<close>

definition plain_host :: "rstr \<Rightarrow> bool" where
  "plain_host h \<longleftrightarrow> STAR \<notin> set h \<and> QMARK \<notin> set h \<and> \<not> starts_with [BANG] h \<and> \<not> starts_with [LBRACKET] h"

lemma candidate_no_star: "STAR \<notin> set h \<Longrightarrow> c \<in> set (host_match_candidates h p) \<Longrightarrow> STAR \<notin> set c"
  using bracket_host_chars [of h p] bracket_host_chars [of h 22]
  by (auto simp: host_match_candidates_alt split: if_splits)

lemma entry_host_match:
  assumes "plain_host h" "plain_host h'"
  shows "match_known_host_patterns [known_hosts_entry_host h p] (host_match_candidates h' p') \<longleftrightarrow> h = h' \<and> p = p'"
proof -
  let ?e = "known_hosts_entry_host h p"
  have "STAR \<notin> set ?e" "QMARK \<notin> set ?e" "\<not> starts_with [BANG] ?e"
    using assms bracket_host_chars [of h p]
    by (auto simp: known_hosts_entry_host_def plain_host_def bracket_host_def starts_with_def)
  then have "match_known_host_patterns [?e] (host_match_candidates h' p') \<longleftrightarrow> ?e \<in> set (host_match_candidates h' p')"
    using candidate_no_star [of h' _ p'] assms(2)
    by (auto simp: match_known_host_patterns_def match_patterns_loop_iff wildcard_glob glob_literal plain_host_def)
  moreover have "bracket_host x q \<noteq> y" if "plain_host y" for x q y
    using that by (auto simp: plain_host_def starts_with_def bracket_host_def)
  ultimately show ?thesis using assms bracket_host_inj
    by (auto simp: known_hosts_entry_host_def host_match_candidates_alt)
qed

section \<open>The trust decision\<close>

lemma check_host_key_ok:
  assumes "check_host_key env file h p decide = (Inr (), file', asked)"
  obtains key where "hk_server_key env = Some key"
    and "(resolve_with_fallback env file h p key = CheckMatch \<and> file' = file \<and> asked = [])
      \<or> (resolve_with_fallback env file h p key \<in> {CheckNotFound, CheckFailure}
          \<and> decide (sha256_fingerprint env key) h p = Accept
          \<and> asked = [(sha256_fingerprint env key, h, p)]
          \<and> append_known_hosts_entry env file (known_hosts_entry_host h p) key = (Inr (), file'))"
  using assms that
  by (auto simp: check_host_key_def Let_def
      split: option.splits check_result.splits host_key_decision.splits prod.splits)

lemma check_host_key_mismatch:
  assumes "hk_server_key env = Some key" "resolve_with_fallback env file h p key = CheckMismatch"
  shows "\<exists>e. check_host_key env file h p decide = (Inl e, file, [])"
  using assms by (auto simp: check_host_key_def split: option.splits)

lemma check_host_key_reject:
  assumes "\<And>fp h p. decide fp h p = Reject"
  shows "fst (snd (check_host_key env file h p decide)) = file"
  using assms by (auto simp: check_host_key_def Let_def split: option.splits check_result.splits)

lemma connect_password_checked:
  assumes "connect env file spec u pw decide = (r, file', evs)" and "SentPassword u' pw' \<in> set evs"
  shows "fst (check_host_key (cn_host_key env) file (rs_host spec) (rs_port spec) decide) = Inr ()
    \<and> file' = fst (snd (check_host_key (cn_host_key env) file (rs_host spec) (rs_port spec) decide))
    \<and> u' = u \<and> pw' = pw"
  using assms
  by (auto simp: connect_def Let_def split: sum.splits option.splits prod.splits if_splits)

lemma connect_ok:
  assumes "connect env file spec u pw decide = (Inr s, file', evs)"
  shows "fst (check_host_key (cn_host_key env) file (rs_host spec) (rs_port spec) decide) = Inr () \<and> cn_authenticated env"
  using assms
  by (auto simp: connect_def Let_def split: sum.splits option.splits prod.splits if_splits)

section \<open>The appended line\<close>

definition text_lines :: "u8 list \<Rightarrow> u8 list list" where
  "text_lines bs = (let ls = split_on 10 bs in if last ls = [] then butlast ls else ls)"

lemma split_on_append_sep: "split_on d (s @ d # t) = split_on d s @ split_on d t"
  by (induction s) (auto split: list.splits)

lemma split_on_no: "d \<notin> set s \<Longrightarrow> split_on d s = [s]"
  by (induction s) auto

lemma split_on_single: "split_on d s = [x] \<longleftrightarrow> d \<notin> set s \<and> x = s"
proof (induction s arbitrary: x)
  case (Cons c s)
  then show ?case by (cases "split_on d s") auto
qed auto

lemma last_split_on: "last (split_on d s) = [] \<longleftrightarrow> s = [] \<or> last s = d"
proof (induction s)
  case (Cons c s)
  then show ?case using split_on_single [of d s "[]"] by (cases "split_on d s") auto
qed simp

lemma text_lines_append:
  assumes "10 \<notin> set l"
  shows "text_lines (old @ (if old \<noteq> [] \<and> last old \<noteq> 10 then [10] else []) @ l @ [10]) = text_lines old @ [l]"
proof -
  have nl: "split_on 10 (l @ [10]) = [l, []]" using split_on_append_sep [of 10 l "[]"] assms by (simp add: split_on_no)
  show ?thesis
  proof (cases "old = [] \<or> last old = 10")
    case False
    then have "split_on 10 (old @ [10] @ l @ [10]) = split_on 10 old @ [l, []]"
      using split_on_append_sep [of 10 old "l @ [10]"] nl by simp
    then show ?thesis using False by (simp add: text_lines_def last_split_on butlast_append)
  next
    case True
    show ?thesis
    proof (cases old rule: rev_cases)
      case Nil
      then show ?thesis using nl by (simp add: text_lines_def butlast_append)
    next
      case (snoc ys y)
      then have "split_on 10 (old @ l @ [10]) = split_on 10 ys @ [l, []]"
        using True split_on_append_sep [of 10 ys "l @ [10]"] nl by simp
      moreover have "split_on 10 old = split_on 10 ys @ [[]]"
        using True snoc split_on_append_sep [of 10 ys "[]"] by simp
      ultimately show ?thesis using True snoc by (simp add: text_lines_def butlast_append)
    qed
  qed
qed

lemma utf8_char_newline: "c < 1114112 \<Longrightarrow> 10 \<in> set (utf8_char c) \<Longrightarrow> c = 10"
proof -
  assume c: "c < 1114112" "10 \<in> set (utf8_char c)"
  have ne: "of_nat k \<noteq> (10 :: u8)" "(10 :: u8) \<noteq> of_nat k" if "k \<noteq> 10" "k < 256" for k
  proof -
    have "unat (of_nat k :: u8) = k" using that by (simp add: unat_of_nat)
    then show "of_nat k \<noteq> (10 :: u8)" "(10 :: u8) \<noteq> of_nat k" using that by auto
  qed
  have "c < 128" if "\<not> c < 128"
    using c that ne [of "192 + c div 64"] ne [of "128 + c mod 64"] ne [of "224 + c div 4096"]
      ne [of "128 + c div 64 mod 64"] ne [of "240 + c div 262144"] ne [of "128 + c div 4096 mod 64"]
    by (auto simp: utf8_char_def split: if_splits)
  then show "c = 10" using c ne [of c] by (auto simp: utf8_char_def split: if_splits)
qed

lemma utf8_newline: "\<forall>c \<in> set s. c < 1114112 \<and> c \<noteq> 10 \<Longrightarrow> 10 \<notin> set (utf8 s)"
  by (induction s) (auto dest: utf8_char_newline)

section \<open>Properties\<close>

text \<open>C22: The backtracking loop of the wildcard matcher always returns, and for a target without a
  star it decides exactly the recursive reading of the pattern (star: any characters, question
  mark: one character).\<close>

theorem wildcard_loop_matches_glob:
  "(\<exists>r. wild_loop p t 0 0 None 0 = Some r)
   \<and> (STAR \<notin> set t \<longrightarrow> (wildcard_pattern_matches p t \<longleftrightarrow> glob p t))"
  using wild_loop_total wildcard_glob by blast

lemma wildcard_loop_matches_glob_witness:
  "wildcard_pattern_matches (lit ''*.b?r'') (lit ''a.b.bar'') \<longleftrightarrow> glob (lit ''*.b?r'') (lit ''a.b.bar'')"
proof -
  have "STAR \<notin> set (lit ''a.b.bar'')" by simp
  then show ?thesis
    using wildcard_loop_matches_glob [of "lit ''*.b?r''" "lit ''a.b.bar''"] by blast
qed

text \<open>An entry's pattern list matches a target exactly when some plain pattern matches one of the
  target's names and no negated pattern does, whatever the order of the patterns.\<close>

theorem negated_pattern_excludes:
  "match_known_host_patterns ps cs \<longleftrightarrow>
     (\<exists>p \<in> set ps. \<not> starts_with [BANG] p \<and> (\<exists>c \<in> set cs. wildcard_pattern_matches p c))
     \<and> \<not> (\<exists>p \<in> set ps. starts_with [BANG] p \<and> (\<exists>c \<in> set cs. wildcard_pattern_matches (drop 1 p) c))"
  by (auto simp: match_known_host_patterns_def match_patterns_loop_iff)

text \<open>C2: The host-key check succeeds only for a key the known hosts confirm, or for an unknown host
  whose fingerprint the user accepted; a changed key is an error without a question and leaves the
  file alone, and the file never changes without the user's consent.\<close>

theorem check_host_key_trust:
  assumes "check_host_key env file h p decide = (r, file', asked)"
    and "hk_server_key env = Some key"
  shows "(r = Inr () \<longrightarrow>
            resolve_with_fallback env file h p key = CheckMatch
            \<or> (resolve_with_fallback env file h p key \<in> {CheckNotFound, CheckFailure}
               \<and> decide (sha256_fingerprint env key) h p = Accept))
       \<and> (resolve_with_fallback env file h p key = CheckMismatch \<longrightarrow>
            r \<noteq> Inr () \<and> file' = file \<and> asked = [])
       \<and> (file' \<noteq> file \<longrightarrow> decide (sha256_fingerprint env key) h p = Accept)"
  using assms
  by (auto simp: check_host_key_def Let_def
      split: option.splits check_result.splits host_key_decision.splits prod.splits)

text \<open>A server key in wire format, and an environment in which the file is empty and the server sends
  that key.\<close>

definition sample_key :: "u8 list" where
  "sample_key = [0, 0, 0, 3, 114, 115, 97, 7]"

definition sample_env :: "check_result \<Rightarrow> host_key_env" where
  "sample_env r =
     \<lparr>hk_path_error = None, hk_session_error = None, hk_read_error = (\<lambda>_. None),
      hk_server_key = Some sample_key, hk_check = (\<lambda>_ _ _. r), hk_check_port = (\<lambda>_ _ _ _. r),
      hk_parse_file = (\<lambda>_. None), hk_parse_key = Some, hk_mac = (\<lambda>_ m. Some m),
      hk_sha256 = (\<lambda>k. take 2 k), hk_base64 = map unat, hk_ensure_dir_error = None,
      hk_tail_error = None, hk_open_error = None, hk_write_error = None\<rparr>"

lemmas sample_defs = sample_env_def sample_key_def check_host_key_def resolve_with_fallback_def
  resolve_known_host_check_result_def aggregate_check_results_def check_known_hosts_with_parser_def
  append_known_hosts_entry_def known_hosts_entry_line_def host_key_algorithm_name_def
  known_hosts_ends_mid_line_def known_hosts_entry_host_def sha256_fingerprint_def hex_byte_def
  hex_digit_def utf8_char_def

lemma check_host_key_trust_witness:
  "check_host_key (sample_env CheckNotFound) (Some [35]) [97] 22 (\<lambda>_ _ _. Accept)
     = (Inr (), Some ([35, 10, 97, 32, 114, 115, 97, 32] @ [0, 0, 0, 3, 114, 115, 97, 7] @ [10]),
        [(lit ''00:00'', [97], 22)])
   \<and> (resolve_with_fallback (sample_env CheckNotFound) (Some [35]) [97] 22 sample_key = CheckMatch
      \<or> (resolve_with_fallback (sample_env CheckNotFound) (Some [35]) [97] 22 sample_key \<in> {CheckNotFound, CheckFailure}
         \<and> (\<lambda>_ _ _. Accept) (sha256_fingerprint (sample_env CheckNotFound) sample_key) [97 :: nat] (22 :: u16) = Accept))"
proof -
  have run: "check_host_key (sample_env CheckNotFound) (Some [35]) [97] 22 (\<lambda>_ _ _. Accept)
     = (Inr (), Some ([35, 10, 97, 32, 114, 115, 97, 32] @ [0, 0, 0, 3, 114, 115, 97, 7] @ [10]),
        [(lit ''00:00'', [97], 22)])"
    by (simp add: sample_defs)
  have key: "hk_server_key (sample_env CheckNotFound) = Some sample_key" by (simp add: sample_env_def)
  show ?thesis using run check_host_key_trust [OF run key] by blast
qed

text \<open>C15: The password leaves the machine only after the host-key check has succeeded for the host and
  port of the location, and it is the password given for that user; a connection is returned only
  when the check succeeded and the server reports the session as authenticated.\<close>

theorem password_after_host_key:
  assumes "connect env file spec u pw decide = (r, file', evs)"
  shows "(\<forall>u' pw'. SentPassword u' pw' \<in> set evs \<longrightarrow>
            fst (check_host_key (cn_host_key env) file (rs_host spec) (rs_port spec) decide) = Inr ()
            \<and> u' = u \<and> pw' = pw)
       \<and> (\<forall>s. r = Inr s \<longrightarrow>
            fst (check_host_key (cn_host_key env) file (rs_host spec) (rs_port spec) decide) = Inr ()
            \<and> cn_authenticated env)"
  using connect_password_checked [OF assms] connect_ok assms by blast

lemma password_after_host_key_witness:
  "\<exists>env file spec u pw decide r file' evs.
     connect env file spec u pw decide = (r, file', evs)
     \<and> SentPassword u pw \<in> set evs
     \<and> fst (check_host_key (cn_host_key env) file (rs_host spec) (rs_port spec) decide) = Inr ()"
proof -
  let ?env = "\<lparr>cn_resolve = Inr [Inl (lit ''refused''), Inr 4], cn_session_error = None,
     cn_handshake_error = None, cn_host_key = sample_env CheckMatch, cn_userauth_error = None,
     cn_authenticated = True, cn_sftp_error = None\<rparr>"
  let ?spec = "\<lparr>rs_host = [97], rs_port = 22, rs_user = None, rs_path = [47], rs_password = None\<rparr>"
  have run: "connect ?env None ?spec [98] [99] (\<lambda>_ _ _. Reject)
      = (Inr 4, None, [Handshake 4, SentPassword [98] [99]])"
    by (simp add: connect_def connect_tcp_def hostkey_preferences_def known_host_algorithms_for_target_def
        hostkey_method_preferences_from_known_hosts_def sample_defs)
  have sent: "SentPassword [98] [99] \<in> set [Handshake 4, SentPassword [98] [99]]" by simp
  then have "fst (check_host_key (cn_host_key ?env) None (rs_host ?spec) (rs_port ?spec) (\<lambda>_ _ _. Reject)) = Inr ()"
    using password_after_host_key [OF run] by blast
  with run sent show ?thesis by (intro exI conjI)
qed

text \<open>The name stored for an accepted key, read back as the pattern list of its entry, matches the
  same host and port and no other plain host or port.\<close>

theorem stored_entry_matches_its_host_only:
  assumes "plain_host h" "plain_host h'"
  shows "match_known_host_patterns [known_hosts_entry_host h p] (host_match_candidates h' p')
    \<longleftrightarrow> h = h' \<and> p = p'"
  using assms by (rule entry_host_match)

lemma stored_entry_matches_its_host_only_witness:
  "match_known_host_patterns [known_hosts_entry_host (lit ''::1'') 2222] (host_match_candidates (lit ''::1'') 2222)
   \<and> \<not> match_known_host_patterns [known_hosts_entry_host (lit ''::1'') 2222] (host_match_candidates (lit ''::1'') 22)"
proof -
  have "plain_host (lit ''::1'')" by (simp add: plain_host_def starts_with_def)
  then show ?thesis
    using stored_entry_matches_its_host_only [of "lit ''::1''" "lit ''::1''" 2222 2222]
      stored_entry_matches_its_host_only [of "lit ''::1''" "lit ''::1''" 2222 22] by simp
qed

text \<open>Accepting a key appends exactly one line to the file and changes no line that was there, also
  when the last of them is not terminated.\<close>

theorem accepted_key_appends_one_line:
  assumes "append_known_hosts_entry env file host key = (Inr (), file')"
    and "known_hosts_entry_line env host key = Inr entry"
    and "\<forall>c \<in> set entry. c < 1114112 \<and> c \<noteq> 10"
  shows "\<exists>bs. file' = Some bs \<and> text_lines bs = text_lines (case file of None \<Rightarrow> [] | Some b \<Rightarrow> b) @ [utf8 entry]"
proof -
  let ?old = "case file of None \<Rightarrow> [] | Some b \<Rightarrow> b"
  have "utf8_char 10 = [10]" by (simp add: utf8_char_def)
  then have "file' = Some (?old @ (if ?old \<noteq> [] \<and> last ?old \<noteq> 10 then [10] else []) @ utf8 entry @ [10])"
    using assms(1,2)
    by (auto simp: append_known_hosts_entry_def known_hosts_ends_mid_line_def Let_def result_simps
        split: option.splits if_splits sum.splits prod.splits)
  then show ?thesis using text_lines_append [OF utf8_newline [OF assms(3)], of ?old] by blast
qed

lemma accepted_key_appends_one_line_witness:
  "\<exists>bs. append_known_hosts_entry (sample_env CheckNotFound) (Some [35]) [97] sample_key = (Inr (), Some bs)
     \<and> text_lines bs = [[35], [97, 32, 114, 115, 97, 32, 0, 0, 0, 3, 114, 115, 97, 7]]"
proof -
  let ?f = "Some ([35, 10, 97, 32, 114, 115, 97, 32] @ [0, 0, 0, 3, 114, 115, 97, 7] @ [10])"
  have run: "append_known_hosts_entry (sample_env CheckNotFound) (Some [35]) [97] sample_key = (Inr (), ?f)"
    and entry: "known_hosts_entry_line (sample_env CheckNotFound) [97] sample_key
      = Inr [97, 32, 114, 115, 97, 32, 0, 0, 0, 3, 114, 115, 97, 7]"
    by (simp_all add: sample_defs)
  show ?thesis
    using accepted_key_appends_one_line [OF run entry] run
    by (simp add: utf8_char_def) (simp add: text_lines_def)
qed

end
