(* ===== verification/Sanitize.thy ===== *)
theory Sanitize
  imports Prelude
begin

text \<open>
  File names made safe and the Markdown source rewritten for the preview:
  \<^verbatim>\<open>src/fulgur/utils/sanitize.rs\<close>. Offsets into the source are byte offsets (\<open>blen\<close> of a prefix). The
  Markdown parser is a parameter, and gives the tree whose nodes carry their kind and position.
\<close>

section \<open>File names\<close>

definition last_nonempty :: "rstr list \<Rightarrow> rstr" where
  "last_nonempty ps = (case List.find (\<lambda>p. p \<noteq> []) (rev ps) of Some p \<Rightarrow> p | None \<Rightarrow> [])"

definition sanitize_filename :: "rstr \<Rightarrow> rstr" where
  "sanitize_filename f =
     (let normalized = replace_char 92 [47] f;
          base_name = last_nonempty (split_on 47 normalized);
          sanitized = filter (\<lambda>c. \<not> is_control c) (replace_char 0 [] base_name)
      in if sanitized = [46, 46] \<or> sanitized = [46] then lit ''untitled''
         else if trim sanitized = [] then lit ''untitled''
         else sanitized)"

section \<open>The preview source\<close>

type_synonym range = "nat \<times> nat"

datatype node_kind = TextNode | InlineCode | InlineMath | HtmlNode | OtherNode

datatype md_node = MdNode node_kind "range option" "md_node list"

fun collect_inline_ranges :: "md_node \<Rightarrow> range list \<times> range list \<Rightarrow> range list \<times> range list"
and collect_children :: "md_node list \<Rightarrow> range list \<times> range list \<Rightarrow> range list \<times> range list" where
  "collect_inline_ranges (MdNode k pos children) (ts, hs) =
     (let acc =
        (case pos of
           None \<Rightarrow> (ts, hs)
         | Some r \<Rightarrow>
             (case k of
                TextNode \<Rightarrow> (ts @ [r], hs)
              | InlineCode \<Rightarrow> (ts @ [r], hs)
              | InlineMath \<Rightarrow> (ts @ [r], hs)
              | HtmlNode \<Rightarrow> (ts @ [r], hs @ [r])
              | OtherNode \<Rightarrow> (ts, hs)))
      in collect_children children acc)"
| "collect_children [] acc = acc"
| "collect_children (n # ns) acc = collect_children ns (collect_inline_ranges n acc)"

text \<open>The merged ranges, the last one first, as the loop over the sorted ranges keeps them.\<close>

fun merge_loop :: "range list \<Rightarrow> range list \<Rightarrow> range list" where
  "merge_loop merged [] = merged"
| "merge_loop merged ((s, e) # rs) =
     (case merged of
        [] \<Rightarrow> merge_loop [(s, e)] rs
      | (s0, e0) # ms \<Rightarrow>
          if s \<le> e0 then merge_loop ((s0, max e0 e) # ms) rs
          else merge_loop ((s, e) # (s0, e0) # ms) rs)"

definition merge_ranges :: "range list \<Rightarrow> range list" where
  "merge_ranges rs = rev (merge_loop [] (sort_key fst rs))"

text \<open>\<open>binary_search_by\<close> of the standard library: the interval of \<open>n\<close> elements from \<open>base\<close> is halved until
  one element is left.\<close>

datatype cmp_order = CmpLess | CmpEqual | CmpGreater

function search_base :: "(nat \<Rightarrow> cmp_order) \<Rightarrow> nat \<Rightarrow> nat \<Rightarrow> nat" where
  "search_base cmp base n =
     (if n \<le> 1 then base
      else
        let half = n div 2; mid = base + half in
        search_base cmp (if cmp mid = CmpGreater then base else mid) (n - half))"
  by pat_completeness auto
termination by (relation "measure (\<lambda>(cmp, base, n). n)") auto

declare search_base.simps [simp del]

definition range_ordering :: "nat \<Rightarrow> range \<Rightarrow> cmp_order" where
  "range_ordering off r = (if off < fst r then CmpGreater else if off \<ge> snd r then CmpLess else CmpEqual)"

definition offset_in_ranges :: "nat \<Rightarrow> range list \<Rightarrow> bool" where
  "offset_in_ranges off rs =
     (if rs = [] then False
      else let cmp = (\<lambda>i. range_ordering off (rs ! i)) in cmp (search_base cmp 0 (length rs)) = CmpEqual)"

definition eq_ignore_case :: "u8 \<Rightarrow> u8 \<Rightarrow> bool" where
  "eq_ignore_case a b = (ascii_lower (unat a) = ascii_lower (unat b))"

text \<open>The length of a break tag at the head of the remaining bytes.\<close>

definition br_tag_len :: "u8 list \<Rightarrow> nat option" where
  "br_tag_len bytes =
     (if length bytes < 4 \<or> bytes ! 0 \<noteq> 60 \<or> \<not> eq_ignore_case (bytes ! 1) 98
         \<or> \<not> eq_ignore_case (bytes ! 2) 114 \<or> bytes ! 3 \<notin> {62, 47, 32, 9, 13, 10}
      then None
      else map_option Suc (position (\<lambda>b. b = 62) bytes))"

fun skip_to :: "nat \<Rightarrow> nat \<Rightarrow> rstr \<Rightarrow> nat \<times> rstr" where
  "skip_to tag_end off [] = (off, [])"
| "skip_to tag_end off (c # cs) =
     (if off < tag_end then skip_to tag_end (off + len_utf8 c) cs else (off, c # cs))"

fun skip_blanks :: "range list \<Rightarrow> nat \<Rightarrow> rstr \<Rightarrow> nat \<times> rstr" where
  "skip_blanks ts off [] = (off, [])"
| "skip_blanks ts off (c # cs) =
     (if (c = 32 \<or> c = 9) \<and> offset_in_ranges off ts then skip_blanks ts (off + len_utf8 c) cs
      else (off, c # cs))"

lemma skip_to_shrinks: "skip_to e off cs = (off', cs') \<Longrightarrow> length cs' \<le> length cs"
  by (induction cs arbitrary: off) (auto split: if_splits intro: le_SucI)

lemma skip_blanks_shrinks: "skip_blanks ts off cs = (off', cs') \<Longrightarrow> length cs' \<le> length cs"
  by (induction cs arbitrary: off) (auto split: if_splits intro: le_SucI)

text \<open>The rewriting loop from the byte offset \<open>off\<close> with the remaining characters.\<close>

function rewrite_from :: "range list \<Rightarrow> range list \<Rightarrow> nat \<Rightarrow> rstr \<Rightarrow> rstr" where
  "rewrite_from ts hs off [] = []"
| "rewrite_from ts hs off (c # cs) =
     (case (if c = 60 \<and> offset_in_ranges off hs then br_tag_len (utf8 (c # cs)) else None) of
        Some n \<Rightarrow>
          (let (off', cs') = skip_to (off + n) (off + len_utf8 c) cs in 32 # rewrite_from ts hs off' cs')
      | None \<Rightarrow>
          if c = 10 \<and> offset_in_ranges off ts then
            (let (off', cs') = skip_blanks ts (off + len_utf8 c) cs in 32 # rewrite_from ts hs off' cs')
          else c # rewrite_from ts hs (off + len_utf8 c) cs)"
  by pat_completeness auto
termination
  by (relation "measure (\<lambda>(ts, hs, off, cs). length cs)")
    (auto simp: less_Suc_eq_le split: prod.splits dest: skip_to_shrinks skip_blanks_shrinks)

definition rewrite_inline :: "rstr \<Rightarrow> range list \<Rightarrow> range list \<Rightarrow> rstr" where
  "rewrite_inline source ts hs = rewrite_from ts hs 0 source"

definition sanitize_markdown_preview :: "(rstr \<Rightarrow> md_node option) \<Rightarrow> rstr \<Rightarrow> rstr" where
  "sanitize_markdown_preview to_mdast source =
     (case to_mdast source of
        None \<Rightarrow> source
      | Some ast \<Rightarrow>
          let (ts, hs) = collect_inline_ranges ast ([], []) in
          if ts = [] \<and> hs = [] then source
          else rewrite_inline source (merge_ranges ts) (merge_ranges hs))"

section \<open>Properties\<close>

lemma last_nonempty_in: "last_nonempty ps = [] \<or> last_nonempty ps \<in> set ps"
  by (auto simp: last_nonempty_def find_Some_iff split: option.splits) (metis length_rev nth_mem set_rev)

lemma sanitized_chars:
  "c \<in> set (sanitize_filename f) \<Longrightarrow> c \<noteq> 47 \<and> c \<noteq> 92 \<and> \<not> is_control c"
proof -
  assume c: "c \<in> set (sanitize_filename f)"
  let ?b = "last_nonempty (split_on 47 (replace_char 92 [47] f))"
  have u: "x \<in> set (lit ''untitled'') \<Longrightarrow> x \<noteq> 47 \<and> x \<noteq> 92 \<and> \<not> is_control x" for x
    by (auto simp: is_control_def)
  have n: "92 \<notin> set (replace_char 92 [47] f)" by (auto simp: replace_char_def split: if_splits)
  have "x \<noteq> 47 \<and> x \<noteq> 92" if "x \<in> set ?b" for x
    using last_nonempty_in [of "split_on 47 (replace_char 92 [47] f)"] that n
      split_on_no_sep split_on_chars by fastforce
  moreover have "set (replace_char 0 [] ?b) \<subseteq> set ?b" by (auto simp: replace_char_def split: if_splits)
  ultimately show ?thesis using c u unfolding sanitize_filename_def Let_def
    by (auto split: if_splits simp del: lit_Cons)
qed

text \<open>A sanitized file name is never empty, blank, a dot or two dots, and holds no path separator and
  no control character, so joining it to a directory stays in that directory.\<close>

theorem sanitized_name_is_safe:
  "trim (sanitize_filename f) \<noteq> [] \<and> sanitize_filename f \<notin> {[46], [46, 46]}
   \<and> (\<forall>c \<in> set (sanitize_filename f). c \<noteq> 47 \<and> c \<noteq> 92 \<and> \<not> is_control c)"
proof -
  have u: "trim (lit ''untitled'') \<noteq> []" "lit ''untitled'' \<noteq> [46]" "lit ''untitled'' \<noteq> [46, 46]"
    by (simp_all add: trim_def trim_start_def trim_end_def is_ws_def)
  have "trim (sanitize_filename f) \<noteq> [] \<and> sanitize_filename f \<notin> {[46], [46, 46]}"
  proof -
    define s where "s = filter (\<lambda>c. \<not> is_control c) (replace_char 0 [] (last_nonempty (split_on 47 (replace_char 92 [47] f))))"
    have "sanitize_filename f = (if s = [46, 46] \<or> s = [46] \<or> trim s = [] then lit ''untitled'' else s)"
      by (simp add: sanitize_filename_def s_def Let_def del: lit_Cons)
    then show ?thesis using u
      by (cases "s = [46, 46] \<or> s = [46] \<or> trim s = []") (simp_all del: lit_Cons)
  qed
  then show ?thesis using sanitized_chars by blast
qed

lemma sanitized_name_is_safe_witness:
  "sanitize_filename (lit ''../x'') = lit ''x'' \<and> 47 \<notin> set (sanitize_filename (lit ''../x''))"
proof -
  have "47 \<notin> set (sanitize_filename (lit ''../x''))" using sanitized_name_is_safe [of "lit ''../x''"] by blast
  moreover have "sanitize_filename (lit ''../x'') = lit ''x''"
    by (simp add: sanitize_filename_def replace_char_def last_nonempty_def is_control_def trim_def trim_start_def
        trim_end_def is_ws_def Let_def)
  ultimately show ?thesis by blast
qed

definition in_some_range :: "nat \<Rightarrow> range list \<Rightarrow> bool" where
  "in_some_range off rs \<longleftrightarrow> (\<exists>r \<in> set rs. fst r \<le> off \<and> off < snd r)"

definition disjoint_sorted :: "range list \<Rightarrow> bool" where
  "disjoint_sorted rs \<longleftrightarrow> sorted_wrt (\<lambda>a b. snd a < fst b) rs \<and> (\<forall>r \<in> set rs. fst r \<le> snd r)"

lemma search_base_finds:
  assumes "0 < n" "base \<le> k" "k < base + n"
    and order: "\<And>m. m < k \<Longrightarrow> cmp m \<noteq> CmpGreater" "\<And>m. k < m \<Longrightarrow> m < base + n \<Longrightarrow> cmp m = CmpGreater"
    and eq: "cmp k = CmpEqual"
  shows "search_base cmp base n = k"
  using assms
proof (induction cmp base n rule: search_base.induct)
  case (1 cmp base n)
  show ?case
  proof (cases "n \<le> 1")
    case True
    then show ?thesis using "1.prems" by (simp add: search_base.simps)
  next
    case False
    let ?half = "n div 2"
    let ?mid = "base + ?half"
    have step: "search_base cmp base n = search_base cmp (if cmp ?mid = CmpGreater then base else ?mid) (n - ?half)"
      using False by (subst search_base.simps) (simp add: Let_def)
    have h: "0 < ?half" "?half \<le> n - ?half" "?half < n" using False by auto
    show ?thesis
    proof (cases "cmp ?mid = CmpGreater")
      case True
      then have "k < ?mid" using "1.prems"(4,6) by (metis cmp_order.distinct(6) linorder_neqE_nat)
      then show ?thesis unfolding step using "1.IH" [OF False refl refl] "1.prems" True h by simp
    next
      case not_greater: False
      then have "?mid \<le> k" using "1.prems"(5) h by (metis add_less_cancel_left not_le)
      then show ?thesis unfolding step using "1.IH" [OF False refl refl] "1.prems" not_greater h by simp
    qed
  qed
qed

lemma search_base_bound: "0 < n \<Longrightarrow> search_base cmp b n < b + n"
proof (induction cmp b n rule: search_base.induct)
  case (1 cmp b n)
  show ?case
  proof (cases "n \<le> 1")
    case True
    then show ?thesis using 1 by (simp add: search_base.simps)
  next
    case False
    let ?b = "if cmp (b + n div 2) = CmpGreater then b else b + n div 2"
    have "search_base cmp b n = search_base cmp ?b (n - n div 2)"
      using False by (subst search_base.simps) (simp add: Let_def)
    moreover have "search_base cmp ?b (n - n div 2) < ?b + (n - n div 2)"
      using "1.IH" [OF False refl refl] False by simp
    moreover have "?b + (n - n div 2) \<le> b + n" by simp
    ultimately show ?thesis by linarith
  qed
qed

lemma offset_in_ranges_iff:
  assumes "disjoint_sorted rs"
  shows "offset_in_ranges off rs \<longleftrightarrow> in_some_range off rs"
proof
  assume "offset_in_ranges off rs"
  then have rs: "rs \<noteq> []" and eq: "range_ordering off (rs ! search_base (\<lambda>i. range_ordering off (rs ! i)) 0 (length rs)) = CmpEqual"
    by (auto simp: offset_in_ranges_def Let_def split: if_splits)
  define i where "i = search_base (\<lambda>i. range_ordering off (rs ! i)) 0 (length rs)"
  have "i < length rs" using search_base_bound [of "length rs" _ 0] rs by (simp add: i_def)
  moreover have "range_ordering off (rs ! i) = CmpEqual" using eq by (simp add: i_def)
  ultimately show "in_some_range off rs" unfolding in_some_range_def
    by (intro bexI [of _ "rs ! i"]) (auto simp: range_ordering_def split: if_splits)
next
  assume "in_some_range off rs"
  then obtain k where k: "k < length rs" "fst (rs ! k) \<le> off" "off < snd (rs ! k)"
    by (auto simp: in_some_range_def in_set_conv_nth)
  have lt: "snd (rs ! i) < fst (rs ! j)" if "i < j" "j < length rs" for i j
    using assms that by (simp add: disjoint_sorted_def sorted_wrt_iff_nth_less)
  have le: "fst (rs ! i) \<le> snd (rs ! i)" if "i < length rs" for i
    using assms that by (simp add: disjoint_sorted_def)
  let ?cmp = "\<lambda>i. range_ordering off (rs ! i)"
  have "search_base ?cmp 0 (length rs) = k"
  proof (rule search_base_finds)
    fix m assume "m < k"
    then show "?cmp m \<noteq> CmpGreater" using lt [of m k] le [of m] k by (auto simp: range_ordering_def)
  next
    fix m assume "k < m" "m < 0 + length rs"
    then show "?cmp m = CmpGreater" using lt [of k m] k by (auto simp: range_ordering_def)
  qed (use k in \<open>auto simp: range_ordering_def\<close>)
  then show "offset_in_ranges off rs" using k by (auto simp: offset_in_ranges_def range_ordering_def)
qed

lemma merge_loop_spec:
  assumes "sorted_wrt (\<lambda>a b. snd b < fst a) m" "\<forall>r \<in> set m \<union> set rs. fst r \<le> snd r"
    and "sorted (map fst rs)" "\<forall>r \<in> set rs. \<forall>q \<in> set m. fst q \<le> fst r"
  shows "disjoint_sorted (rev (merge_loop m rs))
    \<and> (in_some_range off (merge_loop m rs) \<longleftrightarrow> in_some_range off m \<or> in_some_range off rs)"
  using assms
proof (induction m rs rule: merge_loop.induct)
  case (1 m)
  then show ?case by (auto simp: disjoint_sorted_def sorted_wrt_rev in_some_range_def)
next
  case (2 m s e rs)
  show ?case
  proof (cases m)
    case Nil
    then show ?thesis using 2 by (auto simp: in_some_range_def)
  next
    case (Cons q ms)
    obtain s0 e0 where q: "q = (s0, e0)" by (cases q)
    show ?thesis
    proof (cases "s \<le> e0")
      case True
      have "disjoint_sorted (rev (merge_loop ((s0, max e0 e) # ms) rs))
        \<and> (in_some_range off (merge_loop ((s0, max e0 e) # ms) rs)
             \<longleftrightarrow> in_some_range off ((s0, max e0 e) # ms) \<or> in_some_range off rs)"
        using "2.IH"(2) [OF Cons q [symmetric] True] "2.prems" Cons q by auto
      moreover have "s0 \<le> s" using "2.prems"(4) Cons q by simp
      ultimately show ?thesis using Cons q True by (auto simp: in_some_range_def)
    next
      case False
      have "s0 \<le> e0" using "2.prems"(2) Cons q by simp
      then have "sorted_wrt (\<lambda>a b. snd b < fst a) ((s, e) # (s0, e0) # ms)"
        using "2.prems"(1) Cons q False by auto
      moreover have "\<forall>r \<in> set ((s, e) # (s0, e0) # ms) \<union> set rs. fst r \<le> snd r"
        using "2.prems"(2) Cons q by auto
      moreover have "\<forall>r \<in> set rs. \<forall>q \<in> set ((s, e) # (s0, e0) # ms). fst q \<le> fst r"
        using "2.prems"(3,4) Cons q by auto
      moreover have "sorted (map fst rs)" using "2.prems"(3) by simp
      ultimately have "disjoint_sorted (rev (merge_loop ((s, e) # (s0, e0) # ms) rs))
        \<and> (in_some_range off (merge_loop ((s, e) # (s0, e0) # ms) rs)
             \<longleftrightarrow> in_some_range off ((s, e) # (s0, e0) # ms) \<or> in_some_range off rs)"
        using "2.IH"(3) [OF Cons q [symmetric] False] by blast
      then show ?thesis using Cons q False by (simp add: in_some_range_def) blast
    qed
  qed
qed

lemma merge_ranges_spec:
  assumes "\<forall>r \<in> set rs. fst r \<le> snd r"
  shows "disjoint_sorted (merge_ranges rs) \<and> (in_some_range off (merge_ranges rs) \<longleftrightarrow> in_some_range off rs)"
proof -
  have "disjoint_sorted (rev (merge_loop [] (sort_key fst rs)))
    \<and> (in_some_range off (merge_loop [] (sort_key fst rs)) \<longleftrightarrow> in_some_range off [] \<or> in_some_range off (sort_key fst rs))"
    by (rule merge_loop_spec) (use assms in \<open>auto simp: sorted_sort_key\<close>)
  then show ?thesis by (simp add: merge_ranges_def in_some_range_def)
qed

text \<open>Merging the ranges of the text nodes gives sorted, pairwise separated ranges, and the binary
  search over them finds a byte offset exactly when one of the original ranges holds it.\<close>

theorem merged_ranges_search:
  assumes "\<forall>r \<in> set rs. fst r \<le> snd r"
  shows "disjoint_sorted (merge_ranges rs)
    \<and> (offset_in_ranges off (merge_ranges rs) \<longleftrightarrow> (\<exists>r \<in> set rs. fst r \<le> off \<and> off < snd r))"
  using merge_ranges_spec [OF assms] offset_in_ranges_iff by (metis in_some_range_def)

lemma merged_ranges_search_witness:
  "merge_ranges [(5, 7), (1, 3), (2, 4)] = [(1, 4), (5, 7)]
   \<and> offset_in_ranges 3 (merge_ranges [(5, 7), (1, 3), (2, 4)])"
proof -
  have "\<forall>r \<in> set [(5 :: nat, 7 :: nat), (1, 3), (2, 4)]. fst r \<le> snd r" by simp
  from merged_ranges_search [OF this, of 3] show ?thesis by (simp add: merge_ranges_def)
qed

end
