(* ===== verification/Editor_Tab.thy ===== *)
theory Editor_Tab
  imports Languages Csv Known_Hosts Sanitize
begin

unbundle bit_operations_syntax

text \<open>
  One tab: \<^verbatim>\<open>src/fulgur/ui/tabs/editor_tab/\<close> (the constructors, the content fingerprint, the modified
  flag, the language, the transfer of a tab to another window), \<^verbatim>\<open>src/fulgur/ui/tabs/tab.rs\<close> (the sum of
  the kinds of tabs and what happens to a tab when its text changes) and the color tags.

  The text buffer of the editor component is the record \<open>editor_state\<close>: its identity, text, cursor and
  display options. Creating a buffer (\<open>cx.new\<close>) takes the identity the framework gives it as an argument,
  and the time of day is an argument too. The languages of the component are in \<open>lang_env\<close>.
\<close>

section \<open>Fingerprints\<close>

definition LARGE_FILE_THRESHOLD_BYTES :: nat where
  "LARGE_FILE_THRESHOLD_BYTES = 50 * 1024 * 1024"

definition is_large_file :: "nat \<Rightarrow> bool" where
  "is_large_file content_len \<longleftrightarrow> content_len > LARGE_FILE_THRESHOLD_BYTES"

definition FNV_OFFSET_BASIS :: u64 where "FNV_OFFSET_BASIS = 0xcbf29ce484222325"

definition FNV_PRIME :: u64 where "FNV_PRIME = 0x00000100000001b3"

definition fnv1a_update :: "u64 \<Rightarrow> u8 list \<Rightarrow> u64" where
  "fnv1a_update hash bytes = foldl (\<lambda>h b. (h XOR ucast b) * FNV_PRIME) hash bytes"

definition content_fingerprint_from_str :: "rstr \<Rightarrow> u64 \<times> nat" where
  "content_fingerprint_from_str content = (fnv1a_update FNV_OFFSET_BASIS (utf8 content), blen content)"

text \<open>A rope is the list of its chunks.\<close>

definition content_fingerprint_from_rope :: "rstr list \<Rightarrow> u64 \<times> nat" where
  "content_fingerprint_from_rope chunks =
     foldl (\<lambda>(h, n) chunk. (fnv1a_update h (utf8 chunk), n + blen chunk)) (FNV_OFFSET_BASIS, 0) chunks"

section \<open>Types\<close>

datatype tab_location = LocLocal rstr | LocRemote remote_spec | LocUntitled

datatype csv_view_mode = CsvTable | CsvText

datatype color_tag =
    Red | RedLight | Green | GreenLight | Blue | BlueLight | Yellow | YellowLight
  | Magenta | MagentaLight | Cyan | CyanLight | Accent | Primary

datatype markdown_preview_mode = DedicatedTab | Panel

record editor_settings =
  st_show_line_numbers :: bool
  st_show_indent_guides :: bool
  st_tab_size :: nat
  st_use_spaces :: bool
  st_soft_wrap :: bool
  st_show_whitespaces :: bool
  st_highlight_colors :: bool
  st_show_markdown_toolbar :: bool
  st_show_markdown_preview :: bool
  st_preview_mode :: markdown_preview_mode

type_synonym position_lc = "nat \<times> nat"

record editor_state =
  es_id :: nat
  es_text :: rstr
  es_cursor :: position_lc
  es_language :: rstr
  es_line_number :: bool
  es_indent_guides :: bool
  es_tab_size :: nat
  es_hard_tabs :: bool
  es_soft_wrap :: bool
  es_folding :: bool
  es_show_whitespaces :: bool
  es_color_provider :: bool

record editor_tab =
  et_id :: nat
  et_title :: rstr
  et_content :: editor_state
  et_location :: tab_location
  et_modified :: bool
  et_original_content_hash :: u64
  et_original_content_len :: nat
  et_encoding :: rstr
  et_lossy_decode :: bool
  et_language :: supported_language
  et_show_markdown_toolbar :: bool
  et_show_markdown_preview :: bool
  et_file_size_bytes :: "nat option"
  et_file_last_modified :: "nat option"
  et_large_file :: bool
  et_csv_view_mode :: csv_view_mode
  et_csv_delimiter :: u8
  et_csv_table :: "csv_delegate option"
  et_csv_table_source_hash :: u64
  et_color_tag :: "color_tag option"
  et_log_view :: bool
  et_log_follow :: bool
  et_log_full :: bool
  et_log_content :: "editor_state option"
  et_content_subscription :: "nat option"

record tab_transfer_data =
  td_title :: rstr
  td_content :: rstr
  td_location :: tab_location
  td_modified :: bool
  td_original_content_hash :: u64
  td_original_content_len :: nat
  td_encoding :: rstr
  td_lossy_decode :: bool
  td_language :: supported_language
  td_show_markdown_toolbar :: bool
  td_show_markdown_preview :: bool
  td_file_size_bytes :: "nat option"
  td_file_last_modified :: "nat option"
  td_cursor_position :: position_lc
  td_csv_view_mode :: csv_view_mode
  td_csv_delimiter :: u8
  td_color_tag :: "color_tag option"
  td_log_view :: bool

record from_file_params =
  fp_id :: nat
  fp_path :: rstr
  fp_contents :: rstr
  fp_encoding :: rstr
  fp_is_modified :: bool

record from_duplicate_params =
  dp_id :: nat
  dp_title :: rstr
  dp_current_content :: rstr
  dp_encoding :: rstr
  dp_lossy_decode :: bool
  dp_language :: supported_language

record remote_file_result =
  rr_spec :: remote_spec
  rr_content :: rstr
  rr_encoding :: rstr
  rr_lossy :: bool
  rr_file_size :: nat

record lang_env =
  le_from_ext :: "rstr \<Rightarrow> native_language"
  le_name :: "native_language \<Rightarrow> rstr"

definition UTF_8 :: rstr where "UTF_8 = lit ''UTF-8''"
definition UNTITLED :: rstr where "UNTITLED = lit ''Untitled''"

section \<open>Color tags\<close>

definition all_color_tags :: "color_tag list" where
  "all_color_tags =
     [Red, RedLight, Green, GreenLight, Blue, BlueLight, Yellow, YellowLight,
      Magenta, MagentaLight, Cyan, CyanLight, Accent, Primary]"

fun color_label :: "color_tag \<Rightarrow> string" where
  "color_label Red = ''Red''" | "color_label RedLight = ''Light Red''"
| "color_label Green = ''Green''" | "color_label GreenLight = ''Light Green''"
| "color_label Blue = ''Blue''" | "color_label BlueLight = ''Light Blue''"
| "color_label Yellow = ''Yellow''" | "color_label YellowLight = ''Light Yellow''"
| "color_label Magenta = ''Magenta''" | "color_label MagentaLight = ''Light Magenta''"
| "color_label Cyan = ''Cyan''" | "color_label CyanLight = ''Light Cyan''"
| "color_label Accent = ''Accent''" | "color_label Primary = ''Primary''"

fun color_key :: "color_tag \<Rightarrow> string" where
  "color_key Red = ''red''" | "color_key RedLight = ''red_light''"
| "color_key Green = ''green''" | "color_key GreenLight = ''green_light''"
| "color_key Blue = ''blue''" | "color_key BlueLight = ''blue_light''"
| "color_key Yellow = ''yellow''" | "color_key YellowLight = ''yellow_light''"
| "color_key Magenta = ''magenta''" | "color_key MagentaLight = ''magenta_light''"
| "color_key Cyan = ''cyan''" | "color_key CyanLight = ''cyan_light''"
| "color_key Accent = ''accent''" | "color_key Primary = ''primary''"

definition color_from_key :: "string \<Rightarrow> color_tag option" where
  "color_from_key k =
     (if k = ''red'' then Some Red else if k = ''red_light'' then Some RedLight
      else if k = ''green'' then Some Green else if k = ''green_light'' then Some GreenLight
      else if k = ''blue'' then Some Blue else if k = ''blue_light'' then Some BlueLight
      else if k = ''yellow'' then Some Yellow else if k = ''yellow_light'' then Some YellowLight
      else if k = ''magenta'' then Some Magenta else if k = ''magenta_light'' then Some MagentaLight
      else if k = ''cyan'' then Some Cyan else if k = ''cyan_light'' then Some CyanLight
      else if k = ''accent'' then Some Accent else if k = ''primary'' then Some Primary
      else None)"

lemma color_from_key_key: "color_from_key (color_key t) = Some t"
  by (cases t) (simp_all add: color_from_key_def)

section \<open>Locations and buffers\<close>

fun local_path :: "tab_location \<Rightarrow> rstr option" where
  "local_path (LocLocal p) = Some p"
| "local_path _ = None"

fun display_path :: "tab_location \<Rightarrow> rstr" where
  "display_path (LocLocal p) = p"
| "display_path (LocRemote spec) =
     (case rs_user spec of Some u \<Rightarrow> u | None \<Rightarrow> lit ''?'') @ [AT] @ rs_host spec @ [COLON] @ rs_path spec"
| "display_path LocUntitled = []"

fun is_untitled :: "tab_location \<Rightarrow> bool" where
  "is_untitled LocUntitled = True"
| "is_untitled _ = False"

definition file_path :: "editor_tab \<Rightarrow> rstr option" where
  "file_path t = local_path (et_location t)"

definition make_input_state ::
  "lang_env \<Rightarrow> nat \<Rightarrow> rstr \<Rightarrow> rstr option \<Rightarrow> editor_settings \<Rightarrow> bool \<Rightarrow> editor_state" where
  "make_input_state le fresh language_name content settings large_file =
     \<lparr>es_id = fresh,
      es_text = (case content of Some c \<Rightarrow> c | None \<Rightarrow> []),
      es_cursor = (0, 0),
      es_language = (if large_file then language_registry_name (le_name le) L_Plain else language_name),
      es_line_number = st_show_line_numbers settings,
      es_indent_guides = (st_show_indent_guides settings \<and> \<not> large_file),
      es_tab_size = st_tab_size settings,
      es_hard_tabs = (\<not> st_use_spaces settings),
      es_soft_wrap = (st_soft_wrap settings \<and> \<not> large_file),
      es_folding = (\<not> large_file),
      es_show_whitespaces = (st_show_whitespaces settings \<and> \<not> large_file),
      es_color_provider = (st_highlight_colors settings \<and> \<not> large_file)\<rparr>"

text \<open>Setting the cursor clips the position to the text; \<open>clip\<close> is the component's rule.\<close>

definition set_cursor_position :: "(rstr \<Rightarrow> position_lc \<Rightarrow> position_lc) \<Rightarrow> position_lc \<Rightarrow> editor_state \<Rightarrow> editor_state" where
  "set_cursor_position clip pos s = s\<lparr>es_cursor := clip (es_text s) pos\<rparr>"

definition initial_csv_state :: "supported_language \<Rightarrow> rstr \<Rightarrow> csv_view_mode \<times> u8" where
  "initial_csv_state language content =
     (if language = L_Csv
      then (if is_large_file (blen content) then CsvText else CsvTable, detect_delimiter content)
      else (CsvText, DEFAULT_DELIMITER))"

section \<open>Constructors\<close>

definition registry_name :: "lang_env \<Rightarrow> supported_language \<Rightarrow> rstr" where
  "registry_name le l = language_registry_name (le_name le) l"

definition detect_language :: "lang_env \<Rightarrow> rstr \<Rightarrow> rstr \<Rightarrow> supported_language" where
  "detect_language le file_name content = language_from_content (le_from_ext le) file_name content"

definition editor_tab_new :: "lang_env \<Rightarrow> nat \<Rightarrow> nat \<Rightarrow> rstr \<Rightarrow> editor_settings \<Rightarrow> editor_tab" where
  "editor_tab_new le fresh tab_id title settings =
     (let (hash, len) = content_fingerprint_from_str [] in
      \<lparr>et_id = tab_id, et_title = title,
       et_content = make_input_state le fresh (registry_name le L_Plain) None settings False,
       et_location = LocUntitled, et_modified = False,
       et_original_content_hash = hash, et_original_content_len = len,
       et_encoding = UTF_8, et_lossy_decode = False, et_language = L_Plain,
       et_show_markdown_toolbar = st_show_markdown_toolbar settings,
       et_show_markdown_preview = st_show_markdown_preview settings,
       et_file_size_bytes = None, et_file_last_modified = None, et_large_file = False,
       et_csv_view_mode = CsvText, et_csv_delimiter = DEFAULT_DELIMITER, et_csv_table = None,
       et_csv_table_source_hash = 0, et_color_tag = None, et_log_view = False,
       et_log_follow = True, et_log_full = False, et_log_content = None,
       et_content_subscription = None\<rparr>)"

definition editor_tab_from_content ::
  "lang_env \<Rightarrow> nat \<Rightarrow> nat \<Rightarrow> rstr \<Rightarrow> rstr \<Rightarrow> editor_settings \<Rightarrow> editor_tab" where
  "editor_tab_from_content le fresh tab_id contents file_name settings =
     (let language = detect_language le file_name contents;
          large_file = is_large_file (blen contents);
          (mode, delimiter) = initial_csv_state language contents;
          (hash, len) = content_fingerprint_from_str []
      in
      \<lparr>et_id = tab_id, et_title = file_name,
       et_content = make_input_state le fresh (registry_name le language) (Some contents) settings large_file,
       et_location = LocUntitled, et_modified = True,
       et_original_content_hash = hash, et_original_content_len = len,
       et_encoding = UTF_8, et_lossy_decode = False, et_language = language,
       et_show_markdown_toolbar = st_show_markdown_toolbar settings,
       et_show_markdown_preview = st_show_markdown_preview settings,
       et_file_size_bytes = None, et_file_last_modified = None, et_large_file = large_file,
       et_csv_view_mode = mode, et_csv_delimiter = delimiter, et_csv_table = None,
       et_csv_table_source_hash = 0, et_color_tag = None, et_log_view = False,
       et_log_follow = True, et_log_full = False, et_log_content = None,
       et_content_subscription = None\<rparr>)"

definition modified_suffix :: rstr where "modified_suffix = [32, 8226]"

definition editor_tab_from_file ::
  "lang_env \<Rightarrow> nat \<Rightarrow> nat \<Rightarrow> from_file_params \<Rightarrow> editor_settings \<Rightarrow> editor_tab" where
  "editor_tab_from_file le fresh now params settings =
     (let content_len = blen (fp_contents params);
          large_file = is_large_file content_len;
          (hash, len) = (if large_file then (0, content_len)
                         else content_fingerprint_from_str (fp_contents params));
          file_name = (case path_file_name (fp_path params) of Some n \<Rightarrow> n | None \<Rightarrow> UNTITLED);
          language = detect_language le file_name (fp_contents params);
          (mode, delimiter) = initial_csv_state language (fp_contents params)
      in
      \<lparr>et_id = fp_id params,
       et_title = file_name @ (if fp_is_modified params then modified_suffix else []),
       et_content = make_input_state le fresh (registry_name le language) (Some (fp_contents params)) settings large_file,
       et_location = LocLocal (fp_path params), et_modified = fp_is_modified params,
       et_original_content_hash = hash, et_original_content_len = len,
       et_encoding = fp_encoding params, et_lossy_decode = False, et_language = language,
       et_show_markdown_toolbar = st_show_markdown_toolbar settings,
       et_show_markdown_preview = st_show_markdown_preview settings,
       et_file_size_bytes = Some content_len, et_file_last_modified = Some now, et_large_file = large_file,
       et_csv_view_mode = mode, et_csv_delimiter = delimiter, et_csv_table = None,
       et_csv_table_source_hash = 0, et_color_tag = None, et_log_view = False,
       et_log_follow = True, et_log_full = False, et_log_content = None,
       et_content_subscription = None\<rparr>)"

definition editor_tab_from_duplicate ::
  "lang_env \<Rightarrow> nat \<Rightarrow> from_duplicate_params \<Rightarrow> editor_settings \<Rightarrow> editor_tab" where
  "editor_tab_from_duplicate le fresh params settings =
     (let large_file = is_large_file (blen (dp_current_content params));
          (mode, delimiter) = initial_csv_state (dp_language params) (dp_current_content params);
          (hash, len) = content_fingerprint_from_str []
      in
      \<lparr>et_id = dp_id params, et_title = dp_title params,
       et_content = make_input_state le fresh (registry_name le (dp_language params))
                      (Some (dp_current_content params)) settings large_file,
       et_location = LocUntitled, et_modified = True,
       et_original_content_hash = hash, et_original_content_len = len,
       et_encoding = dp_encoding params, et_lossy_decode = dp_lossy_decode params,
       et_language = dp_language params,
       et_show_markdown_toolbar = st_show_markdown_toolbar settings,
       et_show_markdown_preview = st_show_markdown_preview settings,
       et_file_size_bytes = None, et_file_last_modified = None, et_large_file = large_file,
       et_csv_view_mode = mode, et_csv_delimiter = delimiter, et_csv_table = None,
       et_csv_table_source_hash = 0, et_color_tag = None, et_log_view = False,
       et_log_follow = True, et_log_full = False, et_log_content = None,
       et_content_subscription = None\<rparr>)"

text \<open>\<open>rsplit\<close> on the slash and the first piece.\<close>

definition remote_file_name :: "rstr \<Rightarrow> rstr" where
  "remote_file_name p = last (split_on 47 p)"

definition editor_tab_from_remote ::
  "lang_env \<Rightarrow> nat \<Rightarrow> nat \<Rightarrow> remote_spec \<Rightarrow> editor_settings \<Rightarrow> editor_tab" where
  "editor_tab_from_remote le fresh tab_id spec settings =
     (let file_name = remote_file_name (rs_path spec);
          language = detect_language le file_name [];
          (mode, delimiter) = initial_csv_state language [];
          (hash, len) = content_fingerprint_from_str []
      in
      \<lparr>et_id = tab_id, et_title = file_name,
       et_content = make_input_state le fresh (registry_name le language) None settings False,
       et_location = LocRemote spec, et_modified = False,
       et_original_content_hash = hash, et_original_content_len = len,
       et_encoding = UTF_8, et_lossy_decode = False, et_language = language,
       et_show_markdown_toolbar = st_show_markdown_toolbar settings,
       et_show_markdown_preview = st_show_markdown_preview settings,
       et_file_size_bytes = None, et_file_last_modified = None, et_large_file = False,
       et_csv_view_mode = mode, et_csv_delimiter = delimiter, et_csv_table = None,
       et_csv_table_source_hash = 0, et_color_tag = None, et_log_view = False,
       et_log_follow = True, et_log_full = False, et_log_content = None,
       et_content_subscription = None\<rparr>)"

definition editor_tab_from_remote_loaded ::
  "lang_env \<Rightarrow> nat \<Rightarrow> nat \<Rightarrow> nat \<Rightarrow> remote_file_result \<Rightarrow> editor_settings \<Rightarrow> editor_tab" where
  "editor_tab_from_remote_loaded le fresh now tab_id result settings =
     (let file_name = remote_file_name (rs_path (rr_spec result));
          language = detect_language le file_name (rr_content result);
          (mode, delimiter) = initial_csv_state language (rr_content result);
          (hash, len) = content_fingerprint_from_str (rr_content result);
          large_file = is_large_file len
      in
      \<lparr>et_id = tab_id, et_title = file_name,
       et_content = make_input_state le fresh (registry_name le language) (Some (rr_content result)) settings large_file,
       et_location = LocRemote (rr_spec result), et_modified = False,
       et_original_content_hash = hash, et_original_content_len = len,
       et_encoding = rr_encoding result, et_lossy_decode = rr_lossy result, et_language = language,
       et_show_markdown_toolbar = st_show_markdown_toolbar settings,
       et_show_markdown_preview = st_show_markdown_preview settings,
       et_file_size_bytes = Some (rr_file_size result), et_file_last_modified = Some now,
       et_large_file = large_file,
       et_csv_view_mode = mode, et_csv_delimiter = delimiter, et_csv_table = None,
       et_csv_table_source_hash = 0, et_color_tag = None, et_log_view = False,
       et_log_follow = True, et_log_full = False, et_log_content = None,
       et_content_subscription = None\<rparr>)"

definition editor_tab_from_transfer ::
  "lang_env \<Rightarrow> (rstr \<Rightarrow> position_lc \<Rightarrow> position_lc) \<Rightarrow> nat \<Rightarrow> nat \<Rightarrow> tab_transfer_data \<Rightarrow> editor_settings
     \<Rightarrow> editor_tab" where
  "editor_tab_from_transfer le clip fresh tab_id data settings =
     (let large_file = is_large_file (blen (td_content data)) in
      \<lparr>et_id = tab_id, et_title = td_title data,
       et_content = set_cursor_position clip (td_cursor_position data)
                      (make_input_state le fresh (registry_name le (td_language data))
                         (Some (td_content data)) settings large_file),
       et_location = td_location data, et_modified = td_modified data,
       et_original_content_hash = td_original_content_hash data,
       et_original_content_len = td_original_content_len data,
       et_encoding = td_encoding data, et_lossy_decode = td_lossy_decode data,
       et_language = td_language data,
       et_show_markdown_toolbar = td_show_markdown_toolbar data,
       et_show_markdown_preview = td_show_markdown_preview data,
       et_file_size_bytes = td_file_size_bytes data,
       et_file_last_modified = td_file_last_modified data, et_large_file = large_file,
       et_csv_view_mode = td_csv_view_mode data, et_csv_delimiter = td_csv_delimiter data,
       et_csv_table = None, et_csv_table_source_hash = 0, et_color_tag = td_color_tag data,
       et_log_view = td_log_view data, et_log_follow = True, et_log_full = False,
       et_log_content = None, et_content_subscription = None\<rparr>)"

text \<open>\<open>extract_tab_transfer_data\<close> of an editor tab.\<close>

definition tab_transfer_of :: "editor_tab \<Rightarrow> tab_transfer_data" where
  "tab_transfer_of t =
     \<lparr>td_title = et_title t, td_content = es_text (et_content t), td_location = et_location t,
      td_modified = et_modified t, td_original_content_hash = et_original_content_hash t,
      td_original_content_len = et_original_content_len t, td_encoding = et_encoding t,
      td_lossy_decode = et_lossy_decode t, td_language = et_language t,
      td_show_markdown_toolbar = et_show_markdown_toolbar t,
      td_show_markdown_preview = et_show_markdown_preview t,
      td_file_size_bytes = et_file_size_bytes t, td_file_last_modified = et_file_last_modified t,
      td_cursor_position = es_cursor (et_content t), td_csv_view_mode = et_csv_view_mode t,
      td_csv_delimiter = et_csv_delimiter t, td_color_tag = et_color_tag t,
      td_log_view = et_log_view t\<rparr>"

section \<open>Operations\<close>

definition update_file_tooltip_cache :: "nat \<Rightarrow> nat \<Rightarrow> editor_tab \<Rightarrow> editor_tab" where
  "update_file_tooltip_cache now content_len t =
     t\<lparr>et_file_size_bytes := Some content_len, et_file_last_modified := Some now\<rparr>"

definition rebuild_input_state ::
  "lang_env \<Rightarrow> (rstr \<Rightarrow> position_lc \<Rightarrow> position_lc) \<Rightarrow> nat \<Rightarrow> editor_settings \<Rightarrow> editor_tab \<Rightarrow> editor_tab" where
  "rebuild_input_state le clip fresh settings t =
     t\<lparr>et_content := set_cursor_position clip (es_cursor (et_content t))
          (make_input_state le fresh (registry_name le (et_language t))
             (Some (es_text (et_content t))) settings (et_large_file t))\<rparr>"

definition update_settings ::
  "lang_env \<Rightarrow> (rstr \<Rightarrow> position_lc \<Rightarrow> position_lc) \<Rightarrow> nat \<Rightarrow> editor_settings \<Rightarrow> editor_tab \<Rightarrow> editor_tab" where
  "update_settings le clip fresh settings t =
     (let has_provider = es_color_provider (et_content t);
          wants_provider = st_highlight_colors settings \<and> \<not> et_large_file t
      in if has_provider \<noteq> wants_provider then rebuild_input_state le clip fresh settings t
         else t\<lparr>et_content := (et_content t)
                  \<lparr>es_line_number := st_show_line_numbers settings,
                   es_indent_guides := st_show_indent_guides settings \<and> \<not> et_large_file t,
                   es_soft_wrap := st_soft_wrap settings \<and> \<not> et_large_file t,
                   es_show_whitespaces := st_show_whitespaces settings \<and> \<not> et_large_file t\<rparr>\<rparr>)"

definition force_language ::
  "lang_env \<Rightarrow> (rstr \<Rightarrow> position_lc \<Rightarrow> position_lc) \<Rightarrow> nat \<Rightarrow> supported_language \<Rightarrow> editor_settings
     \<Rightarrow> editor_tab \<Rightarrow> editor_tab" where
  "force_language le clip fresh language settings t =
     t\<lparr>et_language := language,
       et_content := set_cursor_position clip (es_cursor (et_content t))
          (make_input_state le fresh (registry_name le language)
             (Some (es_text (et_content t))) settings (et_large_file t))\<rparr>"

definition update_language ::
  "lang_env \<Rightarrow> (rstr \<Rightarrow> position_lc \<Rightarrow> position_lc) \<Rightarrow> nat \<Rightarrow> editor_settings \<Rightarrow> editor_tab \<Rightarrow> editor_tab" where
  "update_language le clip fresh settings t =
     (case local_path (et_location t) of
        None \<Rightarrow> t
      | Some p \<Rightarrow>
          let file_name = (case path_file_name p of Some n \<Rightarrow> n | None \<Rightarrow> []);
              language = detect_language le file_name (es_text (et_content t))
          in if language \<noteq> et_language t then force_language le clip fresh language settings t else t)"

text \<open>The rope of the buffer has the text of the buffer: its fingerprint is that of the one chunk.\<close>

definition content_differs_from_original :: "editor_tab \<Rightarrow> bool" where
  "content_differs_from_original t =
     (let s = es_text (et_content t) in
      if blen s \<noteq> et_original_content_len t then True
      else if et_large_file t then et_modified t
      else fst (content_fingerprint_from_rope [s]) \<noteq> et_original_content_hash t)"

definition check_modified :: "editor_tab \<Rightarrow> editor_tab" where
  "check_modified t = t\<lparr>et_modified := content_differs_from_original t\<rparr>"

definition mark_as_saved :: "editor_tab \<Rightarrow> editor_tab" where
  "mark_as_saved t =
     (let s = es_text (et_content t);
          (hash, len) = (if et_large_file t then (0, blen s) else content_fingerprint_from_rope [s])
      in t\<lparr>et_original_content_hash := hash, et_original_content_len := len, et_modified := False\<rparr>)"

definition set_original_content_from_str :: "rstr \<Rightarrow> editor_tab \<Rightarrow> editor_tab" where
  "set_original_content_from_str content t =
     (let (hash, len) = (if et_large_file t then (0, blen content) else content_fingerprint_from_str content)
      in t\<lparr>et_original_content_hash := hash, et_original_content_len := len\<rparr>)"

definition content_too_large_to_persist :: "editor_tab \<Rightarrow> bool" where
  "content_too_large_to_persist t \<longleftrightarrow> et_large_file t \<or> is_large_file (blen (es_text (et_content t)))"

text \<open>\<open>trim_end_matches\<close> of the suffix shown on a modified tab.\<close>

function trim_end_matches :: "rstr \<Rightarrow> rstr \<Rightarrow> rstr" where
  "trim_end_matches suf s =
     (if suf \<noteq> [] \<and> ends_with suf s then trim_end_matches suf (take (length s - length suf) s) else s)"
  by pat_completeness auto
termination
  by (relation "measure (\<lambda>(suf, s). length s)") (auto simp: ends_with_def, metis diff_less length_greater_0_conv less_le_trans)

declare trim_end_matches.simps [simp del]

definition get_suggested_filename :: "editor_tab \<Rightarrow> rstr option" where
  "get_suggested_filename t =
     (let cleaned = trim (trim_end_matches modified_suffix (et_title t)) in
      if cleaned = [] \<or> starts_with UNTITLED cleaned then None
      else Some (sanitize_filename cleaned))"

definition share_file_name :: "editor_tab \<Rightarrow> rstr" where
  "share_file_name t =
     (case Option.bind (file_path t) path_file_name of
        Some n \<Rightarrow> n
      | None \<Rightarrow> (case get_suggested_filename t of Some n \<Rightarrow> n | None \<Rightarrow> UNTITLED))"

definition is_renameable :: "editor_tab \<Rightarrow> bool" where
  "is_renameable t \<longleftrightarrow> is_untitled (et_location t)"

text \<open>The table of a CSV tab, parsed again unless it shows the buffer; the second component is the message
  that some rows cannot be shown.\<close>

definition ensure_csv_table :: "csv_reader \<Rightarrow> editor_tab \<Rightarrow> editor_tab \<times> rstr option" where
  "ensure_csv_table reader t =
     (if et_large_file t then (t\<lparr>et_csv_view_mode := CsvText, et_csv_table := None\<rparr>, None)
      else
        let s = es_text (et_content t);
            hash = fst (content_fingerprint_from_str s)
        in if (case et_csv_table t of
                 Some tbl \<Rightarrow> et_csv_table_source_hash t = hash \<or> cd_last_commit_hash tbl = Some hash
               | None \<Rightarrow> False)
           then (t\<lparr>et_csv_table_source_hash := hash\<rparr>, None)
           else
             let outcome = parse_csv reader s (et_csv_delimiter t) in
             if co_dropped outcome > 0
             then (t\<lparr>et_csv_view_mode := CsvText, et_csv_table := None\<rparr>,
                   Some (show_nat (co_dropped outcome)
                     @ lit '' malformed CSV row(s) could not be parsed. Showing raw text to avoid data loss.''))
             else (t\<lparr>et_csv_table := Some (new_delegate (co_data outcome) (et_csv_delimiter t) s),
                     et_csv_table_source_hash := hash\<rparr>, None))"


section \<open>Tabs\<close>

record settings_tab =
  sg_id :: nat
  sg_title :: rstr

text \<open>A preview holds a handle of the buffer it was made from, its identity here.\<close>

record markdown_preview_tab =
  mp_id :: nat
  mp_title :: rstr
  mp_source_tab_id :: nat
  mp_content :: nat

datatype tab =
    TabEditor editor_tab
  | TabSettings settings_tab
  | TabPreview markdown_preview_tab

fun tab_id :: "tab \<Rightarrow> nat" where
  "tab_id (TabEditor t) = et_id t"
| "tab_id (TabSettings t) = sg_id t"
| "tab_id (TabPreview t) = mp_id t"

fun tab_title :: "tab \<Rightarrow> rstr" where
  "tab_title (TabEditor t) = et_title t"
| "tab_title (TabSettings t) = sg_title t"
| "tab_title (TabPreview t) = mp_title t"

fun tab_is_modified :: "tab \<Rightarrow> bool" where
  "tab_is_modified (TabEditor t) = et_modified t"
| "tab_is_modified (TabSettings t) = False"
| "tab_is_modified (TabPreview t) = False"

fun as_editor :: "tab \<Rightarrow> editor_tab option" where
  "as_editor (TabEditor t) = Some t"
| "as_editor _ = None"

fun as_markdown_preview :: "tab \<Rightarrow> markdown_preview_tab option" where
  "as_markdown_preview (TabPreview t) = Some t"
| "as_markdown_preview _ = None"

text \<open>The subscription names the buffer whose changes the tab listens to.\<close>

fun attach_content_subscription :: "tab \<Rightarrow> tab" where
  "attach_content_subscription (TabEditor t) =
     TabEditor (t\<lparr>et_content_subscription := Some (es_id (et_content t))\<rparr>)"
| "attach_content_subscription t = t"

text \<open>What the subscription does when the buffer has changed; the second component tells whether the tab
  notifies its observers.\<close>

fun on_content_change :: "tab \<Rightarrow> tab \<times> bool" where
  "on_content_change (TabEditor t) =
     (if et_large_file t then
        (if \<not> et_modified t then (TabEditor (t\<lparr>et_modified := True\<rparr>), True) else (TabEditor t, False))
      else
        let t' = check_modified t in (TabEditor t', et_modified t' \<noteq> et_modified t))"
| "on_content_change t = (t, False)"

definition reattach_if_content_swapped :: "nat \<Rightarrow> tab \<Rightarrow> tab \<times> bool" where
  "reattach_if_content_swapped before t =
     (case t of
        TabEditor e \<Rightarrow>
          (if es_id (et_content e) \<noteq> before then (attach_content_subscription t, True) else (t, False))
      | TabSettings s \<Rightarrow> (t, False)
      | TabPreview p \<Rightarrow> (t, False))"

definition tab_force_language ::
  "lang_env \<Rightarrow> (rstr \<Rightarrow> position_lc \<Rightarrow> position_lc) \<Rightarrow> nat \<Rightarrow> supported_language \<Rightarrow> editor_settings
     \<Rightarrow> tab \<Rightarrow> tab \<times> bool" where
  "tab_force_language le clip fresh language settings t =
     (case t of
        TabEditor e \<Rightarrow>
          reattach_if_content_swapped (es_id (et_content e))
            (TabEditor (force_language le clip fresh language settings e))
      | TabSettings s \<Rightarrow> (t, False)
      | TabPreview p \<Rightarrow> (t, False))"

definition tab_update_settings ::
  "lang_env \<Rightarrow> (rstr \<Rightarrow> position_lc \<Rightarrow> position_lc) \<Rightarrow> nat \<Rightarrow> editor_settings \<Rightarrow> tab \<Rightarrow> tab \<times> bool" where
  "tab_update_settings le clip fresh settings t =
     (case t of
        TabEditor e \<Rightarrow>
          reattach_if_content_swapped (es_id (et_content e))
            (TabEditor (update_settings le clip fresh settings e))
      | TabSettings s \<Rightarrow> (t, False)
      | TabPreview p \<Rightarrow> (t, False))"

definition tab_update_language ::
  "lang_env \<Rightarrow> (rstr \<Rightarrow> position_lc \<Rightarrow> position_lc) \<Rightarrow> nat \<Rightarrow> editor_settings \<Rightarrow> tab \<Rightarrow> tab \<times> bool" where
  "tab_update_language le clip fresh settings t =
     (case t of
        TabEditor e \<Rightarrow>
          reattach_if_content_swapped (es_id (et_content e))
            (TabEditor (update_language le clip fresh settings e))
      | TabSettings s \<Rightarrow> (t, False)
      | TabPreview p \<Rightarrow> (t, False))"

text \<open>The tab after renaming, or \<open>None\<close> when it is not an untitled editor.\<close>

definition rename_editor ::
  "lang_env \<Rightarrow> (rstr \<Rightarrow> position_lc \<Rightarrow> position_lc) \<Rightarrow> nat \<Rightarrow> rstr \<Rightarrow> editor_settings \<Rightarrow> tab \<Rightarrow> tab option" where
  "rename_editor le clip fresh name settings t =
     (case t of
        TabEditor e \<Rightarrow>
          (if \<not> is_renameable e then None
           else
             let e' = e\<lparr>et_title := name\<rparr>;
                 language = detect_language le name (es_text (et_content e'))
             in Some (if language \<noteq> et_language e'
                      then fst (tab_force_language le clip fresh language settings (TabEditor e'))
                      else TabEditor e'))
      | TabSettings s \<Rightarrow> None
      | TabPreview p \<Rightarrow> None)"

section \<open>Going to a line\<close>

definition u32_max :: nat where "u32_max = 4294967295"

record jump =
  jp_line :: nat
  jp_character :: "nat option"

text \<open>\<open>str::parse::<u32>\<close> with its error kinds as \<^verbatim>\<open>string_to_u32\<close> reads them: the first character that is
  no digit gives 0, an overflow before it the maximum.\<close>

fun digits_to_u32 :: "nat \<Rightarrow> rstr \<Rightarrow> nat" where
  "digits_to_u32 acc [] = acc"
| "digits_to_u32 acc (c # cs) =
     (if \<not> is_ascii_digit c then 0
      else let acc' = acc * 10 + (c - 48) in if acc' > u32_max then u32_max else digits_to_u32 acc' cs)"

definition string_to_u32 :: "rstr \<Rightarrow> nat" where
  "string_to_u32 s =
     (case s of
        [] \<Rightarrow> 0
      | c # cs \<Rightarrow> if c = 43 then digits_to_u32 0 cs else digits_to_u32 0 s)"

text \<open>The regular expression: digits, or digits, a colon and digits; \<open>is_nd\<close> is the class of decimal
  digits of the regular expression library.\<close>

definition line_regex :: "(uchar \<Rightarrow> bool) \<Rightarrow> rstr \<Rightarrow> bool" where
  "line_regex is_nd s =
     (let parts = split_on COLON s; digits = (\<lambda>p. p \<noteq> [] \<and> (\<forall>c \<in> set p. is_nd c))
      in (length parts = 1 \<or> length parts = 2) \<and> (\<forall>p \<in> set parts. digits p))"

definition extract_line_number :: "(uchar \<Rightarrow> bool) \<Rightarrow> rstr \<Rightarrow> jump option" where
  "extract_line_number is_nd destination =
     (if \<not> line_regex is_nd destination then None
      else
        let before = (\<lambda>line. if line > 0 then line - 1 else 0) in
        if COLON \<in> set destination then
          (case split_on COLON destination of
             [l, c] \<Rightarrow> Some \<lparr>jp_line = before (string_to_u32 l), jp_character = Some (string_to_u32 c)\<rparr>
           | _ \<Rightarrow> Some \<lparr>jp_line = 0, jp_character = None\<rparr>)
        else Some \<lparr>jp_line = before (string_to_u32 destination), jp_character = None\<rparr>)"

section \<open>Lemmas\<close>

lemma fnv1a_update_append: "fnv1a_update (fnv1a_update h a) b = fnv1a_update h (a @ b)"
  by (simp add: fnv1a_update_def)

lemma rope_fingerprint_from:
  "foldl (\<lambda>(h, n) chunk. (fnv1a_update h (utf8 chunk), n + blen chunk)) (h, n) chunks
     = (fnv1a_update h (utf8 (concat chunks)), n + blen (concat chunks))"
  by (induction chunks arbitrary: h n) (simp_all add: fnv1a_update_append, simp add: fnv1a_update_def)

lemma rope_fingerprint: "content_fingerprint_from_rope chunks = content_fingerprint_from_str (concat chunks)"
  by (simp add: content_fingerprint_from_rope_def content_fingerprint_from_str_def rope_fingerprint_from)

lemma content_differs_iff:
  assumes "\<not> et_large_file t"
    and "(et_original_content_hash t, et_original_content_len t) = content_fingerprint_from_str base"
  shows "content_differs_from_original t
    \<longleftrightarrow> content_fingerprint_from_str (es_text (et_content t)) \<noteq> content_fingerprint_from_str base"
  using assms by (auto simp: content_differs_from_original_def rope_fingerprint content_fingerprint_from_str_def Let_def)

lemma mark_as_saved_clean: "\<not> content_differs_from_original (mark_as_saved t)"
  by (auto simp: mark_as_saved_def content_differs_from_original_def rope_fingerprint
      content_fingerprint_from_str_def Let_def split: prod.splits if_splits)

lemma make_input_state_simps [simp]:
  "es_text (make_input_state le fresh l c st lf) = (case c of Some s \<Rightarrow> s | None \<Rightarrow> [])"
  "es_id (make_input_state le fresh l c st lf) = fresh"
  by (simp_all add: make_input_state_def)

lemma set_cursor_simps [simp]:
  "es_text (set_cursor_position clip p s) = es_text s"
  "es_id (set_cursor_position clip p s) = es_id s"
  "es_cursor (set_cursor_position clip p s) = clip (es_text s) p"
  by (simp_all add: set_cursor_position_def)

text \<open>The operations that rebuild the buffer keep the text of the tab.\<close>

lemma rebuilding_keeps_text:
  "es_text (et_content (rebuild_input_state le clip fresh st t)) = es_text (et_content t)"
  "es_text (et_content (update_settings le clip fresh st t)) = es_text (et_content t)"
  "es_text (et_content (force_language le clip fresh l st t)) = es_text (et_content t)"
  "es_text (et_content (update_language le clip fresh st t)) = es_text (et_content t)"
  by (simp_all add: rebuild_input_state_def update_settings_def force_language_def update_language_def
      Let_def split: option.splits)

text \<open>A tab listens to its own buffer.\<close>

fun subscribed :: "tab \<Rightarrow> bool" where
  "subscribed (TabEditor t) \<longleftrightarrow> et_content_subscription t = Some (es_id (et_content t))"
| "subscribed _ \<longleftrightarrow> True"

lemma attach_subscribed: "subscribed (attach_content_subscription t)"
  by (cases t) simp_all

lemma reattach_subscribed:
  assumes "et_content_subscription t = Some before"
  shows "subscribed (fst (reattach_if_content_swapped before (TabEditor t)))"
  using assms attach_subscribed by (simp add: reattach_if_content_swapped_def)

lemma buffer_ops_keep_subscription [simp]:
  "et_content_subscription (rebuild_input_state le clip fresh st e) = et_content_subscription e"
  "et_content_subscription (update_settings le clip fresh st e) = et_content_subscription e"
  "et_content_subscription (force_language le clip fresh l st e) = et_content_subscription e"
  "et_content_subscription (update_language le clip fresh st e) = et_content_subscription e"
  "et_content_subscription (check_modified e) = et_content_subscription e"
  by (simp_all add: rebuild_input_state_def update_settings_def force_language_def update_language_def
      check_modified_def Let_def split: option.splits)

lemma check_modified_content [simp]: "et_content (check_modified e) = et_content e"
  by (simp add: check_modified_def)

lemma tab_ops_subscribed:
  assumes "subscribed t"
  shows "subscribed (fst (tab_update_settings le clip fresh st t))"
    and "subscribed (fst (tab_update_language le clip fresh st t))"
    and "subscribed (fst (tab_force_language le clip fresh l st t))"
    and "subscribed (fst (on_content_change t))"
  using assms
  by (cases t; simp add: tab_update_settings_def tab_update_language_def tab_force_language_def
      reattach_subscribed Let_def)+

lemma rename_subscribed: "subscribed t \<Longrightarrow> rename_editor le clip fresh name st t = Some t' \<Longrightarrow> subscribed t'"
  by (cases t) (auto simp: rename_editor_def Let_def tab_ops_subscribed split: if_splits)

section \<open>Properties\<close>


definition sample_settings :: editor_settings where
  "sample_settings =
     \<lparr>st_show_line_numbers = True, st_show_indent_guides = True, st_tab_size = 4, st_use_spaces = True,
      st_soft_wrap = False, st_show_whitespaces = False, st_highlight_colors = True,
      st_show_markdown_toolbar = True, st_show_markdown_preview = True, st_preview_mode = DedicatedTab\<rparr>"

definition sample_langs :: lang_env where
  "sample_langs = \<lparr>le_from_ext = (\<lambda>_. N_Plain), le_name = (\<lambda>_. lit ''text'')\<rparr>"

definition sample_tab :: "nat \<Rightarrow> editor_tab" where
  "sample_tab i = editor_tab_from_content sample_langs 7 i [97, 98] (lit ''a.txt'') sample_settings"

lemma sample_tab_facts:
  "\<not> et_large_file (sample_tab i)" "es_text (et_content (sample_tab i)) = [97, 98]"
  "et_id (sample_tab i) = i" "es_id (et_content (sample_tab i)) = 7"
  "et_content_subscription (sample_tab i) = None" "et_location (sample_tab i) = LocUntitled"
  by (simp_all add: sample_tab_def editor_tab_from_content_def is_large_file_def Let_def
      LARGE_FILE_THRESHOLD_BYTES_def len_utf8_def split: prod.splits)


text \<open>A tab moved to another window arrives with everything it left with: extracting the transferred
  tab again gives the same data, under the new identity, provided the cursor was a position of the
  text.\<close>

theorem transfer_preserves_tab:
  assumes "clip (es_text (et_content t)) (es_cursor (et_content t)) = es_cursor (et_content t)"
  shows "tab_transfer_of (editor_tab_from_transfer le clip fresh i (tab_transfer_of t) st) = tab_transfer_of t
    \<and> et_id (editor_tab_from_transfer le clip fresh i (tab_transfer_of t) st) = i"
  using assms by (simp add: tab_transfer_of_def editor_tab_from_transfer_def Let_def)

lemma transfer_preserves_tab_witness:
  "td_content (tab_transfer_of (editor_tab_from_transfer sample_langs (\<lambda>_ p. p) 9 5 (tab_transfer_of (sample_tab 1)) sample_settings)) = [97, 98]"
proof -
  have "(\<lambda>_ p. p) (es_text (et_content (sample_tab 1))) (es_cursor (et_content (sample_tab 1))) = es_cursor (et_content (sample_tab 1))"
    by simp
  from transfer_preserves_tab [of "\<lambda>_ p. p", OF this] show ?thesis
    by (simp add: tab_transfer_of_def sample_tab_facts)
qed

text \<open>A tab that listens to its buffer still does after a change of the settings or the language,
  a forced language or a renaming, although these may replace the buffer, and the text of an editor
  survives the replacement.\<close>

theorem buffer_swap_keeps_subscription:
  assumes "subscribed t"
  shows "subscribed (fst (tab_update_settings le clip fresh st t))
    \<and> subscribed (fst (tab_update_language le clip fresh st t))
    \<and> subscribed (fst (tab_force_language le clip fresh l st t))
    \<and> (\<forall>t'. rename_editor le clip fresh name st t = Some t' \<longrightarrow> subscribed t')
    \<and> (\<forall>e. t = TabEditor e \<longrightarrow>
          (\<exists>e'. fst (tab_force_language le clip fresh l st t) = TabEditor e'
             \<and> es_text (et_content e') = es_text (et_content e) \<and> et_language e' = l))"
proof -
  have forced: "\<exists>e'. fst (tab_force_language le clip fresh l st t) = TabEditor e'
      \<and> es_text (et_content e') = es_text (et_content e) \<and> et_language e' = l" if "t = TabEditor e" for e
    using that by (auto simp: tab_force_language_def reattach_if_content_swapped_def force_language_def)
  then show ?thesis
    using tab_ops_subscribed(1-3) [OF assms] rename_subscribed [OF assms] by (intro conjI allI impI)
qed

lemma buffer_swap_keeps_subscription_witness:
  "subscribed (fst (tab_force_language sample_langs (\<lambda>_ p. p) 8 L_Rust sample_settings
     (attach_content_subscription (TabEditor (sample_tab 1)))))"
  using buffer_swap_keeps_subscription [OF attach_subscribed] by blast

lemma digits_to_u32_eq: "u32_max \<ge> acc \<Longrightarrow> parse_digits u32_max acc s = Some n \<Longrightarrow> digits_to_u32 acc s = n"
  by (induction s arbitrary: acc) (auto simp: Let_def split: if_splits)

lemma string_to_u32_show: "n \<le> u32_max \<Longrightarrow> string_to_u32 (show_nat n) = n"
proof -
  assume n: "n \<le> u32_max"
  obtain c cs where s: "show_nat n = c # cs" by (cases "show_nat n") auto
  then have "is_ascii_digit c" using show_nat_digits [of c n] by simp
  then have "c \<noteq> 43" by (auto simp: is_ascii_digit_def)
  then show ?thesis
    using s digits_to_u32_eq [of 0 "show_nat n" n] parse_digits_show [OF n] by (simp add: string_to_u32_def)
qed

text \<open>Going to a destination written as a line number and a column, counted from one and from zero,
  jumps to exactly that place.\<close>

theorem jump_destination_roundtrip:
  assumes "\<And>c. is_ascii_digit c \<Longrightarrow> is_nd c" "line < u32_max" "column \<le> u32_max"
  shows "extract_line_number is_nd (show_nat (Suc line) @ [COLON] @ show_nat column)
      = Some \<lparr>jp_line = line, jp_character = Some column\<rparr>"
proof -
  have nc: "COLON \<notin> set (show_nat n)" for n using show_nat_digits [of COLON n] by (auto simp: is_ascii_digit_def)
  then have sp: "split_on COLON (show_nat (Suc line) @ [COLON] @ show_nat column) = [show_nat (Suc line), show_nat column]"
    using split_on_append_sep [of COLON "show_nat (Suc line)" "show_nat column"] by (simp add: split_on_no)
  have "line_regex is_nd (show_nat (Suc line) @ [COLON] @ show_nat column)"
    unfolding line_regex_def sp using assms(1) show_nat_digits by auto
  then show ?thesis unfolding extract_line_number_def sp using assms string_to_u32_show by auto
qed

lemma jump_destination_roundtrip_witness:
  "extract_line_number is_ascii_digit (show_nat (Suc 11) @ [COLON] @ show_nat 4)
     = Some \<lparr>jp_line = 11, jp_character = Some 4\<rparr>"
  by (rule jump_destination_roundtrip) (simp_all add: u32_max_def)

end
