(* ===== verification/Tabs.thy ===== *)
theory Tabs
  imports Editor_Tab
begin

text \<open>
  The tabs of a window: \<^verbatim>\<open>src/fulgur/ui/tabs/tab_manager/\<close> (creation, activation, closing, reordering,
  renaming, transfer, Markdown previews), the lookups of \<^verbatim>\<open>src/fulgur/ui/tabs/tab.rs\<close> and the actions of
  \<^verbatim>\<open>src/fulgur/ui/tabs/tab_bar/\<close>.

  \<open>fulgur\<close> is the part of the window's state these operations read or change. What they ask of the
  framework or of another part of the program (focus, notification, saving, a dialog) is appended to
  the list \<open>fg_effects\<close>; the closure a confirmation dialog would run is a value of \<open>close_request\<close>, and
  \<open>confirm_close\<close> runs it. \<open>app_env\<close> holds the answers of the system and of the editor component.
\<close>

section \<open>State\<close>

record file_watch_state =
  fw_watched :: "rstr list option"
  fw_last_file_events :: "rstr \<rightharpoonup> nat"
  fw_last_file_saves :: "rstr \<rightharpoonup> nat"
  fw_pending_conflicts :: "rstr \<rightharpoonup> nat"
  fw_open_conflict_dialogs :: "rstr set"

datatype close_request =
    CloseOne nat
  | CloseAll nat
  | CloseLeft nat nat
  | CloseRight nat nat
  | CloseOthers nat nat

datatype app_effect =
    FocusEditor nat
  | FocusWindow
  | NotifyView
  | SaveState
  | ScrollToIndex nat
  | UnsavedDialog close_request
  | ConflictDialog rstr nat
  | OpenRemoteInto nat remote_spec
  | ActivateLogView nat
  | RefreshMatches
  | RemoveWindow
  | ReloadFrom rstr
  | NotifyReloaded rstr
  | NotifyDeleted rstr
  | NotifyRenamed rstr rstr
  | OtherRequest string

record fulgur =
  fg_tabs :: "tab list"
  fg_active :: "nat option"
  fg_next_tab_id :: nat
  fg_settings :: editor_settings
  fg_pending_scroll :: "nat option"
  fg_search_visible :: bool
  fg_watch :: file_watch_state
  fg_pending_remote_restore :: "nat set"
  fg_inflight_remote_restore :: "nat set"
  fg_latest_remote_open :: "nat \<rightharpoonup> u64"
  fg_latest_remote_save :: "nat \<rightharpoonup> u64"
  fg_log_cancel :: "nat set"
  fg_log_tail :: "nat \<rightharpoonup> nat"
  fg_inflight_saves :: "nat \<rightharpoonup> rstr"
  fg_pending_transfer :: "tab_transfer_data option"
  fg_pending_transfer_scroll :: "position_lc option"
  fg_pending_removal :: "nat option"
  fg_fresh :: nat
  fg_effects :: "app_effect list"

record app_env =
  ae_langs :: lang_env
  ae_clip :: "rstr \<Rightarrow> position_lc \<Rightarrow> position_lc"
  ae_can_watch :: "rstr \<Rightarrow> bool"

definition emit :: "app_effect \<Rightarrow> fulgur \<Rightarrow> fulgur" where
  "emit e st = st\<lparr>fg_effects := fg_effects st @ [e]\<rparr>"

text \<open>Creating an entity takes the next identity of the framework.\<close>

definition take_fresh :: "fulgur \<Rightarrow> nat \<times> fulgur" where
  "take_fresh st = (fg_fresh st, st\<lparr>fg_fresh := Suc (fg_fresh st)\<rparr>)"

section \<open>Lookups\<close>

definition tab_ids :: "fulgur \<Rightarrow> nat list" where
  "tab_ids st = map tab_id (fg_tabs st)"

definition allocate_tab_id :: "fulgur \<Rightarrow> nat \<times> fulgur" where
  "allocate_tab_id st = (fg_next_tab_id st, st\<lparr>fg_next_tab_id := fg_next_tab_id st + 1\<rparr>)"

definition tab_index_of :: "nat \<Rightarrow> fulgur \<Rightarrow> nat option" where
  "tab_index_of i st = position (\<lambda>t. tab_id t = i) (fg_tabs st)"

definition active_tab_index :: "fulgur \<Rightarrow> nat option" where
  "active_tab_index st = Option.bind (fg_active st) (\<lambda>i. tab_index_of i st)"

definition tab_entity_of :: "nat \<Rightarrow> fulgur \<Rightarrow> tab option" where
  "tab_entity_of i st = List.find (\<lambda>t. tab_id t = i) (fg_tabs st)"

definition active_tab :: "fulgur \<Rightarrow> tab option" where
  "active_tab st = Option.bind (fg_active st) (\<lambda>i. tab_entity_of i st)"

definition get_active_editor_tab :: "fulgur \<Rightarrow> editor_tab option" where
  "get_active_editor_tab st = Option.bind (active_tab st) as_editor"

text \<open>Updating a tab's entity: the first tab with the identity.\<close>

definition update_tab :: "nat \<Rightarrow> (tab \<Rightarrow> tab) \<Rightarrow> fulgur \<Rightarrow> fulgur" where
  "update_tab i f st =
     (case tab_index_of i st of
        None \<Rightarrow> st
      | Some p \<Rightarrow> st\<lparr>fg_tabs := (fg_tabs st)[p := f (fg_tabs st ! p)]\<rparr>)"

definition find_tab_by_path :: "rstr \<Rightarrow> fulgur \<Rightarrow> nat option" where
  "find_tab_by_path p st =
     position (\<lambda>t. case t of TabEditor e \<Rightarrow> file_path e = Some p | _ \<Rightarrow> False) (fg_tabs st)"

section \<open>Watching and logs, as far as the tabs need them\<close>

definition watch_file :: "app_env \<Rightarrow> rstr \<Rightarrow> fulgur \<Rightarrow> fulgur" where
  "watch_file env p st =
     (case fw_watched (fg_watch st) of
        None \<Rightarrow> st
      | Some ps \<Rightarrow>
          if p \<in> set ps \<or> \<not> ae_can_watch env p then st
          else st\<lparr>fg_watch := (fg_watch st)\<lparr>fw_watched := Some (ps @ [p])\<rparr>\<rparr>)"

definition prune_file_watch_bookkeeping_for_path :: "rstr \<Rightarrow> fulgur \<Rightarrow> fulgur" where
  "prune_file_watch_bookkeeping_for_path p st =
     st\<lparr>fg_watch := (fg_watch st)
          \<lparr>fw_last_file_events := (fw_last_file_events (fg_watch st))(p := None),
           fw_last_file_saves := (fw_last_file_saves (fg_watch st))(p := None),
           fw_pending_conflicts := (fw_pending_conflicts (fg_watch st))(p := None)\<rparr>\<rparr>"

definition unwatch_file :: "rstr \<Rightarrow> fulgur \<Rightarrow> fulgur" where
  "unwatch_file p st =
     prune_file_watch_bookkeeping_for_path p
       (st\<lparr>fg_watch := (fg_watch st)
            \<lparr>fw_watched := map_option (filter (\<lambda>q. q \<noteq> p)) (fw_watched (fg_watch st))\<rparr>\<rparr>)"

definition stop_log_poll_task :: "nat \<Rightarrow> fulgur \<Rightarrow> fulgur" where
  "stop_log_poll_task i st = st\<lparr>fg_log_cancel := fg_log_cancel st - {i}\<rparr>"

definition clear_log_tail :: "nat \<Rightarrow> fulgur \<Rightarrow> fulgur" where
  "clear_log_tail i st =
     (let st = stop_log_poll_task i st in st\<lparr>fg_log_tail := (fg_log_tail st)(i := None)\<rparr>)"

definition start_log_poll_task :: "nat \<Rightarrow> fulgur \<Rightarrow> fulgur" where
  "start_log_poll_task i st = st\<lparr>fg_log_cancel := insert i (fg_log_cancel st)\<rparr>"

definition editor_tab_of :: "nat \<Rightarrow> fulgur \<Rightarrow> editor_tab option" where
  "editor_tab_of i st = Option.bind (tab_entity_of i st) as_editor"

definition resume_log_view :: "nat \<Rightarrow> fulgur \<Rightarrow> fulgur" where
  "resume_log_view i st =
     (case editor_tab_of i st of
        None \<Rightarrow> st
      | Some e \<Rightarrow>
          if et_log_content e = None then emit (ActivateLogView i) st
          else if file_path e \<noteq> None then start_log_poll_task i st
          else st)"

definition show_file_conflict_dialog :: "rstr \<Rightarrow> nat \<Rightarrow> fulgur \<Rightarrow> fulgur" where
  "show_file_conflict_dialog p i st =
     (if p \<in> fw_open_conflict_dialogs (fg_watch st) then st
      else emit (ConflictDialog p i)
        (st\<lparr>fg_watch := (fg_watch st)
            \<lparr>fw_open_conflict_dialogs := insert p (fw_open_conflict_dialogs (fg_watch st))\<rparr>\<rparr>))"

definition request_tab_scroll :: "nat \<Rightarrow> fulgur \<Rightarrow> fulgur" where
  "request_tab_scroll i st = emit NotifyView (st\<lparr>fg_pending_scroll := Some i\<rparr>)"

section \<open>Activation\<close>

definition focus_active_tab :: "fulgur \<Rightarrow> fulgur" where
  "focus_active_tab st =
     (case get_active_editor_tab st of
        Some e \<Rightarrow> emit (FocusEditor (es_id (et_content e))) st
      | None \<Rightarrow> emit FocusWindow st)"

definition show_pending_conflict :: "tab \<Rightarrow> fulgur \<Rightarrow> fulgur" where
  "show_pending_conflict t st =
     (case Option.bind (as_editor t) file_path of
        None \<Rightarrow> st
      | Some p \<Rightarrow>
          if fw_pending_conflicts (fg_watch st) p = None then st
          else show_file_conflict_dialog p (tab_id t)
            (st\<lparr>fg_watch := (fg_watch st)
                 \<lparr>fw_pending_conflicts := (fw_pending_conflicts (fg_watch st))(p := None)\<rparr>\<rparr>))"

definition reload_pending_remote :: "tab \<Rightarrow> fulgur \<Rightarrow> fulgur" where
  "reload_pending_remote t st =
     (case as_editor t of
        None \<Rightarrow> st
      | Some e \<Rightarrow>
          (case et_location e of
             LocRemote spec \<Rightarrow>
               (if et_id e \<in> fg_pending_remote_restore st \<and> et_id e \<notin> fg_inflight_remote_restore st
                   \<and> \<not> et_modified e
                then emit (OpenRemoteInto (et_id e) spec) st else st)
           | LocLocal p \<Rightarrow> st
           | LocUntitled \<Rightarrow> st))"

definition resume_if_log :: "tab \<Rightarrow> fulgur \<Rightarrow> fulgur" where
  "resume_if_log t st =
     (case as_editor t of
        None \<Rightarrow> st
      | Some e \<Rightarrow> if et_log_view e then resume_log_view (et_id e) st else st)"

definition set_active_tab :: "nat \<Rightarrow> fulgur \<Rightarrow> fulgur" where
  "set_active_tab index st =
     (if index < length (fg_tabs st) then
        let t = fg_tabs st ! index; new_id = tab_id t;
            st1 = (case fg_active st of
                     Some prev \<Rightarrow> if prev \<noteq> new_id then stop_log_poll_task prev st else st
                   | None \<Rightarrow> st);
            st2 = emit (ScrollToIndex index) (st1\<lparr>fg_active := Some new_id\<rparr>);
            st3 = show_pending_conflict t st2;
            st4 = reload_pending_remote t st3;
            st5 = focus_active_tab st4;
            st6 = resume_if_log t st5;
            st7 = (if fg_search_visible st6 then emit RefreshMatches st6 else st6)
        in emit NotifyView st7
      else st)"

definition on_next_tab :: "fulgur \<Rightarrow> fulgur" where
  "on_next_tab st =
     (case active_tab_index st of
        None \<Rightarrow> st
      | Some a \<Rightarrow> set_active_tab ((a + 1) mod length (fg_tabs st)) st)"

definition on_previous_tab :: "fulgur \<Rightarrow> fulgur" where
  "on_previous_tab st =
     (case active_tab_index st of
        None \<Rightarrow> st
      | Some a \<Rightarrow> set_active_tab ((a + length (fg_tabs st) - 1) mod length (fg_tabs st)) st)"

section \<open>Closing\<close>

definition check_tab_modified :: "nat \<Rightarrow> fulgur \<Rightarrow> bool" where
  "check_tab_modified i st =
     (case tab_entity_of i st of Some (TabEditor e) \<Rightarrow> et_modified e | _ \<Rightarrow> False)"

definition close_tab_manage_focus :: "nat \<Rightarrow> fulgur \<Rightarrow> fulgur" where
  "close_tab_manage_focus pos st =
     focus_active_tab
       (if fg_tabs st = [] then st\<lparr>fg_active := None\<rparr>
        else if active_tab_index st = None
        then st\<lparr>fg_active := map_option tab_id (nth_opt (fg_tabs st) (min pos (length (fg_tabs st) - 1)))\<rparr>
        else st)"

definition linked_preview :: "nat \<Rightarrow> fulgur \<Rightarrow> nat option" where
  "linked_preview i st =
     map_option tab_id
       (List.find (\<lambda>t. case t of TabPreview p \<Rightarrow> mp_source_tab_id p = i | _ \<Rightarrow> False) (fg_tabs st))"

definition forget_tab :: "nat \<Rightarrow> fulgur \<Rightarrow> fulgur" where
  "forget_tab i st =
     clear_log_tail i
       (st\<lparr>fg_pending_remote_restore := fg_pending_remote_restore st - {i},
           fg_inflight_remote_restore := fg_inflight_remote_restore st - {i},
           fg_latest_remote_open := (fg_latest_remote_open st)(i := None),
           fg_latest_remote_save := (fg_latest_remote_save st)(i := None)\<rparr>)"

definition remove_tab_by_id :: "nat \<Rightarrow> fulgur \<Rightarrow> fulgur" where
  "remove_tab_by_id i st =
     (case tab_index_of i st of
        None \<Rightarrow> st
      | Some pos \<Rightarrow>
          let removed = fg_tabs st ! pos;
              path_to_unwatch = Option.bind (as_editor removed) file_path;
              preview = (case removed of TabEditor e \<Rightarrow> linked_preview i st | _ \<Rightarrow> None);
              st1 = close_tab_manage_focus pos (st\<lparr>fg_tabs := list_remove pos (fg_tabs st)\<rparr>);
              st2 = forget_tab i st1;
              st3 = (case path_to_unwatch of Some p \<Rightarrow> unwatch_file p st2 | None \<Rightarrow> st2);
              st4 = (case preview of
                       None \<Rightarrow> st3
                     | Some pid \<Rightarrow>
                         (case tab_index_of pid st3 of
                            None \<Rightarrow> st3
                          | Some ppos \<Rightarrow>
                              close_tab_manage_focus ppos
                                (st3\<lparr>fg_tabs := list_remove ppos (fg_tabs st3)\<rparr>)))
          in emit NotifyView st4)"

definition close_tab :: "nat \<Rightarrow> fulgur \<Rightarrow> fulgur" where
  "close_tab i st =
     (if i \<notin> set (tab_ids st) then st
      else if check_tab_modified i st then emit (UnsavedDialog (CloseOne i)) st
      else emit SaveState (focus_active_tab (remove_tab_by_id i st)))"

definition close_active_tab :: "fulgur \<Rightarrow> fulgur" where
  "close_active_tab st = (case fg_active st of Some i \<Rightarrow> close_tab i st | None \<Rightarrow> st)"

text \<open>The loop the four closing commands share: it stops at the first modified tab, activates it and
  asks; \<open>True\<close> when it has come to its end.\<close>

fun close_loop :: "(nat \<Rightarrow> close_request) \<Rightarrow> nat list \<Rightarrow> fulgur \<Rightarrow> fulgur \<times> bool" where
  "close_loop ask [] st = (st, True)"
| "close_loop ask (i # ids) st =
     (if i \<notin> set (tab_ids st) then close_loop ask ids st
      else if check_tab_modified i st then
        (emit (UnsavedDialog (ask i))
           (case tab_index_of i st of Some pos \<Rightarrow> set_active_tab pos st | None \<Rightarrow> st), False)
      else close_loop ask ids (remove_tab_by_id i st))"

definition close_all_tabs :: "fulgur \<Rightarrow> fulgur" where
  "close_all_tabs st =
     (if fg_tabs st = [] then st
      else
        let (st', finished) = close_loop CloseAll (tab_ids st) st in
        if \<not> finished then st'
        else emit NotifyView (emit SaveState (if fg_tabs st' = [] then st'\<lparr>fg_active := None\<rparr> else st')))"

definition close_tabs_to_left :: "nat \<Rightarrow> fulgur \<Rightarrow> fulgur" where
  "close_tabs_to_left index st =
     (if index = 0 \<or> index \<ge> length (fg_tabs st) then st
      else
        let keep = tab_id (fg_tabs st ! index);
            (st', finished) = close_loop (\<lambda>i. CloseLeft i keep) (take index (tab_ids st)) st
        in if \<not> finished then st' else emit NotifyView (focus_active_tab (emit SaveState st')))"

text \<open>\<open>None\<close>: the subtraction in the guard underflows, a panic.\<close>

definition close_tabs_to_right :: "nat \<Rightarrow> fulgur \<Rightarrow> fulgur option" where
  "close_tabs_to_right index st =
     (if fg_tabs st = [] then None
      else if index \<ge> length (fg_tabs st) - 1 then Some st
      else
        let keep = tab_id (fg_tabs st ! index);
            (st', finished) = close_loop (\<lambda>i. CloseRight i keep) (drop (index + 1) (tab_ids st)) st
        in Some (if \<not> finished then st' else emit NotifyView (focus_active_tab (emit SaveState st'))))"

definition close_other_tabs :: "fulgur \<Rightarrow> fulgur" where
  "close_other_tabs st =
     (case fg_active st of
        None \<Rightarrow> st
      | Some a \<Rightarrow>
          if length (fg_tabs st) \<le> 1 then st
          else
            let (st', finished) = close_loop (\<lambda>i. CloseOthers i a) (filter (\<lambda>i. i \<noteq> a) (tab_ids st)) st
            in if \<not> finished then st'
               else emit NotifyView (emit SaveState (focus_active_tab (st'\<lparr>fg_active := Some a\<rparr>))))"

text \<open>The closure a confirmation runs, and the deferred focus after it.\<close>

definition run_close_request :: "close_request \<Rightarrow> fulgur \<Rightarrow> fulgur option" where
  "run_close_request r st =
     (case r of
        CloseOne i \<Rightarrow> Some (emit SaveState (remove_tab_by_id i st))
      | CloseAll i \<Rightarrow>
          (let st1 = remove_tab_by_id i st in
           Some (if fg_tabs st1 = [] then emit NotifyView (emit SaveState (st1\<lparr>fg_active := None\<rparr>))
                 else close_all_tabs st1))
      | CloseLeft i keep \<Rightarrow>
          (let st1 = remove_tab_by_id i st in
           (case tab_index_of keep st1 of
              Some b \<Rightarrow> Some (if b > 0 then close_tabs_to_left b st1 else emit NotifyView (emit SaveState st1))
            | None \<Rightarrow> Some (emit NotifyView (emit SaveState st1))))
      | CloseRight i keep \<Rightarrow>
          (let st1 = remove_tab_by_id i st in
           (case tab_index_of keep st1 of
              Some b \<Rightarrow> (if b < length (fg_tabs st1) - 1 then close_tabs_to_right b st1
                         else Some (emit NotifyView (emit SaveState st1)))
            | None \<Rightarrow> Some (emit NotifyView (emit SaveState st1))))
      | CloseOthers i a \<Rightarrow>
          (let st1 = remove_tab_by_id i st;
               st2 = (if a \<in> set (tab_ids st1) then st1\<lparr>fg_active := Some a\<rparr> else st1)
           in Some (close_other_tabs st2)))"

definition confirm_close :: "close_request \<Rightarrow> fulgur \<Rightarrow> fulgur option" where
  "confirm_close r st = map_option focus_active_tab (run_close_request r st)"

section \<open>Creation\<close>

text \<open>\<open>into_entity\<close>: the tab becomes an entity that listens to its buffer.\<close>

definition push_tab :: "tab \<Rightarrow> fulgur \<Rightarrow> fulgur" where
  "push_tab t st = st\<lparr>fg_tabs := fg_tabs st @ [attach_content_subscription t]\<rparr>"

definition insert_tab :: "nat \<Rightarrow> tab \<Rightarrow> fulgur \<Rightarrow> fulgur" where
  "insert_tab pos t st = st\<lparr>fg_tabs := list_insert pos (attach_content_subscription t) (fg_tabs st)\<rparr>"

definition new_tab :: "app_env \<Rightarrow> fulgur \<Rightarrow> fulgur" where
  "new_tab env st =
     (let (i, st1) = allocate_tab_id st;
          (fresh, st2) = take_fresh st1;
          t = TabEditor (editor_tab_new (ae_langs env) fresh i (UNTITLED @ [SPACE] @ show_nat i) (fg_settings st2));
          st3 = (push_tab t st2)\<lparr>fg_active := Some i\<rparr>
      in emit NotifyView (emit SaveState (focus_active_tab (request_tab_scroll i st3))))"

definition reusable_scratch_tab_id :: "fulgur \<Rightarrow> nat option" where
  "reusable_scratch_tab_id st =
     (if fg_tabs st = [] then None
      else (case last (fg_tabs st) of
              TabEditor e \<Rightarrow>
                (if is_untitled (et_location e) \<and> (\<forall>c \<in> set (es_text (et_content e)). is_ws c)
                 then Some (et_id e) else None)
            | TabSettings s \<Rightarrow> None
            | TabPreview p \<Rightarrow> None))"

definition place_editor_tab_reusing_scratch :: "tab \<Rightarrow> fulgur \<Rightarrow> nat \<times> fulgur" where
  "place_editor_tab_reusing_scratch t st =
     (let st1 = (case reusable_scratch_tab_id st of Some i \<Rightarrow> remove_tab_by_id i st | None \<Rightarrow> st);
          st2 = request_tab_scroll (tab_id t) ((push_tab t st1)\<lparr>fg_active := Some (tab_id t)\<rparr>)
      in (length (fg_tabs st2) - 1, st2))"

definition open_settings :: "fulgur \<Rightarrow> fulgur" where
  "open_settings st =
     (case position (\<lambda>t. case t of TabSettings s \<Rightarrow> True | _ \<Rightarrow> False) (fg_tabs st) of
        Some index \<Rightarrow> set_active_tab index st
      | None \<Rightarrow>
          let (i, st1) = allocate_tab_id st;
              st2 = (push_tab (TabSettings \<lparr>sg_id = i, sg_title = lit ''Settings''\<rparr>) st1)\<lparr>fg_active := Some i\<rparr>
          in emit NotifyView (emit SaveState (request_tab_scroll i st2)))"

definition duplicate_tab :: "app_env \<Rightarrow> nat \<Rightarrow> fulgur \<Rightarrow> fulgur" where
  "duplicate_tab env index st =
     (case nth_opt (fg_tabs st) index of
        Some (TabEditor e) \<Rightarrow>
          (let clean_title = trim (trim_end_matches modified_suffix (et_title e));
               (i, st1) = allocate_tab_id st;
               (fresh, st2) = take_fresh st1;
               t = TabEditor (editor_tab_from_duplicate (ae_langs env) fresh
                     \<lparr>dp_id = i, dp_title = clean_title, dp_current_content = es_text (et_content e),
                      dp_encoding = et_encoding e, dp_lossy_decode = et_lossy_decode e,
                      dp_language = et_language e\<rparr> (fg_settings st2));
               st3 = (insert_tab (index + 1) t st2)\<lparr>fg_active := Some i\<rparr>
           in emit NotifyView (emit SaveState (focus_active_tab (request_tab_scroll i st3))))
      | _ \<Rightarrow> st)"

section \<open>Renaming and reordering\<close>

definition MAX_TAB_NAME_LENGTH :: nat where "MAX_TAB_NAME_LENGTH = 100"

definition retitle_preview_tabs_of :: "nat \<Rightarrow> rstr \<Rightarrow> fulgur \<Rightarrow> fulgur" where
  "retitle_preview_tabs_of i name st =
     st\<lparr>fg_tabs := map (\<lambda>t. case t of
            TabPreview p \<Rightarrow>
              (if mp_source_tab_id p = i then TabPreview (p\<lparr>mp_title := lit ''Preview - '' @ name\<rparr>) else t)
          | _ \<Rightarrow> t) (fg_tabs st)\<rparr>"

definition rename_tab :: "app_env \<Rightarrow> nat \<Rightarrow> rstr \<Rightarrow> fulgur \<Rightarrow> fulgur \<times> bool" where
  "rename_tab env i name st =
     (let new_name = take MAX_TAB_NAME_LENGTH (trim name) in
      if new_name = [] then (st, False)
      else (case tab_entity_of i st of
              None \<Rightarrow> (st, False)
            | Some t \<Rightarrow>
                let (fresh, st1) = take_fresh st in
                (case rename_editor (ae_langs env) (ae_clip env) fresh new_name (fg_settings st) t of
                   None \<Rightarrow> (st, False)
                 | Some t' \<Rightarrow>
                     (emit NotifyView (emit SaveState
                        (retitle_preview_tabs_of i new_name (update_tab i (\<lambda>_. t') st1))), True))))"

definition reorder_tab :: "nat \<Rightarrow> nat \<Rightarrow> fulgur \<Rightarrow> fulgur" where
  "reorder_tab from to st =
     (if from \<ge> length (fg_tabs st) \<or> to > length (fg_tabs st) then st
      else if to = from \<or> to = from + 1 then st
      else
        let t = fg_tabs st ! from;
            insert_at = (if to > from then to - 1 else to)
        in emit NotifyView (emit SaveState
             (st\<lparr>fg_tabs := list_insert insert_at t (list_remove from (fg_tabs st))\<rparr>)))"

definition handle_tab_drop :: "nat \<Rightarrow> nat \<Rightarrow> fulgur \<Rightarrow> fulgur" where
  "handle_tab_drop dragged slot st =
     (case tab_index_of dragged st of Some from \<Rightarrow> reorder_tab from slot st | None \<Rightarrow> st)"

section \<open>Markdown previews\<close>

definition build_preview_tab :: "nat \<Rightarrow> rstr \<Rightarrow> nat \<Rightarrow> fulgur \<Rightarrow> tab \<times> fulgur" where
  "build_preview_tab source_id title content st =
     (let (i, st1) = allocate_tab_id st in
      (TabPreview \<lparr>mp_id = i, mp_title = lit ''Preview - '' @ title, mp_source_tab_id = source_id,
                   mp_content = content\<rparr>, st1))"

definition markdown_preview_source_at :: "nat \<Rightarrow> fulgur \<Rightarrow> (nat \<times> rstr \<times> nat) option" where
  "markdown_preview_source_at index st =
     (case nth_opt (fg_tabs st) index of
        Some (TabEditor e) \<Rightarrow>
          (if \<not> et_large_file e \<and> (et_language e = L_Markdown \<or> et_language e = L_MarkdownInline)
           then Some (et_id e, et_title e, es_id (et_content e)) else None)
      | _ \<Rightarrow> None)"

definition open_markdown_preview_tab :: "fulgur \<Rightarrow> fulgur" where
  "open_markdown_preview_tab st =
     (if st_preview_mode (fg_settings st) \<noteq> DedicatedTab then st
      else
        (case (case active_tab st of
                 Some (TabEditor e) \<Rightarrow> Some (et_id e)
               | Some (TabPreview p) \<Rightarrow> Some (mp_source_tab_id p)
               | _ \<Rightarrow> None) of
           None \<Rightarrow> st
         | Some editor_id \<Rightarrow>
             (case linked_preview editor_id st of
                Some pid \<Rightarrow> remove_tab_by_id pid st
              | None \<Rightarrow>
                  (case get_active_editor_tab st of
                     None \<Rightarrow> st
                   | Some e \<Rightarrow>
                       if et_large_file e then st
                       else
                         let pos = (case active_tab_index st of Some p \<Rightarrow> p | None \<Rightarrow> 0);
                             (t, st1) = build_preview_tab editor_id (et_title e) (es_id (et_content e)) st
                         in set_active_tab (pos + 1) (insert_tab (pos + 1) t st1)))))"

definition previews_enabled :: "fulgur \<Rightarrow> bool" where
  "previews_enabled st \<longleftrightarrow>
     st_preview_mode (fg_settings st) = DedicatedTab \<and> st_show_markdown_preview (fg_settings st)"

text \<open>The loop over the original indices, \<open>count\<close> of them left, with the offset of the insertions made.\<close>

fun insert_previews_loop :: "nat \<Rightarrow> nat \<Rightarrow> fulgur \<Rightarrow> fulgur" where
  "insert_previews_loop 0 actual st = st"
| "insert_previews_loop (Suc count) actual st =
     (case markdown_preview_source_at actual st of
        Some (eid, title, content) \<Rightarrow>
          (let (t, st1) = build_preview_tab eid title content st
           in insert_previews_loop count (actual + 2) (insert_tab (actual + 1) t st1))
      | None \<Rightarrow> insert_previews_loop count (actual + 1) st)"

definition insert_preview_tabs_for_markdown :: "fulgur \<Rightarrow> fulgur" where
  "insert_preview_tabs_for_markdown st =
     (if \<not> previews_enabled st then st else insert_previews_loop (length (fg_tabs st)) 0 st)"

definition maybe_open_markdown_preview_for_editor :: "nat \<Rightarrow> fulgur \<Rightarrow> fulgur" where
  "maybe_open_markdown_preview_for_editor index st =
     (if \<not> previews_enabled st then st
      else (case markdown_preview_source_at index st of
              None \<Rightarrow> st
            | Some (eid, title, content) \<Rightarrow>
                let (t, st1) = build_preview_tab eid title content st in insert_tab (index + 1) t st1))"

section \<open>Transfer between windows\<close>

definition extract_tab_transfer_data :: "nat \<Rightarrow> fulgur \<Rightarrow> tab_transfer_data option" where
  "extract_tab_transfer_data i st = map_option tab_transfer_of (Option.bind (tab_entity_of i st) as_editor)"

definition handle_pending_tab_transfer :: "app_env \<Rightarrow> fulgur \<Rightarrow> fulgur" where
  "handle_pending_tab_transfer env st0 =
     (case fg_pending_transfer st0 of
        None \<Rightarrow> st0
      | Some data \<Rightarrow>
          let st = st0\<lparr>fg_pending_transfer := None\<rparr>;
              (i, st1) = allocate_tab_id st;
              (fresh, st2) = take_fresh st1;
              e = editor_tab_from_transfer (ae_langs env) (ae_clip env) fresh i data (fg_settings st2);
              st3 = request_tab_scroll i ((push_tab (TabEditor e) st2)\<lparr>fg_active := Some i\<rparr>);
              st4 = st3\<lparr>fg_pending_transfer_scroll := Some (td_cursor_position data)\<rparr>;
              st5 = (case local_path (td_location data) of Some p \<Rightarrow> watch_file env p st4 | None \<Rightarrow> st4);
              st6 = (if et_log_view e then emit (ActivateLogView i) st5 else st5)
          in emit NotifyView (emit SaveState (focus_active_tab st6)))"

definition handle_pending_transfer_scroll :: "app_env \<Rightarrow> fulgur \<Rightarrow> fulgur" where
  "handle_pending_transfer_scroll env st0 =
     (case fg_pending_transfer_scroll st0 of
        None \<Rightarrow> st0
      | Some pos \<Rightarrow>
          let st = st0\<lparr>fg_pending_transfer_scroll := None\<rparr> in
          (case get_active_editor_tab st of
             None \<Rightarrow> st
           | Some e \<Rightarrow>
               update_tab (et_id e)
                 (\<lambda>_. TabEditor (e\<lparr>et_content := set_cursor_position (ae_clip env) pos (et_content e)\<rparr>)) st))"

definition handle_pending_tab_removal :: "fulgur \<Rightarrow> fulgur" where
  "handle_pending_tab_removal st0 =
     (case fg_pending_removal st0 of
        None \<Rightarrow> st0
      | Some i \<Rightarrow>
          let st = remove_tab_by_id i (st0\<lparr>fg_pending_removal := None\<rparr>) in
          if fg_tabs st = [] then emit RemoveWindow st else emit SaveState st)"

section \<open>The tab bar\<close>

text \<open>Scrolling to a pending tab; \<open>laid_out\<close> tells whether the bar has been laid out. The result is the
  pending tab and the effects.\<close>

definition process_pending_scroll :: "bool \<Rightarrow> fulgur \<Rightarrow> fulgur" where
  "process_pending_scroll laid_out st =
     (case fg_pending_scroll st of
        None \<Rightarrow> st
      | Some i \<Rightarrow>
          (case tab_index_of i st of
             None \<Rightarrow> st\<lparr>fg_pending_scroll := None\<rparr>
           | Some index \<Rightarrow>
               if laid_out then emit (ScrollToIndex index) (st\<lparr>fg_pending_scroll := None\<rparr>)
               else emit NotifyView st))"

definition tab_path_name :: "tab \<Rightarrow> rstr option" where
  "tab_path_name t = Option.bind (Option.bind (as_editor t) file_path) path_file_name"

definition build_tab_filename_counts :: "tab list \<Rightarrow> rstr \<Rightarrow> nat" where
  "build_tab_filename_counts tabs name = length (filter (\<lambda>t. tab_path_name t = Some name) tabs)"

definition get_tab_display_title :: "tab \<Rightarrow> (rstr \<Rightarrow> nat) \<Rightarrow> rstr \<times> rstr option" where
  "get_tab_display_title t counts =
     (case Option.bind (as_editor t) file_path of
        None \<Rightarrow> (tab_title t, None)
      | Some p \<Rightarrow>
          let filename = (case path_file_name p of Some n \<Rightarrow> n | None \<Rightarrow> []) in
          if counts filename > 1
          then (case Option.bind (path_parent p) path_file_name of
                  Some parent_name \<Rightarrow> (filename, Some (lit ''../'' @ parent_name))
                | None \<Rightarrow> (filename, None))
          else (filename, None))"

definition remote_tab_indicator_label :: "tab \<Rightarrow> string option" where
  "remote_tab_indicator_label t =
     (case as_editor t of
        None \<Rightarrow> None
      | Some e \<Rightarrow> (case et_location e of LocRemote s \<Rightarrow> Some ''R'' | _ \<Rightarrow> None))"

datatype tab_bar_event =
    EvNewTab
  | EvOpenFile
  | EvOpenPath
  | EvSaveFile
  | EvSaveFileAs
  | EvActivate nat
  | EvClose nat
  | EvDrop nat nat

definition on_tab_bar_event :: "app_env \<Rightarrow> tab_bar_event \<Rightarrow> fulgur \<Rightarrow> fulgur" where
  "on_tab_bar_event env ev st =
     (case ev of
        EvNewTab \<Rightarrow> new_tab env st
      | EvOpenFile \<Rightarrow> emit (OtherRequest ''open file'') st
      | EvOpenPath \<Rightarrow> emit (OtherRequest ''open path dialog'') st
      | EvSaveFile \<Rightarrow> emit (OtherRequest ''save file'') st
      | EvSaveFileAs \<Rightarrow> emit (OtherRequest ''save file as'') st
      | EvActivate i \<Rightarrow> (case tab_index_of i st of Some index \<Rightarrow> set_active_tab index st | None \<Rightarrow> st)
      | EvClose i \<Rightarrow> close_tab i st
      | EvDrop dragged slot \<Rightarrow> handle_tab_drop dragged slot st)"

definition on_close_tabs_to_left :: "nat \<Rightarrow> fulgur \<Rightarrow> fulgur" where
  "on_close_tabs_to_left i st =
     (case tab_index_of i st of Some index \<Rightarrow> close_tabs_to_left index st | None \<Rightarrow> st)"

definition on_close_tabs_to_right :: "nat \<Rightarrow> fulgur \<Rightarrow> fulgur option" where
  "on_close_tabs_to_right i st =
     (case tab_index_of i st of Some index \<Rightarrow> close_tabs_to_right index st | None \<Rightarrow> Some st)"

definition on_duplicate_tab :: "app_env \<Rightarrow> nat \<Rightarrow> fulgur \<Rightarrow> fulgur" where
  "on_duplicate_tab env i st =
     (case tab_index_of i st of Some index \<Rightarrow> duplicate_tab env index st | None \<Rightarrow> st)"

definition on_set_tab_color :: "nat \<Rightarrow> color_tag option \<Rightarrow> fulgur \<Rightarrow> fulgur" where
  "on_set_tab_color i color st =
     (case editor_tab_of i st of
        None \<Rightarrow> st
      | Some e \<Rightarrow>
          emit SaveState (emit NotifyView (update_tab i (\<lambda>_. TabEditor (e\<lparr>et_color_tag := color\<rparr>)) st)))"

section \<open>Frame lemmas\<close>

text \<open>The operations that leave the tabs, the active tab and the counter of identities alone.\<close>

lemma emit_frame [simp]:
  "fg_tabs (emit e st) = fg_tabs st" "fg_active (emit e st) = fg_active st"
  "fg_next_tab_id (emit e st) = fg_next_tab_id st" "fg_settings (emit e st) = fg_settings st"
  by (simp_all add: emit_def)

lemma focus_frame [simp]:
  "fg_tabs (focus_active_tab st) = fg_tabs st" "fg_active (focus_active_tab st) = fg_active st"
  "fg_next_tab_id (focus_active_tab st) = fg_next_tab_id st"
  by (simp_all add: focus_active_tab_def split: option.splits)

lemma log_frame [simp]:
  "fg_tabs (stop_log_poll_task i st) = fg_tabs st" "fg_active (stop_log_poll_task i st) = fg_active st"
  "fg_next_tab_id (stop_log_poll_task i st) = fg_next_tab_id st"
  "fg_tabs (clear_log_tail i st) = fg_tabs st" "fg_active (clear_log_tail i st) = fg_active st"
  "fg_next_tab_id (clear_log_tail i st) = fg_next_tab_id st"
  "fg_tabs (resume_log_view i st) = fg_tabs st" "fg_active (resume_log_view i st) = fg_active st"
  "fg_next_tab_id (resume_log_view i st) = fg_next_tab_id st"
  by (simp_all add: stop_log_poll_task_def clear_log_tail_def resume_log_view_def start_log_poll_task_def
      Let_def split: option.splits)

lemma watch_frame [simp]:
  "fg_tabs (watch_file env p st) = fg_tabs st" "fg_active (watch_file env p st) = fg_active st"
  "fg_next_tab_id (watch_file env p st) = fg_next_tab_id st"
  "fg_tabs (unwatch_file p st) = fg_tabs st" "fg_active (unwatch_file p st) = fg_active st"
  "fg_next_tab_id (unwatch_file p st) = fg_next_tab_id st"
  "fg_tabs (show_file_conflict_dialog p i st) = fg_tabs st"
  "fg_active (show_file_conflict_dialog p i st) = fg_active st"
  "fg_next_tab_id (show_file_conflict_dialog p i st) = fg_next_tab_id st"
  by (simp_all add: watch_file_def unwatch_file_def prune_file_watch_bookkeeping_for_path_def
      show_file_conflict_dialog_def split: option.splits)

lemma scroll_frame [simp]:
  "fg_tabs (request_tab_scroll i st) = fg_tabs st" "fg_active (request_tab_scroll i st) = fg_active st"
  "fg_next_tab_id (request_tab_scroll i st) = fg_next_tab_id st"
  by (simp_all add: request_tab_scroll_def)

lemma activation_frame [simp]:
  "fg_tabs (show_pending_conflict t st) = fg_tabs st" "fg_active (show_pending_conflict t st) = fg_active st"
  "fg_next_tab_id (show_pending_conflict t st) = fg_next_tab_id st"
  "fg_tabs (reload_pending_remote t st) = fg_tabs st" "fg_active (reload_pending_remote t st) = fg_active st"
  "fg_next_tab_id (reload_pending_remote t st) = fg_next_tab_id st"
  "fg_tabs (resume_if_log t st) = fg_tabs st" "fg_active (resume_if_log t st) = fg_active st"
  "fg_next_tab_id (resume_if_log t st) = fg_next_tab_id st"
  by (simp_all add: show_pending_conflict_def reload_pending_remote_def resume_if_log_def
      split: option.splits tab_location.splits)

lemma forget_frame [simp]:
  "fg_tabs (forget_tab i st) = fg_tabs st" "fg_active (forget_tab i st) = fg_active st"
  "fg_next_tab_id (forget_tab i st) = fg_next_tab_id st"
  by (simp_all add: forget_tab_def)

lemma manage_focus_frame [simp]:
  "fg_tabs (close_tab_manage_focus pos st) = fg_tabs st"
  "fg_next_tab_id (close_tab_manage_focus pos st) = fg_next_tab_id st"
  by (simp_all add: close_tab_manage_focus_def)

lemma set_active_frame [simp]:
  "fg_tabs (set_active_tab index st) = fg_tabs st"
  "fg_next_tab_id (set_active_tab index st) = fg_next_tab_id st"
  by (simp_all add: set_active_tab_def Let_def split: option.splits)

lemma set_active_active:
  "fg_active (set_active_tab index st)
     = (if index < length (fg_tabs st) then Some (tab_id (fg_tabs st ! index)) else fg_active st)"
  by (simp add: set_active_tab_def Let_def split: option.splits)

lemma attach_id [simp]: "tab_id (attach_content_subscription t) = tab_id t"
  by (cases t) simp_all

section \<open>The invariant\<close>

definition active_ok :: "fulgur \<Rightarrow> bool" where
  "active_ok st \<longleftrightarrow>
     (fg_active st = None \<longrightarrow> fg_tabs st = []) \<and> (\<forall>a. fg_active st = Some a \<longrightarrow> a \<in> set (tab_ids st))"

definition tabs_wf :: "fulgur \<Rightarrow> bool" where
  "tabs_wf st \<longleftrightarrow> distinct (tab_ids st) \<and> (\<forall>i \<in> set (tab_ids st). i < fg_next_tab_id st)
     \<and> active_ok st \<and> (\<forall>t \<in> set (fg_tabs st). subscribed t)"

lemma tabs_wf_cong:
  "fg_tabs st' = fg_tabs st \<Longrightarrow> fg_active st' = fg_active st \<Longrightarrow> fg_next_tab_id st' = fg_next_tab_id st
    \<Longrightarrow> tabs_wf st' = tabs_wf st"
  by (simp add: tabs_wf_def active_ok_def tab_ids_def)

lemma tabs_wf_frame [simp]:
  "tabs_wf (emit e st) = tabs_wf st" "tabs_wf (focus_active_tab st) = tabs_wf st"
  "tabs_wf (request_tab_scroll i st) = tabs_wf st" "tabs_wf (watch_file env p st) = tabs_wf st"
  "tabs_wf (unwatch_file p st) = tabs_wf st" "tabs_wf (forget_tab i st) = tabs_wf st"
  by (rule tabs_wf_cong; simp)+

lemma active_ok_frame [simp]:
  "active_ok (emit e st) = active_ok st" "active_ok (unwatch_file p st) = active_ok st"
  "active_ok (forget_tab i st) = active_ok st"
  by (simp_all add: active_ok_def tab_ids_def)

lemma tab_index_of_None: "tab_index_of i st = None \<longleftrightarrow> i \<notin> set (tab_ids st)"
  by (auto simp: tab_index_of_def tab_ids_def position_None)

lemma tab_index_of_Some:
  "tab_index_of i st = Some p \<Longrightarrow> p < length (fg_tabs st) \<and> tab_id (fg_tabs st ! p) = i"
  by (auto simp: tab_index_of_def dest: position_Some)

lemma active_index_None: "fg_active st = Some a \<Longrightarrow> active_tab_index st = None \<longleftrightarrow> a \<notin> set (tab_ids st)"
  by (simp add: active_tab_index_def tab_index_of_None)

lemma manage_focus_active_ok: "active_ok (close_tab_manage_focus pos st)"
proof (cases "fg_tabs st = []")
  case True
  then show ?thesis by (simp add: close_tab_manage_focus_def active_ok_def)
next
  case ne: False
  have valid: "nth_opt (fg_tabs st) (min pos (length (fg_tabs st) - 1))
      = Some (fg_tabs st ! min pos (length (fg_tabs st) - 1))"
    and "fg_tabs st ! min pos (length (fg_tabs st) - 1) \<in> set (fg_tabs st)"
    using ne by (auto simp: nth_opt_def min_def intro!: nth_mem) (cases "fg_tabs st"; simp)+
  then show ?thesis
    using ne by (cases "fg_active st")
      (auto simp: close_tab_manage_focus_def active_ok_def active_tab_index_def tab_ids_def
        tab_index_of_None)
qed

lemma set_active_wf: "tabs_wf st \<Longrightarrow> tabs_wf (set_active_tab index st)"
  by (auto simp: tabs_wf_def active_ok_def set_active_active tab_ids_def)

lemma list_remove_filter:
  assumes "distinct (map f xs)" "position (\<lambda>x. f x = i) xs = Some p"
  shows "list_remove p xs = filter (\<lambda>x. f x \<noteq> i) xs"
  using assms
proof (induction xs arbitrary: p)
  case (Cons x xs)
  show ?case
  proof (cases "f x = i")
    case True
    then have "\<forall>y \<in> set xs. f y \<noteq> i" using Cons.prems(1) by (metis distinct.simps(2) image_eqI list.set_map list.simps(9))
    then show ?thesis using Cons.prems True by (simp add: list_remove_def filter_id_conv)
  next
    case False
    then obtain q where q: "p = Suc q" "position (\<lambda>x. f x = i) xs = Some q" using Cons.prems(2) by auto
    then have "list_remove q xs = filter (\<lambda>x. f x \<noteq> i) xs" using Cons by simp
    then show ?thesis using q False by (simp add: list_remove_def)
  qed
qed simp

text \<open>What removing a tab leaves: every tab but the tab itself and, for an editor, its linked preview.\<close>

definition removed_ids :: "nat \<Rightarrow> fulgur \<Rightarrow> nat set" where
  "removed_ids i st =
     insert i (case tab_entity_of i st of
                 Some (TabEditor e) \<Rightarrow> set_option (linked_preview i st)
               | _ \<Rightarrow> {})"

lemma find_position:
  "position P xs = Some p \<Longrightarrow> List.find P xs = Some (xs ! p)"
  by (induction xs arbitrary: p) (auto split: if_splits)

lemma remove_tab_tabs:
  assumes "distinct (tab_ids st)" "i \<in> set (tab_ids st)"
  shows "fg_tabs (remove_tab_by_id i st) = filter (\<lambda>t. tab_id t \<notin> removed_ids i st) (fg_tabs st)"
proof -
  obtain p where p: "tab_index_of i st = Some p"
    using assms(2) tab_index_of_None by (metis option.exhaust)
  have rm: "list_remove p (fg_tabs st) = filter (\<lambda>t. tab_id t \<noteq> i) (fg_tabs st)"
    using list_remove_filter assms(1) p by (metis tab_ids_def tab_index_of_def)
  have te: "tab_entity_of i st = Some (fg_tabs st ! p)"
    using p by (simp add: tab_entity_of_def tab_index_of_def find_position)
  let ?preview = "case fg_tabs st ! p of TabEditor e \<Rightarrow> linked_preview i st | _ \<Rightarrow> None"
  have ids: "removed_ids i st = insert i (set_option ?preview)"
    by (simp add: removed_ids_def te split: tab.splits)
  define xs where "xs = filter (\<lambda>t. tab_id t \<noteq> i) (fg_tabs st)"
  have dxs: "distinct (map tab_id xs)" using assms(1) by (simp add: xs_def tab_ids_def distinct_map_filter)
  have rm2: "(case position (\<lambda>t. tab_id t = q) xs of None \<Rightarrow> xs | Some pp \<Rightarrow> list_remove pp xs)
      = filter (\<lambda>t. tab_id t \<noteq> q) xs" for q
    using list_remove_filter [OF dxs] by (auto split: option.splits simp: position_None filter_id_conv)
  have "fg_tabs (remove_tab_by_id i st)
      = (case ?preview of None \<Rightarrow> xs
         | Some q \<Rightarrow> (case position (\<lambda>t. tab_id t = q) xs of None \<Rightarrow> xs | Some pp \<Rightarrow> list_remove pp xs))"
    using p rm by (auto simp: remove_tab_by_id_def Let_def tab_index_of_def xs_def split: option.splits tab.splits)
  then show ?thesis
    unfolding ids rm2 by (auto simp: xs_def split: option.splits intro!: filter_cong)
qed

lemma remove_tab_wf:
  assumes "tabs_wf st"
  shows "tabs_wf (remove_tab_by_id i st)"
proof (cases "i \<in> set (tab_ids st)")
  case False
  then have "tab_index_of i st = None" by (simp add: tab_index_of_None)
  then show ?thesis using assms by (simp add: remove_tab_by_id_def)
next
  case True
  have d: "distinct (tab_ids st)" using assms by (simp add: tabs_wf_def)
  obtain p where p: "tab_index_of i st = Some p" using True tab_index_of_None by (metis option.exhaust)
  have tabs: "fg_tabs (remove_tab_by_id i st) = filter (\<lambda>t. tab_id t \<notin> removed_ids i st) (fg_tabs st)"
    by (rule remove_tab_tabs [OF d True])
  have nxt: "fg_next_tab_id (remove_tab_by_id i st) = fg_next_tab_id st"
    using p by (simp add: remove_tab_by_id_def Let_def split: option.splits)
  have "active_ok (remove_tab_by_id i st)"
    using p manage_focus_active_ok by (simp add: remove_tab_by_id_def Let_def split: option.splits)
  moreover have "distinct (tab_ids (remove_tab_by_id i st))"
    using d by (simp add: tab_ids_def tabs distinct_map_filter)
  ultimately show ?thesis using assms tabs nxt by (auto simp: tabs_wf_def tab_ids_def)
qed

section \<open>Closing commands\<close>

lemma close_loop_wf: "tabs_wf st \<Longrightarrow> tabs_wf (fst (close_loop ask ids st))"
  by (induction ask ids st rule: close_loop.induct)
    (auto simp: remove_tab_wf set_active_wf split: option.splits)

lemma close_tab_wf: "tabs_wf st \<Longrightarrow> tabs_wf (close_tab i st)"
  by (simp add: close_tab_def remove_tab_wf)

lemma close_all_wf: "tabs_wf st \<Longrightarrow> tabs_wf (close_all_tabs st)"
  using close_loop_wf [of st CloseAll "tab_ids st"]
  by (auto simp: close_all_tabs_def Let_def tabs_wf_def active_ok_def tab_ids_def split: prod.splits)

lemma close_left_wf: "tabs_wf st \<Longrightarrow> tabs_wf (close_tabs_to_left index st)"
  using close_loop_wf [of st "\<lambda>i. CloseLeft i (tab_id (fg_tabs st ! index))" "take index (tab_ids st)"]
  by (auto simp: close_tabs_to_left_def Let_def split: prod.splits)

lemma close_right_wf: "tabs_wf st \<Longrightarrow> close_tabs_to_right index st = Some st' \<Longrightarrow> tabs_wf st'"
  using close_loop_wf [of st "\<lambda>i. CloseRight i (tab_id (fg_tabs st ! index))" "drop (index + 1) (tab_ids st)"]
  by (auto simp: close_tabs_to_right_def Let_def split: prod.splits if_splits)

text \<open>A tab that is not the preview of an open tab: closing other tabs does not take it along.\<close>

definition stands_alone :: "nat \<Rightarrow> fulgur \<Rightarrow> bool" where
  "stands_alone a st \<longleftrightarrow>
     (\<forall>p. TabPreview p \<in> set (fg_tabs st) \<longrightarrow> mp_id p = a \<longrightarrow> mp_source_tab_id p \<notin> set (tab_ids st))"

lemma linked_preview_Some:
  "linked_preview i st = Some q \<Longrightarrow> \<exists>p. TabPreview p \<in> set (fg_tabs st) \<and> mp_id p = q \<and> mp_source_tab_id p = i"
  by (auto simp: linked_preview_def dest!: find_SomeD split: tab.splits)

lemma removed_ids_alone:
  assumes "i \<in> set (tab_ids st)" "stands_alone a st" "a \<noteq> i"
  shows "a \<notin> removed_ids i st"
  using assms linked_preview_Some [of i st a]
  by (auto simp: removed_ids_def stands_alone_def split: option.splits tab.splits)

lemma remove_tab_ids_subset:
  assumes "distinct (tab_ids st)"
  shows "set (fg_tabs (remove_tab_by_id i st)) \<subseteq> set (fg_tabs st)"
proof (cases "i \<in> set (tab_ids st)")
  case True
  then show ?thesis using remove_tab_tabs [OF assms] by simp
next
  case False
  then have "tab_index_of i st = None" by (simp add: tab_index_of_None)
  then show ?thesis by (simp add: remove_tab_by_id_def)
qed

lemma close_loop_keeps:
  assumes "tabs_wf st" "stands_alone a st" "a \<in> set (tab_ids st)" "a \<notin> set ids"
  shows "a \<in> set (tab_ids (fst (close_loop ask ids st)))"
  using assms
proof (induction ask ids st rule: close_loop.induct)
  case (2 ask i ids st)
  have d: "distinct (tab_ids st)" using "2.prems" by (simp add: tabs_wf_def)
  consider (gone) "i \<notin> set (tab_ids st)" | (ask) "i \<in> set (tab_ids st)" "check_tab_modified i st"
    | (rm) "i \<in> set (tab_ids st)" "\<not> check_tab_modified i st" by blast
  then show ?case
  proof cases
    case gone
    then show ?thesis using 2 by simp
  next
    case ask
    then show ?thesis using "2.prems" by (auto simp: tab_ids_def split: option.splits)
  next
    case rm
    let ?st = "remove_tab_by_id i st"
    have sub: "set (fg_tabs ?st) \<subseteq> set (fg_tabs st)" by (rule remove_tab_ids_subset [OF d])
    have "stands_alone a ?st" using "2.prems"(2) sub by (fastforce simp: stands_alone_def tab_ids_def)
    moreover have "a \<in> set (tab_ids ?st)"
      using removed_ids_alone [OF rm(1) "2.prems"(2)] "2.prems"(3,4) remove_tab_tabs [OF d rm(1)]
      by (auto simp: tab_ids_def)
    ultimately show ?thesis using 2 rm remove_tab_wf by simp
  qed
qed simp

lemma close_others_wf:
  assumes "tabs_wf st" "\<And>a. fg_active st = Some a \<Longrightarrow> stands_alone a st"
  shows "tabs_wf (close_other_tabs st)"
proof (cases "fg_active st")
  case None
  then show ?thesis using assms by (simp add: close_other_tabs_def)
next
  case (Some a)
  let ?loop = "close_loop (\<lambda>i. CloseOthers i a) (filter (\<lambda>i. i \<noteq> a) (tab_ids st)) st"
  have "tabs_wf (fst ?loop)" using assms(1) by (rule close_loop_wf)
  moreover have "a \<in> set (tab_ids (fst ?loop))"
    using close_loop_keeps [of st a] assms Some by (auto simp: tabs_wf_def active_ok_def)
  ultimately have "tabs_wf ((fst ?loop)\<lparr>fg_active := Some a\<rparr>)"
    by (simp add: tabs_wf_def active_ok_def tab_ids_def)
  then show ?thesis using Some assms(1) \<open>tabs_wf (fst ?loop)\<close>
    by (cases ?loop) (simp add: close_other_tabs_def Let_def)
qed

text \<open>Closing the others from a preview of one of them leaves the window with an active tab that does
  not exist.\<close>

lemma close_others_from_preview_dangles:
  assumes tabs: "fg_tabs st = [TabEditor e, TabPreview p]" and ids: "et_id e = 1" "mp_id p = 2" "mp_source_tab_id p = 1"
    and "\<not> et_modified e" "fg_active st = Some 2"
  shows "fg_tabs (close_other_tabs st) = [] \<and> fg_active (close_other_tabs st) = Some 2"
proof -
  have d: "distinct (tab_ids st)" "1 \<in> set (tab_ids st)" using tabs ids by (simp_all add: tab_ids_def)
  have "removed_ids 1 st = {1, 2}"
    using tabs ids by (auto simp: removed_ids_def tab_entity_of_def linked_preview_def)
  then have "fg_tabs (remove_tab_by_id 1 st) = []" using remove_tab_tabs [OF d] tabs ids by simp
  then show ?thesis using assms d
    by (simp add: close_other_tabs_def tab_ids_def check_tab_modified_def tab_entity_of_def Let_def)
qed

lemma run_close_request_wf:
  assumes "tabs_wf st" "run_close_request r st = Some st'"
    and "\<And>i a. r = CloseOthers i a \<Longrightarrow>
      (\<forall>b. fg_active st = Some b \<or> b = a \<or> b \<in> set (tab_ids st) \<longrightarrow> stands_alone b (remove_tab_by_id i st))"
  shows "tabs_wf st'"
proof (cases r)
  case (CloseOne i)
  then show ?thesis using assms by (auto simp: run_close_request_def remove_tab_wf)
next
  case (CloseAll i)
  have "tabs_wf (remove_tab_by_id i st)" using assms(1) by (rule remove_tab_wf)
  moreover have "tabs_wf (s\<lparr>fg_active := None\<rparr>)" if "tabs_wf s" "fg_tabs s = []" for s
    using that by (simp add: tabs_wf_def active_ok_def tab_ids_def)
  ultimately show ?thesis using assms(2) CloseAll close_all_wf
    by (cases "fg_tabs (remove_tab_by_id i st) = []") (auto simp: run_close_request_def Let_def)
next
  case (CloseLeft i keep)
  have "tabs_wf (remove_tab_by_id i st)" using assms(1) by (rule remove_tab_wf)
  then show ?thesis using assms(2) close_left_wf [of "remove_tab_by_id i st"] CloseLeft
    by (simp add: run_close_request_def Let_def split: option.splits if_splits) auto
next
  case (CloseRight i keep)
  have "tabs_wf (remove_tab_by_id i st)" using assms(1) by (rule remove_tab_wf)
  then show ?thesis using assms(2) close_right_wf [of "remove_tab_by_id i st"] CloseRight
    by (simp add: run_close_request_def Let_def split: option.splits if_splits) auto
next
  case (CloseOthers i a)
  let ?st = "remove_tab_by_id i st"
  let ?st2 = "if a \<in> set (tab_ids ?st) then ?st\<lparr>fg_active := Some a\<rparr> else ?st"
  have wf: "tabs_wf ?st" using assms(1) by (rule remove_tab_wf)
  have d: "distinct (tab_ids st)" using assms(1) by (simp add: tabs_wf_def)
  have alone: "stands_alone b ?st" if "b = a \<or> b \<in> set (tab_ids st)" for b
    using assms(3) [OF CloseOthers] that by blast
  have "tabs_wf ?st2" using wf by (auto simp: tabs_wf_def active_ok_def tab_ids_def)
  moreover have "stands_alone b ?st2" if "fg_active ?st2 = Some b" for b
  proof -
    have "b = a \<or> b \<in> set (tab_ids ?st)" using that wf by (auto simp: tabs_wf_def active_ok_def split: if_splits)
    then have "b = a \<or> b \<in> set (tab_ids st)" using remove_tab_ids_subset [OF d, of i] by (auto simp: tab_ids_def)
    then have "stands_alone b ?st" by (rule alone)
    then show ?thesis by (simp add: stands_alone_def tab_ids_def)
  qed
  ultimately have "tabs_wf (close_other_tabs ?st2)" by (rule close_others_wf)
  then show ?thesis using assms(2) CloseOthers by (simp add: run_close_request_def Let_def)
qed

section \<open>Unsaved tabs\<close>

lemma check_tab_modified_iff:
  assumes "distinct (tab_ids st)" "t \<in> set (fg_tabs st)"
  shows "check_tab_modified (tab_id t) st \<longleftrightarrow> tab_is_modified t"
proof -
  have "List.find (\<lambda>u. tab_id u = tab_id t) (fg_tabs st) = Some t"
    using assms by (auto simp: tab_ids_def find_Some_iff in_set_conv_nth distinct_conv_nth)
  then show ?thesis by (cases t) (simp_all add: check_tab_modified_def tab_entity_of_def)
qed

lemma remove_keeps_modified:
  assumes d: "distinct (tab_ids st)" and t: "t \<in> set (fg_tabs st)" "tab_is_modified t"
    and i: "\<not> check_tab_modified i st"
  shows "t \<in> set (fg_tabs (remove_tab_by_id i st))"
proof (cases "i \<in> set (tab_ids st)")
  case False
  then have "tab_index_of i st = None" by (simp add: tab_index_of_None)
  then show ?thesis using t by (simp add: remove_tab_by_id_def)
next
  case True
  have "tab_id t \<noteq> i" using i t check_tab_modified_iff [OF d] by auto
  moreover have "linked_preview i st \<noteq> Some (tab_id t)"
  proof
    assume "linked_preview i st = Some (tab_id t)"
    then obtain p where p: "TabPreview p \<in> set (fg_tabs st)" "mp_id p = tab_id t" using linked_preview_Some by blast
    then have "check_tab_modified (tab_id (TabPreview p)) st \<longleftrightarrow> tab_is_modified (TabPreview p)"
      using check_tab_modified_iff [OF d] by blast
    then show False using p t check_tab_modified_iff [OF d t(1)] by simp
  qed
  ultimately have "tab_id t \<notin> removed_ids i st" by (auto simp: removed_ids_def split: option.splits tab.splits)
  then show ?thesis using remove_tab_tabs [OF d True] t by simp
qed

lemma close_loop_keeps_modified:
  assumes "tabs_wf st" "t \<in> set (fg_tabs st)" "tab_is_modified t"
  shows "t \<in> set (fg_tabs (fst (close_loop ask ids st)))"
  using assms
proof (induction ask ids st rule: close_loop.induct)
  case (2 ask i ids st)
  then show ?case
    using remove_keeps_modified [of st t i] remove_tab_wf [of st i]
    by (auto simp: tabs_wf_def split: option.splits)
qed simp

section \<open>A new window\<close>

definition empty_window :: "editor_settings \<Rightarrow> fulgur" where
  "empty_window settings =
     \<lparr>fg_tabs = [], fg_active = None, fg_next_tab_id = 0, fg_settings = settings,
      fg_pending_scroll = None, fg_search_visible = False,
      fg_watch = \<lparr>fw_watched = None, fw_last_file_events = Map.empty, fw_last_file_saves = Map.empty,
                  fw_pending_conflicts = Map.empty, fw_open_conflict_dialogs = {}\<rparr>,
      fg_pending_remote_restore = {}, fg_inflight_remote_restore = {},
      fg_latest_remote_open = Map.empty, fg_latest_remote_save = Map.empty,
      fg_log_cancel = {}, fg_log_tail = Map.empty, fg_inflight_saves = Map.empty,
      fg_pending_transfer = None, fg_pending_transfer_scroll = None, fg_pending_removal = None,
      fg_fresh = 0, fg_effects = []\<rparr>"

definition first_tab :: "app_env \<Rightarrow> fulgur \<Rightarrow> fulgur" where
  "first_tab env st =
     (let (fresh, st1) = take_fresh st;
          t = TabEditor (editor_tab_new (ae_langs env) fresh 0 UNTITLED (fg_settings st))
      in (push_tab t (st1\<lparr>fg_active := Some 0\<rparr>))\<lparr>fg_next_tab_id := 1\<rparr>)"

lemma empty_window_wf: "tabs_wf (empty_window settings)"
  by (simp add: empty_window_def tabs_wf_def active_ok_def tab_ids_def)

lemma first_tab_wf: "fg_tabs st = [] \<Longrightarrow> tabs_wf (first_tab env st)"
  using attach_subscribed
  by (simp add: first_tab_def push_tab_def take_fresh_def tabs_wf_def active_ok_def tab_ids_def
      editor_tab_new_def Let_def split: prod.splits)

section \<open>Operations that add or change tabs\<close>

lemma snoc_list_insert: "xs @ [x] = list_insert (length xs) x xs"
  by (simp add: list_insert_def)

text \<open>The contract of adding a tab: it takes the next identity and becomes active, or the active tab stays.\<close>

lemma add_tab_wf:
  assumes wf: "tabs_wf st" and ts: "fg_tabs st' = list_insert pos (attach_content_subscription t) (fg_tabs st)"
    and t: "tab_id t = fg_next_tab_id st" and nxt: "fg_next_tab_id st' = Suc (fg_next_tab_id st)"
    and act: "fg_active st' = Some (tab_id t) \<or> (fg_active st' = fg_active st \<and> fg_tabs st \<noteq> [])"
  shows "tabs_wf st'"
proof -
  have fresh: "tab_id t \<notin> set (tab_ids st)" using wf t by (auto simp: tabs_wf_def)
  have ids: "tab_ids st' = list_insert pos (tab_id t) (tab_ids st)"
    by (simp add: tab_ids_def ts map_list_insert)
  show ?thesis using assms fresh attach_subscribed
    by (auto simp: tabs_wf_def ids distinct_list_insert active_ok_def ts)
qed

lemma same_ids_wf:
  assumes "tabs_wf st" "tab_ids st' = tab_ids st" "fg_active st' = fg_active st"
    "fg_next_tab_id st' = fg_next_tab_id st" "\<forall>t \<in> set (fg_tabs st'). subscribed t"
  shows "tabs_wf st'"
proof -
  have "fg_tabs st' = [] \<longleftrightarrow> fg_tabs st = []" using assms(2) by (metis map_is_Nil_conv tab_ids_def)
  then show ?thesis using assms by (simp add: tabs_wf_def active_ok_def)
qed

lemma constructor_ids:
  "et_id (editor_tab_new le fresh i title se) = i"
  "et_id (editor_tab_from_duplicate le fresh p se) = dp_id p"
  "et_id (editor_tab_from_transfer le clip fresh i d se) = i"
  by (simp_all add: editor_tab_new_def editor_tab_from_duplicate_def editor_tab_from_transfer_def Let_def
      split: prod.splits)

lemma new_tab_wf:
  assumes wf: "tabs_wf st"
  shows "tabs_wf (new_tab env st)"
  by (rule add_tab_wf [OF wf, where pos = "length (fg_tabs st)" and t = "TabEditor (editor_tab_new (ae_langs env)
        (fg_fresh st) (fg_next_tab_id st) (UNTITLED @ [SPACE] @ show_nat (fg_next_tab_id st)) (fg_settings st))"])
    (simp_all add: new_tab_def allocate_tab_id_def take_fresh_def push_tab_def Let_def constructor_ids
      snoc_list_insert [symmetric])

lemma open_settings_wf:
  assumes wf: "tabs_wf st"
  shows "tabs_wf (open_settings st)"
proof (cases "position (\<lambda>t. case t of TabSettings s \<Rightarrow> True | _ \<Rightarrow> False) (fg_tabs st)")
  case None
  show ?thesis
    by (rule add_tab_wf [OF wf, where pos = "length (fg_tabs st)"
          and t = "TabSettings \<lparr>sg_id = fg_next_tab_id st, sg_title = lit ''Settings''\<rparr>"])
      (simp_all add: None open_settings_def allocate_tab_id_def push_tab_def Let_def snoc_list_insert [symmetric])
qed (simp add: open_settings_def set_active_wf wf)

lemma duplicate_tab_wf:
  assumes wf: "tabs_wf st"
  shows "tabs_wf (duplicate_tab env index st)"
proof (cases "\<exists>e. nth_opt (fg_tabs st) index = Some (TabEditor e)")
  case True
  then obtain e where e: "nth_opt (fg_tabs st) index = Some (TabEditor e)" by blast
  show ?thesis
    by (rule add_tab_wf [OF wf, where pos = "index + 1" and t = "TabEditor (editor_tab_from_duplicate (ae_langs env)
          (fg_fresh st) \<lparr>dp_id = fg_next_tab_id st, dp_title = trim (trim_end_matches modified_suffix (et_title e)),
            dp_current_content = es_text (et_content e), dp_encoding = et_encoding e,
            dp_lossy_decode = et_lossy_decode e, dp_language = et_language e\<rparr> (fg_settings st))"])
      (simp_all add: e duplicate_tab_def allocate_tab_id_def take_fresh_def insert_tab_def Let_def constructor_ids)
next
  case False
  then have "duplicate_tab env index st = st"
    by (auto simp: duplicate_tab_def split: option.splits tab.splits)
  then show ?thesis using wf by simp
qed

lemma transfer_wf: "tabs_wf st \<Longrightarrow> tabs_wf (handle_pending_tab_transfer env st)"
proof (cases "fg_pending_transfer st")
  case (Some data)
  assume wf: "tabs_wf st"
  let ?e = "editor_tab_from_transfer (ae_langs env) (ae_clip env) (fg_fresh st) (fg_next_tab_id st) data (fg_settings st)"
  show ?thesis
    by (rule add_tab_wf [OF wf, where pos = "length (fg_tabs st)" and t = "TabEditor ?e"])
      (simp_all add: Some handle_pending_tab_transfer_def allocate_tab_id_def take_fresh_def push_tab_def Let_def
        snoc_list_insert [symmetric] constructor_ids split: option.splits)
qed (simp add: handle_pending_tab_transfer_def)

lemma removal_wf: "tabs_wf st \<Longrightarrow> tabs_wf (handle_pending_tab_removal st)"
proof -
  assume "tabs_wf st"
  then have "tabs_wf (st\<lparr>fg_pending_removal := None\<rparr>)" by (simp add: tabs_wf_def active_ok_def tab_ids_def)
  then show ?thesis
    using remove_tab_wf by (simp add: handle_pending_tab_removal_def Let_def \<open>tabs_wf st\<close> split: option.splits)
qed

lemma update_tab_wf:
  assumes "tabs_wf st" "\<And>t. t \<in> set (fg_tabs st) \<Longrightarrow> tab_id t = i \<Longrightarrow> tab_id (f t) = i \<and> subscribed (f t)"
  shows "tabs_wf (update_tab i f st)"
proof (cases "tab_index_of i st")
  case (Some p)
  then have p: "p < length (fg_tabs st)" "tab_id (fg_tabs st ! p) = i" by (auto dest: tab_index_of_Some)
  then have f: "tab_id (f (fg_tabs st ! p)) = i" "subscribed (f (fg_tabs st ! p))" using assms(2) by simp_all
  have "tab_ids (update_tab i f st) = (tab_ids st)[p := i]" using Some f by (simp add: update_tab_def tab_ids_def map_update)
  also have "\<dots> = tab_ids st" using p by (metis list_update_id nth_map tab_ids_def)
  finally have ids: "tab_ids (update_tab i f st) = tab_ids st" .
  have "\<forall>t \<in> set (fg_tabs (update_tab i f st)). subscribed t"
    using Some f assms(1) set_update_subset_insert by (fastforce simp: update_tab_def tabs_wf_def)
  then show ?thesis using ids Some by (intro same_ids_wf [OF assms(1)]) (simp_all add: update_tab_def)
qed (simp add: update_tab_def assms)

lemma force_language_id: "et_id (force_language le clip fresh l st e) = et_id e"
  by (simp add: force_language_def)

lemma rename_editor_id: "rename_editor le clip fresh name st t = Some t' \<Longrightarrow> tab_id t' = tab_id t"
  by (cases t) (auto simp: rename_editor_def tab_force_language_def reattach_if_content_swapped_def
      force_language_id Let_def split: if_splits)

lemma retitle_wf: "tabs_wf st \<Longrightarrow> tabs_wf (retitle_preview_tabs_of i name st)"
proof -
  assume wf: "tabs_wf st"
  have "tab_ids (retitle_preview_tabs_of i name st) = tab_ids st"
    by (auto simp: retitle_preview_tabs_of_def tab_ids_def split: tab.splits)
  moreover have "\<forall>t \<in> set (fg_tabs (retitle_preview_tabs_of i name st)). subscribed t"
    using wf by (auto simp: retitle_preview_tabs_of_def tabs_wf_def split: tab.splits)
  ultimately show ?thesis
    by (intro same_ids_wf [OF wf]) (simp_all add: retitle_preview_tabs_of_def)
qed

lemma tab_entity_of_Some: "tab_entity_of i st = Some t \<Longrightarrow> t \<in> set (fg_tabs st) \<and> tab_id t = i"
  by (auto simp: tab_entity_of_def dest: find_SomeD)

lemma rename_tab_wf:
  assumes wf: "tabs_wf st"
  shows "tabs_wf (fst (rename_tab env i name st))"
proof -
  have "tabs_wf (retitle_preview_tabs_of i nn (update_tab i (\<lambda>_. t') (st\<lparr>fg_fresh := f\<rparr>)))"
    if "tab_entity_of i st = Some t" "rename_editor le clip fr nn se t = Some t'" for nn t t' le clip fr se f
  proof -
    note t = tab_entity_of_Some [OF that(1)]
    have "subscribed t" using wf t by (simp add: tabs_wf_def)
    then have "tab_id t' = i" "subscribed t'" using t rename_editor_id [OF that(2)] rename_subscribed [OF _ that(2)] by auto
    moreover have "tabs_wf (st\<lparr>fg_fresh := f\<rparr>)" using wf by (simp add: tabs_wf_def active_ok_def tab_ids_def)
    ultimately show ?thesis by (intro retitle_wf update_tab_wf) auto
  qed
  then show ?thesis using wf
    by (auto simp: rename_tab_def Let_def take_fresh_def split: option.splits)
qed

lemma tab_ids_reorder:
  assumes "from < length (fg_tabs st)"
  shows "set (list_insert k (fg_tabs st ! from) (list_remove from (fg_tabs st))) = set (fg_tabs st)"
proof -
  have "fg_tabs st = take from (fg_tabs st) @ fg_tabs st ! from # drop (Suc from) (fg_tabs st)"
    using assms by (rule id_take_nth_drop)
  then have "set (fg_tabs st) = set (take from (fg_tabs st) @ fg_tabs st ! from # drop (Suc from) (fg_tabs st))" by metis
  then show ?thesis by (auto simp: list_remove_def)
qed

lemma reorder_wf: "tabs_wf st \<Longrightarrow> tabs_wf (reorder_tab from to st)"
proof (cases "from \<ge> length (fg_tabs st) \<or> to > length (fg_tabs st) \<or> to = from \<or> to = from + 1")
  case True
  assume "tabs_wf st"
  then show ?thesis using True by (auto simp: reorder_tab_def)
next
  case False
  assume wf: "tabs_wf st"
  let ?k = "if to > from then to - 1 else to"
  have f: "from < length (fg_tabs st)" using False by simp
  have ts: "fg_tabs (reorder_tab from to st) = list_insert ?k (fg_tabs st ! from) (list_remove from (fg_tabs st))"
    using False by (simp add: reorder_tab_def Let_def)
  have d: "distinct (tab_ids st)" using wf by (simp add: tabs_wf_def)
  have "tab_ids (reorder_tab from to st) = list_insert ?k (tab_ids st ! from) (list_remove from (tab_ids st))"
    using f by (simp add: tab_ids_def ts map_list_insert map_list_remove)
  then have "distinct (tab_ids (reorder_tab from to st))"
    using d f by (simp add: distinct_list_insert distinct_list_remove set_list_remove tab_ids_def)
  moreover have s: "set (fg_tabs (reorder_tab from to st)) = set (fg_tabs st)"
    unfolding ts using f by (rule tab_ids_reorder)
  moreover have "fg_active (reorder_tab from to st) = fg_active st"
    "fg_next_tab_id (reorder_tab from to st) = fg_next_tab_id st" by (simp_all add: reorder_tab_def Let_def)
  moreover have "fg_tabs (reorder_tab from to st) = [] \<longleftrightarrow> fg_tabs st = []" using s by (metis set_empty)
  ultimately show ?thesis using wf by (simp add: tabs_wf_def active_ok_def tab_ids_def)
qed

lemma insert_preview_wf:
  assumes "tabs_wf st" "fg_tabs st \<noteq> []" "build_preview_tab eid title content st = (t, st1)"
  shows "tabs_wf (insert_tab pos t st1)"
  by (rule add_tab_wf [OF assms(1), where pos = pos and t = t])
    (use assms(2,3) in \<open>auto simp: build_preview_tab_def allocate_tab_id_def insert_tab_def\<close>)

lemma open_preview_wf: "tabs_wf st \<Longrightarrow> tabs_wf (open_markdown_preview_tab st)"
proof -
  assume wf: "tabs_wf st"
  have "fg_tabs st \<noteq> []" if "get_active_editor_tab st = Some e" for e
    using that by (auto simp: get_active_editor_tab_def active_tab_def tab_entity_of_def split: bind_splits)
  then show ?thesis using wf
    by (auto simp: open_markdown_preview_tab_def Let_def remove_tab_wf
        intro!: set_active_wf insert_preview_wf split: option.splits prod.splits)
qed

lemma source_nonempty: "markdown_preview_source_at index st = Some x \<Longrightarrow> fg_tabs st \<noteq> []"
  by (auto simp: markdown_preview_source_at_def nth_opt_def split: option.splits)

lemma insert_previews_wf: "tabs_wf st \<Longrightarrow> tabs_wf (insert_preview_tabs_for_markdown st)"
proof -
  have "tabs_wf st \<Longrightarrow> tabs_wf (insert_previews_loop n a st)" for n a st
  proof (induction n a st rule: insert_previews_loop.induct)
    case (2 n a st)
    show ?case
    proof (cases "markdown_preview_source_at a st")
      case (Some x)
      obtain eid title content where x: "x = (eid, title, content)" by (cases x)
      obtain t st1 where b: "build_preview_tab eid title content st = (t, st1)" by fastforce
      have "tabs_wf (insert_tab (a + 1) t st1)"
        by (rule insert_preview_wf [OF "2.prems" source_nonempty [OF Some] b])
      then show ?thesis using "2.IH"(2) [OF Some x [symmetric] refl b [symmetric]] b Some x by simp
    qed (use 2 in simp)
  qed simp
  then show "tabs_wf st \<Longrightarrow> tabs_wf (insert_preview_tabs_for_markdown st)"
    by (simp add: insert_preview_tabs_for_markdown_def)
qed

lemma maybe_preview_wf: "tabs_wf st \<Longrightarrow> tabs_wf (maybe_open_markdown_preview_for_editor index st)"
  by (auto simp: maybe_open_markdown_preview_for_editor_def Let_def dest: source_nonempty
      intro: insert_preview_wf split: option.splits prod.splits)

lemma place_wf:
  assumes "tabs_wf st" "tab_id t = fg_next_tab_id st"
  shows "tabs_wf (snd (place_editor_tab_reusing_scratch t (st\<lparr>fg_next_tab_id := Suc (fg_next_tab_id st)\<rparr>)))"
proof -
  let ?s = "st\<lparr>fg_next_tab_id := Suc (fg_next_tab_id st)\<rparr>"
  let ?r = "case reusable_scratch_tab_id ?s of Some i \<Rightarrow> remove_tab_by_id i ?s | None \<Rightarrow> ?s"
  have wf: "tabs_wf ?s" using assms(1) by (auto simp: tabs_wf_def active_ok_def tab_ids_def)
  have d: "distinct (tab_ids ?s)" using wf by (simp add: tabs_wf_def)
  have r: "tabs_wf ?r" using wf remove_tab_wf by (simp split: option.splits)
  have sub: "set (fg_tabs ?r) \<subseteq> set (fg_tabs ?s)"
    using remove_tab_ids_subset [OF d] by (simp split: option.splits)
  have n: "fg_next_tab_id ?r = Suc (fg_next_tab_id st)"
    by (simp add: remove_tab_by_id_def Let_def split: option.splits)
  have "tab_id t \<notin> set (tab_ids ?r)" using sub assms by (fastforce simp: tab_ids_def tabs_wf_def)
  then show ?thesis using r assms(2) n attach_subscribed
    by (auto simp: place_editor_tab_reusing_scratch_def Let_def push_tab_def tabs_wf_def active_ok_def tab_ids_def)
qed

lemma next_previous_wf: "tabs_wf st \<Longrightarrow> tabs_wf (on_next_tab st) \<and> tabs_wf (on_previous_tab st)"
  by (simp add: on_next_tab_def on_previous_tab_def set_active_wf split: option.splits)

section \<open>Reachable windows\<close>

definition with_text :: "rstr \<Rightarrow> tab \<Rightarrow> tab" where
  "with_text s t =
     (case t of
        TabEditor e \<Rightarrow> fst (on_content_change (TabEditor (e\<lparr>et_content := (et_content e)\<lparr>es_text := s\<rparr>\<rparr>)))
      | TabSettings g \<Rightarrow> t
      | TabPreview p \<Rightarrow> t)"

text \<open>The steps of a window: the commands on tabs, the confirmation of a dialog that was opened, a tab
  opened by a file operation, and an edit of a buffer. Closing the others is a step from a tab that
  stands alone (see \<open>close_others_from_preview_dangles\<close>).\<close>

inductive tab_step :: "app_env \<Rightarrow> fulgur \<Rightarrow> fulgur \<Rightarrow> bool" for env where
  step_new: "tab_step env st (new_tab env st)"
| step_settings: "tab_step env st (open_settings st)"
| step_duplicate: "tab_step env st (duplicate_tab env index st)"
| step_place: "tab_id t = fg_next_tab_id st \<Longrightarrow>
    tab_step env st (snd (place_editor_tab_reusing_scratch t (st\<lparr>fg_next_tab_id := Suc (fg_next_tab_id st)\<rparr>)))"
| step_activate: "tab_step env st (set_active_tab index st)"
| step_next: "tab_step env st (on_next_tab st)"
| step_previous: "tab_step env st (on_previous_tab st)"
| step_close: "tab_step env st (close_tab i st)"
| step_close_all: "tab_step env st (close_all_tabs st)"
| step_close_left: "tab_step env st (on_close_tabs_to_left i st)"
| step_close_right: "on_close_tabs_to_right i st = Some st' \<Longrightarrow> tab_step env st st'"
| step_close_others: "(\<And>a. fg_active st = Some a \<Longrightarrow> stands_alone a st) \<Longrightarrow> tab_step env st (close_other_tabs st)"
| step_confirm: "UnsavedDialog r \<in> set (fg_effects st) \<Longrightarrow> confirm_close r st = Some st' \<Longrightarrow>
    (\<And>i a b. r = CloseOthers i a \<Longrightarrow> b = a \<or> b \<in> set (tab_ids st) \<Longrightarrow> stands_alone b (remove_tab_by_id i st)) \<Longrightarrow>
    tab_step env st st'"
| step_rename: "tab_step env st (fst (rename_tab env i name st))"
| step_reorder: "tab_step env st (reorder_tab from to st)"
| step_preview: "tab_step env st (open_markdown_preview_tab st)"
| step_previews: "tab_step env st (insert_preview_tabs_for_markdown st)"
| step_maybe_preview: "tab_step env st (maybe_open_markdown_preview_for_editor index st)"
| step_receive: "tab_step env (st\<lparr>fg_pending_transfer := data\<rparr>)
    (handle_pending_tab_transfer env (st\<lparr>fg_pending_transfer := data\<rparr>))"
| step_send: "tab_step env st (handle_pending_tab_removal st)"
| step_edit: "tab_step env st (update_tab i (with_text s) st)"

inductive_simps tab_step_iff: "tab_step env st st'"

lemma with_text_id [simp]: "tab_id (with_text s t) = tab_id t"
  by (cases t) (simp_all add: with_text_def check_modified_def Let_def)

lemma with_text_subscribed: "subscribed t \<Longrightarrow> subscribed (with_text s t)"
  by (cases t) (simp_all add: with_text_def Let_def)

lemma confirm_close_wf:
  assumes "tabs_wf st" "confirm_close r st = Some st'"
    and "\<And>i a b. r = CloseOthers i a \<Longrightarrow> b = a \<or> b \<in> set (tab_ids st) \<Longrightarrow> stands_alone b (remove_tab_by_id i st)"
  shows "tabs_wf st'"
proof -
  obtain s where s: "run_close_request r st = Some s" "st' = focus_active_tab s"
    using assms(2) by (auto simp: confirm_close_def)
  have "tabs_wf s"
  proof (rule run_close_request_wf [OF assms(1) s(1)])
    fix i a assume r: "r = CloseOthers i a"
    have "fg_active st = Some b \<Longrightarrow> b \<in> set (tab_ids st)" for b
      using assms(1) by (simp add: tabs_wf_def active_ok_def)
    then show "\<forall>b. fg_active st = Some b \<or> b = a \<or> b \<in> set (tab_ids st) \<longrightarrow> stands_alone b (remove_tab_by_id i st)"
      using assms(3) [OF r] by blast
  qed
  then show ?thesis by (simp add: s)
qed

lemma tab_step_wf: "tab_step env st st' \<Longrightarrow> tabs_wf st \<Longrightarrow> tabs_wf st'"
proof (induction rule: tab_step.induct)
  case (step_close_left st i)
  then show ?case by (simp add: on_close_tabs_to_left_def close_left_wf split: option.splits)
next
  case (step_close_right i st st')
  then show ?case by (auto simp: on_close_tabs_to_right_def dest: close_right_wf split: option.splits)
next
  case (step_confirm r st st')
  then show ?case using confirm_close_wf by blast
next
  case (step_edit st i s)
  then show ?case by (intro update_tab_wf) (auto simp: with_text_subscribed tabs_wf_def)
qed (simp_all add: new_tab_wf open_settings_wf duplicate_tab_wf place_wf set_active_wf next_previous_wf
    close_tab_wf close_all_wf close_others_wf rename_tab_wf reorder_wf open_preview_wf insert_previews_wf
    maybe_preview_wf transfer_wf removal_wf)

lemma tab_steps_wf: "(tab_step env)\<^sup>*\<^sup>* st st' \<Longrightarrow> tabs_wf st \<Longrightarrow> tabs_wf st'"
  by (induction rule: rtranclp_induct) (auto intro: tab_step_wf)

section \<open>Properties\<close>


definition sample_app :: app_env where
  "sample_app = \<lparr>ae_langs = sample_langs, ae_clip = (\<lambda>_ p. p), ae_can_watch = (\<lambda>_. True)\<rparr>"


text \<open>C3: No closing command discards unsaved work on its own: a modified tab is still open, unchanged,
  after closing a tab, all tabs, those to the left, those to the right or the others; only the
  confirmation of the dialog removes it.\<close>

theorem closing_keeps_unsaved_tabs:
  assumes "tabs_wf st" "t \<in> set (fg_tabs st)" "tab_is_modified t"
  shows "t \<in> set (fg_tabs (close_tab i st)) \<and> t \<in> set (fg_tabs (close_all_tabs st))
    \<and> t \<in> set (fg_tabs (close_tabs_to_left index st)) \<and> t \<in> set (fg_tabs (close_other_tabs st))
    \<and> (\<forall>st'. close_tabs_to_right index st = Some st' \<longrightarrow> t \<in> set (fg_tabs st'))"
proof (intro conjI allI impI)
  have d: "distinct (tab_ids st)" using assms by (simp add: tabs_wf_def)
  show "t \<in> set (fg_tabs (close_tab i st))"
    using assms remove_keeps_modified [OF d, of t i] by (simp add: close_tab_def)
  have loop: "t \<in> set (fg_tabs (fst (close_loop ask ids st)))" for ask ids
    using assms by (rule close_loop_keeps_modified)
  have loop': "close_loop ask ids st = (s, b) \<Longrightarrow> t \<in> set (fg_tabs s)" for ask ids s b
    using loop [of ask ids] by simp
  show "t \<in> set (fg_tabs (close_all_tabs st))"
    using assms(2) by (auto simp: close_all_tabs_def Let_def dest: loop' split: prod.splits)
  show "t \<in> set (fg_tabs (close_tabs_to_left index st))"
    using loop' assms(2) by (auto simp: close_tabs_to_left_def Let_def split: prod.splits)
  show "t \<in> set (fg_tabs (close_other_tabs st))"
    using loop' assms(2) by (auto simp: close_other_tabs_def Let_def split: prod.splits option.splits)
  show "t \<in> set (fg_tabs st')" if "close_tabs_to_right index st = Some st'" for st'
    using loop' assms(2) that by (auto simp: close_tabs_to_right_def Let_def split: prod.splits if_splits)
qed

definition sample_window :: fulgur where
  "sample_window = first_tab sample_app (empty_window sample_settings)
     \<lparr>fg_tabs := [attach_content_subscription (TabEditor (sample_tab 0))]\<rparr>"

lemma sample_window_facts:
  "tabs_wf sample_window" "TabEditor (sample_tab 0\<lparr>et_content_subscription := Some 7\<rparr>) \<in> set (fg_tabs sample_window)"
  "et_modified (sample_tab 0)"
proof -
  show "et_modified (sample_tab 0)" by (simp add: sample_tab_def editor_tab_from_content_def Let_def split: prod.splits)
  show "TabEditor (sample_tab 0\<lparr>et_content_subscription := Some 7\<rparr>) \<in> set (fg_tabs sample_window)"
    by (simp add: sample_window_def sample_tab_facts)
  show "tabs_wf sample_window"
    by (simp add: sample_window_def first_tab_def empty_window_def take_fresh_def push_tab_def tabs_wf_def
        active_ok_def tab_ids_def sample_tab_facts Let_def)
qed

lemma closing_keeps_unsaved_tabs_witness:
  "TabEditor (sample_tab 0\<lparr>et_content_subscription := Some 7\<rparr>) \<in> set (fg_tabs (close_all_tabs sample_window))"
  using closing_keeps_unsaved_tabs [OF sample_window_facts(1,2)] sample_window_facts(3) by simp

text \<open>Removing a tab removes exactly that tab and, for an editor, its linked preview; the other tabs
  stay in their order, and the active tab stays active when it is one of them.\<close>

theorem remove_tab_removes_tab_and_preview:
  assumes "tabs_wf st" "i \<in> set (tab_ids st)"
  shows "fg_tabs (remove_tab_by_id i st) = filter (\<lambda>t. tab_id t \<notin> removed_ids i st) (fg_tabs st)
    \<and> (\<forall>a. fg_active st = Some a \<longrightarrow> a \<notin> removed_ids i st \<longrightarrow> fg_active (remove_tab_by_id i st) = Some a)"
proof -
  have d: "distinct (tab_ids st)" using assms(1) by (simp add: tabs_wf_def)
  have tabs: "fg_tabs (remove_tab_by_id i st) = filter (\<lambda>t. tab_id t \<notin> removed_ids i st) (fg_tabs st)"
    by (rule remove_tab_tabs [OF d assms(2)])
  have keep: "fg_active (close_tab_manage_focus pos s) = Some a"
    if "fg_active s = Some a" "a \<in> set (tab_ids s)" for pos s a
    using that by (auto simp: close_tab_manage_focus_def active_tab_index_def tab_index_of_None tab_ids_def)
  have "fg_active (remove_tab_by_id i st) = Some a" if a: "fg_active st = Some a" "a \<notin> removed_ids i st" for a
  proof -
    obtain p where p: "tab_index_of i st = Some p" using assms(2) tab_index_of_None by (metis option.exhaust)
    let ?s = "st\<lparr>fg_tabs := list_remove p (fg_tabs st)\<rparr>"
    have fin: "a \<in> set (tab_ids (remove_tab_by_id i st))"
      using a assms(1) tabs by (fastforce simp: tab_ids_def tabs_wf_def active_ok_def)
    have rm: "list_remove p (fg_tabs st) = filter (\<lambda>t. tab_id t \<noteq> i) (fg_tabs st)"
      using list_remove_filter d p by (metis tab_ids_def tab_index_of_def)
    have "a \<in> set (tab_ids ?s)"
      using a assms(1) rm by (fastforce simp: tab_ids_def tabs_wf_def active_ok_def removed_ids_def)
    then have "fg_active (close_tab_manage_focus p ?s) = Some a" using keep a(1) by simp
    then show ?thesis using p fin keep
      by (auto simp: remove_tab_by_id_def Let_def tab_ids_def split: option.splits)
  qed
  then show ?thesis using tabs by blast
qed

lemma remove_tab_removes_tab_and_preview_witness: "fg_tabs (remove_tab_by_id 0 sample_window) = []"
proof -
  have "0 \<in> set (tab_ids sample_window)" using sample_window_facts(2) by (force simp: tab_ids_def sample_tab_facts)
  from remove_tab_removes_tab_and_preview [OF sample_window_facts(1) this] show ?thesis
    by (simp add: sample_window_def removed_ids_def sample_tab_facts)
qed

text \<open>Dropping a tab at a slot moves that tab to the slot and changes nothing else: the other tabs
  keep their order, and the active tab and the counter stay; a drop on its own place does nothing.\<close>

theorem reorder_moves_one_tab:
  assumes "from < length (fg_tabs st)" "to \<le> length (fg_tabs st)"
  shows "let k = (if to > from then to - 1 else to) in
     fg_tabs (reorder_tab from to st) ! k = fg_tabs st ! from
     \<and> list_remove k (fg_tabs (reorder_tab from to st)) = list_remove from (fg_tabs st)
     \<and> length (fg_tabs (reorder_tab from to st)) = length (fg_tabs st)
     \<and> fg_active (reorder_tab from to st) = fg_active st"
proof (cases "to = from \<or> to = from + 1")
  case True
  then show ?thesis by (auto simp: reorder_tab_def Let_def)
next
  case False
  let ?k = "if to > from then to - 1 else to"
  have len: "length (list_remove from (fg_tabs st)) = length (fg_tabs st) - 1" using assms(1) by (rule length_list_remove)
  have k: "?k \<le> length (list_remove from (fg_tabs st))" using assms False len by auto
  have ts: "fg_tabs (reorder_tab from to st) = list_insert ?k (fg_tabs st ! from) (list_remove from (fg_tabs st))"
    using assms False by (simp add: reorder_tab_def Let_def)
  have rem: "list_remove m (list_insert m x ys) = ys" "list_insert m x ys ! m = x" if "m \<le> length ys" for m x and ys :: "tab list"
    using that by (simp_all add: list_remove_def list_insert_def nth_append min_absorb2)
  show ?thesis unfolding Let_def ts using rem [OF k] len assms(1)
    by (auto simp: reorder_tab_def Let_def)
qed

lemma reorder_moves_one_tab_witness:
  "fg_tabs (reorder_tab 0 1 sample_window) ! 0 = fg_tabs sample_window ! 0"
proof -
  have "0 < length (fg_tabs sample_window)" "1 \<le> length (fg_tabs sample_window)" by (simp_all add: sample_window_def)
  from reorder_moves_one_tab [OF this] show ?thesis by (simp add: Let_def)
qed

text \<open>The subtraction in the guard of closing to the right never underflows from the tab bar's action
  or from a confirmed dialog, whatever the state.\<close>

theorem close_right_never_panics:
  "on_close_tabs_to_right i st \<noteq> None \<and> confirm_close r st \<noteq> None"
proof -
  have "fg_tabs s \<noteq> []" if "tab_index_of j s = Some p" for j s p
    using tab_index_of_Some [OF that] by auto
  then show ?thesis
    by (auto simp: on_close_tabs_to_right_def close_tabs_to_right_def confirm_close_def run_close_request_def Let_def
        split: option.splits prod.splits close_request.splits)
qed

end
