(* ===== verification/Utf8.thy ===== *)
theory Utf8
  imports Prelude
begin

text \<open>
  The UTF-8 decoding of Rust's standard library, shared by the theories that read bytes:
  \<open>String::from_utf8\<close> and \<open>String::from_utf8_lossy\<close>, which split the bytes into valid characters and
  maximal invalid parts. \<open>decode_step\<close> reads one of either; \<open>utf8_decode_encode\<close> is the round trip
  with the encoder of \<open>Prelude\<close>.
\<close>

text \<open>Unicode scalar values, the values of a Rust \<open>char\<close>.\<close>

definition is_scalar :: "uchar \<Rightarrow> bool" where
  "is_scalar c \<longleftrightarrow> c < 55296 \<or> (57344 \<le> c \<and> c < 1114112)"

definition is_cont :: "nat \<Rightarrow> bool" where
  "is_cont b \<longleftrightarrow> 128 \<le> b \<and> b < 192"

text \<open>The range of the second byte, by the first one.\<close>

definition second_ok :: "nat \<Rightarrow> nat \<Rightarrow> bool" where
  "second_ok b0 b1 \<longleftrightarrow>
     (if b0 = 224 then 160 \<le> b1 \<and> b1 < 192
      else if b0 = 237 then 128 \<le> b1 \<and> b1 < 160
      else if b0 = 240 then 144 \<le> b1 \<and> b1 < 192
      else if b0 = 244 then 128 \<le> b1 \<and> b1 < 144
      else is_cont b1)"

definition seq_width :: "nat \<Rightarrow> nat" where
  "seq_width b0 =
     (if b0 < 128 then 1
      else if 194 \<le> b0 \<and> b0 < 224 then 2
      else if 224 \<le> b0 \<and> b0 < 240 then 3
      else if 240 \<le> b0 \<and> b0 < 245 then 4
      else 0)"

text \<open>One step on the byte values: \<open>Inr (c, n)\<close> is a character of \<open>n\<close> bytes, \<open>Inl n\<close> an invalid part
  of \<open>n\<close> bytes. A byte missing at the end reads as 0, as in \<open>safe_get\<close>.\<close>

definition byte_at :: "nat list \<Rightarrow> nat \<Rightarrow> nat" where
  "byte_at bs i = (if i < length bs then bs ! i else 0)"

definition decode_step :: "nat list \<Rightarrow> nat + (uchar \<times> nat)" where
  "decode_step bs =
     (let b0 = byte_at bs 0; b1 = byte_at bs 1; b2 = byte_at bs 2; b3 = byte_at bs 3; w = seq_width b0 in
      if w = 1 then Inr (b0, 1)
      else if w = 2 then (if is_cont b1 then Inr ((b0 - 192) * 64 + (b1 - 128), 2) else Inl 1)
      else if w = 3 then
        (if \<not> second_ok b0 b1 then Inl 1
         else if \<not> is_cont b2 then Inl 2
         else Inr ((b0 - 224) * 4096 + (b1 - 128) * 64 + (b2 - 128), 3))
      else if w = 4 then
        (if \<not> second_ok b0 b1 then Inl 1
         else if \<not> is_cont b2 then Inl 2
         else if \<not> is_cont b3 then Inl 3
         else Inr ((b0 - 240) * 262144 + (b1 - 128) * 4096 + (b2 - 128) * 64 + (b3 - 128), 4))
      else Inl 1)"

definition step_len :: "nat + (uchar \<times> nat) \<Rightarrow> nat" where
  "step_len s = (case s of Inl n \<Rightarrow> n | Inr (c, n) \<Rightarrow> n)"

lemma step_len_pos [simp]: "0 < step_len (decode_step bs)"
  by (simp add: decode_step_def step_len_def Let_def)

function decode_chunks :: "nat list \<Rightarrow> (unit + uchar) list" where
  "decode_chunks bs =
     (if bs = [] then []
      else (case decode_step bs of Inl n \<Rightarrow> Inl () | Inr (c, n) \<Rightarrow> Inr c)
             # decode_chunks (drop (step_len (decode_step bs)) bs))"
  by pat_completeness auto
termination
proof (relation "measure length")
  fix bs :: "nat list" assume "bs \<noteq> []"
  then show "(drop (step_len (decode_step bs)) bs, bs) \<in> measure length"
    using step_len_pos [of bs] by simp
qed simp

declare decode_chunks.simps [simp del]

definition REPLACEMENT :: uchar where "REPLACEMENT = 65533"

text \<open>\<open>String::from_utf8\<close> and \<open>String::from_utf8_lossy\<close>.\<close>

definition from_utf8 :: "u8 list \<Rightarrow> rstr option" where
  "from_utf8 bs =
     (let cs = decode_chunks (map unat bs) in
      if (\<exists>x \<in> set cs. x = Inl ()) then None else Some (map projr cs))"

definition from_utf8_lossy :: "u8 list \<Rightarrow> rstr" where
  "from_utf8_lossy bs =
     map (\<lambda>x. case x of Inl _ \<Rightarrow> REPLACEMENT | Inr c \<Rightarrow> c) (decode_chunks (map unat bs))"

section \<open>Decoding what was encoded\<close>

definition code_units :: "uchar \<Rightarrow> nat list" where
  "code_units c =
     (if c < 128 then [c]
      else if c < 2048 then [192 + c div 64, 128 + c mod 64]
      else if c < 65536 then [224 + c div 4096, 128 + c div 64 mod 64, 128 + c mod 64]
      else [240 + c div 262144, 128 + c div 4096 mod 64, 128 + c div 64 mod 64, 128 + c mod 64])"

lemma unat_byte: "n < 256 \<Longrightarrow> unat (of_nat n :: u8) = n"
  by (simp add: unat_of_nat take_bit_nat_eq_self)

lemma utf8_char_units: "is_scalar c \<Longrightarrow> map unat (utf8_char c) = code_units c"
proof -
  assume "is_scalar c"
  then have "c < 1114112" by (auto simp: is_scalar_def)
  then have "c div 262144 < 5" by simp
  moreover have "c < 2048 \<Longrightarrow> c div 64 < 32" "c < 65536 \<Longrightarrow> c div 4096 < 16" by simp_all
  ultimately show ?thesis
    unfolding utf8_char_def code_units_def
    by (simp del: of_nat_add add: unat_byte)
qed

lemma byte_at_Cons [simp]:
  "byte_at (b # bs) 0 = b" "byte_at (b # bs) (Suc i) = byte_at bs i"
  by (simp_all add: byte_at_def)

lemma byte_at_numeral [simp]: "byte_at (b # bs) (numeral k) = byte_at bs (pred_numeral k)"
  by (simp add: numeral_eq_Suc)

lemma decode_two:
  "128 \<le> c \<Longrightarrow> c < 2048 \<Longrightarrow> decode_step ((192 + c div 64) # (128 + c mod 64) # rest) = Inr (c, 2)"
proof -
  assume c: "128 \<le> c" "c < 2048"
  then have "2 \<le> c div 64" "c div 64 < 32" by simp_all
  then show ?thesis
    by (simp add: decode_step_def Let_def seq_width_def is_cont_def)
qed

lemma digits_64:
  "c div 4096 * 4096 + c div 64 mod 64 * 64 + c mod 64 = (c::nat)"
proof -
  have "c div 4096 = c div 64 div 64" by (simp add: div_mult2_eq [symmetric])
  then show ?thesis
    using div_mult_mod_eq [of "c div 64" 64] div_mult_mod_eq [of c 64] by linarith
qed

lemma decode_three:
  assumes c: "2048 \<le> c" "c < 65536" and sc: "c < 55296 \<or> 57344 \<le> c"
  shows "decode_step ((224 + c div 4096) # (128 + c div 64 mod 64) # (128 + c mod 64) # rest) = Inr (c, 3)"
proof -
  define a where "a = c div 4096"
  define b where "b = c div 64 mod 64"
  have a: "a < 16" using c by (simp add: a_def)
  have b: "b < 64" by (simp add: b_def)
  have e: "a * 4096 + b * 64 + c mod 64 = c" unfolding a_def b_def by (rule digits_64)
  have m: "c mod 64 < 64" by simp
  have "a = 0 \<Longrightarrow> 32 \<le> b" using e m c by linarith
  moreover have "a = 13 \<Longrightarrow> b < 32"
  proof -
    assume "a = 13"
    then have "c < 57344" using e b m by linarith
    then have "c < 55296" using sc by simp
    then show ?thesis using e \<open>a = 13\<close> by linarith
  qed
  ultimately have "second_ok (224 + a) (128 + b)"
    using a b by (simp add: second_ok_def is_cont_def)
  then show ?thesis
    using a b e unfolding a_def [symmetric] b_def [symmetric]
    by (simp add: decode_step_def Let_def seq_width_def is_cont_def)
qed

lemma digits_64_4:
  "c div 262144 * 262144 + c div 4096 mod 64 * 4096 + c div 64 mod 64 * 64 + c mod 64 = (c::nat)"
proof -
  have "c div 262144 = c div 4096 div 64" by (simp add: div_mult2_eq [symmetric])
  then show ?thesis
    using div_mult_mod_eq [of "c div 4096" 64] digits_64 [of c] by linarith
qed

lemma decode_four:
  assumes c: "65536 \<le> c" "c < 1114112"
  shows "decode_step ((240 + c div 262144) # (128 + c div 4096 mod 64) # (128 + c div 64 mod 64) # (128 + c mod 64) # rest)
           = Inr (c, 4)"
proof -
  define a where "a = c div 262144"
  define b where "b = c div 4096 mod 64"
  define d where "d = c div 64 mod 64"
  have a: "a < 5" using c by (simp add: a_def)
  have b: "b < 64" by (simp add: b_def)
  have d: "d < 64" by (simp add: d_def)
  have e: "a * 262144 + b * 4096 + d * 64 + c mod 64 = c"
    unfolding a_def b_def d_def by (rule digits_64_4)
  have m: "c mod 64 < 64" by simp
  have "a = 0 \<Longrightarrow> 16 \<le> b" using e m c d by linarith
  moreover have "a = 4 \<Longrightarrow> b < 16" using e c by linarith
  ultimately have "second_ok (240 + a) (128 + b)"
    using a b by (simp add: second_ok_def is_cont_def)
  then show ?thesis
    using a b d e unfolding a_def [symmetric] b_def [symmetric] d_def [symmetric]
    by (simp add: decode_step_def Let_def seq_width_def is_cont_def)
qed

lemma decode_units:
  assumes "is_scalar c"
  shows "decode_step (code_units c @ rest) = Inr (c, length (code_units c))"
proof -
  consider "c < 128" | "128 \<le> c" "c < 2048" | "2048 \<le> c" "c < 65536" | "65536 \<le> c" by linarith
  then show ?thesis
  proof cases
    case 1
    then show ?thesis by (simp add: code_units_def decode_step_def seq_width_def Let_def)
  next
    case 2
    then show ?thesis using decode_two [OF 2] by (simp add: code_units_def)
  next
    case 3
    then show ?thesis using decode_three [OF 3] assms by (simp add: code_units_def is_scalar_def)
  next
    case 4
    then show ?thesis using decode_four [OF 4] assms by (auto simp: code_units_def is_scalar_def)
  qed
qed

lemma code_units_not_Nil [simp]: "code_units c \<noteq> []"
  by (simp add: code_units_def)

lemma decode_chunks_encode:
  "\<forall>c \<in> set s. is_scalar c \<Longrightarrow> decode_chunks (concat (map code_units s)) = map Inr s"
proof (induction s)
  case (Cons c s)
  then show ?case
    using decode_units [of c "concat (map code_units s)"]
    by (subst decode_chunks.simps) (simp add: step_len_def)
qed (simp add: decode_chunks.simps)

lemma map_unat_utf8:
  "\<forall>c \<in> set s. is_scalar c \<Longrightarrow> map unat (utf8 s) = concat (map code_units s)"
  by (induction s) (simp_all add: utf8_char_units)

lemma utf8_decode_encode:
  assumes "\<forall>c \<in> set s. is_scalar c"
  shows "from_utf8 (utf8 s) = Some s" and "from_utf8_lossy (utf8 s) = s"
  using assms
  by (simp_all add: from_utf8_def from_utf8_lossy_def map_unat_utf8 decode_chunks_encode comp_def image_iff)

end
