(* ===== verification/State_Db.thy ===== *)
theory State_Db
  imports Editor_Tab Utf8 "HOL-Library.Product_Lexorder"
begin

text \<open>
  The session database: \<^verbatim>\<open>src/fulgur/state/db/\<close> and the persisted types of
  \<^verbatim>\<open>src/fulgur/state/persistence/\<close>.

  The two SQLite tables of \<^verbatim>\<open>001_initial.sql\<close> are lists of rows, keyed by \<open>wr_id\<close> and by
  \<open>(tr_window, tr_id)\<close>; each SQL statement of the code is the function on those lists that it denotes
  (an upsert, an update of the matching rows, a delete, an \<open>ORDER BY position, id\<close>). A REAL column
  stores no NaN (it becomes NULL, which the NOT NULL columns refuse) and turns -0.0 into 0.0.
  A fault of SQLite at the begin, in a statement or at the commit is an argument; the transaction is
  then rolled back.
\<close>

section \<open>Persisted types\<close>

datatype tab_content = ContentText rstr | ContentRope "rstr list"

fun content_is_empty :: "tab_content \<Rightarrow> bool" where
  "content_is_empty (ContentText t) \<longleftrightarrow> t = []"
| "content_is_empty (ContentRope r) \<longleftrightarrow> blen (concat r) = 0"

fun into_string :: "tab_content \<Rightarrow> rstr" where
  "into_string (ContentText t) = t"
| "into_string (ContentRope r) = concat r"

fun to_text :: "tab_content \<Rightarrow> rstr" where
  "to_text (ContentText t) = t"
| "to_text (ContentRope r) = concat r"

fun tab_content_fingerprint :: "tab_content \<Rightarrow> u64 \<times> nat" where
  "tab_content_fingerprint (ContentText t) = content_fingerprint_from_str t"
| "tab_content_fingerprint (ContentRope r) = content_fingerprint_from_rope r"

fun tab_content_eq :: "tab_content \<Rightarrow> tab_content \<Rightarrow> bool" where
  "tab_content_eq (ContentText l) (ContentText r) \<longleftrightarrow> l = r"
| "tab_content_eq (ContentRope l) (ContentRope r) \<longleftrightarrow> concat l = concat r"
| "tab_content_eq (ContentText t) (ContentRope r) \<longleftrightarrow> concat r = t"
| "tab_content_eq (ContentRope r) (ContentText t) \<longleftrightarrow> concat r = t"

text \<open>An \<open>f32\<close> is its bit pattern; \<open>f32_eq\<close> is its \<open>==\<close>.\<close>

type_synonym f32 = "32 word"

definition f32_magnitude :: "f32 \<Rightarrow> f32" where
  "f32_magnitude x = x AND 0x7FFFFFFF"

definition f32_nan :: "f32 \<Rightarrow> bool" where
  "f32_nan x \<longleftrightarrow> f32_magnitude x > 0x7F800000"

definition f32_eq :: "f32 \<Rightarrow> f32 \<Rightarrow> bool" where
  "f32_eq a b \<longleftrightarrow> \<not> f32_nan a \<and> \<not> f32_nan b \<and> (a = b \<or> (f32_magnitude a = 0 \<and> f32_magnitude b = 0))"

record window_bounds =
  wb_state :: rstr
  wb_x :: f32
  wb_y :: f32
  wb_width :: f32
  wb_height :: f32
  wb_display_id :: "nat option"

record tab_state =
  ts_tab_id :: nat
  ts_title :: rstr
  ts_file_path :: "rstr option"
  ts_content :: "tab_content option"
  ts_last_saved :: "rstr option"
  ts_remote :: "serialized_remote_spec option"
  ts_log_view :: bool
  ts_color_tag :: "string option"

record window_state =
  ws_window_id :: int
  ws_tabs :: "tab_state list"
  ws_active_tab_index :: "nat option"
  ws_bounds :: window_bounds

type_synonym windows_state = "window_state list"

definition default_window_bounds :: window_bounds where
  "default_window_bounds =
     \<lparr>wb_state = lit ''Windowed'', wb_x = 0x42C80000, wb_y = 0x42C80000,
      wb_width = 0x44960000, wb_height = 0x44480000, wb_display_id = None\<rparr>"

text \<open>The bounds of the window system: origin and size.\<close>

datatype gpui_bounds =
    Windowed f32 f32 f32 f32
  | Maximized f32 f32 f32 f32
  | Fullscreen f32 f32 f32 f32

fun from_gpui_bounds :: "gpui_bounds \<Rightarrow> nat option \<Rightarrow> window_bounds" where
  "from_gpui_bounds (Windowed x y w h) d =
     \<lparr>wb_state = lit ''Windowed'', wb_x = x, wb_y = y, wb_width = w, wb_height = h, wb_display_id = d\<rparr>"
| "from_gpui_bounds (Maximized x y w h) d =
     \<lparr>wb_state = lit ''Maximized'', wb_x = x, wb_y = y, wb_width = w, wb_height = h, wb_display_id = d\<rparr>"
| "from_gpui_bounds (Fullscreen x y w h) d =
     \<lparr>wb_state = lit ''Fullscreen'', wb_x = x, wb_y = y, wb_width = w, wb_height = h, wb_display_id = d\<rparr>"

definition to_gpui_bounds :: "window_bounds \<Rightarrow> gpui_bounds" where
  "to_gpui_bounds b =
     (if wb_state b = lit ''Maximized'' then Maximized (wb_x b) (wb_y b) (wb_width b) (wb_height b)
      else if wb_state b = lit ''Fullscreen'' then Fullscreen (wb_x b) (wb_y b) (wb_width b) (wb_height b)
      else Windowed (wb_x b) (wb_y b) (wb_width b) (wb_height b))"

text \<open>\<open>allocate_id\<close>: the counter after \<open>fetch_max\<close> with the clock and \<open>fetch_add\<close>, which wraps.\<close>

definition i64_max :: int where "i64_max = 2 ^ 63 - 1"

definition clock_nanos :: "nat option \<Rightarrow> int" where
  "clock_nanos elapsed =
     (case elapsed of None \<Rightarrow> 0 | Some n \<Rightarrow> if int n \<le> i64_max then int n else 0)"

definition allocate_id :: "nat option \<Rightarrow> 64 word \<Rightarrow> 64 word \<times> 64 word" where
  "allocate_id elapsed last_id =
     (let now = word_of_int (clock_nanos elapsed);
          bumped = (if sint last_id < sint now then now else last_id)
      in (bumped + 1, bumped + 1))"

section \<open>Rows\<close>

record stored_tab =
  sd_position :: int
  sd_title :: rstr
  sd_file_path :: "u8 list option"
  sd_last_saved :: "rstr option"
  sd_log_view :: bool
  sd_color_tag :: "string option"
  sd_remote_host :: "rstr option"
  sd_remote_port :: "u16 option"
  sd_remote_user :: "rstr option"
  sd_remote_path :: "rstr option"

record stored_window =
  sw_position :: int
  sw_active_tab_id :: "int option"
  sw_bounds_state :: rstr
  sw_x :: f32
  sw_y :: f32
  sw_width :: f32
  sw_height :: f32
  sw_display_id :: "nat option"

record tab_row =
  tr_window :: int
  tr_id :: int
  tr_stored :: stored_tab
  tr_content :: "rstr option"
  tr_hash :: "int option"
  tr_len :: "int option"

record window_row =
  wr_id :: int
  wr_stored :: stored_window

record tables =
  tb_windows :: "window_row list"
  tb_tabs :: "tab_row list"

record state_db =
  db_tables :: tables
  db_path :: "rstr option"
  db_owned :: "int set"

record apply_stats =
  as_windows_written :: nat
  as_windows_deleted :: nat
  as_tabs_inserted :: nat
  as_tabs_metadata_updated :: nat
  as_tabs_content_written :: nat
  as_tabs_deleted :: nat

definition no_stats :: apply_stats where
  "no_stats = \<lparr>as_windows_written = 0, as_windows_deleted = 0, as_tabs_inserted = 0,
               as_tabs_metadata_updated = 0, as_tabs_content_written = 0, as_tabs_deleted = 0\<rparr>"

definition stats_is_empty :: "apply_stats \<Rightarrow> bool" where
  "stats_is_empty s \<longleftrightarrow> s = no_stats"

datatype db_error =
    PositionTooLarge
  | TabIdTooLarge
  | ActiveTabIdTooLarge
  | ContentTooLarge
  | NullBounds
  | DecodeFailed
  | SqlFailed string
  | NewerSchema int
  | InvalidSchema int
  | LegacyUnreadable

text \<open>\<open>i64::try_from\<close> of an unsigned number and \<open>u64::try_from\<close> of a signed one.\<close>

definition i64_from :: "db_error \<Rightarrow> nat \<Rightarrow> db_error + int" where
  "i64_from e n = (if int n \<le> i64_max then Inr (int n) else Inl e)"

definition u64_from :: "int \<Rightarrow> nat option" where
  "u64_from i = (if 0 \<le> i then Some (nat i) else None)"

definition path_to_bytes :: "rstr \<Rightarrow> u8 list" where
  "path_to_bytes p = utf8 p"

definition path_from_bytes :: "u8 list \<Rightarrow> rstr" where
  "path_from_bytes bytes = (case from_utf8 bytes of Some t \<Rightarrow> t | None \<Rightarrow> from_utf8_lossy bytes)"

definition upsert :: "('r \<Rightarrow> 'k) \<Rightarrow> 'r \<Rightarrow> 'r list \<Rightarrow> 'r list" where
  "upsert key r rows =
     (if key r \<in> key ` set rows then map (\<lambda>x. if key x = key r then r else x) rows else rows @ [r])"

definition tab_key :: "tab_row \<Rightarrow> int \<times> int" where
  "tab_key r = (tr_window r, tr_id r)"

section \<open>Writing\<close>

definition stored_tab_from_snapshot :: "tab_state \<Rightarrow> int \<Rightarrow> stored_tab" where
  "stored_tab_from_snapshot t pos =
     \<lparr>sd_position = pos, sd_title = ts_title t,
      sd_file_path = map_option path_to_bytes (ts_file_path t),
      sd_last_saved = ts_last_saved t, sd_log_view = ts_log_view t, sd_color_tag = ts_color_tag t,
      sd_remote_host = map_option s_host (ts_remote t),
      sd_remote_port = map_option s_port (ts_remote t),
      sd_remote_user = map_option s_user (ts_remote t),
      sd_remote_path = map_option s_path (ts_remote t)\<rparr>"

definition fingerprint_columns :: "(u64 \<times> nat) option \<Rightarrow> db_error + (int option \<times> int option)" where
  "fingerprint_columns fingerprint =
     (case fingerprint of
        None \<Rightarrow> Inr (None, None)
      | Some (hash, len) \<Rightarrow>
          rbind (i64_from ContentTooLarge len) (\<lambda>l. Inr (Some (sint hash), Some l)))"

definition row_fingerprint :: "tab_row \<Rightarrow> (u64 \<times> nat) option" where
  "row_fingerprint r =
     (case (tr_hash r, tr_len r) of
        (Some h, Some l) \<Rightarrow> map_option (\<lambda>n. (word_of_int h, n)) (u64_from l)
      | _ \<Rightarrow> None)"

type_synonym stored_tabs = "(nat \<times> stored_tab \<times> (u64 \<times> nat) option) list"

definition read_stored_tabs :: "int \<Rightarrow> tables \<Rightarrow> stored_tabs" where
  "read_stored_tabs w tb =
     List.map_filter
       (\<lambda>r. map_option (\<lambda>i. (i, tr_stored r, row_fingerprint r)) (u64_from (tr_id r)))
       (filter (\<lambda>r. tr_window r = w) (tb_tabs tb))"

definition tab_row_of :: "int \<Rightarrow> int \<Rightarrow> tab_state \<Rightarrow> stored_tab \<Rightarrow> int option \<times> int option \<Rightarrow> tab_row" where
  "tab_row_of w i t desired cols =
     \<lparr>tr_window = w, tr_id = i, tr_stored = desired, tr_content = map_option to_text (ts_content t),
      tr_hash = fst cols, tr_len = snd cols\<rparr>"

definition insert_tab_row ::
  "int \<Rightarrow> tab_state \<Rightarrow> stored_tab \<Rightarrow> (u64 \<times> nat) option \<Rightarrow> tables \<Rightarrow> db_error + tables" where
  "insert_tab_row w t desired fingerprint tb =
     rbind (i64_from TabIdTooLarge (ts_tab_id t)) (\<lambda>i.
     rbind (fingerprint_columns fingerprint) (\<lambda>cols.
       Inr (tb\<lparr>tb_tabs := upsert tab_key (tab_row_of w i t desired cols) (tb_tabs tb)\<rparr>)))"

definition update_tab_row ::
  "int \<Rightarrow> tab_state \<Rightarrow> stored_tab \<Rightarrow> (u64 \<times> nat) option \<Rightarrow> tables \<Rightarrow> db_error + tables" where
  "update_tab_row w t desired fingerprint tb =
     rbind (i64_from TabIdTooLarge (ts_tab_id t)) (\<lambda>i.
     rbind (fingerprint_columns fingerprint) (\<lambda>cols.
       Inr (tb\<lparr>tb_tabs := map (\<lambda>r. if tab_key r = (w, i) then tab_row_of w i t desired cols else r)
                              (tb_tabs tb)\<rparr>)))"

definition update_tab_metadata :: "int \<Rightarrow> nat \<Rightarrow> stored_tab \<Rightarrow> tables \<Rightarrow> db_error + tables" where
  "update_tab_metadata w t desired tb =
     rbind (i64_from TabIdTooLarge t) (\<lambda>i.
       Inr (tb\<lparr>tb_tabs := map (\<lambda>r. if tab_key r = (w, i) then r\<lparr>tr_stored := desired\<rparr> else r)
                              (tb_tabs tb)\<rparr>))"

text \<open>One tab of the snapshot; the map of the stored tabs loses the one that was found.\<close>

definition apply_tab ::
  "int \<Rightarrow> nat \<Rightarrow> tab_state \<Rightarrow> stored_tabs \<times> tables \<times> apply_stats
     \<Rightarrow> db_error + (stored_tabs \<times> tables \<times> apply_stats)" where
  "apply_tab w pos t = (\<lambda>(existing, tb, stats).
     rbind (i64_from PositionTooLarge pos) (\<lambda>p.
       let desired = stored_tab_from_snapshot t p;
           fingerprint = map_option tab_content_fingerprint (ts_content t);
           rest = filter (\<lambda>e. fst e \<noteq> ts_tab_id t) existing
       in
       (case map_of existing (ts_tab_id t) of
          None \<Rightarrow>
            rbind (insert_tab_row w t desired fingerprint tb) (\<lambda>tb'.
              Inr (rest, tb', stats\<lparr>as_tabs_inserted := as_tabs_inserted stats + 1\<rparr>))
        | Some (stored, stored_fingerprint) \<Rightarrow>
            if stored_fingerprint \<noteq> fingerprint then
              rbind (update_tab_row w t desired fingerprint tb) (\<lambda>tb'.
                Inr (rest, tb', stats\<lparr>as_tabs_content_written := as_tabs_content_written stats + 1\<rparr>))
            else if stored \<noteq> desired then
              rbind (update_tab_metadata w (ts_tab_id t) desired tb) (\<lambda>tb'.
                Inr (rest, tb', stats\<lparr>as_tabs_metadata_updated := as_tabs_metadata_updated stats + 1\<rparr>))
            else Inr (rest, tb, stats))))"

fun apply_tabs_loop ::
  "int \<Rightarrow> nat \<Rightarrow> tab_state list \<Rightarrow> stored_tabs \<times> tables \<times> apply_stats
     \<Rightarrow> db_error + (stored_tabs \<times> tables \<times> apply_stats)" where
  "apply_tabs_loop w pos [] acc = Inr acc"
| "apply_tabs_loop w pos (t # ts) acc = rbind (apply_tab w pos t acc) (apply_tabs_loop w (Suc pos) ts)"

text \<open>The tabs left in the map are closed ones.\<close>

fun delete_closed :: "int \<Rightarrow> stored_tabs \<Rightarrow> tables \<times> apply_stats \<Rightarrow> db_error + (tables \<times> apply_stats)" where
  "delete_closed w [] acc = Inr acc"
| "delete_closed w ((c, _) # rest) (tb, stats) =
     rbind (i64_from TabIdTooLarge c) (\<lambda>i.
       let gone = length (filter (\<lambda>r. tab_key r = (w, i)) (tb_tabs tb)) in
       delete_closed w rest
         (tb\<lparr>tb_tabs := filter (\<lambda>r. tab_key r \<noteq> (w, i)) (tb_tabs tb)\<rparr>,
          stats\<lparr>as_tabs_deleted := as_tabs_deleted stats + gone\<rparr>))"

definition apply_tabs :: "window_state \<Rightarrow> tables \<times> apply_stats \<Rightarrow> db_error + (tables \<times> apply_stats)" where
  "apply_tabs w = (\<lambda>(tb, stats).
     rbind (apply_tabs_loop (ws_window_id w) 0 (ws_tabs w) (read_stored_tabs (ws_window_id w) tb, tb, stats))
       (\<lambda>(existing, tb', stats'). delete_closed (ws_window_id w) existing (tb', stats')))"

definition active_tab_id_of :: "window_state \<Rightarrow> db_error + int option" where
  "active_tab_id_of w =
     (case Option.bind (ws_active_tab_index w) (nth_opt (ws_tabs w)) of
        None \<Rightarrow> Inr None
      | Some t \<Rightarrow> rbind (i64_from ActiveTabIdTooLarge (ts_tab_id t)) (\<lambda>i. Inr (Some i)))"

definition desired_window :: "window_bounds \<Rightarrow> int \<Rightarrow> int option \<Rightarrow> stored_window" where
  "desired_window b pos active =
     \<lparr>sw_position = pos, sw_active_tab_id = active, sw_bounds_state = wb_state b, sw_x = wb_x b,
      sw_y = wb_y b, sw_width = wb_width b, sw_height = wb_height b, sw_display_id = wb_display_id b\<rparr>"

definition stored_window_eq :: "stored_window \<Rightarrow> stored_window \<Rightarrow> bool" where
  "stored_window_eq a b \<longleftrightarrow>
     sw_position a = sw_position b \<and> sw_active_tab_id a = sw_active_tab_id b
     \<and> sw_bounds_state a = sw_bounds_state b \<and> f32_eq (sw_x a) (sw_x b) \<and> f32_eq (sw_y a) (sw_y b)
     \<and> f32_eq (sw_width a) (sw_width b) \<and> f32_eq (sw_height a) (sw_height b)
     \<and> sw_display_id a = sw_display_id b"

text \<open>What a REAL NOT NULL column keeps of a number.\<close>

definition sql_real :: "f32 \<Rightarrow> db_error + f32" where
  "sql_real x = (if f32_nan x then Inl NullBounds else if f32_magnitude x = 0 then Inr 0 else Inr x)"

definition write_window_row :: "int \<Rightarrow> stored_window \<Rightarrow> tables \<Rightarrow> db_error + tables" where
  "write_window_row w desired tb =
     rbind (sql_real (sw_x desired)) (\<lambda>x.
     rbind (sql_real (sw_y desired)) (\<lambda>y.
     rbind (sql_real (sw_width desired)) (\<lambda>wd.
     rbind (sql_real (sw_height desired)) (\<lambda>h.
       Inr (tb\<lparr>tb_windows :=
         upsert wr_id
           \<lparr>wr_id = w, wr_stored = desired\<lparr>sw_x := x, sw_y := y, sw_width := wd, sw_height := h\<rparr>\<rparr>
           (tb_windows tb)\<rparr>)))))"

definition find_window :: "int \<Rightarrow> tables \<Rightarrow> window_row option" where
  "find_window w tb = List.find (\<lambda>r. wr_id r = w) (tb_windows tb)"

definition apply_window ::
  "window_state \<Rightarrow> int \<Rightarrow> tables \<times> apply_stats \<Rightarrow> db_error + (tables \<times> apply_stats)" where
  "apply_window w pos = (\<lambda>(tb, stats).
     rbind (active_tab_id_of w) (\<lambda>active.
       let desired = desired_window (ws_bounds w) pos active in
       if (case find_window (ws_window_id w) tb of
             None \<Rightarrow> False
           | Some r \<Rightarrow> stored_window_eq (wr_stored r) desired)
       then Inr (tb, stats)
       else rbind (write_window_row (ws_window_id w) desired tb) (\<lambda>tb'.
              Inr (tb', stats\<lparr>as_windows_written := as_windows_written stats + 1\<rparr>))))"

fun apply_windows ::
  "nat \<Rightarrow> windows_state \<Rightarrow> tables \<times> apply_stats \<Rightarrow> db_error + (tables \<times> apply_stats)" where
  "apply_windows pos [] acc = Inr acc"
| "apply_windows pos (w # ws) acc =
     rbind (i64_from PositionTooLarge pos) (\<lambda>p.
     rbind (apply_window w p acc) (\<lambda>acc.
     rbind (apply_tabs w acc) (apply_windows (Suc pos) ws)))"

text \<open>\<open>DELETE FROM windows\<close>, whose tabs go with it (\<open>ON DELETE CASCADE\<close>).\<close>

definition delete_windows :: "int set \<Rightarrow> tables \<Rightarrow> tables" where
  "delete_windows closed tb =
     tb\<lparr>tb_windows := filter (\<lambda>r. wr_id r \<notin> closed) (tb_windows tb),
        tb_tabs := filter (\<lambda>r. tr_window r \<notin> closed) (tb_tabs tb)\<rparr>"

datatype sql_fault = NoFault | BeginFails | StatementFails | CommitFails

definition apply_snapshot ::
  "sql_fault \<Rightarrow> windows_state \<Rightarrow> state_db \<Rightarrow> (db_error + apply_stats) \<times> state_db" where
  "apply_snapshot fault snapshot db =
     (if fault = BeginFails then (Inl (SqlFailed ''begin''), db)
      else if fault = StatementFails then (Inl (SqlFailed ''statement''), db)
      else (case apply_windows 0 snapshot (db_tables db, no_stats) of
              Inl e \<Rightarrow> (Inl e, db)
            | Inr (tb, stats) \<Rightarrow>
                let present = set (map ws_window_id snapshot);
                    closed = db_owned db - present;
                    gone = length (filter (\<lambda>r. wr_id r \<in> closed) (tb_windows tb));
                    tb' = delete_windows closed tb
                in if fault = CommitFails then (Inl (SqlFailed ''commit''), db)
                   else (Inr (stats\<lparr>as_windows_deleted := as_windows_deleted stats + gone\<rparr>),
                         db\<lparr>db_tables := tb', db_owned := present\<rparr>)))"

definition claim_persisted_windows :: "state_db \<Rightarrow> state_db" where
  "claim_persisted_windows db = db\<lparr>db_owned := set (map wr_id (tb_windows (db_tables db)))\<rparr>"

section \<open>Reading\<close>

definition window_bounds_from_row :: "stored_window \<Rightarrow> window_bounds" where
  "window_bounds_from_row s =
     \<lparr>wb_state = sw_bounds_state s, wb_x = sw_x s, wb_y = sw_y s, wb_width = sw_width s,
      wb_height = sw_height s, wb_display_id = sw_display_id s\<rparr>"

definition tab_state_from_row :: "tab_row \<Rightarrow> db_error + tab_state" where
  "tab_state_from_row r =
     (let s = tr_stored r in
      rbind (case sd_remote_host s of
               None \<Rightarrow> Inr None
             | Some host \<Rightarrow>
                 rbind (ok_or DecodeFailed (sd_remote_port s)) (\<lambda>port.
                   Inr (Some \<lparr>s_host = host, s_port = port,
                              s_user = (case sd_remote_user s of Some u \<Rightarrow> u | None \<Rightarrow> []),
                              s_path = (case sd_remote_path s of Some p \<Rightarrow> p | None \<Rightarrow> [])\<rparr>)))
        (\<lambda>remote.
          Inr \<lparr>ts_tab_id = (case u64_from (tr_id r) of Some i \<Rightarrow> i | None \<Rightarrow> 0),
               ts_title = sd_title s,
               ts_file_path = map_option path_from_bytes (sd_file_path s),
               ts_content = map_option ContentText (tr_content r),
               ts_last_saved = sd_last_saved s, ts_remote = remote,
               ts_log_view = sd_log_view s, ts_color_tag = sd_color_tag s\<rparr>))"

definition load_tabs :: "int \<Rightarrow> tables \<Rightarrow> db_error + tab_state list" where
  "load_tabs w tb =
     rmap tab_state_from_row
       (sort_key (\<lambda>r. (sd_position (tr_stored r), tr_id r)) (filter (\<lambda>r. tr_window r = w) (tb_tabs tb)))"

definition load_window :: "tables \<Rightarrow> window_row \<Rightarrow> db_error + window_state" where
  "load_window tb r =
     rbind (load_tabs (wr_id r) tb) (\<lambda>tabs.
       Inr \<lparr>ws_window_id = wr_id r, ws_tabs = tabs,
            ws_active_tab_index =
              Option.bind (sw_active_tab_id (wr_stored r)) (\<lambda>active.
              Option.bind (u64_from active) (\<lambda>a. position (\<lambda>t. ts_tab_id t = a) tabs)),
            ws_bounds = window_bounds_from_row (wr_stored r)\<rparr>)"

definition load :: "state_db \<Rightarrow> db_error + windows_state" where
  "load db =
     (let tb = db_tables db in
      rmap (load_window tb) (sort_key (\<lambda>r. (sw_position (wr_stored r), wr_id r)) (tb_windows tb)))"

section \<open>Opening, migrating, importing\<close>

definition SCHEMA_VERSION :: int where "SCHEMA_VERSION = 1"

definition MIGRATIONS :: "string list" where "MIGRATIONS = [''001_initial.sql'']"

text \<open>The migrations that run, each with the version recorded after it.\<close>

fun pending_migrations :: "nat \<Rightarrow> string list \<Rightarrow> (nat \<times> string) list" where
  "pending_migrations offset [] = []"
| "pending_migrations offset (s # ss) = (offset + 1, s) # pending_migrations (offset + 1) ss"

definition migrate :: "int \<Rightarrow> db_error + (bool \<times> int \<times> string list)" where
  "migrate current =
     (if current > SCHEMA_VERSION then Inl (NewerSchema current)
      else if current = SCHEMA_VERSION then Inr (False, current, [])
      else (case u64_from current of
              None \<Rightarrow> Inl (InvalidSchema current)
            | Some pending \<Rightarrow>
                let todo = drop pending (pending_migrations 0 MIGRATIONS) in
                Inr (True, foldl (\<lambda>v (n, s). int n) current todo, map snd todo)))"

text \<open>A database file: what \<open>Connection::open\<close> finds, and whether it succeeds.\<close>

record db_file =
  df_existed :: bool
  df_opens :: bool
  df_version :: int
  df_tables :: tables

definition no_tables :: tables where
  "no_tables = \<lparr>tb_windows = [], tb_tabs = []\<rparr>"

text \<open>The second component tells whether a backup is made before the migration.\<close>

definition open_db :: "rstr \<Rightarrow> db_file \<Rightarrow> db_error + (state_db \<times> bool)" where
  "open_db path f =
     (if \<not> df_opens f then Inl (SqlFailed ''open'')
      else rbind (migrate (df_version f)) (\<lambda>_.
        Inr (\<lparr>db_tables = df_tables f, db_path = Some path, db_owned = {}\<rparr>,
             df_existed f \<and> df_version f < SCHEMA_VERSION)))"

definition open_in_memory :: "bool \<Rightarrow> db_error + state_db" where
  "open_in_memory opens =
     (if \<not> opens then Inl (SqlFailed ''open'')
      else rbind (migrate 0) (\<lambda>_. Inr \<lparr>db_tables = no_tables, db_path = None, db_owned = {}\<rparr>))"

definition open_or_fallback :: "rstr \<Rightarrow> db_file \<Rightarrow> bool \<Rightarrow> state_db option" where
  "open_or_fallback path f memory_opens =
     (case open_db path f of
        Inr (db, _) \<Rightarrow> Some db
      | Inl _ \<Rightarrow> (case open_in_memory memory_opens of Inr db \<Rightarrow> Some db | Inl _ \<Rightarrow> None))"

definition is_ephemeral :: "state_db \<Rightarrow> bool" where
  "is_ephemeral db \<longleftrightarrow> db_path db = None"

text \<open>\<open>parse\<close> is the JSON library on the text of a file, \<open>primary\<close> and \<open>backup\<close> the texts found.\<close>

definition read_legacy_json ::
  "(rstr \<Rightarrow> windows_state option) \<Rightarrow> rstr option \<Rightarrow> rstr option \<Rightarrow> db_error + windows_state" where
  "read_legacy_json parse primary backup =
     (case primary of
        None \<Rightarrow> Inl LegacyUnreadable
      | Some json \<Rightarrow>
          (case parse json of
             Some state \<Rightarrow> Inr state
           | None \<Rightarrow>
               (case backup of
                  None \<Rightarrow> Inl LegacyUnreadable
                | Some bak \<Rightarrow> ok_or LegacyUnreadable (parse bak))))"

fun number_tabs :: "nat \<Rightarrow> tab_state list \<Rightarrow> tab_state list" where
  "number_tabs i [] = []"
| "number_tabs i (t # ts) = t\<lparr>ts_tab_id := i\<rparr> # number_tabs (Suc i) ts"

text \<open>The clock answers once for each window; \<open>last_id\<close> is the process-wide counter.\<close>

fun assign_missing_identity ::
  "(nat \<Rightarrow> nat option) \<Rightarrow> nat \<Rightarrow> 64 word \<Rightarrow> windows_state \<Rightarrow> windows_state \<times> 64 word" where
  "assign_missing_identity clock k last_id [] = ([], last_id)"
| "assign_missing_identity clock k last_id (w # ws) =
     (let (i, last1) = allocate_id (clock k) last_id;
          w' = w\<lparr>ws_window_id := sint i, ws_tabs := number_tabs 0 (ws_tabs w)\<rparr>;
          (ws', last2) = assign_missing_identity clock (Suc k) last1 ws
      in (w' # ws', last2))"

definition import_legacy_json ::
  "(nat \<Rightarrow> nat option) \<Rightarrow> 64 word \<Rightarrow> sql_fault \<Rightarrow> db_error + windows_state \<Rightarrow> state_db
     \<Rightarrow> (db_error + nat) \<times> state_db" where
  "import_legacy_json clock last_id fault legacy db =
     (case legacy of
        Inl e \<Rightarrow> (Inl e, db)
      | Inr state \<Rightarrow>
          let (state', _) = assign_missing_identity clock 0 last_id state in
          (case apply_snapshot fault state' db of
             (Inl e, db') \<Rightarrow> (Inl e, db')
           | (Inr _, db') \<Rightarrow> (Inr (length state'), db')))"

definition save_to_path :: "rstr \<Rightarrow> db_file \<Rightarrow> sql_fault \<Rightarrow> windows_state \<Rightarrow> db_error + tables" where
  "save_to_path path f fault ws =
     rbind (open_db path f) (\<lambda>(db, _).
       (case apply_snapshot fault ws (claim_persisted_windows db) of
          (Inl e, _) \<Rightarrow> Inl e
        | (Inr _, db') \<Rightarrow> Inr (db_tables db')))"

definition load_from_path :: "rstr \<Rightarrow> db_file \<Rightarrow> db_error + windows_state" where
  "load_from_path path f = rbind (open_db path f) (\<lambda>(db, _). load db)"

definition load_with_db ::
  "(nat \<Rightarrow> nat option) \<Rightarrow> 64 word \<Rightarrow> sql_fault \<Rightarrow> rstr \<Rightarrow> db_file \<Rightarrow> bool \<Rightarrow> (db_error + windows_state) option
     \<Rightarrow> db_error + (windows_state \<times> state_db)" where
  "load_with_db clock last_id fault path f memory_opens legacy =
     rbind (ok_or (SqlFailed ''open'') (open_or_fallback path f memory_opens)) (\<lambda>db.
       let db' = (if \<not> df_existed f \<and> \<not> is_ephemeral db
                  then (case legacy of
                          None \<Rightarrow> db
                        | Some l \<Rightarrow> snd (import_legacy_json clock last_id fault l db))
                  else db)
       in rbind (load db') (\<lambda>state. Inr (state, claim_persisted_windows db')))"

end
