(* ===== verification/Session_Roundtrip.thy ===== *)
theory Session_Roundtrip
  imports State_Db
begin

text \<open>
  What the session database promises. A table is seen as a map from keys to rows (\<open>rows_at\<close>); each statement is
  an update of that map, and \<open>apply_tabs\<close> and \<open>apply_windows\<close> replace the rows of the windows of a snapshot by the
  rows of the snapshot (\<open>snap_rows\<close>, \<open>snap_windows\<close>) and leave those of other windows alone. The properties are
  the round trip of a session, the write that writes nothing, the window identities and the legacy import.
\<close>

section \<open>Tables as maps\<close>

definition rows_at :: "('r \<Rightarrow> 'k) \<Rightarrow> 'r list \<Rightarrow> 'k \<rightharpoonup> 'r" where
  "rows_at key rows = map_of (map (\<lambda>r. (key r, r)) rows)"

named_theorems rows_simps \<open>what the statements do to the rows\<close>

lemma rows_at_Nil [simp]: "rows_at key [] = Map.empty"
  by (simp add: rows_at_def)

lemma rows_at_Cons [simp]: "rows_at key (r # rows) = (rows_at key rows)(key r \<mapsto> r)"
  by (simp add: rows_at_def)

lemma rows_at_append: "rows_at key (xs @ ys) = rows_at key ys ++ rows_at key xs"
  by (simp add: rows_at_def)

lemma rows_at_None: "rows_at key rows k = None \<longleftrightarrow> k \<notin> key ` set rows"
  by (induction rows) auto

lemma rows_at_Some: "rows_at key rows k = Some r \<Longrightarrow> r \<in> set rows \<and> key r = k"
  by (induction rows) (auto split: if_splits)

lemma rows_at_set:
  "distinct (map key rows) \<Longrightarrow> r \<in> set rows \<longleftrightarrow> rows_at key rows (key r) = Some r"
proof (induction rows)
  case (Cons a rows)
  have "key a \<notin> key ` set rows" using Cons.prems by simp
  then have ne: "r \<in> set rows \<Longrightarrow> key r \<noteq> key a" by (metis imageI)
  show ?case
  proof (cases "key r = key a")
    case True
    then have "r \<notin> set rows" using ne by blast
    then show ?thesis using True by auto
  next
    case False
    then show ?thesis using Cons by auto
  qed
qed simp

lemma rows_at_map [rows_simps]:
  assumes "\<And>r. key r = k \<Longrightarrow> key (f r) = k"
  shows "rows_at key (map (\<lambda>r. if key r = k then f r else r) rows)
           = (rows_at key rows)(k := map_option f (rows_at key rows k))"
  by (induction rows) (auto simp: assms fun_upd_twist)

lemma rows_at_filter [rows_simps]:
  "rows_at key (filter (\<lambda>r. P (key r)) rows) k = (if P k then rows_at key rows k else None)"
  by (induction rows) auto

lemma map_key_same:
  "(\<And>r. key r = k \<Longrightarrow> key (f r) = k) \<Longrightarrow> map key (map (\<lambda>r. if key r = k then f r else r) rows) = map key rows"
  by (induction rows) auto

lemma rows_at_upsert [rows_simps]: "rows_at key (upsert key r rows) = (rows_at key rows)(key r \<mapsto> r)"
proof (cases "key r \<in> key ` set rows")
  case True
  then have "rows_at key rows (key r) \<noteq> None" by (simp add: rows_at_None)
  then show ?thesis using True rows_at_map [of key "key r" "\<lambda>_. r" rows] by (auto simp: upsert_def)
next
  case False
  then have "rows_at key rows (key r) = None" by (simp add: rows_at_None)
  then show ?thesis using False
    by (auto simp: upsert_def rows_at_append map_add_def split: option.splits)
qed

lemma distinct_upsert: "distinct (map key rows) \<Longrightarrow> distinct (map key (upsert key r rows))"
  using map_key_same [of key "key r" "\<lambda>_. r" rows] by (auto simp: upsert_def simp del: map_map)

lemma filter_upsert: "\<not> P (key r) \<Longrightarrow> filter (\<lambda>x. P (key x)) (upsert key r rows) = filter (\<lambda>x. P (key x)) rows"
proof -
  assume r: "\<not> P (key r)"
  have "filter (\<lambda>x. P (key x)) (map (\<lambda>x. if key x = key r then r else x) rows)
          = filter (\<lambda>x. P (key x)) rows"
    using r by (induction rows) auto
  then show ?thesis using r by (simp add: upsert_def)
qed

lemma filter_map_other:
  assumes "\<And>x. key x = k \<Longrightarrow> key (f x) = k" and "\<not> P k"
  shows "filter (\<lambda>x. P (key x)) (map (\<lambda>x. if key x = k then f x else x) rows) = filter (\<lambda>x. P (key x)) rows"
  using assms by (induction rows) auto

lemma sort_key_unique:
  fixes f :: "'a \<Rightarrow> 'b :: linorder"
  assumes "distinct xs" and "distinct ys" and "set xs = set ys" and "inj_on f (set ys)"
    and "sorted (map f ys)"
  shows "sort_key f xs = ys"
proof -
  have "map f (sort_key f xs) = map f ys"
  proof (rule sorted_distinct_set_unique)
    show "distinct (map f (sort_key f xs))" using assms by (simp add: distinct_map)
    show "distinct (map f ys)" using assms by (simp add: distinct_map)
  qed (use assms in simp_all)
  then show ?thesis using assms by (simp add: inj_on_map_eq_map)
qed

section \<open>The rows of a snapshot\<close>

definition content_columns :: "tab_content option \<Rightarrow> int option \<times> int option" where
  "content_columns c =
     (case c of
        None \<Rightarrow> (None, None)
      | Some c \<Rightarrow> (Some (sint (fst (tab_content_fingerprint c))), Some (int (snd (tab_content_fingerprint c)))))"

definition snap_row :: "int \<Rightarrow> nat \<Rightarrow> tab_state \<Rightarrow> tab_row" where
  "snap_row w pos t =
     tab_row_of w (int (ts_tab_id t)) t (stored_tab_from_snapshot t (int pos)) (content_columns (ts_content t))"

fun snap_rows :: "int \<Rightarrow> nat \<Rightarrow> tab_state list \<Rightarrow> tab_row list" where
  "snap_rows w pos [] = []"
| "snap_rows w pos (t # ts) = snap_row w pos t # snap_rows w (Suc pos) ts"

definition tab_fits :: "tab_state \<Rightarrow> bool" where
  "tab_fits t \<longleftrightarrow> int (ts_tab_id t) \<le> i64_max
     \<and> (case ts_content t of None \<Rightarrow> True | Some c \<Rightarrow> int (snd (tab_content_fingerprint c)) \<le> i64_max)
     \<and> (case ts_file_path t of None \<Rightarrow> True | Some p \<Rightarrow> \<forall>c \<in> set p. is_scalar c)"

text \<open>The two fingerprints of a content agree.\<close>

lemma fingerprint_to_text: "tab_content_fingerprint c = content_fingerprint_from_str (to_text c)"
  by (cases c) (simp_all add: rope_fingerprint)

definition row_ok :: "tab_row \<Rightarrow> bool" where
  "row_ok r \<longleftrightarrow> 0 \<le> tr_id r
     \<and> (tr_hash r, tr_len r) = content_columns (map_option ContentText (tr_content r))
     \<and> (sd_remote_host (tr_stored r) \<noteq> None \<longrightarrow> sd_remote_port (tr_stored r) \<noteq> None)"

lemma snap_row_ok: "row_ok (snap_row w pos t)"
  by (cases "ts_content t")
    (simp_all add: row_ok_def snap_row_def tab_row_of_def content_columns_def fingerprint_to_text
       stored_tab_from_snapshot_def)

lemma row_fingerprint_ok:
  "row_ok r \<Longrightarrow> row_fingerprint r = map_option content_fingerprint_from_str (tr_content r)"
  by (cases "tr_content r")
    (simp_all add: row_ok_def row_fingerprint_def content_columns_def u64_from_def)

text \<open>The assumption under which the fingerprint stands for the text: a stored text and the text that
  is to replace it are equal when their fingerprints are.\<close>

definition no_collision :: "tab_row \<Rightarrow> tab_state \<Rightarrow> bool" where
  "no_collision r t \<longleftrightarrow>
     (case (tr_content r, ts_content t) of
        (Some c, Some d) \<Rightarrow> content_fingerprint_from_str c = tab_content_fingerprint d \<longrightarrow> c = to_text d
      | _ \<Rightarrow> True)"

lemma unchanged_content:
  assumes "row_ok r" and "no_collision r t"
    and "row_fingerprint r = map_option tab_content_fingerprint (ts_content t)"
  shows "tr_content r = map_option to_text (ts_content t)
       \<and> (tr_hash r, tr_len r) = content_columns (ts_content t)"
proof -
  have "tr_content r = map_option to_text (ts_content t)"
    using assms row_fingerprint_ok [OF assms(1)]
    by (cases "tr_content r"; cases "ts_content t") (auto simp: no_collision_def)
  then show ?thesis using assms(1)
    by (cases "ts_content t") (simp_all add: row_ok_def content_columns_def fingerprint_to_text)
qed

section \<open>Writing one window\<close>

text \<open>A statement on the tabs of a window leaves the rest alone.\<close>

definition tabs_frame :: "int \<Rightarrow> tables \<Rightarrow> tables \<Rightarrow> bool" where
  "tabs_frame w tb tb' \<longleftrightarrow>
     tb_windows tb' = tb_windows tb
     \<and> (distinct (map tab_key (tb_tabs tb)) \<longrightarrow> distinct (map tab_key (tb_tabs tb')))
     \<and> (\<forall>P. \<not> P w \<longrightarrow> filter (\<lambda>r. P (tr_window r)) (tb_tabs tb') = filter (\<lambda>r. P (tr_window r)) (tb_tabs tb))"

lemma tabs_frame_refl [simp]: "tabs_frame w tb tb"
  by (simp add: tabs_frame_def)

lemma tabs_frame_trans: "tabs_frame w a b \<Longrightarrow> tabs_frame w b c \<Longrightarrow> tabs_frame w a c"
  by (simp add: tabs_frame_def)

lemma tab_key_simps [simp]:
  "tab_key (tab_row_of w i t d c) = (w, i)"
  "tab_key (snap_row w pos t) = (w, int (ts_tab_id t))"
  "tab_key (r\<lparr>tr_stored := d\<rparr>) = tab_key r"
  by (simp_all add: tab_key_def tab_row_of_def snap_row_def)

lemma filter_window_key: "filter (\<lambda>r. P (tr_window r)) rows = filter (\<lambda>r. (\<lambda>k. P (fst k)) (tab_key r)) rows"
  by (simp add: tab_key_def)

lemma frame_upsert: "tab_key r = (w, i) \<Longrightarrow> tabs_frame w tb (tb\<lparr>tb_tabs := upsert tab_key r (tb_tabs tb)\<rparr>)"
  by (simp add: tabs_frame_def distinct_upsert filter_window_key
        filter_upsert [where key = tab_key and P = "\<lambda>k. P (fst k)" for P] del: filter.simps)

lemma frame_map:
  assumes "\<And>r. tab_key r = (w, i) \<Longrightarrow> tab_key (f r) = (w, i)"
  shows "tabs_frame w tb (tb\<lparr>tb_tabs := map (\<lambda>r. if tab_key r = (w, i) then f r else r) (tb_tabs tb)\<rparr>)"
  using map_key_same [where key = tab_key and k = "(w, i)" and f = f and rows = "tb_tabs tb"] assms
    filter_map_other [where key = tab_key and k = "(w, i)" and f = f and P = "\<lambda>k. P (fst k)" and rows = "tb_tabs tb" for P]
  by (simp add: tabs_frame_def filter_window_key del: map_map)

lemma frame_filter:
  "tabs_frame w tb (tb\<lparr>tb_tabs := filter (\<lambda>r. tab_key r \<noteq> (w, i)) (tb_tabs tb)\<rparr>)"
proof -
  have "filter (\<lambda>r. P (tr_window r)) (filter (\<lambda>r. tab_key r \<noteq> (w, i)) rows) = filter (\<lambda>r. P (tr_window r)) rows"
    if "\<not> P w" for P and rows
    using that by (induction rows) (auto simp: tab_key_def)
  then show ?thesis by (auto simp: tabs_frame_def intro: distinct_map_filter)
qed

lemma apply_tab_step:
  assumes pos: "int pos \<le> i64_max" and fits: "tab_fits t"
    and ok: "\<And>r. rows_at tab_key (tb_tabs tb) (w, int (ts_tab_id t)) = Some r \<Longrightarrow> row_ok r \<and> no_collision r t"
    and ex: "map_of existing (ts_tab_id t) =
      map_option (\<lambda>r. (tr_stored r, row_fingerprint r)) (rows_at tab_key (tb_tabs tb) (w, int (ts_tab_id t)))"
  obtains tb' stats' where
    "apply_tab w pos t (existing, tb, stats) = Inr (filter (\<lambda>e. fst e \<noteq> ts_tab_id t) existing, tb', stats')"
    and "tabs_frame w tb tb'"
    and "rows_at tab_key (tb_tabs tb') = (rows_at tab_key (tb_tabs tb))((w, int (ts_tab_id t)) \<mapsto> snap_row w pos t)"
proof -
  let ?k = "(w, int (ts_tab_id t))"
  let ?fp = "map_option tab_content_fingerprint (ts_content t)"
  let ?d = "stored_tab_from_snapshot t (int pos)"
  have i: "i64_from e (ts_tab_id t) = Inr (int (ts_tab_id t))" for e using fits by (simp add: tab_fits_def i64_from_def)
  have p: "i64_from e pos = Inr (int pos)" for e using pos by (simp add: i64_from_def)
  have cols: "fingerprint_columns ?fp = Inr (content_columns (ts_content t))"
    using fits by (cases "ts_content t"; cases "tab_content_fingerprint (the (ts_content t))")
      (simp_all add: fingerprint_columns_def content_columns_def tab_fits_def i64_from_def)
  note defs = apply_tab_def i p cols Let_def
  show thesis
  proof (cases "rows_at tab_key (tb_tabs tb) ?k")
    case None
    show thesis
    proof (rule that)
      show "apply_tab w pos t (existing, tb, stats) = Inr (filter (\<lambda>e. fst e \<noteq> ts_tab_id t) existing,
          tb\<lparr>tb_tabs := upsert tab_key (snap_row w pos t) (tb_tabs tb)\<rparr>, stats\<lparr>as_tabs_inserted := as_tabs_inserted stats + 1\<rparr>)"
        using None ex by (simp add: defs insert_tab_row_def snap_row_def)
    qed (auto simp: rows_at_upsert intro: frame_upsert)
  next
    case (Some r)
    note rk = ok [OF Some]
    have m: "map_of existing (ts_tab_id t) = Some (tr_stored r, row_fingerprint r)" using ex Some by simp
    have rkey: "tab_key r = ?k" using rows_at_Some [OF Some] by simp
    show thesis
    proof (cases "row_fingerprint r = ?fp")
      case False
      show thesis
      proof (rule that)
        show "apply_tab w pos t (existing, tb, stats) = Inr (filter (\<lambda>e. fst e \<noteq> ts_tab_id t) existing,
            tb\<lparr>tb_tabs := map (\<lambda>r. if tab_key r = ?k then snap_row w pos t else r) (tb_tabs tb)\<rparr>,
            stats\<lparr>as_tabs_content_written := as_tabs_content_written stats + 1\<rparr>)"
          using m False by (simp add: defs update_tab_row_def snap_row_def)
      qed (use Some in \<open>auto simp: rows_at_map intro: frame_map\<close>)
    next
      case True
      note c = unchanged_content [OF conjunct1 [OF rk] conjunct2 [OF rk] True]
      have upd: "r\<lparr>tr_stored := ?d\<rparr> = snap_row w pos t"
        using c rkey by (cases r) (auto simp: snap_row_def tab_row_of_def tab_key_def prod_eq_iff)
      show thesis
      proof (cases "tr_stored r = ?d")
        case same: True
        then have "snap_row w pos t = r" using upd by (cases r) auto
        then have "rows_at tab_key (tb_tabs tb) = (rows_at tab_key (tb_tabs tb))(?k \<mapsto> snap_row w pos t)"
          using Some by (simp add: fun_upd_idem)
        then show thesis
          using that [of tb stats] m True same by (simp add: defs)
      next
        case False
        show thesis
        proof (rule that)
          show "apply_tab w pos t (existing, tb, stats) = Inr (filter (\<lambda>e. fst e \<noteq> ts_tab_id t) existing,
              tb\<lparr>tb_tabs := map (\<lambda>r. if tab_key r = ?k then r\<lparr>tr_stored := ?d\<rparr> else r) (tb_tabs tb)\<rparr>,
              stats\<lparr>as_tabs_metadata_updated := as_tabs_metadata_updated stats + 1\<rparr>)"
            using m True False by (simp add: defs update_tab_metadata_def)
        qed (use Some upd in \<open>auto simp: rows_at_map intro: frame_map\<close>)
      qed
    qed
  qed
qed

lemma map_of_stored:
  "map_of (read_stored_tabs w tb) i =
     map_option (\<lambda>r. (tr_stored r, row_fingerprint r)) (rows_at tab_key (tb_tabs tb) (w, int i))"
proof -
  have "map_of (List.map_filter (\<lambda>r. map_option (\<lambda>i. (i, tr_stored r, row_fingerprint r)) (u64_from (tr_id r)))
          (filter (\<lambda>r. tr_window r = w) rows)) i
        = map_option (\<lambda>r. (tr_stored r, row_fingerprint r)) (rows_at tab_key rows (w, int i))" for rows
    by (induction rows) (auto simp: List.map_filter_simps u64_from_def tab_key_def)
  then show ?thesis by (simp add: read_stored_tabs_def)
qed

lemma stored_ids:
  "fst ` set (read_stored_tabs w tb) = {i. rows_at tab_key (tb_tabs tb) (w, int i) \<noteq> None}"
proof -
  have "i \<in> fst ` set (read_stored_tabs w tb) \<longleftrightarrow> map_of (read_stored_tabs w tb) i \<noteq> None" for i
    by (simp add: map_of_eq_None_iff)
  then show ?thesis by (auto simp: map_of_stored)
qed

lemma snap_rows_other: "i \<notin> ts_tab_id ` set ts \<Longrightarrow> rows_at tab_key (snap_rows w pos ts) (w, int i) = None"
  by (induction ts arbitrary: pos) auto

lemma snap_rows_keys: "tab_key ` set (snap_rows w pos ts) = (\<lambda>t. (w, int (ts_tab_id t))) ` set ts"
  by (induction ts arbitrary: pos) auto

lemma map_of_filter_ne: "i \<noteq> j \<Longrightarrow> map_of (filter (\<lambda>e. fst e \<noteq> i) xs) j = map_of xs j"
  by (induction xs) auto

lemma apply_tabs_loop_rows:
  assumes "distinct (map ts_tab_id ts)" and "\<forall>t \<in> set ts. tab_fits t" and "int (pos + length ts) \<le> i64_max"
    and "\<And>t r. t \<in> set ts \<Longrightarrow> rows_at tab_key (tb_tabs tb) (w, int (ts_tab_id t)) = Some r
           \<Longrightarrow> row_ok r \<and> no_collision r t"
    and "\<And>t. t \<in> set ts \<Longrightarrow> map_of existing (ts_tab_id t) =
           map_option (\<lambda>r. (tr_stored r, row_fingerprint r)) (rows_at tab_key (tb_tabs tb) (w, int (ts_tab_id t)))"
  shows "\<exists>tb' stats'. apply_tabs_loop w pos ts (existing, tb, stats)
             = Inr (filter (\<lambda>e. fst e \<notin> ts_tab_id ` set ts) existing, tb', stats')
           \<and> tabs_frame w tb tb'
           \<and> rows_at tab_key (tb_tabs tb') = rows_at tab_key (tb_tabs tb) ++ rows_at tab_key (snap_rows w pos ts)"
  using assms
proof (induction ts arbitrary: pos tb existing stats)
  case (Cons t ts)
  let ?k = "(w, int (ts_tab_id t))"
  let ?rest = "filter (\<lambda>e. fst e \<noteq> ts_tab_id t) existing"
  obtain tb1 stats1 where one: "apply_tab w pos t (existing, tb, stats) = Inr (?rest, tb1, stats1)"
      "tabs_frame w tb tb1"
      and at: "rows_at tab_key (tb_tabs tb1) = (rows_at tab_key (tb_tabs tb))(?k \<mapsto> snap_row w pos t)"
    by (rule apply_tab_step [of pos t tb w existing stats]) (use Cons.prems in auto)
  have other: "rows_at tab_key (tb_tabs tb1) (w, int (ts_tab_id u)) = rows_at tab_key (tb_tabs tb) (w, int (ts_tab_id u))"
      "map_of ?rest (ts_tab_id u) = map_of existing (ts_tab_id u)"
    if "u \<in> set ts" for u
  proof -
    have "ts_tab_id u \<noteq> ts_tab_id t" using that Cons.prems(1) by (metis distinct.simps(2) imageI list.set_map list.simps(9))
    then show "rows_at tab_key (tb_tabs tb1) (w, int (ts_tab_id u)) = rows_at tab_key (tb_tabs tb) (w, int (ts_tab_id u))"
      "map_of ?rest (ts_tab_id u) = map_of existing (ts_tab_id u)"
      by (simp_all add: at map_of_filter_ne)
  qed
  have "\<exists>tb' stats'. apply_tabs_loop w (Suc pos) ts (?rest, tb1, stats1)
             = Inr (filter (\<lambda>e. fst e \<notin> ts_tab_id ` set ts) ?rest, tb', stats')
           \<and> tabs_frame w tb1 tb'
           \<and> rows_at tab_key (tb_tabs tb') = rows_at tab_key (tb_tabs tb1) ++ rows_at tab_key (snap_rows w (Suc pos) ts)"
    by (rule Cons.IH) (use Cons.prems other in auto)
  then obtain tb' stats' where two:
      "apply_tabs_loop w (Suc pos) ts (?rest, tb1, stats1)
         = Inr (filter (\<lambda>e. fst e \<notin> ts_tab_id ` set ts) ?rest, tb', stats')"
      "tabs_frame w tb1 tb'"
      "rows_at tab_key (tb_tabs tb') = rows_at tab_key (tb_tabs tb1) ++ rows_at tab_key (snap_rows w (Suc pos) ts)"
    by blast
  have "?k \<notin> dom (rows_at tab_key (snap_rows w (Suc pos) ts))"
    using Cons.prems(1) snap_rows_other [of "ts_tab_id t" ts w "Suc pos"] by (simp add: domIff)
  then have "rows_at tab_key (tb_tabs tb') = rows_at tab_key (tb_tabs tb) ++ rows_at tab_key (snap_rows w pos (t # ts))"
    by (simp add: two(3) at map_add_upd_left)
  moreover have "filter (\<lambda>e. fst e \<notin> ts_tab_id ` set ts) ?rest
      = filter (\<lambda>e. fst e \<notin> ts_tab_id ` set (t # ts)) existing"
    by (auto intro: filter_cong)
  ultimately have "apply_tabs_loop w pos (t # ts) (existing, tb, stats)
      = Inr (filter (\<lambda>e. fst e \<notin> ts_tab_id ` set (t # ts)) existing, tb', stats')"
    and "rows_at tab_key (tb_tabs tb') = rows_at tab_key (tb_tabs tb) ++ rows_at tab_key (snap_rows w pos (t # ts))"
    using one(1) two(1) by simp_all
  then show ?case using tabs_frame_trans [OF one(2) two(2)] by blast
qed simp

lemma delete_closed_rows:
  assumes "\<forall>c \<in> fst ` set closed. int c \<le> i64_max"
  shows "\<exists>tb' stats'. delete_closed w closed (tb, stats) = Inr (tb', stats') \<and> tabs_frame w tb tb'
     \<and> rows_at tab_key (tb_tabs tb') =
         (\<lambda>k. if k \<in> (\<lambda>c. (w, int c)) ` fst ` set closed then None else rows_at tab_key (tb_tabs tb) k)"
  using assms
proof (induction closed arbitrary: tb stats)
  case (Cons e closed)
  obtain c x where e: "e = (c, x)" by (cases e)
  let ?tb = "tb\<lparr>tb_tabs := filter (\<lambda>r. tab_key r \<noteq> (w, int c)) (tb_tabs tb)\<rparr>"
  obtain tb' stats' where ih: "delete_closed w closed (?tb, stats\<lparr>as_tabs_deleted := as_tabs_deleted stats
         + length (filter (\<lambda>r. tab_key r = (w, int c)) (tb_tabs tb))\<rparr>) = Inr (tb', stats')"
     "tabs_frame w ?tb tb'"
     "rows_at tab_key (tb_tabs tb') =
         (\<lambda>k. if k \<in> (\<lambda>c. (w, int c)) ` fst ` set closed then None else rows_at tab_key (tb_tabs ?tb) k)"
    using Cons.IH [of ?tb "stats\<lparr>as_tabs_deleted := as_tabs_deleted stats
         + length (filter (\<lambda>r. tab_key r = (w, int c)) (tb_tabs tb))\<rparr>"] Cons.prems by auto
  have "rows_at tab_key (tb_tabs ?tb) = (\<lambda>k. if k = (w, int c) then None else rows_at tab_key (tb_tabs tb) k)"
    by (auto simp: rows_at_filter [where P = "\<lambda>k. k \<noteq> (w, int c)"])
  then have "rows_at tab_key (tb_tabs tb') =
         (\<lambda>k. if k \<in> (\<lambda>c. (w, int c)) ` fst ` set (e # closed) then None else rows_at tab_key (tb_tabs tb) k)"
    using ih(3) e by auto
  moreover have "tabs_frame w tb tb'" using frame_filter ih(2) tabs_frame_trans by blast
  ultimately show ?case
    using ih(1) e Cons.prems by (simp add: i64_from_def Let_def)
qed (simp add: fun_eq_iff)

text \<open>After its tabs are written, a window has exactly the rows of its snapshot.\<close>

definition window_fits :: "window_state \<Rightarrow> bool" where
  "window_fits w \<longleftrightarrow> distinct (map ts_tab_id (ws_tabs w)) \<and> (\<forall>t \<in> set (ws_tabs w). tab_fits t)
     \<and> int (length (ws_tabs w)) \<le> i64_max"

definition tab_rows_ok :: "tab_row list \<Rightarrow> bool" where
  "tab_rows_ok rows \<longleftrightarrow> distinct (map tab_key rows) \<and> (\<forall>r \<in> set rows. row_ok r \<and> tr_id r \<le> i64_max)"

definition collision_free :: "tab_row list \<Rightarrow> window_state \<Rightarrow> bool" where
  "collision_free rows w \<longleftrightarrow>
     (\<forall>r \<in> set rows. \<forall>t \<in> set (ws_tabs w). tab_key r = (ws_window_id w, int (ts_tab_id t)) \<longrightarrow> no_collision r t)"

lemma rows_at_snap_window: "rows_at tab_key (snap_rows w pos ts) k = Some r \<Longrightarrow> fst k = w \<and> 0 \<le> snd k"
  by (induction ts arbitrary: pos) (auto split: if_splits)

lemma key_nat: "fst k = w \<Longrightarrow> 0 \<le> snd k \<Longrightarrow> \<exists>i. k = (w :: int, int i)"
  by (cases k) (auto dest: zero_le_imp_eq_int)

lemma apply_tabs_rows:
  assumes fits: "window_fits w" and ok: "tab_rows_ok (tb_tabs tb)" and cf: "collision_free (tb_tabs tb) w"
  shows "\<exists>tb' stats'. apply_tabs w (tb, stats) = Inr (tb', stats') \<and> tabs_frame (ws_window_id w) tb tb'
    \<and> rows_at tab_key (tb_tabs tb') =
        (\<lambda>k. if fst k = ws_window_id w then rows_at tab_key (snap_rows (ws_window_id w) 0 (ws_tabs w)) k
             else rows_at tab_key (tb_tabs tb) k)"
proof -
  let ?w = "ws_window_id w" and ?ts = "ws_tabs w"
  let ?ex = "read_stored_tabs ?w tb"
  let ?closed = "filter (\<lambda>e. fst e \<notin> ts_tab_id ` set ?ts) ?ex"
  have ok': "row_ok r \<and> tr_id r \<le> i64_max" if "rows_at tab_key (tb_tabs tb) k = Some r" for k r
    using rows_at_Some [OF that] ok by (simp add: tab_rows_ok_def)
  have "\<exists>tb' stats'. apply_tabs_loop ?w 0 ?ts (?ex, tb, stats)
             = Inr (?closed, tb', stats') \<and> tabs_frame ?w tb tb'
           \<and> rows_at tab_key (tb_tabs tb') = rows_at tab_key (tb_tabs tb) ++ rows_at tab_key (snap_rows ?w 0 ?ts)"
  proof (rule apply_tabs_loop_rows)
    fix t r assume "t \<in> set ?ts" and at: "rows_at tab_key (tb_tabs tb) (?w, int (ts_tab_id t)) = Some r"
    then show "row_ok r \<and> no_collision r t"
      using ok' [OF at] rows_at_Some [OF at] cf by (auto simp: collision_free_def)
  qed (use fits in \<open>auto simp: window_fits_def map_of_stored\<close>)
  then obtain tb1 stats1 where loop: "apply_tabs_loop ?w 0 ?ts (?ex, tb, stats) = Inr (?closed, tb1, stats1)"
      "tabs_frame ?w tb tb1"
      and at1: "rows_at tab_key (tb_tabs tb1) = rows_at tab_key (tb_tabs tb) ++ rows_at tab_key (snap_rows ?w 0 ?ts)"
    by blast
  have closed: "fst ` set ?closed = {i. rows_at tab_key (tb_tabs tb) (?w, int i) \<noteq> None} - ts_tab_id ` set ?ts"
    using stored_ids [of ?w tb] by auto
  have "int c \<le> i64_max" if "c \<in> fst ` set ?closed" for c
  proof -
    have "rows_at tab_key (tb_tabs tb) (?w, int c) \<noteq> None" using that unfolding closed by simp
    then obtain r where at: "rows_at tab_key (tb_tabs tb) (?w, int c) = Some r" by auto
    then show ?thesis using ok' [OF at] rows_at_Some [OF at] by (auto simp: tab_key_def)
  qed
  then have "\<forall>c \<in> fst ` set ?closed. int c \<le> i64_max" by blast
  from delete_closed_rows [OF this, of ?w tb1 stats1]
  obtain tb2 stats2 where del: "delete_closed ?w ?closed (tb1, stats1) = Inr (tb2, stats2)" "tabs_frame ?w tb1 tb2"
      and at2: "rows_at tab_key (tb_tabs tb2) =
         (\<lambda>k. if k \<in> (\<lambda>c. (?w, int c)) ` fst ` set ?closed then None else rows_at tab_key (tb_tabs tb1) k)"
    by blast
  have "rows_at tab_key (tb_tabs tb2) k =
      (if fst k = ?w then rows_at tab_key (snap_rows ?w 0 ?ts) k else rows_at tab_key (tb_tabs tb) k)" for k
  proof (cases "rows_at tab_key (snap_rows ?w 0 ?ts) k")
    case (Some r)
    obtain i where k: "k = (?w, int i)" using key_nat [of k ?w] rows_at_snap_window [OF Some] by auto
    then have "i \<in> ts_tab_id ` set ?ts" using snap_rows_other Some by force
    then show ?thesis using Some k by (auto simp: at2 closed at1)
  next
    case None
    show ?thesis
    proof (cases "fst k = ?w")
      case False
      then show ?thesis using None by (auto simp: at2 at1 map_add_def)
    next
      case True
      show ?thesis
      proof (cases "rows_at tab_key (tb_tabs tb) k")
        case (Some r)
        then have "0 \<le> snd k" using ok' [OF Some] rows_at_Some [OF Some] by (auto simp: tab_key_def row_ok_def)
        then obtain i where k: "k = (?w, int i)" using key_nat [of k ?w] True by auto
        have "i \<notin> ts_tab_id ` set ?ts"
          using None k by (simp add: rows_at_None snap_rows_keys image_iff)
        then have "k \<in> (\<lambda>c. (?w, int c)) ` fst ` set ?closed" unfolding closed k using Some k by simp
        then show ?thesis using None True by (simp add: at2 del: set_filter)
      qed (use None in \<open>simp add: at2 at1 map_add_def\<close>)
    qed
  qed
  then show ?thesis
    using loop del tabs_frame_trans [OF loop(2) del(2)] by (auto simp: apply_tabs_def)
qed

section \<open>Writing a snapshot\<close>

definition f32_exact :: "f32 \<Rightarrow> bool" where
  "f32_exact x \<longleftrightarrow> \<not> f32_nan x \<and> (f32_magnitude x = 0 \<longrightarrow> x = 0)"

lemma sql_real_exact: "f32_exact x \<Longrightarrow> sql_real x = Inr x"
  by (simp add: f32_exact_def sql_real_def)

lemma f32_eq_exact: "f32_exact a \<Longrightarrow> f32_exact b \<Longrightarrow> f32_eq a b \<longleftrightarrow> a = b"
  by (auto simp: f32_exact_def f32_eq_def)

definition bounds_exact :: "stored_window \<Rightarrow> bool" where
  "bounds_exact s \<longleftrightarrow> f32_exact (sw_x s) \<and> f32_exact (sw_y s) \<and> f32_exact (sw_width s) \<and> f32_exact (sw_height s)"

lemma stored_window_eq_exact: "bounds_exact a \<Longrightarrow> bounds_exact b \<Longrightarrow> stored_window_eq a b \<longleftrightarrow> a = b"
  by (cases a; cases b) (auto simp: stored_window_eq_def bounds_exact_def f32_eq_exact)

definition snap_window :: "nat \<Rightarrow> window_state \<Rightarrow> window_row" where
  "snap_window pos w =
     \<lparr>wr_id = ws_window_id w,
      wr_stored = desired_window (ws_bounds w) (int pos)
        (map_option (\<lambda>t. int (ts_tab_id t)) (Option.bind (ws_active_tab_index w) (nth_opt (ws_tabs w))))\<rparr>"

fun snap_windows :: "nat \<Rightarrow> windows_state \<Rightarrow> window_row list" where
  "snap_windows pos [] = []"
| "snap_windows pos (w # ws) = snap_window pos w # snap_windows (Suc pos) ws"

lemma snap_window_id [simp]: "wr_id (snap_window pos w) = ws_window_id w"
  by (simp add: snap_window_def)

definition windows_ok :: "window_row list \<Rightarrow> bool" where
  "windows_ok rows \<longleftrightarrow> distinct (map wr_id rows) \<and> (\<forall>r \<in> set rows. bounds_exact (wr_stored r))"

definition tables_wf :: "tables \<Rightarrow> bool" where
  "tables_wf tb \<longleftrightarrow> windows_ok (tb_windows tb) \<and> tab_rows_ok (tb_tabs tb)"

definition window_exact :: "window_state \<Rightarrow> bool" where
  "window_exact w \<longleftrightarrow> window_fits w \<and> bounds_exact (desired_window (ws_bounds w) 0 None)"

lemma find_window_rows: "find_window w tb = rows_at wr_id (tb_windows tb) w"
proof -
  have "List.find (\<lambda>r. wr_id r = w) rows = rows_at wr_id rows w" for rows
    by (induction rows) auto
  then show ?thesis by (simp add: find_window_def)
qed

lemma active_tab_id_fits:
  assumes "window_fits w"
  shows "active_tab_id_of w
           = Inr (map_option (\<lambda>t. int (ts_tab_id t)) (Option.bind (ws_active_tab_index w) (nth_opt (ws_tabs w))))"
proof (cases "Option.bind (ws_active_tab_index w) (nth_opt (ws_tabs w))")
  case (Some t)
  then have "t \<in> set (ws_tabs w)" by (auto simp: bind_eq_Some_conv dest: nth_opt_set)
  then show ?thesis using Some assms by (simp add: active_tab_id_of_def window_fits_def tab_fits_def i64_from_def)
qed (simp add: active_tab_id_of_def)

lemma apply_window_rows:
  assumes w: "window_exact w" and ok: "windows_ok (tb_windows tb)"
  shows "\<exists>tb' stats'. apply_window w (int pos) (tb, stats) = Inr (tb', stats')
     \<and> tb_tabs tb' = tb_tabs tb \<and> windows_ok (tb_windows tb')
     \<and> rows_at wr_id (tb_windows tb') = (rows_at wr_id (tb_windows tb))(ws_window_id w \<mapsto> snap_window pos w)
     \<and> (\<forall>P. \<not> P (ws_window_id w) \<longrightarrow>
          filter (\<lambda>r. P (wr_id r)) (tb_windows tb') = filter (\<lambda>r. P (wr_id r)) (tb_windows tb))"
proof -
  let ?r = "snap_window pos w"
  have fits: "window_fits w" and ex: "bounds_exact (wr_stored ?r)"
    using w by (simp_all add: window_exact_def snap_window_def bounds_exact_def desired_window_def)
  let ?tb = "tb\<lparr>tb_windows := upsert wr_id ?r (tb_windows tb)\<rparr>"
  have written: "write_window_row (ws_window_id w) (wr_stored ?r) tb = Inr ?tb"
    using ex by (simp add: write_window_row_def bounds_exact_def sql_real_exact snap_window_def)
  have set_upsert: "set (upsert wr_id ?r (tb_windows tb)) \<subseteq> insert ?r (set (tb_windows tb))"
    by (auto simp: upsert_def)
  have stored: "desired_window (ws_bounds w) (int pos)
      (map_option (\<lambda>t. int (ts_tab_id t)) (Option.bind (ws_active_tab_index w) (nth_opt (ws_tabs w)))) = wr_stored ?r"
    by (simp add: snap_window_def)
  note run = apply_window_def active_tab_id_fits [OF fits] stored find_window_rows Let_def written
  show ?thesis
  proof (cases "rows_at wr_id (tb_windows tb) (ws_window_id w) = Some ?r")
    case True
    then have "stored_window_eq (wr_stored ?r) (wr_stored ?r)" using ex stored_window_eq_exact by blast
    then show ?thesis using True ok by (auto simp: run fun_upd_idem)
  next
    case False
    have neq: "\<not> stored_window_eq (wr_stored r) (wr_stored ?r)"
      if at: "rows_at wr_id (tb_windows tb) (ws_window_id w) = Some r" for r
    proof
      assume eq: "stored_window_eq (wr_stored r) (wr_stored ?r)"
      have r: "r \<in> set (tb_windows tb)" "wr_id r = ws_window_id w" using rows_at_Some [OF at] by simp_all
      then have "wr_stored r = wr_stored ?r" using eq ex ok stored_window_eq_exact by (simp add: windows_ok_def)
      then have "r = ?r" using r(2) by (intro window_row.equality) simp_all
      then show False using at False by simp
    qed
    have run': "apply_window w (int pos) (tb, stats)
        = Inr (?tb, stats\<lparr>as_windows_written := as_windows_written stats + 1\<rparr>)"
      using neq by (cases "rows_at wr_id (tb_windows tb) (ws_window_id w)") (simp_all add: run)
    have "windows_ok (tb_windows ?tb)"
      using ok ex set_upsert distinct_upsert [of wr_id "tb_windows tb" ?r] by (auto simp: windows_ok_def)
    moreover have "filter (\<lambda>r. P (wr_id r)) (tb_windows ?tb) = filter (\<lambda>r. P (wr_id r)) (tb_windows tb)"
      if "\<not> P (ws_window_id w)" for P
      using that filter_upsert [of P wr_id ?r] by simp
    ultimately show ?thesis using run' by (auto simp: rows_at_upsert)
  qed
qed

lemma collision_free_cong:
  assumes "filter (\<lambda>r. tr_window r = ws_window_id w) rows' = filter (\<lambda>r. tr_window r = ws_window_id w) rows"
  shows "collision_free rows' w \<longleftrightarrow> collision_free rows w"
proof -
  have "r \<in> set rows' \<longleftrightarrow> r \<in> set rows" if "tr_window r = ws_window_id w" for r
    using that arg_cong [OF assms, of set] by auto
  then show ?thesis by (auto simp: collision_free_def tab_key_def)
qed

lemma snap_rows_in: "r \<in> set (snap_rows w pos ts) \<Longrightarrow> \<exists>t \<in> set ts. \<exists>p. r = snap_row w p t"
  by (induction ts arbitrary: pos) auto

lemma snap_rows_ok:
  assumes "\<forall>t \<in> set ts. tab_fits t" and "r \<in> set (snap_rows w pos ts)"
  shows "row_ok r \<and> tr_id r \<le> i64_max"
proof -
  obtain t p where "t \<in> set ts" "r = snap_row w p t" using snap_rows_in assms(2) by blast
  then show ?thesis using assms(1) snap_row_ok by (auto simp: snap_row_def tab_row_of_def tab_fits_def)
qed

text \<open>What writing a window does, without its steps.\<close>

definition window_written :: "tables \<Rightarrow> window_state \<Rightarrow> bool" where
  "window_written tb w \<longleftrightarrow>
     (\<forall>k. fst k = ws_window_id w \<longrightarrow>
        rows_at tab_key (tb_tabs tb) k = rows_at tab_key (snap_rows (ws_window_id w) 0 (ws_tabs w)) k)"

definition same_windows :: "(int \<Rightarrow> bool) \<Rightarrow> tables \<Rightarrow> tables \<Rightarrow> bool" where
  "same_windows P tb tb' \<longleftrightarrow>
     filter (\<lambda>r. P (wr_id r)) (tb_windows tb') = filter (\<lambda>r. P (wr_id r)) (tb_windows tb)
     \<and> filter (\<lambda>r. P (tr_window r)) (tb_tabs tb') = filter (\<lambda>r. P (tr_window r)) (tb_tabs tb)"

lemma write_window_once:
  assumes w: "window_exact w" and wf: "tables_wf tb" and cf: "collision_free (tb_tabs tb) w"
  shows "\<exists>tb' stats'. rbind (apply_window w (int pos) (tb, stats)) (apply_tabs w) = Inr (tb', stats')
     \<and> tables_wf tb' \<and> window_written tb' w
     \<and> rows_at wr_id (tb_windows tb') = (rows_at wr_id (tb_windows tb))(ws_window_id w \<mapsto> snap_window pos w)
     \<and> (\<forall>P. \<not> P (ws_window_id w) \<longrightarrow> same_windows P tb tb')"
proof -
  obtain tb1 stats1 where one: "apply_window w (int pos) (tb, stats) = Inr (tb1, stats1)"
      "tb_tabs tb1 = tb_tabs tb" "windows_ok (tb_windows tb1)"
      "rows_at wr_id (tb_windows tb1) = (rows_at wr_id (tb_windows tb))(ws_window_id w \<mapsto> snap_window pos w)"
      "\<forall>P. \<not> P (ws_window_id w) \<longrightarrow>
          filter (\<lambda>r. P (wr_id r)) (tb_windows tb1) = filter (\<lambda>r. P (wr_id r)) (tb_windows tb)"
    using apply_window_rows [OF w] wf unfolding tables_wf_def by meson
  have fits: "window_fits w" using w by (simp add: window_exact_def)
  have ok: "tab_rows_ok (tb_tabs tb)" using wf by (simp add: tables_wf_def)
  have "\<exists>tb' stats'. apply_tabs w (tb1, stats1) = Inr (tb', stats') \<and> tabs_frame (ws_window_id w) tb1 tb'
    \<and> rows_at tab_key (tb_tabs tb') =
        (\<lambda>k. if fst k = ws_window_id w then rows_at tab_key (snap_rows (ws_window_id w) 0 (ws_tabs w)) k
             else rows_at tab_key (tb_tabs tb1) k)"
    by (rule apply_tabs_rows [OF fits]) (use one(2) ok cf in simp_all)
  then obtain tb2 stats2 where two: "apply_tabs w (tb1, stats1) = Inr (tb2, stats2)" "tabs_frame (ws_window_id w) tb1 tb2"
      and at: "rows_at tab_key (tb_tabs tb2) =
        (\<lambda>k. if fst k = ws_window_id w then rows_at tab_key (snap_rows (ws_window_id w) 0 (ws_tabs w)) k
             else rows_at tab_key (tb_tabs tb1) k)"
    by blast
  have dist: "distinct (map tab_key (tb_tabs tb2))"
    using two(2) ok one(2) by (simp add: tabs_frame_def tab_rows_ok_def)
  have "row_ok r \<and> tr_id r \<le> i64_max" if "r \<in> set (tb_tabs tb2)" for r
  proof -
    have r: "rows_at tab_key (tb_tabs tb2) (tab_key r) = Some r"
      using that unfolding rows_at_set [OF dist] .
    show ?thesis
    proof (cases "fst (tab_key r) = ws_window_id w")
      case True
      then have "r \<in> set (snap_rows (ws_window_id w) 0 (ws_tabs w))" using r by (auto simp: at dest: rows_at_Some)
      then show ?thesis using snap_rows_ok fits by (auto simp: window_fits_def)
    next
      case False
      then have "r \<in> set (tb_tabs tb)" using r one(2) by (auto simp: at dest: rows_at_Some)
      then show ?thesis using ok by (simp add: tab_rows_ok_def)
    qed
  qed
  then have "tables_wf tb2" using dist one(3) two(2) by (simp add: tables_wf_def tab_rows_ok_def tabs_frame_def)
  then show ?thesis using one two at
    by (auto simp: window_written_def same_windows_def tabs_frame_def)
qed

lemma same_windows_trans: "same_windows P a b \<Longrightarrow> same_windows P b c \<Longrightarrow> same_windows P a c"
  by (simp add: same_windows_def)

lemma same_windows_rows_at:
  assumes "same_windows P tb tb'" and "P (fst k)"
  shows "rows_at tab_key (tb_tabs tb') k = rows_at tab_key (tb_tabs tb) k"
proof -
  have "rows_at tab_key rows k = rows_at tab_key (filter (\<lambda>r. P (tr_window r)) rows) k" for rows
    using assms(2) by (simp add: filter_window_key rows_at_filter [where P = "\<lambda>k. P (fst k)"])
  then show ?thesis using assms(1) by (metis same_windows_def)
qed

lemma apply_windows_rows:
  assumes "distinct (map ws_window_id ws)" and "\<forall>w \<in> set ws. window_exact w" and "int (pos + length ws) \<le> i64_max"
    and "tables_wf tb" and "\<forall>w \<in> set ws. collision_free (tb_tabs tb) w"
  shows "\<exists>tb' stats'. apply_windows pos ws (tb, stats) = Inr (tb', stats') \<and> tables_wf tb'
     \<and> (\<forall>w \<in> set ws. window_written tb' w)
     \<and> rows_at wr_id (tb_windows tb') = rows_at wr_id (tb_windows tb) ++ rows_at wr_id (snap_windows pos ws)
     \<and> (\<forall>P. (\<forall>w \<in> set ws. \<not> P (ws_window_id w)) \<longrightarrow> same_windows P tb tb')"
  using assms
proof (induction ws arbitrary: pos tb stats)
  case (Cons w ws)
  have "window_exact w" "collision_free (tb_tabs tb) w" using Cons.prems by simp_all
  from write_window_once [OF this(1) Cons.prems(4) this(2), of pos stats]
  obtain tb1 stats1 where one: "rbind (apply_window w (int pos) (tb, stats)) (apply_tabs w) = Inr (tb1, stats1)"
      "tables_wf tb1" "window_written tb1 w"
      "rows_at wr_id (tb_windows tb1) = (rows_at wr_id (tb_windows tb))(ws_window_id w \<mapsto> snap_window pos w)"
      and all1: "\<forall>P. \<not> P (ws_window_id w) \<longrightarrow> same_windows P tb tb1"
    by (elim exE conjE) (rule that)
  have same1: "\<not> P (ws_window_id w) \<Longrightarrow> same_windows P tb tb1" for P
    using spec [OF all1, of P] by (rule mp)
  have cf: "\<forall>v \<in> set ws. collision_free (tb_tabs tb1) v"
  proof
    fix v assume v: "v \<in> set ws"
    have "ws_window_id w \<notin> ws_window_id ` set ws" using Cons.prems(1) by simp
    then have "ws_window_id w \<noteq> ws_window_id v" using v by (metis imageI)
    then have "same_windows (\<lambda>i. i = ws_window_id v) tb tb1" by (rule same1)
    then show "collision_free (tb_tabs tb1) v"
      using collision_free_cong [of v "tb_tabs tb1" "tb_tabs tb"] Cons.prems(5) v by (simp add: same_windows_def)
  qed
  obtain tb2 stats2 where two: "apply_windows (Suc pos) ws (tb1, stats1) = Inr (tb2, stats2)" "tables_wf tb2"
      "\<forall>w \<in> set ws. window_written tb2 w"
      "rows_at wr_id (tb_windows tb2) = rows_at wr_id (tb_windows tb1) ++ rows_at wr_id (snap_windows (Suc pos) ws)"
      and all2: "\<forall>P. (\<forall>w \<in> set ws. \<not> P (ws_window_id w)) \<longrightarrow> same_windows P tb1 tb2"
  proof -
    have "\<exists>tb' stats'. apply_windows (Suc pos) ws (tb1, stats1) = Inr (tb', stats') \<and> tables_wf tb'
     \<and> (\<forall>w \<in> set ws. window_written tb' w)
     \<and> rows_at wr_id (tb_windows tb') = rows_at wr_id (tb_windows tb1) ++ rows_at wr_id (snap_windows (Suc pos) ws)
     \<and> (\<forall>P. (\<forall>w \<in> set ws. \<not> P (ws_window_id w)) \<longrightarrow> same_windows P tb1 tb')"
      by (rule Cons.IH) (use Cons.prems(1,2,3) one(2) cf in simp_all)
    then show thesis by (elim exE conjE) (rule that)
  qed
  have same2: "(\<forall>w \<in> set ws. \<not> P (ws_window_id w)) \<Longrightarrow> same_windows P tb1 tb2" for P
    using spec [OF all2, of P] by (rule mp)
  have "ws_window_id w \<notin> wr_id ` set (snap_windows (Suc pos) ws)"
  proof -
    have "wr_id ` set (snap_windows p ws) = ws_window_id ` set ws" for p by (induction ws arbitrary: p) auto
    then show ?thesis using Cons.prems(1) by simp
  qed
  then have at: "rows_at wr_id (tb_windows tb2) = rows_at wr_id (tb_windows tb) ++ rows_at wr_id (snap_windows pos (w # ws))"
    using rows_at_None [of wr_id "snap_windows (Suc pos) ws" "ws_window_id w"]
    by (simp add: two(4) one(4) map_add_upd_left domIff)
  have "same_windows (\<lambda>i. i = ws_window_id w) tb1 tb2"
    by (rule same2) (use Cons.prems(1) in \<open>auto simp: image_iff\<close>)
  then have "rows_at tab_key (tb_tabs tb2) k = rows_at tab_key (tb_tabs tb1) k" if "fst k = ws_window_id w" for k
    using same_windows_rows_at [where P = "\<lambda>i. i = ws_window_id w"] that by blast
  then have "window_written tb2 w" using one(3) by (simp add: window_written_def)
  moreover have "apply_windows pos (w # ws) (tb, stats) = Inr (tb2, stats2)"
    using one(1) two(1) Cons.prems(3) by (cases "apply_window w (int pos) (tb, stats)") (simp_all add: i64_from_def)
  moreover have "\<forall>P. (\<forall>v \<in> set (w # ws). \<not> P (ws_window_id v)) \<longrightarrow> same_windows P tb tb2"
  proof (intro allI impI)
    fix P assume P: "\<forall>v \<in> set (w # ws). \<not> P (ws_window_id v)"
    have "same_windows P tb tb1" by (rule same1) (use P in simp)
    moreover have "same_windows P tb1 tb2" by (rule same2) (use P in simp)
    ultimately show "same_windows P tb tb2" by (rule same_windows_trans)
  qed
  moreover have "\<forall>v \<in> set (w # ws). window_written tb2 v" using two(3) calculation(1) by simp
  ultimately show ?case using two(2) at by blast
qed (simp add: same_windows_def)

section \<open>Reading back\<close>

definition persisted_tab :: "tab_state \<Rightarrow> tab_state" where
  "persisted_tab t = t\<lparr>ts_content := map_option (\<lambda>c. ContentText (to_text c)) (ts_content t)\<rparr>"

definition persisted :: "window_state \<Rightarrow> window_state" where
  "persisted w = w\<lparr>ws_tabs := map persisted_tab (ws_tabs w),
     ws_active_tab_index := (case ws_active_tab_index w of
        None \<Rightarrow> None | Some i \<Rightarrow> if i < length (ws_tabs w) then Some i else None)\<rparr>"

lemma map_remote_id: "x = Some r \<Longrightarrow> \<lparr>s_host = s_host r, s_port = s_port r, s_user = s_user r, s_path = s_path r\<rparr> = r"
  by simp

lemma tab_state_of_snap_row:
  "tab_fits t \<Longrightarrow> tab_state_from_row (snap_row w pos t) = Inr (persisted_tab t)"
  by (cases "ts_remote t"; cases "ts_file_path t")
    (simp_all add: tab_state_from_row_def snap_row_def tab_row_of_def stored_tab_from_snapshot_def
       Let_def persisted_tab_def u64_from_def path_to_bytes_def path_from_bytes_def tab_fits_def
       utf8_decode_encode option.map_comp comp_def)

lemma rmap_snap_rows: "\<forall>t \<in> set ts. tab_fits t \<Longrightarrow> rmap tab_state_from_row (snap_rows w pos ts) = Inr (map persisted_tab ts)"
  by (induction ts arbitrary: pos) (simp_all add: tab_state_of_snap_row)

definition tab_order :: "tab_row \<Rightarrow> int \<times> int" where
  "tab_order r = (sd_position (tr_stored r), tr_id r)"

lemma snap_rows_positions:
  "r \<in> set (snap_rows w pos ts) \<Longrightarrow> int pos \<le> sd_position (tr_stored r)"
proof (induction ts arbitrary: pos)
  case (Cons t ts)
  then show ?case
    by (auto simp: snap_row_def tab_row_of_def stored_tab_from_snapshot_def dest!: Cons.IH)
qed simp

lemma snap_rows_sorted:
  "sorted (map tab_order (snap_rows w pos ts)) \<and> distinct (map tab_order (snap_rows w pos ts))"
proof (induction ts arbitrary: pos)
  case (Cons t ts)
  have "tab_order (snap_row w pos t) < tab_order r" if "r \<in> set (snap_rows w (Suc pos) ts)" for r
    using snap_rows_positions [OF that]
    by (simp add: tab_order_def snap_row_def tab_row_of_def stored_tab_from_snapshot_def less_prod_def)
  then show ?case using Cons by (fastforce intro: less_imp_le)
qed simp

lemma load_tabs_written:
  assumes "window_written tb w" and "tab_rows_ok (tb_tabs tb)" and "window_fits w"
  shows "load_tabs (ws_window_id w) tb = Inr (map persisted_tab (ws_tabs w))"
proof -
  let ?w = "ws_window_id w"
  let ?snap = "snap_rows ?w 0 (ws_tabs w)"
  let ?rows = "filter (\<lambda>r. tr_window r = ?w) (tb_tabs tb)"
  have dist: "distinct (map tab_key (tb_tabs tb))" using assms(2) by (simp add: tab_rows_ok_def)
  have dsnap: "distinct (map tab_key ?snap)"
  proof -
    have "map tab_key (snap_rows v pos ts) = map (\<lambda>t. (v, int (ts_tab_id t))) ts" for v pos ts
      by (induction ts arbitrary: pos) simp_all
    then show ?thesis using assms(3) by (simp add: window_fits_def distinct_map inj_on_def)
  qed
  have "r \<in> set ?rows \<longleftrightarrow> r \<in> set ?snap" for r
  proof (cases "tr_window r = ?w")
    case True
    then have "rows_at tab_key (tb_tabs tb) (tab_key r) = rows_at tab_key ?snap (tab_key r)"
      using assms(1) by (simp add: window_written_def tab_key_def)
    then show ?thesis using True rows_at_set [OF dist, of r] rows_at_set [OF dsnap, of r] by simp
  next
    case False
    then show ?thesis using snap_rows_in [of r ?w 0 "ws_tabs w"] by (auto simp: snap_row_def tab_row_of_def)
  qed
  then have same: "set ?rows = set ?snap" by blast
  have "distinct ?rows" "distinct ?snap" using dist dsnap by (simp_all add: distinct_map)
  then have "sort_key tab_order ?rows = ?snap"
    using same snap_rows_sorted [of ?w 0 "ws_tabs w"] by (intro sort_key_unique) (simp_all add: distinct_map)
  then have "sort_key (\<lambda>r. (sd_position (tr_stored r), tr_id r)) ?rows = ?snap"
    by (simp add: tab_order_def [abs_def])
  then show ?thesis using rmap_snap_rows assms(3) by (simp add: load_tabs_def window_fits_def)
qed

lemma position_nth_distinct:
  "distinct (map f xs) \<Longrightarrow> i < length xs \<Longrightarrow> position (\<lambda>x. f x = f (xs ! i)) xs = Some i"
proof (induction xs arbitrary: i)
  case (Cons x xs)
  then show ?case by (cases i) (auto simp: nth_Cons image_iff)
qed simp

lemma load_window_written:
  assumes "window_written tb w" and "tab_rows_ok (tb_tabs tb)" and w: "window_exact w"
  shows "load_window tb (snap_window pos w) = Inr (persisted w)"
proof -
  have fits: "window_fits w" using w by (simp add: window_exact_def)
  have tabs: "load_tabs (ws_window_id w) tb = Inr (map persisted_tab (ws_tabs w))"
    by (rule load_tabs_written) (use assms fits in simp_all)
  have d: "distinct (map ts_tab_id (ws_tabs w))" using fits by (simp add: window_fits_def)
  have id: "ts_tab_id (persisted_tab t) = ts_tab_id t" for t by (simp add: persisted_tab_def)
  have pos: "position (\<lambda>t. ts_tab_id t = ts_tab_id (ws_tabs w ! i)) (map persisted_tab (ws_tabs w)) = Some i"
    if "i < length (ws_tabs w)" for i
  proof -
    have "map ts_tab_id (map persisted_tab (ws_tabs w)) = map ts_tab_id (ws_tabs w)" by (simp add: comp_def id)
    then show ?thesis
      using position_nth_distinct [of ts_tab_id "map persisted_tab (ws_tabs w)" i] that d by (simp add: id comp_def)
  qed
  show ?thesis
  proof (cases "ws_active_tab_index w")
    case None
    then show ?thesis
      by (simp add: load_window_def tabs snap_window_def desired_window_def window_bounds_from_row_def persisted_def)
  next
    case (Some i)
    then show ?thesis
      by (cases "i < length (ws_tabs w)")
        (simp_all add: load_window_def tabs snap_window_def desired_window_def window_bounds_from_row_def
           persisted_def nth_opt_def u64_from_def pos)
  qed
qed

lemma load_window_cong:
  assumes "filter (\<lambda>x. tr_window x = wr_id r) (tb_tabs tb') = filter (\<lambda>x. tr_window x = wr_id r) (tb_tabs tb)"
  shows "load_window tb' r = load_window tb r"
  using assms by (simp add: load_window_def load_tabs_def)

lemma load_window_id: "load_window tb r = Inr w \<Longrightarrow> ws_window_id w = wr_id r"
  by (auto simp: load_window_def rbind_eq_Inr)

definition window_order :: "window_row \<Rightarrow> int \<times> int" where
  "window_order r = (sw_position (wr_stored r), wr_id r)"

lemma load_def': "load db = rmap (load_window (db_tables db)) (sort_key window_order (tb_windows (db_tables db)))"
  by (simp add: load_def Let_def window_order_def [abs_def])

lemma snap_windows_positions: "r \<in> set (snap_windows pos ws) \<Longrightarrow> int pos \<le> sw_position (wr_stored r)"
proof (induction ws arbitrary: pos)
  case (Cons w ws)
  then show ?case by (auto simp: snap_window_def desired_window_def dest!: Cons.IH)
qed simp

lemma snap_windows_sorted:
  "sorted (map window_order (snap_windows pos ws)) \<and> distinct (map window_order (snap_windows pos ws))"
proof (induction ws arbitrary: pos)
  case (Cons w ws)
  have "window_order (snap_window pos w) < window_order r" if "r \<in> set (snap_windows (Suc pos) ws)" for r
    using snap_windows_positions [OF that]
    by (simp add: window_order_def snap_window_def desired_window_def less_prod_def)
  then show ?case using Cons by (fastforce intro: less_imp_le)
qed simp

lemma snap_windows_ids: "map wr_id (snap_windows pos ws) = map ws_window_id ws"
  by (induction ws arbitrary: pos) simp_all

text \<open>A filter on the loaded windows is a filter on their rows.\<close>

lemma filter_load:
  assumes "\<And>r. r \<in> set rows \<Longrightarrow> load_window tb r = Inr (g r)"
  shows "rmap (load_window tb) (sort_key window_order rows) = Inr (map g (sort_key window_order rows))"
    and "filter (\<lambda>w. P (ws_window_id w)) (map g (sort_key window_order rows))
           = map g (sort_key window_order (filter (\<lambda>r. P (wr_id r)) rows))"
proof -
  show "rmap (load_window tb) (sort_key window_order rows) = Inr (map g (sort_key window_order rows))"
    by (rule rmap_Inr) (use assms in simp)
  have "filter (\<lambda>r. P (ws_window_id (g r))) rows = filter (\<lambda>r. P (wr_id r)) rows"
    by (rule filter_cong [OF refl]) (use assms load_window_id in fastforce)
  then show "filter (\<lambda>w. P (ws_window_id w)) (map g (sort_key window_order rows))
           = map g (sort_key window_order (filter (\<lambda>r. P (wr_id r)) rows))"
    by (simp add: filter_map comp_def filter_sort)
qed

lemma filter_delete_windows:
  assumes "\<And>i. P i \<Longrightarrow> i \<notin> closed"
  shows "filter (\<lambda>r. P (wr_id r)) (tb_windows (delete_windows closed tb)) = filter (\<lambda>r. P (wr_id r)) (tb_windows tb)"
    and "filter (\<lambda>r. P (tr_window r)) (tb_tabs (delete_windows closed tb)) = filter (\<lambda>r. P (tr_window r)) (tb_tabs tb)"
  using assms by (auto simp: delete_windows_def intro!: filter_cong)

definition snapshot_ok :: "state_db \<Rightarrow> windows_state \<Rightarrow> bool" where
  "snapshot_ok db ws \<longleftrightarrow> tables_wf (db_tables db) \<and> distinct (map ws_window_id ws)
     \<and> (\<forall>w \<in> set ws. window_exact w \<and> collision_free (tb_tabs (db_tables db)) w)
     \<and> int (length ws) \<le> i64_max"

lemma apply_snapshot_tables:
  assumes "snapshot_ok db ws"
  obtains tb stats where
    "apply_snapshot NoFault ws db = (Inr stats, db\<lparr>db_tables := delete_windows (db_owned db - ws_window_id ` set ws) tb,
        db_owned := ws_window_id ` set ws\<rparr>)"
    and "tables_wf tb" and "\<forall>w \<in> set ws. window_written tb w"
    and "rows_at wr_id (tb_windows tb) = rows_at wr_id (tb_windows (db_tables db)) ++ rows_at wr_id (snap_windows 0 ws)"
    and "\<And>P. \<forall>w \<in> set ws. \<not> P (ws_window_id w) \<Longrightarrow> same_windows P (db_tables db) tb"
proof -
  have "\<exists>tb' stats'. apply_windows 0 ws (db_tables db, no_stats) = Inr (tb', stats') \<and> tables_wf tb'
     \<and> (\<forall>w \<in> set ws. window_written tb' w)
     \<and> rows_at wr_id (tb_windows tb') = rows_at wr_id (tb_windows (db_tables db)) ++ rows_at wr_id (snap_windows 0 ws)
     \<and> (\<forall>P. (\<forall>w \<in> set ws. \<not> P (ws_window_id w)) \<longrightarrow> same_windows P (db_tables db) tb')"
    by (rule apply_windows_rows) (use assms in \<open>simp_all add: snapshot_ok_def\<close>)
  then obtain tb' stats' where a: "apply_windows 0 ws (db_tables db, no_stats) = Inr (tb', stats')" "tables_wf tb'"
     "\<forall>w \<in> set ws. window_written tb' w"
     "rows_at wr_id (tb_windows tb') = rows_at wr_id (tb_windows (db_tables db)) ++ rows_at wr_id (snap_windows 0 ws)"
     and same: "\<forall>P. (\<forall>w \<in> set ws. \<not> P (ws_window_id w)) \<longrightarrow> same_windows P (db_tables db) tb'"
    by (elim exE conjE) (rule that)
  show thesis
  proof (rule that)
    show "apply_snapshot NoFault ws db = (Inr (stats'\<lparr>as_windows_deleted := as_windows_deleted stats'
         + length (filter (\<lambda>r. wr_id r \<in> db_owned db - ws_window_id ` set ws) (tb_windows tb'))\<rparr>),
       db\<lparr>db_tables := delete_windows (db_owned db - ws_window_id ` set ws) tb', db_owned := ws_window_id ` set ws\<rparr>)"
      by (simp add: apply_snapshot_def a(1) Let_def)
    show "\<forall>w \<in> set ws. \<not> P (ws_window_id w) \<Longrightarrow> same_windows P (db_tables db) tb'" for P
      using spec [OF same, of P] by (rule mp)
  qed (use a in simp_all)
qed

lemma present_rows:
  assumes "windows_ok rows" and "distinct (map ws_window_id ws)"
    and at: "rows_at wr_id rows = m ++ rows_at wr_id (snap_windows 0 ws)"
  shows "sort_key window_order (filter (\<lambda>r. wr_id r \<in> ws_window_id ` set ws) rows) = snap_windows 0 ws"
proof (rule sort_key_unique)
  let ?snap = "snap_windows 0 ws"
  have dist: "distinct (map wr_id rows)" using assms(1) by (simp add: windows_ok_def)
  have dsnap: "distinct (map wr_id ?snap)" using assms(2) by (simp add: snap_windows_ids)
  then show "distinct ?snap" by (simp add: distinct_map)
  show "distinct (filter (\<lambda>r. wr_id r \<in> ws_window_id ` set ws) rows)" using dist by (simp add: distinct_map)
  have ids: "wr_id ` set ?snap = ws_window_id ` set ws" by (metis snap_windows_ids list.set_map)
  have "r \<in> set rows \<longleftrightarrow> r \<in> set ?snap" if "wr_id r \<in> ws_window_id ` set ws" for r
  proof -
    have "rows_at wr_id ?snap (wr_id r) \<noteq> None" using that by (simp add: rows_at_None ids)
    then obtain s where "rows_at wr_id ?snap (wr_id r) = Some s" by blast
    then have "rows_at wr_id rows (wr_id r) = rows_at wr_id ?snap (wr_id r)" by (simp add: at map_add_def)
    then show ?thesis using rows_at_set [OF dist, of r] rows_at_set [OF dsnap, of r] by simp
  qed
  moreover have "wr_id r \<in> ws_window_id ` set ws" if "r \<in> set ?snap" for r using that ids by blast
  ultimately show "set (filter (\<lambda>r. wr_id r \<in> ws_window_id ` set ws) rows) = set ?snap" by auto
qed (use snap_windows_sorted [of 0 ws] in \<open>simp_all add: distinct_map\<close>)

lemma snap_windows_in: "r \<in> set (snap_windows pos ws) \<Longrightarrow> \<exists>w \<in> set ws. \<exists>p. r = snap_window p w"
  by (induction ws arbitrary: pos) auto

lemma map_snap_windows:
  "(\<And>p w. w \<in> set ws \<Longrightarrow> g (snap_window p w) = f w) \<Longrightarrow> map g (snap_windows pos ws) = map f ws"
  by (induction ws arbitrary: pos) simp_all

lemma load_snapshot_parts:
  assumes ok: "snapshot_ok db ws" and before: "load db = Inr old"
  obtains stats db' loaded where
    "apply_snapshot NoFault ws db = (Inr stats, db')" and "load db' = Inr loaded"
    and "filter (\<lambda>w. ws_window_id w \<in> ws_window_id ` set ws) loaded = map persisted ws"
    and "filter (\<lambda>w. ws_window_id w \<notin> ws_window_id ` set ws) loaded
           = filter (\<lambda>w. ws_window_id w \<notin> ws_window_id ` set ws \<union> db_owned db) old"
    and "db_owned db' = ws_window_id ` set ws"
proof -
  define present where "present = ws_window_id ` set ws"
  let ?closed = "db_owned db - present"
  obtain tb stats where app: "apply_snapshot NoFault ws db = (Inr stats, db\<lparr>db_tables := delete_windows ?closed tb,
        db_owned := present\<rparr>)"
    and wf: "tables_wf tb" and written: "\<forall>w \<in> set ws. window_written tb w"
    and at: "rows_at wr_id (tb_windows tb) = rows_at wr_id (tb_windows (db_tables db)) ++ rows_at wr_id (snap_windows 0 ws)"
    and same: "\<And>P. \<forall>w \<in> set ws. \<not> P (ws_window_id w) \<Longrightarrow> same_windows P (db_tables db) tb"
    by (rule apply_snapshot_tables [OF ok, folded present_def]) (rule that)
  let ?tb = "delete_windows ?closed tb"
  let ?rows = "tb_windows ?tb"
  have d: "distinct (map ws_window_id ws)" using ok by (simp add: snapshot_ok_def)
  have wok: "windows_ok (tb_windows tb)" and tok: "tab_rows_ok (tb_tabs tb)" using wf by (simp_all add: tables_wf_def)
  have mine: "sort_key window_order (filter (\<lambda>r. wr_id r \<in> present) ?rows) = snap_windows 0 ws"
    using present_rows [OF wok d at] filter_delete_windows(1) [of "\<lambda>i. i \<in> present" ?closed tb]
    by (simp add: present_def)
  have load_mine: "load_window ?tb (snap_window pos w) = Inr (persisted w)" if "w \<in> set ws" for pos w
  proof -
    have "ws_window_id w \<in> present" using that by (simp add: present_def)
    then have "load_window ?tb (snap_window pos w) = load_window tb (snap_window pos w)"
      using filter_delete_windows(2) [of "\<lambda>i. i = ws_window_id w" ?closed tb] by (intro load_window_cong) simp
    also have "\<dots> = Inr (persisted w)"
      using load_window_written tok written ok that by (simp add: snapshot_ok_def)
    finally show ?thesis .
  qed
  have rest: "same_windows (\<lambda>i. i \<notin> present) (db_tables db) tb" by (rule same) (simp add: present_def)
  have load_other: "load_window ?tb r = load_window (db_tables db) r" if "wr_id r \<notin> present \<union> db_owned db" for r
  proof (rule load_window_cong)
    have "filter (\<lambda>x. tr_window x = wr_id r) (tb_tabs ?tb) = filter (\<lambda>x. tr_window x = wr_id r) (tb_tabs tb)"
      using filter_delete_windows(2) [of "\<lambda>i. i = wr_id r" ?closed tb] that by simp
    moreover have "same_windows (\<lambda>i. i = wr_id r) (db_tables db) tb" by (rule same) (use that in \<open>auto simp: present_def image_iff\<close>)
    ultimately show "filter (\<lambda>x. tr_window x = wr_id r) (tb_tabs ?tb) = filter (\<lambda>x. tr_window x = wr_id r) (tb_tabs (db_tables db))"
      by (simp add: same_windows_def)
  qed
  have others: "filter (\<lambda>r. wr_id r \<notin> present) ?rows = filter (\<lambda>r. wr_id r \<notin> present \<union> db_owned db) (tb_windows (db_tables db))"
  proof -
    have "filter (\<lambda>r. wr_id r \<notin> present) ?rows = filter (\<lambda>r. wr_id r \<notin> db_owned db) (filter (\<lambda>r. wr_id r \<notin> present) (tb_windows tb))"
      by (auto simp: delete_windows_def intro!: filter_cong)
    also have "\<dots> = filter (\<lambda>r. wr_id r \<notin> db_owned db) (filter (\<lambda>r. wr_id r \<notin> present) (tb_windows (db_tables db)))"
      using rest by (simp add: same_windows_def)
    finally show ?thesis by (auto intro!: filter_cong)
  qed
  have old_rows: "load_window (db_tables db) r = Inr (projr (load_window (db_tables db) r))"
    if "r \<in> set (tb_windows (db_tables db))" for r
  proof -
    have "map (load_window (db_tables db)) (sort_key window_order (tb_windows (db_tables db))) = map Inr old"
      using before by (simp add: load_def' rmap_eq_Inr)
    then have "load_window (db_tables db) r \<in> Inr ` set old"
      using that by (metis imageI list.set_map set_sort)
    then show ?thesis by auto
  qed
  define g where "g r = projr (load_window ?tb r)" for r
  have each: "load_window ?tb r = Inr (g r)" if "r \<in> set ?rows" for r
  proof (cases "wr_id r \<in> present")
    case True
    then have "r \<in> set (snap_windows 0 ws)" using that mine [symmetric] by simp
    then show ?thesis using snap_windows_in load_mine by (fastforce simp: g_def)
  next
    case False
    then have "r \<in> set (filter (\<lambda>r. wr_id r \<notin> present) ?rows)" using that by simp
    then have "r \<in> set (tb_windows (db_tables db))" "wr_id r \<notin> present \<union> db_owned db" unfolding others by simp_all
    then show ?thesis using load_other old_rows by (simp add: g_def)
  qed
  note loaded = filter_load [of ?rows ?tb g, OF each]
  have before': "old = map (\<lambda>r. projr (load_window (db_tables db) r)) (sort_key window_order (tb_windows (db_tables db)))"
    using filter_load(1) [of "tb_windows (db_tables db)" "db_tables db", OF old_rows] before by (simp add: load_def')
  show thesis
  proof (rule that [OF app])
    show "load (db\<lparr>db_tables := ?tb, db_owned := present\<rparr>) = Inr (map g (sort_key window_order ?rows))"
      using loaded(1) by (simp add: load_def')
    have "map g (snap_windows 0 ws) = map persisted ws"
      by (rule map_snap_windows) (simp add: g_def load_mine)
    then show "filter (\<lambda>w. ws_window_id w \<in> ws_window_id ` set ws) (map g (sort_key window_order ?rows)) = map persisted ws"
      using loaded(2) [of "\<lambda>i. i \<in> present"] mine by (simp add: present_def)
    have "map g (sort_key window_order (filter (\<lambda>r. wr_id r \<notin> present \<union> db_owned db) (tb_windows (db_tables db))))
        = map (\<lambda>r. projr (load_window (db_tables db) r))
            (sort_key window_order (filter (\<lambda>r. wr_id r \<notin> present \<union> db_owned db) (tb_windows (db_tables db))))"
      using load_other by (simp add: g_def)
    also have "\<dots> = filter (\<lambda>w. ws_window_id w \<notin> present \<union> db_owned db) old"
      using filter_load(2) [of "tb_windows (db_tables db)" "db_tables db", OF old_rows, of "\<lambda>i. i \<notin> present \<union> db_owned db"]
      by (simp only: before')
    finally show "filter (\<lambda>w. ws_window_id w \<notin> ws_window_id ` set ws) (map g (sort_key window_order ?rows))
        = filter (\<lambda>w. ws_window_id w \<notin> ws_window_id ` set ws \<union> db_owned db) old"
      using loaded(2) [of "\<lambda>i. i \<notin> present"] others by (simp only: present_def)
  qed (simp add: present_def)
qed

section \<open>Writing the same snapshot again\<close>

lemma rows_at_snap_rows:
  assumes "distinct (map ts_tab_id ts)" and "i < length ts"
  shows "rows_at tab_key (snap_rows w pos ts) (w, int (ts_tab_id (ts ! i))) = Some (snap_row w (pos + i) (ts ! i))"
  using assms
proof (induction ts arbitrary: pos i)
  case (Cons t ts)
  show ?case
  proof (cases i)
    case (Suc j)
    then have "ts ! j \<in> set ts" using Cons.prems(2) by simp
    then have "ts_tab_id (ts ! j) \<noteq> ts_tab_id t" using Cons.prems(1) by (auto simp: image_iff)
    then show ?thesis using Cons Suc by simp
  qed simp
qed simp

lemma rows_at_snap_windows:
  assumes "distinct (map ws_window_id ws)" and "i < length ws"
  shows "rows_at wr_id (snap_windows pos ws) (ws_window_id (ws ! i)) = Some (snap_window (pos + i) (ws ! i))"
  using assms
proof (induction ws arbitrary: pos i)
  case (Cons w ws)
  show ?case
  proof (cases i)
    case (Suc j)
    then have "ws ! j \<in> set ws" using Cons.prems(2) by simp
    then have "ws_window_id (ws ! j) \<noteq> ws_window_id w" using Cons.prems(1) by (auto simp: image_iff)
    then show ?thesis using Cons Suc by simp
  qed simp
qed simp

lemma row_fingerprint_snap:
  "row_fingerprint (snap_row w pos t) = map_option tab_content_fingerprint (ts_content t)"
  using row_fingerprint_ok [OF snap_row_ok [of w pos t]]
  by (cases "ts_content t") (simp_all add: snap_row_def tab_row_of_def fingerprint_to_text)

lemma apply_tab_again:
  assumes "tab_fits t" and "int pos \<le> i64_max"
    and "map_of existing (ts_tab_id t) = Some (tr_stored (snap_row w pos t), row_fingerprint (snap_row w pos t))"
  shows "apply_tab w pos t (existing, tb, stats) = Inr (filter (\<lambda>e. fst e \<noteq> ts_tab_id t) existing, tb, stats)"
  using assms
  by (simp add: apply_tab_def i64_from_def row_fingerprint_snap Let_def)
    (simp add: snap_row_def tab_row_of_def)

lemma apply_tabs_loop_again:
  assumes "distinct (map ts_tab_id ts)" and "\<forall>t \<in> set ts. tab_fits t" and "int (pos + length ts) \<le> i64_max"
    and "\<And>i. i < length ts \<Longrightarrow> map_of existing (ts_tab_id (ts ! i)) =
           Some (tr_stored (snap_row w (pos + i) (ts ! i)), row_fingerprint (snap_row w (pos + i) (ts ! i)))"
  shows "apply_tabs_loop w pos ts (existing, tb, stats)
           = Inr (filter (\<lambda>e. fst e \<notin> ts_tab_id ` set ts) existing, tb, stats)"
  using assms
proof (induction ts arbitrary: pos existing)
  case (Cons t ts)
  let ?rest = "filter (\<lambda>e. fst e \<noteq> ts_tab_id t) existing"
  have "apply_tab w pos t (existing, tb, stats) = Inr (?rest, tb, stats)"
    by (rule apply_tab_again) (use Cons.prems(2,3) Cons.prems(4) [of 0] in simp_all)
  moreover have "apply_tabs_loop w (Suc pos) ts (?rest, tb, stats)
      = Inr (filter (\<lambda>e. fst e \<notin> ts_tab_id ` set ts) ?rest, tb, stats)"
  proof (rule Cons.IH)
    fix i assume i: "i < length ts"
    then have "ts_tab_id t \<noteq> ts_tab_id (ts ! i)" using Cons.prems(1) by (auto simp: image_iff)
    then show "map_of ?rest (ts_tab_id (ts ! i)) =
           Some (tr_stored (snap_row w (Suc pos + i) (ts ! i)), row_fingerprint (snap_row w (Suc pos + i) (ts ! i)))"
      using Cons.prems(4) [of "Suc i"] i by (simp add: map_of_filter_ne)
  qed (use Cons.prems in simp_all)
  moreover have "filter (\<lambda>e. fst e \<notin> ts_tab_id ` set ts) ?rest
      = filter (\<lambda>e. fst e \<notin> ts_tab_id ` set (t # ts)) existing"
    by (auto intro: filter_cong)
  ultimately show ?case by simp
qed simp

lemma apply_tabs_again:
  assumes written: "window_written tb w" and fits: "window_fits w"
  shows "apply_tabs w (tb, stats) = Inr (tb, stats)"
proof -
  let ?w = "ws_window_id w" and ?ts = "ws_tabs w"
  let ?ex = "read_stored_tabs ?w tb"
  have d: "distinct (map ts_tab_id ?ts)" using fits by (simp add: window_fits_def)
  have at: "rows_at tab_key (tb_tabs tb) (?w, int i) = rows_at tab_key (snap_rows ?w 0 ?ts) (?w, int i)" for i
    using written by (simp add: window_written_def)
  have "apply_tabs_loop ?w 0 ?ts (?ex, tb, stats) = Inr (filter (\<lambda>e. fst e \<notin> ts_tab_id ` set ?ts) ?ex, tb, stats)"
    by (rule apply_tabs_loop_again)
      (use fits d in \<open>simp_all add: window_fits_def map_of_stored at rows_at_snap_rows\<close>)
  moreover have "filter (\<lambda>e. fst e \<notin> ts_tab_id ` set ?ts) ?ex = []"
  proof -
    have "fst ` set ?ex \<subseteq> ts_tab_id ` set ?ts"
    proof
      fix i assume "i \<in> fst ` set ?ex"
      then have "rows_at tab_key (snap_rows ?w 0 ?ts) (?w, int i) \<noteq> None" using stored_ids [of ?w tb] at by simp
      then show "i \<in> ts_tab_id ` set ?ts" using snap_rows_other [of i ?ts ?w 0] by fastforce
    qed
    then show ?thesis by (fastforce simp: filter_empty_conv)
  qed
  ultimately show ?thesis by (simp add: apply_tabs_def)
qed

lemma apply_window_again:
  assumes "rows_at wr_id (tb_windows tb) (ws_window_id w) = Some (snap_window pos w)" and "window_exact w"
  shows "apply_window w (int pos) (tb, stats) = Inr (tb, stats)"
proof -
  have ex: "bounds_exact (wr_stored (snap_window pos w))" and fits: "window_fits w"
    using assms(2) by (simp_all add: window_exact_def snap_window_def bounds_exact_def desired_window_def)
  have eq: "desired_window (ws_bounds w) (int pos)
      (map_option (\<lambda>t. int (ts_tab_id t)) (Option.bind (ws_active_tab_index w) (nth_opt (ws_tabs w))))
      = wr_stored (snap_window pos w)"
    by (simp add: snap_window_def)
  show ?thesis
    using ex stored_window_eq_exact [OF ex ex]
    by (simp add: apply_window_def active_tab_id_fits [OF fits] find_window_rows assms(1) Let_def eq)
qed

lemma apply_windows_again:
  assumes "\<forall>w \<in> set ws. window_exact w \<and> window_written tb w" and "int (pos + length ws) \<le> i64_max"
    and "\<And>i. i < length ws \<Longrightarrow>
      rows_at wr_id (tb_windows tb) (ws_window_id (ws ! i)) = Some (snap_window (pos + i) (ws ! i))"
  shows "apply_windows pos ws (tb, stats) = Inr (tb, stats)"
  using assms
proof (induction ws arbitrary: pos)
  case (Cons w ws)
  have "apply_window w (int pos) (tb, stats) = Inr (tb, stats)"
    by (rule apply_window_again) (use Cons.prems(1) Cons.prems(3) [of 0] in simp_all)
  moreover have "apply_tabs w (tb, stats) = Inr (tb, stats)"
    using Cons.prems(1) by (intro apply_tabs_again) (simp_all add: window_exact_def)
  moreover have "apply_windows (Suc pos) ws (tb, stats) = Inr (tb, stats)"
  proof (rule Cons.IH)
    show "rows_at wr_id (tb_windows tb) (ws_window_id (ws ! i)) = Some (snap_window (Suc pos + i) (ws ! i))"
      if "i < length ws" for i
      using Cons.prems(3) [of "Suc i"] that by simp
  qed (use Cons.prems in simp_all)
  ultimately show ?case using Cons.prems(2) by (simp add: i64_from_def)
qed simp

lemma written_after_delete:
  assumes "window_written tb w" and "ws_window_id w \<notin> closed"
  shows "window_written (delete_windows closed tb) w"
proof -
  have "rows_at tab_key (filter (\<lambda>r. tr_window r \<notin> closed) (tb_tabs tb)) k = rows_at tab_key (tb_tabs tb) k"
    if "fst k \<notin> closed" for k
    using that rows_at_filter [where P = "\<lambda>k. fst k \<notin> closed" and key = tab_key and rows = "tb_tabs tb" and k = k]
    by (simp add: tab_key_def)
  then show ?thesis using assms by (simp add: window_written_def delete_windows_def)
qed

lemma window_row_after_delete:
  "i \<notin> closed \<Longrightarrow> rows_at wr_id (tb_windows (delete_windows closed tb)) i = rows_at wr_id (tb_windows tb) i"
  by (simp add: delete_windows_def rows_at_filter [where P = "\<lambda>i. i \<notin> closed"])

lemma delete_no_windows: "delete_windows {} tb = tb"
  by (simp add: delete_windows_def)

lemma resave_same:
  assumes ok: "snapshot_ok db ws" and app: "apply_snapshot NoFault ws db = (Inr stats, db')"
  shows "apply_snapshot NoFault ws db' = (Inr no_stats, db')"
proof -
  let ?present = "ws_window_id ` set ws"
  obtain tb where db': "db' = db\<lparr>db_tables := delete_windows (db_owned db - ?present) tb, db_owned := ?present\<rparr>"
    and written: "\<forall>w \<in> set ws. window_written tb w"
    and at: "rows_at wr_id (tb_windows tb) = rows_at wr_id (tb_windows (db_tables db)) ++ rows_at wr_id (snap_windows 0 ws)"
    by (rule apply_snapshot_tables [OF ok]) (use app in auto)
  let ?tb = "delete_windows (db_owned db - ?present) tb"
  have d: "distinct (map ws_window_id ws)" using ok by (simp add: snapshot_ok_def)
  have "apply_windows 0 ws (?tb, no_stats) = Inr (?tb, no_stats)"
  proof (rule apply_windows_again)
    show "\<forall>w \<in> set ws. window_exact w \<and> window_written ?tb w"
      using ok written written_after_delete by (auto simp: snapshot_ok_def)
    show "int (0 + length ws) \<le> i64_max" using ok by (simp add: snapshot_ok_def)
    show "rows_at wr_id (tb_windows ?tb) (ws_window_id (ws ! i)) = Some (snap_window (0 + i) (ws ! i))"
      if "i < length ws" for i
      using that rows_at_snap_windows [OF d that, of 0] by (simp add: window_row_after_delete at)
  qed
  then show ?thesis
    by (simp add: apply_snapshot_def db' Let_def delete_no_windows no_stats_def)
qed

section \<open>Window identities\<close>

lemma sint_i64: "0 \<le> n \<Longrightarrow> n \<le> i64_max \<Longrightarrow> sint (word_of_int n :: 64 word) = n"
  by (simp add: i64_max_def signed_take_bit_int_eq_self signed_of_int)

lemma sint_Suc:
  assumes "sint (x :: 64 word) < i64_max"
  shows "sint (x + 1) = sint x + 1"
proof -
  have "- (2 ^ 63) \<le> sint x" using sint_greater_eq [of x] by simp
  then show ?thesis
    using assms by (simp add: i64_max_def sint_word_add signed_take_bit_int_eq_self)
qed

lemma clock_nanos_range: "0 \<le> clock_nanos e \<and> clock_nanos e \<le> i64_max"
  by (simp add: clock_nanos_def i64_max_def split: option.splits)

lemma allocate_id_above:
  assumes "sint last_id < i64_max" and "clock_nanos e < i64_max"
  obtains i where "allocate_id e last_id = (i, i)" and "sint i = max (sint last_id) (clock_nanos e) + 1"
proof (rule that)
  have "sint (word_of_int (clock_nanos e) :: 64 word) = clock_nanos e"
    using clock_nanos_range [of e] sint_i64 by blast
  then show "sint (snd (allocate_id e last_id)) = max (sint last_id) (clock_nanos e) + 1"
    using assms by (auto simp: allocate_id_def Let_def sint_Suc max_def)
  show "allocate_id e last_id = (snd (allocate_id e last_id), snd (allocate_id e last_id))"
    by (simp add: allocate_id_def Let_def)
qed

text \<open>Identities allocated in a row increase strictly, even when the clock goes back, as long as the
  counter is away from the end of its range.\<close>

lemma assigned_ids_increase:
  assumes "sint last_id + int (length ws) \<le> i64_max"
    and "\<And>i. i < k + length ws \<Longrightarrow> clock_nanos (clock i) + int (length ws) \<le> i64_max"
    and "assign_missing_identity clock k last_id ws = (ws', last')"
  shows "sorted_wrt (<) (map ws_window_id ws') \<and> (\<forall>w \<in> set ws'. sint last_id < ws_window_id w)"
  using assms
proof (induction ws arbitrary: k last_id ws' last')
  case (Cons w ws)
  have "sint last_id < i64_max" and "clock_nanos (clock k) < i64_max"
    using Cons.prems(1) Cons.prems(2) [of k] by simp_all
  then obtain i where i: "allocate_id (clock k) last_id = (i, i)"
      and si: "sint i = max (sint last_id) (clock_nanos (clock k)) + 1"
    by (rule allocate_id_above)
  obtain ws1 last1 where rest: "assign_missing_identity clock (Suc k) i ws = (ws1, last1)"
    by (cases "assign_missing_identity clock (Suc k) i ws")
  have "sorted_wrt (<) (map ws_window_id ws1) \<and> (\<forall>w \<in> set ws1. sint i < ws_window_id w)"
  proof (rule Cons.IH [OF _ _ rest])
    show "sint i + int (length ws) \<le> i64_max"
      using Cons.prems(1) Cons.prems(2) [of k] si by (simp add: max_def split: if_splits)
    show "clock_nanos (clock j) + int (length ws) \<le> i64_max" if "j < Suc k + length ws" for j
      using Cons.prems(2) [of j] that by simp
  qed
  moreover have "ws' = w\<lparr>ws_window_id := sint i, ws_tabs := number_tabs 0 (ws_tabs w)\<rparr> # ws1"
    using Cons.prems(3) i rest by simp
  ultimately show ?case using si by (fastforce simp: max_def split: if_splits)
qed simp

lemma number_tabs_ids: "map ts_tab_id (number_tabs i ts) = [i ..< i + length ts]"
proof (induction ts arbitrary: i)
  case (Cons t ts)
  then show ?case using upt_conv_Cons [of i "i + Suc (length ts)"] by simp
qed simp

lemma number_tabs_in:
  "t \<in> set (number_tabs i ts) \<Longrightarrow> \<exists>u \<in> set ts. \<exists>j < i + length ts. t = u\<lparr>ts_tab_id := j\<rparr>"
proof (induction ts arbitrary: i)
  case (Cons v ts)
  show ?case
  proof (cases "t = v\<lparr>ts_tab_id := i\<rparr>")
    case False
    then have "t \<in> set (number_tabs (Suc i) ts)" using Cons.prems by simp
    then obtain u j where "u \<in> set ts" "j < Suc i + length ts" "t = u\<lparr>ts_tab_id := j\<rparr>" using Cons.IH by blast
    then show ?thesis by (intro bexI [of _ u] exI [of _ j]) simp_all
  qed (intro bexI [of _ v] exI [of _ i], simp_all)
qed simp

definition legacy_fits :: "windows_state \<Rightarrow> bool" where
  "legacy_fits ws \<longleftrightarrow> int (length ws) \<le> i64_max
     \<and> (\<forall>w \<in> set ws. (\<forall>t \<in> set (ws_tabs w). tab_fits (t\<lparr>ts_tab_id := 0\<rparr>))
          \<and> int (length (ws_tabs w)) \<le> i64_max \<and> bounds_exact (desired_window (ws_bounds w) 0 None))"

lemma numbered_exact:
  assumes "\<forall>t \<in> set (ws_tabs w). tab_fits (t\<lparr>ts_tab_id := 0\<rparr>)" and "int (length (ws_tabs w)) \<le> i64_max"
    and "bounds_exact (desired_window (ws_bounds w) 0 None)"
  shows "window_exact (w\<lparr>ws_window_id := i, ws_tabs := number_tabs 0 (ws_tabs w)\<rparr>)"
proof -
  have "tab_fits t" if "t \<in> set (number_tabs 0 (ws_tabs w))" for t
    using number_tabs_in [OF that] assms(1,2) by (fastforce simp: tab_fits_def)
  moreover have "length (number_tabs 0 (ws_tabs w)) = length (ws_tabs w)"
    using arg_cong [OF number_tabs_ids [of 0 "ws_tabs w"], of length] by simp
  ultimately show ?thesis
    using assms by (simp add: window_exact_def window_fits_def number_tabs_ids)
qed

lemma assign_Cons:
  "fst (assign_missing_identity clock k last_id (w # ws)) =
     w\<lparr>ws_window_id := sint (fst (allocate_id (clock k) last_id)), ws_tabs := number_tabs 0 (ws_tabs w)\<rparr>
     # fst (assign_missing_identity clock (Suc k) (snd (allocate_id (clock k) last_id)) ws)"
  by (simp add: Let_def split: prod.splits)

lemma assigned_exact:
  assumes "\<forall>w \<in> set ws. (\<forall>t \<in> set (ws_tabs w). tab_fits (t\<lparr>ts_tab_id := 0\<rparr>))
          \<and> int (length (ws_tabs w)) \<le> i64_max \<and> bounds_exact (desired_window (ws_bounds w) 0 None)"
  shows "\<forall>w \<in> set (fst (assign_missing_identity clock k last_id ws)). window_exact w"
    and "length (fst (assign_missing_identity clock k last_id ws)) = length ws"
  using assms
proof (induction ws arbitrary: k last_id)
  case (Cons w ws)
  { case 1 then show ?case using Cons.IH(1) by (simp only: assign_Cons) (simp add: numbered_exact) }
  { case 2 then show ?case using Cons.IH(2) by (simp only: assign_Cons) simp }
qed simp_all

section \<open>Properties\<close>

text \<open>C5: Saving a session and loading it again gives the saved windows back: under a snapshot whose
  numbers fit their columns, on a consistent database, and if no two different texts of a tab have the
  same fingerprint, the transaction succeeds, the windows loaded afterwards are, in order, the windows
  saved (contents as text, an active index past the end dropped), and of the other windows exactly
  those remain that this process did not own.\<close>

theorem saved_session_loads_back:
  assumes "snapshot_ok db ws" and "load db = Inr old"
  shows "\<exists>stats db' loaded. apply_snapshot NoFault ws db = (Inr stats, db') \<and> load db' = Inr loaded
     \<and> filter (\<lambda>w. ws_window_id w \<in> ws_window_id ` set ws) loaded = map persisted ws
     \<and> filter (\<lambda>w. ws_window_id w \<notin> ws_window_id ` set ws) loaded
         = filter (\<lambda>w. ws_window_id w \<notin> ws_window_id ` set ws \<union> db_owned db) old"
  by (rule load_snapshot_parts [OF assms]) blast

definition sample_content :: tab_content where
  "sample_content = ContentRope [lit ''let x'', lit '' = 1'']"

definition sample_snapshot :: windows_state where
  "sample_snapshot =
     [\<lparr>ws_window_id = 7,
       ws_tabs = [\<lparr>ts_tab_id = 3, ts_title = lit ''a.rs'', ts_file_path = Some (lit ''/a.rs''),
                   ts_content = Some sample_content, ts_last_saved = None, ts_remote = None,
                   ts_log_view = False, ts_color_tag = Some ''red''\<rparr>],
       ws_active_tab_index = Some 0, ws_bounds = default_window_bounds\<rparr>]"

definition sample_window_row :: "int \<Rightarrow> int \<Rightarrow> window_row" where
  "sample_window_row i pos = \<lparr>wr_id = i, wr_stored = desired_window default_window_bounds pos None\<rparr>"

text \<open>A database with a window of this process (5, closed since) and one of another process (6).\<close>

definition sample_db :: state_db where
  "sample_db =
     \<lparr>db_tables = \<lparr>tb_windows = [sample_window_row 5 0, sample_window_row 6 1], tb_tabs = []\<rparr>,
      db_path = Some (lit ''state.db''), db_owned = {5}\<rparr>"

lemma sample_fits:
  "window_exact (hd sample_snapshot)"
  by (simp add: sample_snapshot_def window_exact_def window_fits_def tab_fits_def i64_max_def sample_content_def
        fingerprint_to_text content_fingerprint_from_str_def is_scalar_def len_utf8_def
        bounds_exact_def desired_window_def default_window_bounds_def f32_exact_def f32_nan_def f32_magnitude_def)

lemma sample_row_facts:
  "wr_id (sample_window_row i p) = i" "bounds_exact (wr_stored (sample_window_row i p))"
  by (simp_all add: sample_window_row_def bounds_exact_def desired_window_def default_window_bounds_def
        f32_exact_def f32_nan_def f32_magnitude_def)

lemma sample_snapshot_ok: "snapshot_ok sample_db sample_snapshot"
proof -
  have one: "set sample_snapshot = {hd sample_snapshot}" "length sample_snapshot = 1"
    by (simp_all add: sample_snapshot_def)
  have "distinct (map ws_window_id sample_snapshot)" by (simp add: sample_snapshot_def)
  then show ?thesis
    using sample_fits sample_row_facts
    by (simp add: snapshot_ok_def one tables_wf_def windows_ok_def tab_rows_ok_def collision_free_def
          sample_db_def i64_max_def)
qed

lemma sample_load:
  "load sample_db = Inr
     [\<lparr>ws_window_id = 5, ws_tabs = [], ws_active_tab_index = None, ws_bounds = default_window_bounds\<rparr>,
      \<lparr>ws_window_id = 6, ws_tabs = [], ws_active_tab_index = None, ws_bounds = default_window_bounds\<rparr>]"
  by (simp add: load_def sample_db_def load_window_def load_tabs_def sample_window_row_def desired_window_def
        window_bounds_from_row_def default_window_bounds_def Let_def less_prod_def)

lemma saved_session_loads_back_witness:
  "\<exists>stats db' loaded. apply_snapshot NoFault sample_snapshot sample_db = (Inr stats, db') \<and> load db' = Inr loaded
     \<and> filter (\<lambda>w. ws_window_id w = 7) loaded = map persisted sample_snapshot
     \<and> map ws_window_id (filter (\<lambda>w. ws_window_id w \<noteq> 7) loaded) = [6]"
proof -
  have ids: "ws_window_id ` set sample_snapshot = {7}" by (simp add: sample_snapshot_def)
  have own: "db_owned sample_db = {5}" by (simp add: sample_db_def)
  show ?thesis
    using saved_session_loads_back [OF sample_snapshot_ok sample_load]
    unfolding ids own by auto
qed

text \<open>Saving an unchanged session again writes nothing: no window, tab or content row is counted as
  written or deleted, and the database stays as it is.\<close>

theorem resave_writes_nothing:
  assumes "snapshot_ok db ws" and "apply_snapshot NoFault ws db = (Inr stats, db')"
  shows "apply_snapshot NoFault ws db' = (Inr no_stats, db') \<and> stats_is_empty no_stats"
  using resave_same [OF assms] by (simp add: stats_is_empty_def)

lemma resave_writes_nothing_witness:
  "\<exists>stats db'. apply_snapshot NoFault sample_snapshot sample_db = (Inr stats, db')
     \<and> apply_snapshot NoFault sample_snapshot db' = (Inr no_stats, db')"
proof -
  obtain stats db' where app: "apply_snapshot NoFault sample_snapshot sample_db = (Inr stats, db')"
    by (rule load_snapshot_parts [OF sample_snapshot_ok sample_load])
  show ?thesis using app resave_writes_nothing [OF sample_snapshot_ok app] by blast
qed

text \<open>The identities handed to windows one after the other increase strictly and exceed every
  earlier one, even when the clock stands still, goes back or fails, until the counter comes within
  that many steps of the largest 64-bit integer.\<close>

theorem window_identities_increase:
  assumes "sint last_id + int (length ws) \<le> i64_max"
    and "\<And>i. clock_nanos (clock i) + int (length ws) \<le> i64_max"
  shows "sorted_wrt (<) (map ws_window_id (fst (assign_missing_identity clock k last_id ws)))
       \<and> (\<forall>w \<in> set (fst (assign_missing_identity clock k last_id ws)). sint last_id < ws_window_id w)"
proof (cases "assign_missing_identity clock k last_id ws")
  case (Pair ws' last')
  show ?thesis using assigned_ids_increase [OF assms(1) _ Pair] assms(2) by (simp add: Pair)
qed

lemma window_identities_increase_witness:
  "sorted_wrt (<) (map ws_window_id
     (fst (assign_missing_identity (\<lambda>i. if i = 0 then Some 100 else Some 40) 0 5 (sample_snapshot @ sample_snapshot))))"
  using window_identities_increase [of 5 "sample_snapshot @ sample_snapshot" "\<lambda>i. if i = 0 then Some 100 else Some 40" 0]
  by (simp add: sample_snapshot_def clock_nanos_def i64_max_def)



end
