(* ===== verification/Encoding.thy ===== *)
theory Encoding
  imports Utf8 Editor_Tab
begin

text \<open>
  \<^verbatim>\<open>src/fulgur/files/file_operations/encoding.rs\<close>: detecting the encoding of the bytes of a file and encoding
  a buffer for saving. The detector (\<^verbatim>\<open>chardetng\<close>) and the codecs (\<^verbatim>\<open>encoding_rs\<close>) are the record \<open>codecs\<close>,
  an encoding being an identity; \<open>cd_decode\<close> also returns the encoding a byte order mark selected.
  The first part shows that the UTF-8 decoder of \<open>Utf8\<close> loses nothing.
\<close>

section \<open>Encoding what was decoded\<close>

lemma two_digits:
  assumes "(z::nat) < 64"
  shows "(y * 64 + z) div 64 = y" "(y * 64 + z) mod 64 = z"
  using assms by simp_all

lemma three_digits:
  assumes "(y::nat) < 64" "z < 64"
  shows "(x * 4096 + y * 64 + z) div 4096 = x" "(x * 4096 + y * 64 + z) div 64 mod 64 = y"
    "(x * 4096 + y * 64 + z) mod 64 = z"
proof -
  have e: "x * 4096 + y * 64 + z = (x * 64 + y) * 64 + z" by simp
  have "(x * 4096 + y * 64 + z) div 4096 = (x * 4096 + y * 64 + z) div 64 div 64"
    by (simp only: div_mult2_eq [symmetric]) simp
  then show "(x * 4096 + y * 64 + z) div 4096 = x"
    unfolding e by (simp only: two_digits [OF assms(2)] two_digits [OF assms(1)])
  show "(x * 4096 + y * 64 + z) div 64 mod 64 = y" "(x * 4096 + y * 64 + z) mod 64 = z"
    unfolding e by (simp_all only: two_digits [OF assms(2)] two_digits [OF assms(1)])
qed

lemma decode_two_units:
  assumes "194 \<le> b0" "b0 < 224" "128 \<le> b1" "b1 < 192"
  shows "code_units ((b0 - 192) * 64 + (b1 - 128)) = [b0, b1]"
    and "is_scalar ((b0 - 192) * 64 + (b1 - 128))"
proof -
  define c where "c = (b0 - 192) * 64 + (b1 - 128)"
  have "c div 64 = b0 - 192" "c mod 64 = b1 - 128"
    unfolding c_def using two_digits [of "b1 - 128" "b0 - 192"] assms by simp_all
  moreover have "128 \<le> c" "c < 2048" using assms by (auto simp: c_def)
  ultimately show "code_units ((b0 - 192) * 64 + (b1 - 128)) = [b0, b1]"
    "is_scalar ((b0 - 192) * 64 + (b1 - 128))"
    unfolding c_def [symmetric] using assms by (simp_all add: code_units_def is_scalar_def)
qed

lemma second_ok_cont: "second_ok b0 b1 \<Longrightarrow> 128 \<le> b1 \<and> b1 < 192"
  by (auto simp: second_ok_def is_cont_def split: if_splits)

lemma decode_three_units:
  assumes "224 \<le> b0" "b0 < 240" "second_ok b0 b1" "is_cont b2"
  shows "code_units ((b0 - 224) * 4096 + (b1 - 128) * 64 + (b2 - 128)) = [b0, b1, b2]"
    and "is_scalar ((b0 - 224) * 4096 + (b1 - 128) * 64 + (b2 - 128))"
proof -
  define x y z where "x = b0 - 224" and "y = b1 - 128" and "z = b2 - 128"
  define c where "c = x * 4096 + y * 64 + z"
  have b: "b0 = 224 + x" "b1 = 128 + y" "b2 = 128 + z" and r: "x < 16" "y < 64" "z < 64"
    using assms(1,2,4) second_ok_cont [OF assms(3)] by (auto simp: x_def y_def z_def is_cont_def)
  have ov: "x = 0 \<Longrightarrow> 32 \<le> y" and su: "x = 13 \<Longrightarrow> y < 32" using assms(3) by (auto simp: b second_ok_def)
  have "2048 \<le> c" using ov by (cases "x = 0") (auto simp: c_def)
  moreover have "c < 65536" using r by (simp add: c_def)
  moreover have "c < 55296 \<or> 57344 \<le> c"
  proof (cases "x \<le> 13")
    case True
    then show ?thesis using su r by (cases "x = 13") (auto simp: c_def)
  qed (auto simp: c_def)
  ultimately show "code_units ((b0 - 224) * 4096 + (b1 - 128) * 64 + (b2 - 128)) = [b0, b1, b2]"
    "is_scalar ((b0 - 224) * 4096 + (b1 - 128) * 64 + (b2 - 128))"
    using three_digits [OF r(2,3), of x]
    unfolding x_def [symmetric] y_def [symmetric] z_def [symmetric] c_def [symmetric]
    by (simp_all add: code_units_def is_scalar_def b)
qed

lemma decode_four_units:
  assumes "240 \<le> b0" "b0 < 245" "second_ok b0 b1" "is_cont b2" "is_cont b3"
  shows "code_units ((b0 - 240) * 262144 + (b1 - 128) * 4096 + (b2 - 128) * 64 + (b3 - 128)) = [b0, b1, b2, b3]"
    and "is_scalar ((b0 - 240) * 262144 + (b1 - 128) * 4096 + (b2 - 128) * 64 + (b3 - 128))"
proof -
  define w x y z where "w = b0 - 240" and "x = b1 - 128" and "y = b2 - 128" and "z = b3 - 128"
  define c where "c = w * 262144 + x * 4096 + y * 64 + z"
  have b: "b0 = 240 + w" "b1 = 128 + x" "b2 = 128 + y" "b3 = 128 + z"
    and r: "w < 5" "x < 64" "y < 64" "z < 64"
    using assms(1,2,4,5) second_ok_cont [OF assms(3)] by (auto simp: w_def x_def y_def z_def is_cont_def)
  have ov: "w = 0 \<Longrightarrow> 16 \<le> x" and hi: "w = 4 \<Longrightarrow> x < 16" using assms(3) by (auto simp: b second_ok_def)
  have e: "c = (w * 64 + x) * 4096 + y * 64 + z" by (simp add: c_def)
  have d: "c div 4096 = w * 64 + x" "c div 64 mod 64 = y" "c mod 64 = z"
    unfolding e by (simp_all only: three_digits [OF r(3,4)])
  have "c div 262144 = c div 4096 div 64" by (simp only: div_mult2_eq [symmetric]) simp
  then have "c div 262144 = w" "c div 4096 mod 64 = x" by (simp_all only: d two_digits [OF r(2)])
  moreover have "65536 \<le> c" using ov by (cases "w = 0") (auto simp: c_def)
  moreover have "c < 1114112" using hi r by (cases "w = 4") (auto simp: c_def)
  ultimately show "code_units ((b0 - 240) * 262144 + (b1 - 128) * 4096 + (b2 - 128) * 64 + (b3 - 128)) = [b0, b1, b2, b3]"
    "is_scalar ((b0 - 240) * 262144 + (b1 - 128) * 4096 + (b2 - 128) * 64 + (b3 - 128))"
    using d(2,3)
    unfolding w_def [symmetric] x_def [symmetric] y_def [symmetric] z_def [symmetric] c_def [symmetric]
    by (simp_all add: code_units_def is_scalar_def b)
qed

lemma byte_at_lt: "byte_at bs i \<noteq> 0 \<Longrightarrow> i < length bs \<and> byte_at bs i = bs ! i"
  by (simp add: byte_at_def split: if_splits)

lemma take_Suc_byte: "n < length bs \<Longrightarrow> take (Suc n) bs = take n bs @ [byte_at bs n]"
  by (simp add: take_Suc_conv_app_nth byte_at_def)

lemma take_bytes:
  "1 \<le> length bs \<Longrightarrow> take 1 bs = [byte_at bs 0]"
  "2 \<le> length bs \<Longrightarrow> take 2 bs = [byte_at bs 0, byte_at bs 1]"
  "3 \<le> length bs \<Longrightarrow> take 3 bs = [byte_at bs 0, byte_at bs 1, byte_at bs 2]"
  "4 \<le> length bs \<Longrightarrow> take 4 bs = [byte_at bs 0, byte_at bs 1, byte_at bs 2, byte_at bs 3]"
  by (simp_all add: numeral_eq_Suc take_Suc_byte Suc_le_eq del: length_greater_0_conv)

lemma decode_step_units:
  assumes "bs \<noteq> []" and "decode_step bs = Inr (c, n)"
  shows "take n bs = code_units c \<and> is_scalar c"
proof -
  let ?b = "byte_at bs"
  have cont: "is_cont (?b i) \<Longrightarrow> i < length bs" for i
    using byte_at_lt [of bs i] by (auto simp: is_cont_def)
  have w: "seq_width (?b 0) = 1 \<Longrightarrow> ?b 0 < 128" "seq_width (?b 0) = 2 \<Longrightarrow> 194 \<le> ?b 0 \<and> ?b 0 < 224"
    "seq_width (?b 0) = 3 \<Longrightarrow> 224 \<le> ?b 0 \<and> ?b 0 < 240" "seq_width (?b 0) = 4 \<Longrightarrow> 240 \<le> ?b 0 \<and> ?b 0 < 245"
    by (auto simp: seq_width_def split: if_splits)
  consider
      (1) "seq_width (?b 0) = 1" "c = ?b 0" "n = 1"
    | (2) "seq_width (?b 0) = 2" "is_cont (?b 1)" "c = (?b 0 - 192) * 64 + (?b 1 - 128)" "n = 2"
    | (3) "seq_width (?b 0) = 3" "second_ok (?b 0) (?b 1)" "is_cont (?b 2)"
        "c = (?b 0 - 224) * 4096 + (?b 1 - 128) * 64 + (?b 2 - 128)" "n = 3"
    | (4) "seq_width (?b 0) = 4" "second_ok (?b 0) (?b 1)" "is_cont (?b 2)" "is_cont (?b 3)"
        "c = (?b 0 - 240) * 262144 + (?b 1 - 128) * 4096 + (?b 2 - 128) * 64 + (?b 3 - 128)" "n = 4"
    using assms(2) by (auto simp: decode_step_def Let_def split: if_splits)
  then show ?thesis
  proof cases
    case 1
    then show ?thesis using assms(1) w(1) take_bytes(1) [of bs]
      by (cases bs) (simp_all add: code_units_def is_scalar_def)
  next
    case 2
    then have l: "2 \<le> length bs" using cont [of 1] by simp
    show ?thesis unfolding 2(3,4) take_bytes(2) [OF l]
      using decode_two_units [of "?b 0" "?b 1"] w(2) 2(1,2) by (simp add: is_cont_def)
  next
    case 3
    then have l: "3 \<le> length bs" using cont [of 2] by simp
    show ?thesis unfolding 3(4,5) take_bytes(3) [OF l]
      using decode_three_units [OF _ _ 3(2,3)] w(3) 3(1) by simp
  next
    case 4
    then have l: "4 \<le> length bs" using cont [of 3] by simp
    show ?thesis unfolding 4(5,6) take_bytes(4) [OF l]
      using decode_four_units [OF _ _ 4(2,3,4)] w(4) 4(1) by simp
  qed
qed

lemma decode_chunks_units:
  "\<forall>x \<in> set (decode_chunks bs). x \<noteq> Inl ()
     \<Longrightarrow> concat (map (\<lambda>x. code_units (projr x)) (decode_chunks bs)) = bs
       \<and> (\<forall>x \<in> set (decode_chunks bs). is_scalar (projr x))"
proof (induction bs rule: decode_chunks.induct)
  case (1 bs)
  show ?case
  proof (cases "bs = []")
    case False
    have unfolded: "decode_chunks bs = (case decode_step bs of Inl n \<Rightarrow> Inl () | Inr (c, n) \<Rightarrow> Inr c)
             # decode_chunks (drop (step_len (decode_step bs)) bs)"
      using False by (subst decode_chunks.simps) simp
    obtain c n where st: "decode_step bs = Inr (c, n)"
      using "1.prems" unfolded by (cases "decode_step bs") auto
    have eq: "decode_chunks bs = Inr c # decode_chunks (drop n bs)" using unfolded by (simp add: st step_len_def)
    have "concat (map (\<lambda>x. code_units (projr x)) (decode_chunks (drop n bs))) = drop n bs
        \<and> (\<forall>x \<in> set (decode_chunks (drop n bs)). is_scalar (projr x))"
      using "1.IH" [OF False] "1.prems" by (simp add: eq st step_len_def)
    then show ?thesis using decode_step_units [OF False st] append_take_drop_id [of n bs] by (simp add: eq)
  qed (simp add: decode_chunks.simps)
qed

text \<open>\<open>String::from_utf8\<close> accepts only encodings of strings.\<close>

lemma from_utf8_Some:
  assumes "from_utf8 bs = Some s"
  shows "utf8 s = bs"
proof -
  let ?cs = "decode_chunks (map unat bs)"
  have valid: "\<forall>x \<in> set ?cs. x \<noteq> Inl ()" and s: "s = map projr ?cs"
    using assms by (auto simp: from_utf8_def Let_def split: if_splits)
  note units = decode_chunks_units [OF valid]
  have "\<forall>c \<in> set s. is_scalar c" using units by (simp add: s)
  then have "map unat (utf8 s) = map unat bs"
    using units by (simp add: map_unat_utf8 s comp_def)
  then show ?thesis by (metis inj_map_eq_map inj_on_def word_unat_eq_iff)
qed

section \<open>Detection and encoding\<close>

record codecs =
  cd_guess :: "u8 list \<Rightarrow> nat"
  cd_decode :: "nat \<Rightarrow> u8 list \<Rightarrow> rstr \<times> nat \<times> bool"
  cd_name :: "nat \<Rightarrow> rstr"
  cd_for_label :: "rstr \<Rightarrow> nat option"
  cd_encode :: "nat \<Rightarrow> rstr \<Rightarrow> u8 list \<times> nat \<times> bool"
  cd_UTF_16LE :: nat
  cd_UTF_16BE :: nat
  cd_REPLACEMENT :: nat

definition BINARY_SNIFF_LEN :: nat where "BINARY_SNIFF_LEN = 8000"

record decoded_contents =
  dc_encoding :: rstr
  dc_content :: rstr
  dc_lossy :: bool
  dc_byte_len :: nat

datatype encoded_contents = Encoded "u8 list" | EncodedLossy

definition detect_encoding_and_decode :: "codecs \<Rightarrow> u8 list \<Rightarrow> decoded_contents" where
  "detect_encoding_and_decode cd bytes =
     (let byte_len = length bytes in
      (case from_utf8 bytes of
         Some content \<Rightarrow>
           \<lparr>dc_encoding = UTF_8, dc_content = content, dc_lossy = False, dc_byte_len = byte_len\<rparr>
       | None \<Rightarrow>
           let encoding = cd_guess cd bytes;
               (decoded, _, had_errors) = cd_decode cd encoding bytes
           in
           if had_errors
           then \<lparr>dc_encoding = UTF_8, dc_content = from_utf8_lossy bytes, dc_lossy = True, dc_byte_len = byte_len\<rparr>
           else \<lparr>dc_encoding = cd_name cd encoding, dc_content = decoded, dc_lossy = False, dc_byte_len = byte_len\<rparr>))"

definition encode_for_save :: "codecs \<Rightarrow> rstr \<Rightarrow> rstr \<Rightarrow> encoded_contents" where
  "encode_for_save cd contents label =
     (if map ascii_lower label = map ascii_lower UTF_8 then Encoded (utf8 contents)
      else (case cd_for_label cd label of
              None \<Rightarrow> Encoded (utf8 contents)
            | Some encoding \<Rightarrow>
                if encoding = cd_UTF_16LE cd \<or> encoding = cd_UTF_16BE cd \<or> encoding = cd_REPLACEMENT cd
                then Encoded (utf8 contents)
                else let (encoded, _, had_unmappable) = cd_encode cd encoding contents in
                     if had_unmappable then EncodedLossy else Encoded encoded))"

definition looks_binary :: "u8 list \<Rightarrow> bool" where
  "looks_binary bytes \<longleftrightarrow> 0 \<in> set (take (min (length bytes) BINARY_SNIFF_LEN) bytes)"

section \<open>Properties\<close>

text \<open>A file of valid UTF-8 is read without loss, is recorded as UTF-8, and saving the unchanged
  buffer writes the bytes of the file back, whatever the other codecs do.\<close>

theorem utf8_file_roundtrip:
  assumes "from_utf8 bytes = Some content"
  shows "dc_lossy (detect_encoding_and_decode cd bytes) = False
       \<and> encode_for_save cd (dc_content (detect_encoding_and_decode cd bytes))
           (dc_encoding (detect_encoding_and_decode cd bytes)) = Encoded bytes"
  using assms from_utf8_Some [OF assms]
  by (simp add: detect_encoding_and_decode_def encode_for_save_def Let_def)

lemma from_utf8_sample: "from_utf8 [104, 195, 169, 10] = Some [104, 233, 10]"
  by (simp add: from_utf8_def decode_chunks.simps decode_step_def Let_def byte_at_def seq_width_def
        is_cont_def step_len_def)

lemma utf8_file_roundtrip_witness:
  "\<forall>cd. encode_for_save cd (dc_content (detect_encoding_and_decode cd [104, 195, 169, 10]))
     (dc_encoding (detect_encoding_and_decode cd [104, 195, 169, 10])) = Encoded [104, 195, 169, 10]"
  using utf8_file_roundtrip [OF from_utf8_sample] by blast

text \<open>The second component of \<open>cd_decode\<close>, the encoding a byte order mark selects, is dropped: a file in
  UTF-16 that the detector takes for another encoding is decoded as UTF-16 and recorded under the
  detector's name, so that saving it writes another encoding.\<close>

lemma bom_encoding_is_forgotten:
  assumes "from_utf8 bytes = None" and "cd_decode cd (cd_guess cd bytes) bytes = (content, cd_UTF_16LE cd, False)"
  shows "dc_encoding (detect_encoding_and_decode cd bytes) = cd_name cd (cd_guess cd bytes)"
    and "dc_content (detect_encoding_and_decode cd bytes) = content"
  using assms by (simp_all add: detect_encoding_and_decode_def Let_def)

end
