(* ===== verification/Session.thy ===== *)
theory Session
  imports Tabs Session_Roundtrip Encoding
begin

text \<open>
  Saving and restoring the tabs of a window: \<^verbatim>\<open>src/fulgur/state/operations/\<close>. Saving maps the editors of a window
  to persisted tabs, restoring decides for every persisted tab between the disk and the saved text.
  The disk is the record \<open>disk\<close>: existence, modification time (formatted), and reading (\<open>None\<close> when the
  file cannot be opened, \<open>Some None\<close> when it opens and reading fails). The reading of an RFC 3339 time is
  \<open>se_parse_time\<close>, the editor component's default for folding is \<open>se_default_folding\<close>.
\<close>

record disk =
  dk_exists :: "rstr \<Rightarrow> bool"
  dk_mtime :: "rstr \<Rightarrow> rstr option"
  dk_open :: "rstr \<Rightarrow> u8 list option option"

record session_env =
  se_app :: app_env
  se_codecs :: codecs
  se_parse_time :: "rstr \<Rightarrow> int option"
  se_now :: nat
  se_default_folding :: bool

record session_window =
  sn_app :: fulgur
  sn_persistent_id :: int
  sn_cached_bounds :: "window_bounds option"
  sn_persist_unsaved :: bool

section \<open>Saving\<close>

definition keep_content :: "bool \<Rightarrow> editor_tab \<Rightarrow> bool" where
  "keep_content persist_unsaved e \<longleftrightarrow>
     persist_unsaved \<and> content_differs_from_original e \<and> \<not> content_too_large_to_persist e"

definition tab_state_base :: "editor_tab \<Rightarrow> tab_state" where
  "tab_state_base e =
     \<lparr>ts_tab_id = et_id e, ts_title = et_title e, ts_file_path = None, ts_content = None,
      ts_last_saved = None, ts_remote = None, ts_log_view = et_log_view e,
      ts_color_tag = map_option color_key (et_color_tag e)\<rparr>"

definition rope_content :: "editor_tab \<Rightarrow> tab_content" where
  "rope_content e = ContentRope [es_text (et_content e)]"

definition tab_state_of_editor :: "disk \<Rightarrow> bool \<Rightarrow> editor_tab \<Rightarrow> tab_state option" where
  "tab_state_of_editor dk persist_unsaved e =
     (case et_location e of
        LocLocal path \<Rightarrow>
          if keep_content persist_unsaved e
          then Some ((tab_state_base e)\<lparr>ts_file_path := Some path, ts_content := Some (rope_content e),
                                       ts_last_saved := dk_mtime dk path\<rparr>)
          else Some ((tab_state_base e)\<lparr>ts_file_path := Some path\<rparr>)
      | LocRemote spec \<Rightarrow>
          Some ((tab_state_base e)
            \<lparr>ts_content := (if keep_content persist_unsaved e then Some (rope_content e) else None),
             ts_remote := Some (from_remote_spec spec)\<rparr>)
      | LocUntitled \<Rightarrow>
          if \<not> persist_unsaved then None
          else if content_too_large_to_persist e then None
          else if content_is_empty (rope_content e) \<and> starts_with UNTITLED (et_title e) then None
          else Some ((tab_state_base e)\<lparr>ts_content := Some (rope_content e)\<rparr>))"

definition build_tab_states :: "disk \<Rightarrow> session_window \<Rightarrow> tab_state list" where
  "build_tab_states dk w =
     List.map_filter (\<lambda>t. Option.bind (as_editor t) (tab_state_of_editor dk (sn_persist_unsaved w)))
       (fg_tabs (sn_app w))"

fun editor_index :: "nat \<Rightarrow> nat \<Rightarrow> tab list \<Rightarrow> nat option" where
  "editor_index target i [] = None"
| "editor_index target i (t # ts) =
     (case t of
        TabEditor e \<Rightarrow> if et_id e = target then Some i else editor_index target (i + 1) ts
      | _ \<Rightarrow> editor_index target i ts)"

definition active_editor_index_for_state :: "fulgur \<Rightarrow> nat option" where
  "active_editor_index_for_state st =
     Option.bind (active_tab_index st) (\<lambda>active.
     Option.bind (nth_opt (fg_tabs st) active) (\<lambda>t.
       case t of
         TabEditor e \<Rightarrow> editor_index (et_id e) 0 (fg_tabs st)
       | TabPreview p \<Rightarrow> editor_index (mp_source_tab_id p) 0 (fg_tabs st)
       | TabSettings s \<Rightarrow> None))"

definition build_window_state_without_bounds :: "disk \<Rightarrow> session_window \<Rightarrow> window_state" where
  "build_window_state_without_bounds dk w =
     \<lparr>ws_window_id = sn_persistent_id w, ws_tabs = build_tab_states dk w,
      ws_active_tab_index = active_editor_index_for_state (sn_app w),
      ws_bounds = (case sn_cached_bounds w of Some b \<Rightarrow> b | None \<Rightarrow> default_window_bounds)\<rparr>"

text \<open>\<open>display\<close> is the identity of the display of the window, if any.\<close>

definition build_window_state :: "disk \<Rightarrow> gpui_bounds \<Rightarrow> nat option \<Rightarrow> session_window \<Rightarrow> window_state" where
  "build_window_state dk bounds display w =
     (let display_id = Option.bind display (\<lambda>d. if d \<le> u32_max then Some d else None) in
      \<lparr>ws_window_id = sn_persistent_id w, ws_tabs = build_tab_states dk w,
       ws_active_tab_index = active_editor_index_for_state (sn_app w),
       ws_bounds = from_gpui_bounds bounds display_id\<rparr>)"

text \<open>The windows of the process in the order of the window manager; \<open>None\<close> is one that is gone.\<close>

definition build_windows_state ::
  "disk \<Rightarrow> gpui_bounds \<Rightarrow> nat option \<Rightarrow> nat \<Rightarrow> (nat \<times> session_window option) list \<Rightarrow> windows_state" where
  "build_windows_state dk bounds display current windows =
     List.map_filter
       (\<lambda>(i, w). if i = current then map_option (build_window_state dk bounds display) w
                 else map_option (build_window_state_without_bounds dk) w) windows"

section \<open>The decision\<close>

definition is_file_newer :: "(rstr \<Rightarrow> int option) \<Rightarrow> rstr \<Rightarrow> rstr \<Rightarrow> bool" where
  "is_file_newer parse file_time saved_time \<longleftrightarrow>
     (case (parse file_time, parse saved_time) of
        (Some file, Some saved) \<Rightarrow> file > saved
      | _ \<Rightarrow> False)"

datatype tab_restore_decision =
    RestoreRemote serialized_remote_spec "rstr option"
  | LoadFromFile rstr
  | UseSavedContentWithPath rstr rstr
  | UseSavedContentNoPath rstr
  | SkipTab

fun determine_tab_restore_strategy ::
  "(rstr \<Rightarrow> int option) \<Rightarrow> rstr option \<Rightarrow> serialized_remote_spec option \<Rightarrow> rstr option \<Rightarrow> rstr option
     \<Rightarrow> bool \<Rightarrow> rstr option \<Rightarrow> bool \<Rightarrow> tab_restore_decision" where
  "determine_tab_restore_strategy parse saved_path (Some remote) saved_content last_saved file_exists file_modified_time can_read_file =
     RestoreRemote remote saved_content"
| "determine_tab_restore_strategy parse (Some path) None (Some content) last_saved file_exists file_modified_time can_read_file =
     (if file_exists then
        (case (last_saved, file_modified_time) of
           (Some saved_time, Some file_time) \<Rightarrow>
             if is_file_newer parse file_time saved_time then
               if can_read_file then LoadFromFile path else UseSavedContentWithPath path content
             else UseSavedContentWithPath path content
         | _ \<Rightarrow> UseSavedContentWithPath path content)
      else UseSavedContentNoPath content)"
| "determine_tab_restore_strategy parse (Some path) None None last_saved file_exists file_modified_time can_read_file =
     (if file_exists \<and> can_read_file then LoadFromFile path else SkipTab)"
| "determine_tab_restore_strategy parse None None (Some content) last_saved file_exists file_modified_time can_read_file =
     UseSavedContentNoPath content"
| "determine_tab_restore_strategy parse None None None last_saved file_exists file_modified_time can_read_file = SkipTab"

section \<open>Restoring\<close>

definition opens_as_log_by_default :: "rstr \<Rightarrow> bool" where
  "opens_as_log_by_default path \<longleftrightarrow> map_option (map ascii_lower) (path_extension path) = Some (lit ''log'')"

text \<open>The editor made for a text without a file.\<close>

definition restored_untitled :: "session_env \<Rightarrow> nat \<Rightarrow> nat \<Rightarrow> rstr \<Rightarrow> rstr \<Rightarrow> editor_settings \<Rightarrow> editor_tab" where
  "restored_untitled env fresh i title content settings =
     (let le = ae_langs (se_app env);
          language = detect_language le title content;
          large_file = is_large_file (blen content);
          language_name = registry_name le (if large_file then L_Plain else language);
          (mode, delimiter) = initial_csv_state language content
      in
      \<lparr>et_id = i, et_title = title,
       et_content =
         \<lparr>es_id = fresh, es_text = content, es_cursor = (0, 0), es_language = language_name,
          es_line_number = st_show_line_numbers settings, es_indent_guides = st_show_indent_guides settings,
          es_tab_size = st_tab_size settings, es_hard_tabs = False,
          es_soft_wrap = (st_soft_wrap settings \<and> \<not> large_file), es_folding = se_default_folding env,
          es_show_whitespaces = st_show_whitespaces settings, es_color_provider = False\<rparr>,
       et_location = LocUntitled, et_modified = True,
       et_original_content_hash = fst (content_fingerprint_from_str []), et_original_content_len = 0,
       et_encoding = UTF_8, et_lossy_decode = False, et_language = language,
       et_show_markdown_toolbar = st_show_markdown_toolbar settings,
       et_show_markdown_preview = st_show_markdown_preview settings,
       et_file_size_bytes = None, et_file_last_modified = None, et_large_file = large_file,
       et_csv_view_mode = mode, et_csv_delimiter = delimiter, et_csv_table = None,
       et_csv_table_source_hash = 0, et_color_tag = None, et_log_view = False,
       et_log_follow = True, et_log_full = False, et_log_content = None,
       et_content_subscription = None\<rparr>)"

definition restored_remote :: "session_env \<Rightarrow> nat \<Rightarrow> nat \<Rightarrow> serialized_remote_spec \<Rightarrow> rstr option \<Rightarrow> editor_settings \<Rightarrow> editor_tab" where
  "restored_remote env fresh i remote content settings =
     (let restored_content = (case content of Some c \<Rightarrow> c | None \<Rightarrow> []) in
      (editor_tab_from_remote_loaded (ae_langs (se_app env)) fresh (se_now env) i
         \<lparr>rr_spec = to_remote_spec remote, rr_content = restored_content, rr_encoding = UTF_8,
          rr_lossy = False, rr_file_size = blen restored_content\<rparr> settings)
        \<lparr>et_modified := content \<noteq> None\<rparr>)"

text \<open>What the decision gives: the text, the path, the encoding, whether it is modified, whether it was decoded lossily.\<close>

definition restored_source ::
  "session_env \<Rightarrow> u8 list option option \<Rightarrow> tab_restore_decision \<Rightarrow> (rstr \<times> rstr option \<times> rstr \<times> bool \<times> bool) option" where
  "restored_source env readable_file decision =
     (case decision of
        RestoreRemote remote content \<Rightarrow> None
      | LoadFromFile path \<Rightarrow>
          Option.bind readable_file (\<lambda>file. Option.bind file (\<lambda>bytes.
            let decoded = detect_encoding_and_decode (se_codecs env) bytes in
            Some (dc_content decoded, Some path, dc_encoding decoded, False, dc_lossy decoded)))
      | UseSavedContentWithPath path content \<Rightarrow> Some (content, Some path, UTF_8, True, False)
      | UseSavedContentNoPath content \<Rightarrow> Some (content, None, UTF_8, True, False)
      | SkipTab \<Rightarrow> None)"

definition restored_editor ::
  "session_env \<Rightarrow> nat \<Rightarrow> nat \<Rightarrow> tab_state \<Rightarrow> rstr \<times> rstr option \<times> rstr \<times> bool \<times> bool \<Rightarrow> editor_settings \<Rightarrow> editor_tab" where
  "restored_editor env fresh i ts source settings =
     (case source of (content, path, encoding, is_modified, lossy_decode) \<Rightarrow>
        (case path of
           Some p \<Rightarrow>
             (editor_tab_from_file (ae_langs (se_app env)) fresh (se_now env)
                \<lparr>fp_id = i, fp_path = p, fp_contents = content, fp_encoding = encoding,
                 fp_is_modified = is_modified\<rparr> settings)\<lparr>et_lossy_decode := lossy_decode\<rparr>
         | None \<Rightarrow> restored_untitled env fresh i (ts_title ts) content settings))"

definition restore_tab_from_state ::
  "session_env \<Rightarrow> disk \<Rightarrow> tab_state \<Rightarrow> nat \<Rightarrow> fulgur \<Rightarrow> editor_tab option \<times> fulgur" where
  "restore_tab_from_state env dk ts i st =
     (let color = Option.bind (ts_color_tag ts) color_from_key;
          file_exists = (case ts_file_path ts of Some p \<Rightarrow> dk_exists dk p | None \<Rightarrow> False);
          file_modified_time = Option.bind (ts_file_path ts) (dk_mtime dk);
          readable_file = Option.bind (ts_file_path ts) (dk_open dk);
          decision = determine_tab_restore_strategy (se_parse_time env) (ts_file_path ts) (ts_remote ts)
            (map_option into_string (ts_content ts)) (ts_last_saved ts) file_exists file_modified_time
            (readable_file \<noteq> None);
          settings = fg_settings st
      in
      (case decision of
         RestoreRemote remote content \<Rightarrow>
           (let (fresh, st1) = take_fresh st;
                t = (restored_remote env fresh i remote content settings)\<lparr>et_color_tag := color\<rparr>
            in (Some t, st1\<lparr>fg_pending_remote_restore := insert i (fg_pending_remote_restore st1)\<rparr>))
       | _ \<Rightarrow>
           (case restored_source env readable_file decision of
              None \<Rightarrow> (None, st)
            | Some source \<Rightarrow>
                (let (fresh, st1) = take_fresh st;
                     t = restored_editor env fresh i ts source settings;
                     opens_as_log = (case file_path t of Some p \<Rightarrow> opens_as_log_by_default p | None \<Rightarrow> False)
                 in (Some (t\<lparr>et_log_view := (et_log_view t \<or> ts_log_view ts \<or> opens_as_log), et_color_tag := color\<rparr>), st1)))))"

fun restore_loop :: "session_env \<Rightarrow> disk \<Rightarrow> tab_state list \<Rightarrow> nat \<Rightarrow> fulgur \<Rightarrow> nat \<times> fulgur" where
  "restore_loop env dk [] highest st = (highest, st)"
| "restore_loop env dk (ts # rest) highest st =
     (case restore_tab_from_state env dk ts (ts_tab_id ts) st of
        (Some e, st1) \<Rightarrow> restore_loop env dk rest (max highest (ts_tab_id ts)) (push_tab (TabEditor e) st1)
      | (None, st1) \<Rightarrow> restore_loop env dk rest highest st1)"

definition saturating_succ :: "nat \<Rightarrow> nat" where
  "saturating_succ n = min (n + 1) u64_max"

definition restore_window :: "session_env \<Rightarrow> disk \<Rightarrow> window_state \<Rightarrow> fulgur \<Rightarrow> fulgur" where
  "restore_window env dk ws st =
     (let st0 = st\<lparr>fg_tabs := [], fg_pending_remote_restore := {}, fg_inflight_remote_restore := {}\<rparr>;
          (highest, st1) = restore_loop env dk (ws_tabs ws) 0 st0;
          saved_active = Option.bind (ws_active_tab_index ws) (\<lambda>i.
            Option.bind (nth_opt (fg_tabs st1) i) (\<lambda>t. map_option et_id (as_editor t)));
          st2 = insert_preview_tabs_for_markdown (st1\<lparr>fg_next_tab_id := saturating_succ highest\<rparr>);
          active = (case saved_active of
                      Some i \<Rightarrow> Some i
                    | None \<Rightarrow> (case fg_tabs st2 of [] \<Rightarrow> None | t # _ \<Rightarrow> Some (tab_id t)));
          st3 = st2\<lparr>fg_active := active\<rparr>;
          st4 = (case Option.bind (active_tab st3) as_editor of
                   None \<Rightarrow> st3
                 | Some e \<Rightarrow> if et_log_view e then emit (ActivateLogView (et_id e)) st3 else st3)
      in emit NotifyView st4)"

definition load_state :: "session_env \<Rightarrow> disk \<Rightarrow> window_state option \<Rightarrow> fulgur \<Rightarrow> fulgur" where
  "load_state env dk window_state st =
     (let original_indent_guides = st_show_indent_guides (fg_settings st);
          st0 = st\<lparr>fg_settings := (fg_settings st)\<lparr>st_show_indent_guides := False\<rparr>\<rparr>;
          st1 = (case window_state of Some ws \<Rightarrow> restore_window env dk ws st0 | None \<Rightarrow> st0);
          st2 = (if fg_tabs st1 = []
                 then let (fresh, s) = take_fresh st1;
                          t = TabEditor (editor_tab_new (ae_langs (se_app env)) fresh 0 UNTITLED (fg_settings s))
                      in (push_tab t (s\<lparr>fg_active := Some (tab_id t)\<rparr>))\<lparr>fg_next_tab_id := 1\<rparr>
                 else st1);
          st3 = st2\<lparr>fg_settings := (fg_settings st2)\<lparr>st_show_indent_guides := original_indent_guides\<rparr>\<rparr>
      in if original_indent_guides then emit (OtherRequest ''apply_editor_settings_to_tabs'') st3 else st3)"

section \<open>A restart\<close>

definition unsaved_work :: "session_window \<Rightarrow> editor_tab \<Rightarrow> bool" where
  "unsaved_work w e \<longleftrightarrow> sn_persist_unsaved w \<and> \<not> content_too_large_to_persist e
     \<and> (if et_location e = LocUntitled
        then \<not> (es_text (et_content e) = [] \<and> starts_with UNTITLED (et_title e))
        else content_differs_from_original e)"

text \<open>The file on disk was changed after the save and can be read: then it wins over the saved text.\<close>

definition disk_overrides :: "session_env \<Rightarrow> disk \<Rightarrow> disk \<Rightarrow> rstr \<Rightarrow> bool" where
  "disk_overrides env saved now p \<longleftrightarrow> dk_exists now p \<and> dk_open now p \<noteq> None
     \<and> (case (dk_mtime saved p, dk_mtime now p) of
          (Some s, Some f) \<Rightarrow> is_file_newer (se_parse_time env) f s
        | _ \<Rightarrow> False)"

definition same_work :: "editor_tab \<Rightarrow> editor_tab \<Rightarrow> bool" where
  "same_work e e' \<longleftrightarrow> et_id e' = et_id e \<and> es_text (et_content e') = es_text (et_content e) \<and> et_modified e'"

lemma saved_content:
  assumes "unsaved_work w e" and "tab_state_of_editor dk (sn_persist_unsaved w) e = Some ts"
  shows "ts_content ts = Some (rope_content e)" and "ts_tab_id ts = et_id e"
  using assms
  by (auto simp: tab_state_of_editor_def unsaved_work_def keep_content_def tab_state_base_def
      split: tab_location.splits if_splits)

lemma saved_some: "unsaved_work w e \<Longrightarrow> \<exists>ts. tab_state_of_editor dk (sn_persist_unsaved w) e = Some ts"
  by (auto simp: tab_state_of_editor_def unsaved_work_def rope_content_def split: tab_location.splits)

lemma make_input_text [simp]: "es_text (make_input_state le fresh n (Some c) s l) = c"
  by (simp add: make_input_state_def)

lemma restored_editor_facts:
  "et_id (restored_editor env fresh i ts (c, p, enc, m, l) s) = i"
  "es_text (et_content (restored_editor env fresh i ts (c, p, enc, m, l) s)) = c"
  "et_modified (restored_editor env fresh i ts (c, Some q, enc, m, l) s) = m"
  "et_modified (restored_editor env fresh i ts (c, None, enc, m, l) s)"
  by (simp_all add: restored_editor_def restored_untitled_def editor_tab_from_file_def Let_def
      split: option.splits prod.splits)

lemma restored_remote_facts:
  "et_id (restored_remote env fresh i r (Some c) s) = i"
  "es_text (et_content (restored_remote env fresh i r (Some c) s)) = c"
  "et_modified (restored_remote env fresh i r (Some c) s)"
  by (simp_all add: restored_remote_def editor_tab_from_remote_loaded_def Let_def split: prod.splits)

text \<open>The decision for a saved text that the disk does not override uses the text.\<close>

lemma decision_uses_text:
  assumes "ts_remote ts = None"
    and "case ts_file_path ts of None \<Rightarrow> True
         | Some p \<Rightarrow> \<not> (dk_exists dk p \<and> dk_open dk p \<noteq> None
             \<and> (case (ts_last_saved ts, dk_mtime dk p) of
                  (Some s, Some f) \<Rightarrow> is_file_newer parse f s | _ \<Rightarrow> False))"
  shows "determine_tab_restore_strategy parse (ts_file_path ts) (ts_remote ts) (Some c) (ts_last_saved ts)
      (case ts_file_path ts of Some p \<Rightarrow> dk_exists dk p | None \<Rightarrow> False)
      (Option.bind (ts_file_path ts) (dk_mtime dk)) (Option.bind (ts_file_path ts) (dk_open dk) \<noteq> None)
    \<in> {UseSavedContentWithPath (the (ts_file_path ts)) c, UseSavedContentNoPath c}"
proof (cases "ts_file_path ts")
  case (Some p)
  then show ?thesis using assms
    by (cases "ts_last_saved ts"; cases "dk_mtime dk p"; cases "dk_exists dk p") auto
qed (simp add: assms(1))

lemma restore_saved_text:
  assumes work: "unsaved_work w e" and saved: "tab_state_of_editor dk0 (sn_persist_unsaved w) e = Some ts0"
    and disk: "\<And>p. et_location e = LocLocal p \<Longrightarrow> \<not> disk_overrides env dk0 dk p"
  shows "\<exists>e' st1. restore_tab_from_state env dk (persisted_tab ts0) (et_id e) st = (Some e', st1)
           \<and> same_work e e'"
proof -
  let ?ts = "persisted_tab ts0"
  let ?c = "es_text (et_content e)"
  have content: "map_option into_string (ts_content ?ts) = Some ?c"
    using saved_content [OF work saved] by (simp add: persisted_tab_def rope_content_def)
  show ?thesis
  proof (cases "et_location e")
    case (LocRemote spec)
    then have "ts_remote ?ts = Some (from_remote_spec spec)"
      using saved by (auto simp: tab_state_of_editor_def persisted_tab_def)
    then show ?thesis
      by (simp add: restore_tab_from_state_def content Let_def same_work_def take_fresh_def restored_remote_facts
          del: map_option_eq_Some)
  next
    case (LocLocal p)
    have path: "ts_file_path ?ts = Some p" "ts_remote ?ts = None" "ts_last_saved ?ts = dk_mtime dk0 p"
      using saved work LocLocal
      by (auto simp: tab_state_of_editor_def tab_state_base_def persisted_tab_def unsaved_work_def keep_content_def)
    have "\<not> disk_overrides env dk0 dk p" using disk LocLocal by simp
    then have "determine_tab_restore_strategy (se_parse_time env) (ts_file_path ?ts) (ts_remote ?ts) (Some ?c) (ts_last_saved ?ts)
      (case ts_file_path ?ts of Some p \<Rightarrow> dk_exists dk p | None \<Rightarrow> False)
      (Option.bind (ts_file_path ?ts) (dk_mtime dk)) (Option.bind (ts_file_path ?ts) (dk_open dk) \<noteq> None)
      \<in> {UseSavedContentWithPath (the (ts_file_path ?ts)) ?c, UseSavedContentNoPath ?c}"
      using path by (intro decision_uses_text) (simp_all add: disk_overrides_def)
    then show ?thesis
      unfolding restore_tab_from_state_def content
      by (auto simp: Let_def restored_source_def same_work_def take_fresh_def restored_editor_facts)
  next
    case LocUntitled
    have "ts_file_path ?ts = None" "ts_remote ?ts = None"
      using saved work LocUntitled
      by (auto simp: tab_state_of_editor_def tab_state_base_def persisted_tab_def split: if_splits)
    then show ?thesis
      by (simp add: restore_tab_from_state_def content Let_def restored_source_def same_work_def take_fresh_def
          restored_editor_facts)
  qed
qed

lemma restore_tab_keeps_tabs: "restore_tab_from_state env dk ts i st = (x, st1) \<Longrightarrow> fg_tabs st1 = fg_tabs st"
  by (auto simp: restore_tab_from_state_def Let_def take_fresh_def
      split: tab_restore_decision.splits option.splits)

lemma restore_loop_keeps: "set (fg_tabs st) \<subseteq> set (fg_tabs (snd (restore_loop env dk tss h st)))"
proof (induction tss arbitrary: h st)
  case (Cons ts tss)
  obtain x st1 where r: "restore_tab_from_state env dk ts (ts_tab_id ts) st = (x, st1)" by (cases "restore_tab_from_state env dk ts (ts_tab_id ts) st")
  then have "fg_tabs st1 = fg_tabs st" by (rule restore_tab_keeps_tabs)
  then show ?case
    using Cons.IH [of st1 h] r Cons.IH [of "push_tab (TabEditor (the x)) st1" "max h (ts_tab_id ts)"]
    by (cases x) (auto simp: push_tab_def)
qed simp

lemma restore_loop_has:
  assumes "ts \<in> set tss"
    and each: "\<And>st. \<exists>e' st1. restore_tab_from_state env dk ts (ts_tab_id ts) st = (Some e', st1) \<and> same_work e e'"
  shows "\<exists>e'. TabEditor e' \<in> set (fg_tabs (snd (restore_loop env dk tss h st))) \<and> same_work e e'"
  using assms(1)
proof (induction tss arbitrary: h st)
  case (Cons t tss)
  show ?case
  proof (cases "ts = t")
    case True
    obtain e' st1 where r: "restore_tab_from_state env dk ts (ts_tab_id ts) st = (Some e', st1)" "same_work e e'"
      using each by blast
    let ?e = "e'\<lparr>et_content_subscription := Some (es_id (et_content e'))\<rparr>"
    have "TabEditor ?e \<in> set (fg_tabs (push_tab (TabEditor e') st1))" by (simp add: push_tab_def)
    then have "TabEditor ?e \<in> set (fg_tabs (snd (restore_loop env dk (t # tss) h st)))"
      using restore_loop_keeps r(1) True by fastforce
    moreover have "same_work e ?e" using r(2) by (simp add: same_work_def)
    ultimately show ?thesis by blast
  next
    case False
    then have "ts \<in> set tss" using Cons.prems by simp
    then show ?thesis
      using Cons.IH by (cases "restore_tab_from_state env dk t (ts_tab_id t) st"; cases "fst (restore_tab_from_state env dk t (ts_tab_id t) st)")
        simp_all
  qed
qed simp

lemma set_list_insert_keeps: "set xs \<subseteq> set (list_insert i x xs)"
  by (simp only: set_list_insert) blast

lemma insert_previews_loop_keeps: "set (fg_tabs st) \<subseteq> set (fg_tabs (insert_previews_loop n i st))"
proof (induction n arbitrary: i st)
  case (Suc n)
  have build: "fg_tabs (snd (build_preview_tab a b c st)) = fg_tabs st" for a b c
    by (simp add: build_preview_tab_def allocate_tab_id_def Let_def split: prod.splits)
  show ?case
  proof (cases "markdown_preview_source_at i st")
    case None
    then show ?thesis using Suc.IH by simp
  next
    case (Some x)
    then obtain a b c where x: "markdown_preview_source_at i st = Some (a, b, c)" by (cases x) auto
    obtain t st1 where b: "build_preview_tab a b c st = (t, st1)" by (cases "build_preview_tab a b c st")
    have "fg_tabs st1 = fg_tabs st" using build [of a b c] b by simp
    then have "set (fg_tabs st) \<subseteq> set (fg_tabs (insert_tab (i + 1) t st1))"
      using set_list_insert_keeps [of "fg_tabs st"] by (simp add: insert_tab_def)
    then show ?thesis using Suc.IH [of "insert_tab (i + 1) t st1" "i + 2"] x b by auto
  qed
qed simp

lemma insert_previews_keeps: "set (fg_tabs st) \<subseteq> set (fg_tabs (insert_preview_tabs_for_markdown st))"
  by (simp add: insert_preview_tabs_for_markdown_def insert_previews_loop_keeps)

lemma restore_window_tabs:
  "set (fg_tabs (snd (restore_loop env dk (ws_tabs ws) 0
      (st\<lparr>fg_tabs := [], fg_pending_remote_restore := {}, fg_inflight_remote_restore := {}\<rparr>))))
   \<subseteq> set (fg_tabs (restore_window env dk ws st))"
proof -
  obtain h st1 where r: "restore_loop env dk (ws_tabs ws) 0
      (st\<lparr>fg_tabs := [], fg_pending_remote_restore := {}, fg_inflight_remote_restore := {}\<rparr>) = (h, st1)"
    by (cases "restore_loop env dk (ws_tabs ws) 0
      (st\<lparr>fg_tabs := [], fg_pending_remote_restore := {}, fg_inflight_remote_restore := {}\<rparr>)")
  have "fg_tabs (restore_window env dk ws st)
      = fg_tabs (insert_preview_tabs_for_markdown (st1\<lparr>fg_next_tab_id := saturating_succ h\<rparr>))"
    by (simp add: restore_window_def r Let_def split: option.splits)
  then show ?thesis using insert_previews_keeps [of "st1\<lparr>fg_next_tab_id := saturating_succ h\<rparr>"] by (simp add: r)
qed

lemma load_state_tabs:
  assumes "TabEditor e \<in> set (fg_tabs (restore_window env dk ws
      (st\<lparr>fg_settings := (fg_settings st)\<lparr>st_show_indent_guides := False\<rparr>\<rparr>)))"
  shows "TabEditor e \<in> set (fg_tabs (load_state env dk (Some ws) st))"
  using assms by (auto simp: load_state_def Let_def)

section \<open>The active tab\<close>

lemma editor_index_shift: "editor_index target (Suc i) ts = map_option Suc (editor_index target i ts)"
proof (induction ts arbitrary: i)
  case (Cons t ts)
  then show ?case by (cases t) simp_all
qed simp

lemma editor_index_saved:
  assumes "\<forall>e. TabEditor e \<in> set ts \<longrightarrow> tab_state_of_editor dk pu e \<noteq> None"
    and "editor_index target 0 ts = Some i"
  shows "i < length (List.map_filter (\<lambda>t. Option.bind (as_editor t) (tab_state_of_editor dk pu)) ts)
     \<and> ts_tab_id (List.map_filter (\<lambda>t. Option.bind (as_editor t) (tab_state_of_editor dk pu)) ts ! i) = target"
  using assms
proof (induction ts arbitrary: i)
  case (Cons t ts)
  show ?case
  proof (cases t)
    case (TabEditor e)
    obtain s where s: "tab_state_of_editor dk pu e = Some s" using Cons.prems(1) TabEditor by auto
    then have sid: "ts_tab_id s = et_id e"
      by (auto simp: tab_state_of_editor_def tab_state_base_def split: tab_location.splits if_splits)
    show ?thesis
    proof (cases "et_id e = target")
      case True
      then show ?thesis using Cons.prems(2) TabEditor s sid by (simp add: List.map_filter_simps)
    next
      case False
      then obtain j where j: "editor_index target 0 ts = Some j" "i = Suc j"
        using Cons.prems(2) TabEditor editor_index_shift [of target 0 ts] by auto
      then show ?thesis
        using Cons.IH [of j] Cons.prems(1) TabEditor s by (simp add: List.map_filter_simps)
    qed
  next
    case (TabSettings x)
    then show ?thesis using Cons by (simp add: List.map_filter_simps)
  next
    case (TabPreview x)
    then show ?thesis using Cons by (simp add: List.map_filter_simps)
  qed
qed simp

lemma saved_tabs_restore:
  assumes "TabEditor e \<in> set (fg_tabs (sn_app w))" and work: "unsaved_work w e"
    and disk: "\<And>p. et_location e = LocLocal p \<Longrightarrow> \<not> disk_overrides env dk0 dk p"
    and tabs: "ws_tabs ws = build_tab_states dk0 w"
  shows "\<exists>e'. TabEditor e' \<in> set (fg_tabs (load_state env dk (Some (persisted ws)) st)) \<and> same_work e e'"
proof -
  obtain ts0 where ts0: "tab_state_of_editor dk0 (sn_persist_unsaved w) e = Some ts0"
    using saved_some [OF work] by blast
  have "ts0 \<in> set (build_tab_states dk0 w)"
    using assms(1) ts0 unfolding build_tab_states_def List.map_filter_def
    by (intro image_eqI [of _ _ "TabEditor e"] list.set_map [THEN equalityD2, THEN subsetD]) simp_all
  then have mem: "persisted_tab ts0 \<in> set (ws_tabs (persisted ws))"
    by (simp add: persisted_def tabs)
  have id: "ts_tab_id (persisted_tab ts0) = et_id e"
    using saved_content(2) [OF work ts0] by (simp add: persisted_tab_def)
  have "\<exists>e' st1. restore_tab_from_state env dk (persisted_tab ts0) (ts_tab_id (persisted_tab ts0)) s = (Some e', st1)
      \<and> same_work e e'" for s
    unfolding id by (rule restore_saved_text [OF work ts0 disk])
  from restore_loop_has [OF mem this]
  show ?thesis using restore_window_tabs load_state_tabs by (meson subsetD)
qed

section \<open>Properties\<close>

text \<open>Unsaved work survives a restart: when unsaved buffers are persisted, every editor with unsaved
  text that is small enough (for an untitled one: unless it is empty and never renamed) is in the window
  restored from the saved session, under the same identity, with the same text and marked as modified,
  unless its file was changed on disk after the save and can be read.\<close>

theorem unsaved_text_survives_restart:
  assumes "TabEditor e \<in> set (fg_tabs (sn_app w))" and work: "unsaved_work w e"
    and disk: "\<And>p. et_location e = LocLocal p \<Longrightarrow> \<not> disk_overrides env dk0 dk p"
  shows "\<exists>e'. TabEditor e' \<in> set (fg_tabs
            (load_state env dk (Some (persisted (build_window_state dk0 bounds display w))) st))
         \<and> same_work e e'"
  by (rule saved_tabs_restore [OF assms]) (simp_all add: build_window_state_def Let_def)

definition sample_session_env :: session_env where
  "sample_session_env =
     \<lparr>se_app = sample_app,
      se_codecs = \<lparr>cd_guess = (\<lambda>_. 0), cd_decode = (\<lambda>_ _. ([], 0, True)), cd_name = (\<lambda>_. []),
        cd_for_label = (\<lambda>_. None), cd_encode = (\<lambda>_ _. ([], 0, True)), cd_UTF_16LE = 1,
        cd_UTF_16BE = 2, cd_REPLACEMENT = 3\<rparr>,
      se_parse_time = (\<lambda>t. Some (int (length t))), se_now = 0, se_default_folding = True\<rparr>"

text \<open>A disk with every file, and a file with an edit: the buffer holds \<open>abc\<close>, the file \<open>ab\<close>.\<close>

definition sample_disk :: disk where
  "sample_disk = \<lparr>dk_exists = (\<lambda>_. True), dk_mtime = (\<lambda>_. Some [1, 1]), dk_open = (\<lambda>_. Some (Some [97, 98]))\<rparr>"

definition sample_file_tab :: "nat \<Rightarrow> rstr \<Rightarrow> editor_tab" where
  "sample_file_tab i path =
     editor_tab_from_file sample_langs 7 0
       \<lparr>fp_id = i, fp_path = path, fp_contents = [97, 98], fp_encoding = UTF_8, fp_is_modified = False\<rparr>
       sample_settings"

definition edit_text :: "rstr \<Rightarrow> editor_tab \<Rightarrow> editor_tab" where
  "edit_text s e = check_modified (e\<lparr>et_content := (et_content e)\<lparr>es_text := s\<rparr>\<rparr>)"

definition sample_session :: "tab list \<Rightarrow> nat \<Rightarrow> session_window" where
  "sample_session ts active =
     \<lparr>sn_app = (empty_window sample_settings)\<lparr>fg_tabs := ts, fg_active := Some active\<rparr>,
      sn_persistent_id = 9, sn_cached_bounds = None, sn_persist_unsaved = True\<rparr>"

lemma sample_file_facts:
  "et_id (sample_file_tab i p) = i" "et_location (sample_file_tab i p) = LocLocal p"
  "\<not> et_large_file (sample_file_tab i p)" "et_original_content_len (sample_file_tab i p) = 2"
  "et_original_content_hash (sample_file_tab i p) = fst (content_fingerprint_from_str [97, 98])"
  "es_text (et_content (sample_file_tab i p)) = [97, 98]"
  by (simp_all add: sample_file_tab_def editor_tab_from_file_def is_large_file_def Let_def
      LARGE_FILE_THRESHOLD_BYTES_def len_utf8_def content_fingerprint_from_str_def split: prod.splits)

lemma edit_text_facts:
  "et_id (edit_text s e) = et_id e" "et_location (edit_text s e) = et_location e"
  "et_large_file (edit_text s e) = et_large_file e" "es_text (et_content (edit_text s e)) = s"
  "et_original_content_len (edit_text s e) = et_original_content_len e"
  by (simp_all add: edit_text_def check_modified_def)

lemma sample_edit_unsaved:
  "unsaved_work (sample_session ts a) (edit_text [97, 98, 99] (sample_file_tab i p))"
  by (simp add: unsaved_work_def sample_session_def content_too_large_to_persist_def sample_file_facts
      edit_text_facts is_large_file_def LARGE_FILE_THRESHOLD_BYTES_def len_utf8_def
      content_differs_from_original_def)

lemma unsaved_text_survives_restart_witness:
  "\<exists>e'. TabEditor e' \<in> set (fg_tabs (load_state sample_session_env sample_disk
       (Some (persisted (build_window_state sample_disk (Windowed 0 0 0 0) None
         (sample_session [TabEditor (edit_text [97, 98, 99] (sample_file_tab 4 (lit ''/a'')))] 4))))
       (empty_window sample_settings)))
     \<and> same_work (edit_text [97, 98, 99] (sample_file_tab 4 (lit ''/a''))) e'"
  by (rule unsaved_text_survives_restart [OF _ sample_edit_unsaved])
    (simp_all add: sample_session_def edit_text_facts sample_file_facts disk_overrides_def sample_disk_def
      sample_session_env_def is_file_newer_def)

text \<open>The persisted active index is the index of the right tab: when every editor of the window is
  persisted, the persisted tab at the index saved for the window is the active editor, or the editor a
  shown preview belongs to.\<close>

theorem active_index_names_active_editor:
  assumes "\<forall>e. TabEditor e \<in> set (fg_tabs (sn_app w)) \<longrightarrow> tab_state_of_editor dk (sn_persist_unsaved w) e \<noteq> None"
    and "active_editor_index_for_state (sn_app w) = Some i"
  shows "i < length (build_tab_states dk w) \<and>
    (case nth_opt (fg_tabs (sn_app w)) (the (active_tab_index (sn_app w))) of
       Some (TabEditor e) \<Rightarrow> ts_tab_id (build_tab_states dk w ! i) = et_id e
     | Some (TabPreview p) \<Rightarrow> ts_tab_id (build_tab_states dk w ! i) = mp_source_tab_id p
     | _ \<Rightarrow> False)"
proof -
  obtain a t where a: "active_tab_index (sn_app w) = Some a" "nth_opt (fg_tabs (sn_app w)) a = Some t"
    and t: "(case t of TabEditor e \<Rightarrow> editor_index (et_id e) 0 (fg_tabs (sn_app w))
         | TabPreview p \<Rightarrow> editor_index (mp_source_tab_id p) 0 (fg_tabs (sn_app w)) | TabSettings s \<Rightarrow> None) = Some i"
    using assms(2) by (auto simp: active_editor_index_for_state_def bind_eq_Some_conv)
  then show ?thesis
    using editor_index_saved [OF assms(1), of _ i] by (cases t) (simp_all add: build_tab_states_def)
qed

lemma sample_file_saved: "tab_state_of_editor sample_disk True (sample_file_tab i p) \<noteq> None"
  by (simp add: tab_state_of_editor_def sample_file_facts)

lemma active_index_names_active_editor_witness:
  "ts_tab_id (build_tab_states sample_disk (sample_session
      [TabEditor (sample_file_tab 3 (lit ''/a'')), TabEditor (sample_file_tab 5 (lit ''/b''))] 5) ! 1) = 5"
proof -
  let ?w = "sample_session [TabEditor (sample_file_tab 3 (lit ''/a'')), TabEditor (sample_file_tab 5 (lit ''/b''))] 5"
  have "active_editor_index_for_state (sn_app ?w) = Some 1"
    by (simp add: active_editor_index_for_state_def sample_session_def active_tab_index_def tab_index_of_def
        nth_opt_def sample_file_facts)
  moreover have "\<forall>e. TabEditor e \<in> set (fg_tabs (sn_app ?w)) \<longrightarrow>
      tab_state_of_editor sample_disk (sn_persist_unsaved ?w) e \<noteq> None"
    using sample_file_saved by (auto simp: sample_session_def)
  ultimately show ?thesis
    using active_index_names_active_editor [of ?w sample_disk 1]
    by (simp add: sample_session_def active_tab_index_def tab_index_of_def nth_opt_def sample_file_facts)
qed

text \<open>Without that hypothesis the index is wrong: the editors that are not persisted are counted. An empty
  untitled tab before the active file moves the saved index to the next file.\<close>

lemma active_index_counts_dropped_tabs:
  defines "w \<equiv> sample_session
      [TabEditor (editor_tab_new sample_langs 1 0 UNTITLED sample_settings),
       TabEditor (sample_file_tab 3 (lit ''/a'')), TabEditor (sample_file_tab 5 (lit ''/b''))] 3"
  shows "active_editor_index_for_state (sn_app w) = Some 1"
    and "map ts_tab_id (build_tab_states sample_disk w) = [3, 5]"
proof -
  let ?u = "editor_tab_new sample_langs 1 0 UNTITLED sample_settings"
  have u: "et_id (editor_tab_new le n j ttl st) = j" "et_location (editor_tab_new le n j ttl st) = LocUntitled"
    "et_title (editor_tab_new le n j ttl st) = ttl" "\<not> et_large_file (editor_tab_new le n j ttl st)"
    "es_text (et_content (editor_tab_new le n j ttl st)) = []" for le n j ttl st
    by (simp_all add: editor_tab_new_def make_input_state_def Let_def split: prod.splits)
  show "active_editor_index_for_state (sn_app w) = Some 1"
    by (simp add: w_def active_editor_index_for_state_def sample_session_def active_tab_index_def
        tab_index_of_def nth_opt_def sample_file_facts u)
  have "tab_state_of_editor sample_disk True ?u = None"
    by (simp add: tab_state_of_editor_def u rope_content_def starts_with_def content_too_large_to_persist_def)
  moreover obtain s where "tab_state_of_editor sample_disk True (sample_file_tab 3 (lit ''/a'')) = Some s" "ts_tab_id s = 3"
    by (cases "keep_content True (sample_file_tab 3 (lit ''/a''))")
      (simp_all add: tab_state_of_editor_def sample_file_facts tab_state_base_def)
  moreover obtain s' where "tab_state_of_editor sample_disk True (sample_file_tab 5 (lit ''/b'')) = Some s'" "ts_tab_id s' = 5"
    by (cases "keep_content True (sample_file_tab 5 (lit ''/b''))")
      (simp_all add: tab_state_of_editor_def sample_file_facts tab_state_base_def)
  ultimately show "map ts_tab_id (build_tab_states sample_disk w) = [3, 5]"
    by (simp add: build_tab_states_def w_def sample_session_def List.map_filter_simps)
qed

text \<open>An editor restored from a saved text takes that text as its baseline: it is marked as modified, but the
  next save no longer stores its text, so that a second restart reads the file from disk and the edits are lost.\<close>

lemma restored_edits_dropped_at_next_save:
  assumes "\<not> is_large_file (blen c)"
  shows "et_modified (restored_editor env fresh i ts (c, Some p, UTF_8, True, False) settings)"
    and "\<exists>s. tab_state_of_editor dk True (restored_editor env fresh i ts (c, Some p, UTF_8, True, False) settings) = Some s
           \<and> ts_content s = None \<and> ts_file_path s = Some p"
proof -
  let ?e = "restored_editor env fresh i ts (c, Some p, UTF_8, True, False) settings"
  show "et_modified ?e" by (simp add: restored_editor_facts)
  have "\<not> content_differs_from_original ?e"
    using assms rope_fingerprint [of "[c]"]
    by (simp add: content_differs_from_original_def restored_editor_facts Let_def)
      (simp add: restored_editor_def editor_tab_from_file_def Let_def content_fingerprint_from_str_def split: prod.splits)
  moreover have "et_location ?e = LocLocal p"
    by (simp add: restored_editor_def editor_tab_from_file_def Let_def split: prod.splits)
  ultimately show "\<exists>s. tab_state_of_editor dk True ?e = Some s \<and> ts_content s = None \<and> ts_file_path s = Some p"
    by (simp add: tab_state_of_editor_def keep_content_def tab_state_base_def)
qed

end
