(* ===== verification/State_Writer.thy ===== *)
theory State_Writer
  imports Session_Roundtrip
begin

text \<open>
  The writer thread of the session state: \<^verbatim>\<open>src/fulgur/state/writer.rs\<close>.

  The user interface calls \<open>save_async\<close> (put the snapshot into the mailbox, then try to send a wake-up) and
  \<open>save_blocking\<close> (send the snapshot, wait for the reply); the thread runs the loop of \<open>run\<close>. The two run
  concurrently: every atomic action is a step of \<open>client_step\<close> or \<open>worker_step\<close> on the state \<open>writer_system\<close>,
  which has both program counters, the mailbox, the bounded channel, the reply channel and the clock.
  \<open>sy_requested\<close> and \<open>sy_history\<close> record the snapshots requested and the writes made, with their times.
\<close>

section \<open>State\<close>

definition CHANNEL_CAPACITY :: nat where "CHANNEL_CAPACITY = 16"

text \<open>Times are in milliseconds.\<close>

definition SAVE_THROTTLE :: nat where "SAVE_THROTTLE = 200"

datatype writer_message = Blocking windows_state | MailboxFilled

record writer_state =
  wt_throttle :: nat
  wt_db :: "state_db option"
  wt_last_write_at :: "nat option"

definition new_writer :: "nat \<Rightarrow> state_db option \<Rightarrow> writer_state" where
  "new_writer throttle db = \<lparr>wt_throttle = throttle, wt_db = db, wt_last_write_at = None\<rparr>"

text \<open>The error a save reports when there is no database.\<close>

definition no_database :: db_error where "no_database = SqlFailed ''no state database is available''"

definition writer_apply :: "sql_fault \<Rightarrow> windows_state \<Rightarrow> writer_state \<Rightarrow> (db_error + unit) \<times> writer_state" where
  "writer_apply fault snapshot w =
     (case wt_db w of
        None \<Rightarrow> (Inl no_database, w)
      | Some db \<Rightarrow>
          (case apply_snapshot fault snapshot db of
             (Inl e, db') \<Rightarrow> (Inl e, w\<lparr>wt_db := Some db'\<rparr>)
           | (Inr stats, db') \<Rightarrow> (Inr (), w\<lparr>wt_db := Some db'\<rparr>)))"

definition writer_write :: "sql_fault \<Rightarrow> nat \<Rightarrow> windows_state \<Rightarrow> writer_state \<Rightarrow> (db_error + unit) \<times> writer_state" where
  "writer_write fault now snapshot w =
     (let (result, w') = writer_apply fault snapshot w in (result, w'\<lparr>wt_last_write_at := Some now\<rparr>))"

definition mailbox_deadline :: "windows_state option \<Rightarrow> nat \<Rightarrow> writer_state \<Rightarrow> nat option" where
  "mailbox_deadline mailbox now w =
     (case mailbox of
        None \<Rightarrow> None
      | Some _ \<Rightarrow> Some (case wt_last_write_at w of None \<Rightarrow> now | Some last_write \<Rightarrow> last_write + wt_throttle w))"

text \<open>Where the thread is: at the head of the loop, waiting for a message (with the deadline, if any), with
  the message or the timeout it got, in a write (after it emptied the mailbox), or past the loop.\<close>

datatype write_kind = BlockingWrite | ThrottledWrite | ShutdownWrite

datatype worker_pc =
    AtLoop
  | Waiting "nat option"
  | GotMessage writer_message
  | Flushing
  | Writing write_kind windows_state
  | ShuttingDown
  | Exited

datatype client_pc = ClientIdle | Notifying | AwaitingReply

record writer_system =
  sy_writer :: writer_state
  sy_mailbox :: "windows_state option"
  sy_channel :: "writer_message list"
  sy_reply :: "(db_error + unit) option"
  sy_worker :: worker_pc
  sy_client :: client_pc
  sy_dropped :: bool
  sy_now :: nat
  sy_requested :: "windows_state list"
  sy_history :: "(write_kind \<times> nat \<times> windows_state) list"

definition initial_system :: "nat \<Rightarrow> state_db option \<Rightarrow> nat \<Rightarrow> writer_system" where
  "initial_system throttle db now =
     \<lparr>sy_writer = new_writer throttle db, sy_mailbox = None, sy_channel = [], sy_reply = None,
      sy_worker = AtLoop, sy_client = ClientIdle, sy_dropped = False, sy_now = now,
      sy_requested = [], sy_history = []\<rparr>"

section \<open>The user interface\<close>

definition mailbox_put :: "windows_state \<Rightarrow> writer_system \<Rightarrow> writer_system" where
  "mailbox_put s st =
     st\<lparr>sy_mailbox := Some s, sy_requested := sy_requested st @ [s], sy_client := Notifying\<rparr>"

definition send_wakeup :: "writer_system \<Rightarrow> writer_system" where
  "send_wakeup st =
     (if sy_worker st = Exited then st\<lparr>sy_mailbox := None, sy_client := ClientIdle\<rparr>
      else if length (sy_channel st) < CHANNEL_CAPACITY
      then st\<lparr>sy_channel := sy_channel st @ [MailboxFilled], sy_client := ClientIdle\<rparr>
      else st\<lparr>sy_client := ClientIdle\<rparr>)"

definition send_blocking :: "windows_state \<Rightarrow> writer_system \<Rightarrow> writer_system" where
  "send_blocking s st =
     st\<lparr>sy_channel := sy_channel st @ [Blocking s], sy_requested := sy_requested st @ [s],
        sy_client := AwaitingReply\<rparr>"

inductive client_step :: "writer_system \<Rightarrow> writer_system \<Rightarrow> bool" where
  client_put: "sy_client st = ClientIdle \<Longrightarrow> \<not> sy_dropped st \<Longrightarrow> client_step st (mailbox_put s st)"
| client_notify: "sy_client st = Notifying \<Longrightarrow> client_step st (send_wakeup st)"
| client_block: "sy_client st = ClientIdle \<Longrightarrow> \<not> sy_dropped st \<Longrightarrow> sy_worker st \<noteq> Exited
    \<Longrightarrow> length (sy_channel st) < CHANNEL_CAPACITY \<Longrightarrow> client_step st (send_blocking s st)"
| client_reply: "sy_client st = AwaitingReply \<Longrightarrow> sy_reply st = Some r
    \<Longrightarrow> client_step st (st\<lparr>sy_reply := None, sy_client := ClientIdle\<rparr>)"
| client_drop: "sy_client st = ClientIdle \<Longrightarrow> client_step st (st\<lparr>sy_dropped := True\<rparr>)"

section \<open>The thread\<close>

text \<open>\<open>flush_mailbox\<close> and \<open>handle_blocking\<close> first take the snapshot out of the mailbox, then write.\<close>

definition take_mailbox :: "write_kind \<Rightarrow> worker_pc \<Rightarrow> writer_system \<Rightarrow> writer_system" where
  "take_mailbox kind otherwise st =
     st\<lparr>sy_mailbox := None,
        sy_worker := (case sy_mailbox st of Some s \<Rightarrow> Writing kind s | None \<Rightarrow> otherwise)\<rparr>"

definition finish_write :: "sql_fault \<Rightarrow> write_kind \<Rightarrow> windows_state \<Rightarrow> writer_system \<Rightarrow> writer_system" where
  "finish_write fault kind s st =
     (let (result, w) = writer_write fault (sy_now st) s (sy_writer st) in
      st\<lparr>sy_writer := w, sy_history := sy_history st @ [(kind, sy_now st, s)],
         sy_worker := (if kind = ShutdownWrite then Exited else AtLoop),
         sy_reply := (if kind = BlockingWrite then Some result else sy_reply st)\<rparr>)"

inductive worker_step :: "writer_system \<Rightarrow> writer_system \<Rightarrow> bool" where
  worker_look: "sy_worker st = AtLoop \<Longrightarrow>
    worker_step st (st\<lparr>sy_worker := Waiting (mailbox_deadline (sy_mailbox st) (sy_now st) (sy_writer st))\<rparr>)"
| worker_recv: "sy_worker st = Waiting d \<Longrightarrow> sy_channel st = m # ms \<Longrightarrow>
    worker_step st (st\<lparr>sy_worker := GotMessage m, sy_channel := ms\<rparr>)"
| worker_timeout: "sy_worker st = Waiting (Some d) \<Longrightarrow> sy_channel st = [] \<Longrightarrow> d \<le> sy_now st \<Longrightarrow>
    worker_step st (st\<lparr>sy_worker := Flushing\<rparr>)"
| worker_disconnected: "sy_worker st = Waiting d \<Longrightarrow> sy_channel st = [] \<Longrightarrow> sy_dropped st \<Longrightarrow>
    worker_step st (st\<lparr>sy_worker := ShuttingDown\<rparr>)"
| worker_woken: "sy_worker st = GotMessage MailboxFilled \<Longrightarrow> worker_step st (st\<lparr>sy_worker := AtLoop\<rparr>)"
| worker_blocking: "sy_worker st = GotMessage (Blocking s) \<Longrightarrow>
    worker_step st (st\<lparr>sy_mailbox := None, sy_worker := Writing BlockingWrite s\<rparr>)"
| worker_flush: "sy_worker st = Flushing \<Longrightarrow> worker_step st (take_mailbox ThrottledWrite AtLoop st)"
| worker_shut_down: "sy_worker st = ShuttingDown \<Longrightarrow> worker_step st (take_mailbox ShutdownWrite Exited st)"
| worker_write: "sy_worker st = Writing kind s \<Longrightarrow> worker_step st (finish_write fault kind s st)"
| worker_tick: "worker_step st (st\<lparr>sy_now := Suc (sy_now st)\<rparr>)"

definition system_step :: "writer_system \<Rightarrow> writer_system \<Rightarrow> bool" where
  "system_step st st' \<longleftrightarrow> client_step st st' \<or> worker_step st st'"

section \<open>Invariant\<close>

definition latest :: "writer_system \<Rightarrow> windows_state option" where
  "latest st = (if sy_requested st = [] then None else Some (last (sy_requested st)))"

definition last_written :: "writer_system \<Rightarrow> windows_state option" where
  "last_written st = (if sy_history st = [] then None else Some (snd (snd (last (sy_history st)))))"

fun is_blocking :: "writer_message \<Rightarrow> bool" where
  "is_blocking (Blocking s) = True"
| "is_blocking MailboxFilled = False"

abbreviation queued :: "writer_system \<Rightarrow> writer_message list" where
  "queued st \<equiv> filter is_blocking (sy_channel st)"

fun serving :: "worker_pc \<Rightarrow> windows_state option" where
  "serving (GotMessage (Blocking s)) = Some s"
| "serving (Writing BlockingWrite s) = Some s"
| "serving pc = None"

fun pc_writing :: "worker_pc \<Rightarrow> windows_state option" where
  "pc_writing (Writing k s) = Some s"
| "pc_writing pc = None"

fun pick :: "'a option \<Rightarrow> 'a option \<Rightarrow> 'a option" where
  "pick (Some x) y = Some x"
| "pick None y = y"

lemma pick_if: "pick x y = (if x = None then y else x)"
  by (cases x) simp_all

text \<open>Without a blocking call the newest snapshot is in the mailbox, or else in the write that is going on,
  or else the last one written.\<close>

definition free_ok :: "writer_system \<Rightarrow> bool" where
  "free_ok st \<longleftrightarrow> queued st = [] \<and> serving (sy_worker st) = None \<and> sy_reply st = None
     \<and> pick (sy_mailbox st) (pick (pc_writing (sy_worker st)) (last_written st)) = latest st"

text \<open>During a blocking call its snapshot is in the channel, or being written, or written and reported.\<close>

definition call_ok :: "writer_system \<Rightarrow> bool" where
  "call_ok st \<longleftrightarrow> (\<exists>s. latest st = Some s \<and>
     ((queued st = [Blocking s] \<and> serving (sy_worker st) = None \<and> sy_reply st = None)
      \<or> (queued st = [] \<and> serving (sy_worker st) = Some s \<and> sy_reply st = None
           \<and> (pc_writing (sy_worker st) \<noteq> None \<longrightarrow> sy_mailbox st = None))
      \<or> (queued st = [] \<and> sy_reply st \<noteq> None \<and> last_written st = Some s \<and> sy_mailbox st = None
           \<and> serving (sy_worker st) = None \<and> pc_writing (sy_worker st) = None)))"

definition order_ok :: "writer_system \<Rightarrow> bool" where
  "order_ok st \<longleftrightarrow> (if sy_client st = AwaitingReply then call_ok st else free_ok st)"

text \<open>No wake-up is lost: a thread that waits without a deadline is woken for a full mailbox.\<close>

definition wake_ok :: "writer_system \<Rightarrow> bool" where
  "wake_ok st \<longleftrightarrow> (sy_worker st = Waiting None \<longrightarrow> sy_mailbox st \<noteq> None \<longrightarrow>
     sy_channel st \<noteq> [] \<or> sy_client st = Notifying)"

definition exit_ok :: "writer_system \<Rightarrow> bool" where
  "exit_ok st \<longleftrightarrow> (sy_dropped st \<longrightarrow> sy_client st = ClientIdle)
     \<and> (sy_worker st = ShuttingDown \<or> sy_worker st = Exited \<or> (\<exists>s. sy_worker st = Writing ShutdownWrite s)
          \<longrightarrow> sy_dropped st \<and> sy_channel st = [])
     \<and> (sy_worker st = Exited \<or> (\<exists>s. sy_worker st = Writing ShutdownWrite s) \<longrightarrow> sy_mailbox st = None)"

text \<open>The throttle: a write that nobody waits for starts no earlier than the delay after the previous one.\<close>

definition allowed_from :: "writer_system \<Rightarrow> nat" where
  "allowed_from st = (case wt_last_write_at (sy_writer st) of None \<Rightarrow> 0 | Some t \<Rightarrow> t + wt_throttle (sy_writer st))"

definition spaced :: "nat \<Rightarrow> (write_kind \<times> nat \<times> windows_state) list \<Rightarrow> bool" where
  "spaced throttle = successively (\<lambda>(_, t, _) (k, t', _). k = ThrottledWrite \<longrightarrow> t + throttle \<le> t')"

definition throttle_ok :: "writer_system \<Rightarrow> bool" where
  "throttle_ok st \<longleftrightarrow>
     (\<forall>d. sy_worker st = Waiting (Some d) \<longrightarrow> allowed_from st \<le> d)
     \<and> (sy_worker st = Flushing \<or> (\<exists>s. sy_worker st = Writing ThrottledWrite s) \<longrightarrow> allowed_from st \<le> sy_now st)
     \<and> wt_last_write_at (sy_writer st) = (if sy_history st = [] then None else Some (fst (snd (last (sy_history st)))))
     \<and> spaced (wt_throttle (sy_writer st)) (sy_history st)"

definition system_inv :: "writer_system \<Rightarrow> bool" where
  "system_inv st \<longleftrightarrow> order_ok st \<and> wake_ok st \<and> exit_ok st \<and> throttle_ok st
     \<and> length (sy_channel st) \<le> CHANNEL_CAPACITY"

lemma initial_inv: "system_inv (initial_system throttle db now)"
  by (simp add: system_inv_def initial_system_def order_ok_def free_ok_def wake_ok_def exit_ok_def throttle_ok_def
      latest_def last_written_def spaced_def new_writer_def CHANNEL_CAPACITY_def)

subsection \<open>Preservation\<close>

lemma serving_pcs [simp]:
  "serving AtLoop = None" "serving (Waiting d) = None" "serving Flushing = None" "serving ShuttingDown = None"
  "serving Exited = None" "serving (GotMessage MailboxFilled) = None"
  by simp_all

lemma serving_Writing [simp]: "serving (Writing k s) = (if k = BlockingWrite then Some s else None)"
  by (cases k) simp_all

lemma latest_frame [simp]:
  "latest (st\<lparr>sy_worker := a\<rparr>) = latest st" "latest (st\<lparr>sy_mailbox := b\<rparr>) = latest st"
  "latest (st\<lparr>sy_channel := c\<rparr>) = latest st" "latest (st\<lparr>sy_reply := d\<rparr>) = latest st"
  "latest (st\<lparr>sy_client := e\<rparr>) = latest st" "latest (st\<lparr>sy_dropped := f\<rparr>) = latest st"
  "latest (st\<lparr>sy_now := n\<rparr>) = latest st" "latest (st\<lparr>sy_writer := w\<rparr>) = latest st"
  "latest (st\<lparr>sy_history := h\<rparr>) = latest st" "latest (st\<lparr>sy_requested := r @ [s]\<rparr>) = Some s"
  by (simp_all add: latest_def)

lemma last_written_frame [simp]:
  "last_written (st\<lparr>sy_worker := a\<rparr>) = last_written st" "last_written (st\<lparr>sy_mailbox := b\<rparr>) = last_written st"
  "last_written (st\<lparr>sy_channel := c\<rparr>) = last_written st" "last_written (st\<lparr>sy_reply := d\<rparr>) = last_written st"
  "last_written (st\<lparr>sy_client := e\<rparr>) = last_written st" "last_written (st\<lparr>sy_dropped := f\<rparr>) = last_written st"
  "last_written (st\<lparr>sy_now := n\<rparr>) = last_written st" "last_written (st\<lparr>sy_writer := w\<rparr>) = last_written st"
  "last_written (st\<lparr>sy_requested := r\<rparr>) = last_written st"
  "last_written (st\<lparr>sy_history := h @ [(k, t, s)]\<rparr>) = Some s"
  by (simp_all add: last_written_def)

lemma allowed_frame [simp]:
  "allowed_from (st\<lparr>sy_worker := a\<rparr>) = allowed_from st" "allowed_from (st\<lparr>sy_mailbox := b\<rparr>) = allowed_from st"
  "allowed_from (st\<lparr>sy_channel := c\<rparr>) = allowed_from st" "allowed_from (st\<lparr>sy_reply := d\<rparr>) = allowed_from st"
  "allowed_from (st\<lparr>sy_client := e\<rparr>) = allowed_from st" "allowed_from (st\<lparr>sy_dropped := f\<rparr>) = allowed_from st"
  "allowed_from (st\<lparr>sy_now := n\<rparr>) = allowed_from st" "allowed_from (st\<lparr>sy_requested := r\<rparr>) = allowed_from st"
  by (simp_all add: allowed_from_def split: option.split)

lemmas order_defs = order_ok_def free_ok_def call_ok_def
lemmas rest_defs = wake_ok_def exit_ok_def throttle_ok_def CHANNEL_CAPACITY_def

lemma system_invI:
  "order_ok st \<Longrightarrow> wake_ok st \<Longrightarrow> exit_ok st \<Longrightarrow> throttle_ok st \<Longrightarrow> length (sy_channel st) \<le> CHANNEL_CAPACITY
     \<Longrightarrow> system_inv st"
  by (simp add: system_inv_def)

lemma system_invD:
  "system_inv st \<Longrightarrow> order_ok st" "system_inv st \<Longrightarrow> wake_ok st" "system_inv st \<Longrightarrow> exit_ok st"
  "system_inv st \<Longrightarrow> throttle_ok st" "system_inv st \<Longrightarrow> length (sy_channel st) \<le> CHANNEL_CAPACITY"
  by (simp_all add: system_inv_def)

lemma put_inv:
  assumes "system_inv st" and "sy_client st = ClientIdle" and "\<not> sy_dropped st"
  shows "system_inv (mailbox_put s st)"
proof (rule system_invI)
  show "order_ok (mailbox_put s st)"
    using system_invD(1) [OF assms(1)] assms(2,3) by (simp add: order_defs mailbox_put_def)
qed (use system_invD(2-) [OF assms(1)] assms(2,3) in \<open>auto simp: rest_defs mailbox_put_def\<close>)

lemma wakeup_inv:
  assumes "system_inv st" and "sy_client st = Notifying"
  shows "system_inv (send_wakeup st)"
proof -
  note inv = system_invD [OF assms(1)]
  have "sy_worker st \<noteq> Exited" "\<not> sy_dropped st" using inv(3) assms(2) by (auto simp: exit_ok_def)
  note open_end = this
  show ?thesis
  proof (rule system_invI)
    show "order_ok (send_wakeup st)"
      using inv(1) assms(2) open_end by (simp add: order_defs send_wakeup_def)
  qed (use inv(2-) assms(2) open_end in \<open>auto simp: rest_defs send_wakeup_def\<close>)
qed

lemma block_inv:
  assumes "system_inv st" and "sy_client st = ClientIdle" and "\<not> sy_dropped st"
    and "length (sy_channel st) < CHANNEL_CAPACITY"
  shows "system_inv (send_blocking s st)"
proof (rule system_invI)
  show "order_ok (send_blocking s st)"
    using system_invD(1) [OF assms(1)] assms(2) by (simp add: order_defs send_blocking_def)
qed (use system_invD(2-) [OF assms(1)] assms(2-) in \<open>auto simp: rest_defs send_blocking_def\<close>)

lemma reply_inv:
  assumes "system_inv st" and "sy_client st = AwaitingReply" and "sy_reply st = Some r"
  shows "system_inv (st\<lparr>sy_reply := None, sy_client := ClientIdle\<rparr>)"
proof (rule system_invI)
  show "order_ok (st\<lparr>sy_reply := None, sy_client := ClientIdle\<rparr>)"
    using system_invD(1) [OF assms(1)] assms(2-) by (auto simp: order_defs)
qed (use system_invD(2-) [OF assms(1)] assms(2-) in \<open>auto simp: rest_defs\<close>)

lemma drop_inv:
  assumes "system_inv st" and "sy_client st = ClientIdle"
  shows "system_inv (st\<lparr>sy_dropped := True\<rparr>)"
proof (rule system_invI)
  show "order_ok (st\<lparr>sy_dropped := True\<rparr>)"
    using system_invD(1) [OF assms(1)] assms(2) by (simp add: order_defs)
qed (use system_invD(2-) [OF assms(1)] assms(2) in \<open>auto simp: rest_defs\<close>)

lemma client_step_inv: "client_step st st' \<Longrightarrow> system_inv st \<Longrightarrow> system_inv st'"
  by (induction rule: client_step.induct) (simp_all add: put_inv wakeup_inv block_inv reply_inv drop_inv)

text \<open>The ordering is kept by a step of the thread that only moves its counter from one place without a
  snapshot to another.\<close>

lemma order_move:
  assumes "order_ok st" and "serving pc = serving (sy_worker st)" and "pc_writing (sy_worker st) = None"
    and "pc_writing pc = None"
  shows "order_ok (st\<lparr>sy_worker := pc\<rparr>)"
  using assms by (cases "sy_client st = AwaitingReply") (simp_all add: order_defs)

lemma look_inv:
  assumes "system_inv st" and "sy_worker st = AtLoop"
  shows "system_inv (st\<lparr>sy_worker := Waiting (mailbox_deadline (sy_mailbox st) (sy_now st) (sy_writer st))\<rparr>)"
proof (rule system_invI, rule order_move)
  show "order_ok st" using assms(1) by (rule system_invD)
qed (use system_invD(2-) [OF assms(1)] assms(2) in
    \<open>auto simp: rest_defs mailbox_deadline_def allowed_from_def split: option.splits\<close>)

lemma recv_inv:
  assumes inv: "system_inv st" and pc: "sy_worker st = Waiting d" and ch: "sy_channel st = m # ms"
  shows "system_inv (st\<lparr>sy_worker := GotMessage m, sy_channel := ms\<rparr>)"
proof (rule system_invI)
  show "order_ok (st\<lparr>sy_worker := GotMessage m, sy_channel := ms\<rparr>)"
    using system_invD(1) [OF inv] pc ch
    by (cases m; cases "sy_client st = AwaitingReply") (auto simp: order_defs)
qed (use system_invD(2-) [OF inv] pc ch in \<open>auto simp: rest_defs\<close>)

lemma timeout_inv:
  assumes "system_inv st" and "sy_worker st = Waiting (Some d)" and "d \<le> sy_now st"
  shows "system_inv (st\<lparr>sy_worker := Flushing\<rparr>)"
proof (rule system_invI, rule order_move)
  show "order_ok st" using assms(1) by (rule system_invD)
qed (use system_invD(2-) [OF assms(1)] assms(2,3) in \<open>auto simp: rest_defs\<close>)

lemma disconnected_inv:
  assumes "system_inv st" and "sy_worker st = Waiting d" and "sy_channel st = []" and "sy_dropped st"
  shows "system_inv (st\<lparr>sy_worker := ShuttingDown\<rparr>)"
proof (rule system_invI, rule order_move)
  show "order_ok st" using assms(1) by (rule system_invD)
qed (use system_invD(2-) [OF assms(1)] assms(2-) in \<open>auto simp: rest_defs\<close>)

lemma woken_inv:
  assumes "system_inv st" and "sy_worker st = GotMessage MailboxFilled"
  shows "system_inv (st\<lparr>sy_worker := AtLoop\<rparr>)"
proof (rule system_invI, rule order_move)
  show "order_ok st" using assms(1) by (rule system_invD)
qed (use system_invD(2-) [OF assms(1)] assms(2) in \<open>auto simp: rest_defs\<close>)

lemma blocking_inv:
  assumes inv: "system_inv st" and pc: "sy_worker st = GotMessage (Blocking s)"
  shows "system_inv (st\<lparr>sy_mailbox := None, sy_worker := Writing BlockingWrite s\<rparr>)"
proof (rule system_invI)
  show "order_ok (st\<lparr>sy_mailbox := None, sy_worker := Writing BlockingWrite s\<rparr>)"
    using system_invD(1) [OF inv] pc
    by (cases "sy_client st = AwaitingReply") (auto simp: order_defs)
qed (use system_invD(2-) [OF inv] pc in \<open>auto simp: rest_defs\<close>)

lemma take_mailbox_order:
  assumes "order_ok st" and "sy_worker st = Flushing \<or> sy_worker st = ShuttingDown"
    and "kind \<noteq> BlockingWrite" and "pc = AtLoop \<or> pc = Exited"
  shows "order_ok (take_mailbox kind pc st)"
proof (cases "sy_mailbox st")
  case None
  then have "take_mailbox kind pc st = st\<lparr>sy_mailbox := None, sy_worker := pc\<rparr>" by (simp add: take_mailbox_def)
  then show ?thesis using assms None by (cases "sy_client st = AwaitingReply") (auto simp: order_defs)
next
  case (Some a)
  then have "take_mailbox kind pc st = st\<lparr>sy_mailbox := None, sy_worker := Writing kind a\<rparr>"
    by (simp add: take_mailbox_def)
  then show ?thesis using assms Some by (cases "sy_client st = AwaitingReply") (auto simp: order_defs pick_if)
qed

lemma flush_inv:
  assumes "system_inv st" and "sy_worker st = Flushing"
  shows "system_inv (take_mailbox ThrottledWrite AtLoop st)"
proof (rule system_invI)
  show "order_ok (take_mailbox ThrottledWrite AtLoop st)"
    using system_invD(1) [OF assms(1)] assms(2) by (intro take_mailbox_order) simp_all
qed (use system_invD(2-) [OF assms(1)] assms(2) in \<open>auto simp: rest_defs take_mailbox_def split: option.splits\<close>)

lemma shut_down_inv:
  assumes "system_inv st" and "sy_worker st = ShuttingDown"
  shows "system_inv (take_mailbox ShutdownWrite Exited st)"
proof (rule system_invI)
  show "order_ok (take_mailbox ShutdownWrite Exited st)"
    using system_invD(1) [OF assms(1)] assms(2) by (intro take_mailbox_order) simp_all
qed (use system_invD(2-) [OF assms(1)] assms(2) in \<open>auto simp: rest_defs take_mailbox_def split: option.splits\<close>)

lemma writer_write_facts:
  assumes "writer_write fault now s w = (r, w')"
  shows "wt_last_write_at w' = Some now" and "wt_throttle w' = wt_throttle w"
  using assms
  by (auto simp: writer_write_def writer_apply_def Let_def split: option.splits prod.splits sum.splits)

lemma spaced_snoc:
  "spaced th (h @ [(k, t, s)]) \<longleftrightarrow>
     spaced th h \<and> (h \<noteq> [] \<longrightarrow> k = ThrottledWrite \<longrightarrow> fst (snd (last h)) + th \<le> t)"
  by (auto simp: spaced_def successively_append_iff split: prod.splits)

lemma write_inv:
  assumes inv: "system_inv st" and w: "sy_worker st = Writing kind s"
  shows "system_inv (finish_write fault kind s st)"
proof -
  obtain r w' where ww: "writer_write fault (sy_now st) s (sy_writer st) = (r, w')"
    by (cases "writer_write fault (sy_now st) s (sy_writer st)")
  note facts = writer_write_facts [OF ww]
  have sp: "spaced (wt_throttle (sy_writer st)) (sy_history st @ [(kind, sy_now st, s)])"
    using inv w by (auto simp: system_inv_def throttle_ok_def allowed_from_def spaced_snoc split: if_splits)
  have "order_ok (finish_write fault kind s st)"
    using system_invD(1) [OF inv] w
    by (cases "sy_client st = AwaitingReply"; cases kind; cases "sy_mailbox st")
      (auto simp: order_defs finish_write_def ww)
  moreover have "throttle_ok (finish_write fault kind s st)"
    using inv w sp facts by (auto simp: system_inv_def throttle_ok_def finish_write_def ww)
  moreover have "wake_ok (finish_write fault kind s st)" by (simp add: wake_ok_def finish_write_def ww)
  moreover have "exit_ok (finish_write fault kind s st)"
    using inv w by (auto simp: system_inv_def exit_ok_def finish_write_def ww)
  moreover have "sy_channel (finish_write fault kind s st) = sy_channel st" by (simp add: finish_write_def ww)
  ultimately show ?thesis using inv by (simp add: system_inv_def)
qed

lemma tick_inv:
  assumes "system_inv st"
  shows "system_inv (st\<lparr>sy_now := Suc (sy_now st)\<rparr>)"
proof (rule system_invI)
  note inv = system_invD [OF assms]
  show "order_ok (st\<lparr>sy_now := Suc (sy_now st)\<rparr>)"
    using inv(1) by (cases "sy_client st = AwaitingReply") (simp_all add: order_defs)
  show "wake_ok (st\<lparr>sy_now := Suc (sy_now st)\<rparr>)" using inv(2) by (simp add: wake_ok_def)
  show "exit_ok (st\<lparr>sy_now := Suc (sy_now st)\<rparr>)" using inv(3) by (simp add: exit_ok_def)
  show "throttle_ok (st\<lparr>sy_now := Suc (sy_now st)\<rparr>)" using inv(4) by (simp add: throttle_ok_def le_SucI)
  show "length (sy_channel (st\<lparr>sy_now := Suc (sy_now st)\<rparr>)) \<le> CHANNEL_CAPACITY" using inv(5) by simp
qed

lemma worker_step_inv: "worker_step st st' \<Longrightarrow> system_inv st \<Longrightarrow> system_inv st'"
  by (induction rule: worker_step.induct)
    (simp_all add: look_inv recv_inv timeout_inv disconnected_inv woken_inv blocking_inv flush_inv shut_down_inv
      write_inv tick_inv)

lemma system_steps_inv:
  "system_step\<^sup>*\<^sup>* st st' \<Longrightarrow> system_inv st \<Longrightarrow> system_inv st'"
  by (induction rule: rtranclp_induct) (auto simp: system_step_def intro: client_step_inv worker_step_inv)

section \<open>Progress\<close>

text \<open>\<open>reaches G st\<close>: the thread alone, given time, gets from \<open>st\<close> to a state where \<open>G\<close> holds.\<close>

definition reaches :: "(writer_system \<Rightarrow> bool) \<Rightarrow> writer_system \<Rightarrow> bool" where
  "reaches G st \<longleftrightarrow> (\<exists>st'. worker_step\<^sup>*\<^sup>* st st' \<and> G st')"

lemma reaches_now: "G st \<Longrightarrow> reaches G st"
  by (auto simp: reaches_def)

lemma reaches_step: "worker_step st st1 \<Longrightarrow> reaches G st1 \<Longrightarrow> reaches G st"
  unfolding reaches_def by (meson converse_rtranclp_into_rtranclp)

lemma reaches_wait: "reaches G (st\<lparr>sy_now := sy_now st + n\<rparr>) \<Longrightarrow> reaches G st"
proof (induction n arbitrary: st)
  case (Suc n)
  have "reaches G (st\<lparr>sy_now := Suc (sy_now st)\<rparr>)" using Suc.IH [of "st\<lparr>sy_now := Suc (sy_now st)\<rparr>"] Suc.prems by simp
  then show ?case by (rule reaches_step [OF worker_tick])
qed simp

lemma finish_write_simps [simp]:
  "sy_channel (finish_write fault k s st) = sy_channel st" "sy_mailbox (finish_write fault k s st) = sy_mailbox st"
  "sy_client (finish_write fault k s st) = sy_client st" "latest (finish_write fault k s st) = latest st"
  "last_written (finish_write fault k s st) = Some s" "sy_dropped (finish_write fault k s st) = sy_dropped st"
  "sy_worker (finish_write fault k s st) = (if k = ShutdownWrite then Exited else AtLoop)"
  "k = BlockingWrite \<Longrightarrow> sy_reply (finish_write fault k s st) \<noteq> None"
  by (auto simp: finish_write_def Let_def split: prod.splits)

subsection \<open>The snapshots nobody waits for\<close>

definition settled :: "windows_state option \<Rightarrow> writer_system \<Rightarrow> bool" where
  "settled l st \<longleftrightarrow> last_written st = l"

lemma settle_writing:
  assumes "order_ok st" and "sy_client st \<noteq> AwaitingReply" and "sy_worker st = Writing k s" and "sy_mailbox st = None"
  shows "reaches (settled (latest st)) st"
proof -
  have "latest st = Some s" using assms by (simp add: order_defs)
  then show ?thesis
    by (intro reaches_step [OF worker_write [OF assms(3), of NoFault]] reaches_now) (simp add: settled_def)
qed

lemma settle_taking:
  assumes inv: "system_inv st" and client: "sy_client st \<noteq> AwaitingReply"
    and st: "worker_step st (take_mailbox k pc st)" and k: "system_inv (take_mailbox k pc st)"
    and pc: "sy_worker st = Flushing \<or> sy_worker st = ShuttingDown" and none: "pc_writing pc = None"
  shows "reaches (settled (latest st)) st"
proof (cases "sy_mailbox st")
  case None
  then have "last_written st = latest st" using system_invD(1) [OF inv] client pc by (auto simp: order_defs)
  then show ?thesis by (simp add: reaches_now settled_def)
next
  case (Some s)
  then have take: "take_mailbox k pc st = st\<lparr>sy_mailbox := None, sy_worker := Writing k s\<rparr>"
    by (simp add: take_mailbox_def)
  have "reaches (settled (latest (take_mailbox k pc st))) (take_mailbox k pc st)"
    using system_invD(1) [OF k] client by (intro settle_writing) (simp_all add: take)
  then show ?thesis using reaches_step [OF st] by (simp add: take)
qed

lemma settle_flushing:
  assumes "system_inv st" and "sy_client st \<noteq> AwaitingReply" and "sy_worker st = Flushing"
  shows "reaches (settled (latest st)) st"
  using settle_taking [OF assms(1,2) worker_flush flush_inv] assms by simp

lemma settle_shutting_down:
  assumes "system_inv st" and "sy_client st \<noteq> AwaitingReply" and "sy_worker st = ShuttingDown"
  shows "reaches (settled (latest st)) st"
  using settle_taking [OF assms(1,2) worker_shut_down shut_down_inv] assms by simp

lemma settled_without_mailbox:
  assumes "system_inv st" and "sy_client st \<noteq> AwaitingReply" and "sy_mailbox st = None" and "pc_writing (sy_worker st) = None"
  shows "reaches (settled (latest st)) st"
  using system_invD(1) [OF assms(1)] assms(2-) by (simp add: order_defs reaches_now settled_def)

lemma settle_waiting_empty:
  assumes inv: "system_inv st" and client: "sy_client st = ClientIdle" and pc: "sy_worker st = Waiting d"
    and empty: "sy_channel st = []"
  shows "reaches (settled (latest st)) st"
proof (cases d)
  case None
  then have "sy_mailbox st = None" using system_invD(2) [OF inv] pc client empty by (auto simp: wake_ok_def)
  then show ?thesis using settled_without_mailbox [OF inv] client pc by simp
next
  case (Some t)
  let ?late = "st\<lparr>sy_now := sy_now st + t\<rparr>"
  have "system_inv (st\<lparr>sy_now := sy_now st + n\<rparr>)" for n
    using inv
  proof (induction n)
    case (Suc n)
    then show ?case using tick_inv [of "st\<lparr>sy_now := sy_now st + n\<rparr>"] by simp
  qed simp
  then have inv': "system_inv ?late" by blast
  have step: "worker_step ?late (?late\<lparr>sy_worker := Flushing\<rparr>)"
    by (rule worker_timeout [of _ t]) (simp_all add: pc Some empty)
  have "system_inv (?late\<lparr>sy_worker := Flushing\<rparr>)"
    using timeout_inv [OF inv', of t] pc Some by simp
  then have "reaches (settled (latest st)) (?late\<lparr>sy_worker := Flushing\<rparr>)"
    using settle_flushing [of "?late\<lparr>sy_worker := Flushing\<rparr>"] client by simp
  then show ?thesis using reaches_step [OF step] reaches_wait by blast
qed

lemma settle_looping:
  assumes "system_inv st" and "sy_client st = ClientIdle" and "sy_worker st = AtLoop \<or> (\<exists>d. sy_worker st = Waiting d)"
  shows "reaches (settled (latest st)) st"
  using assms
proof (induction "length (sy_channel st)" arbitrary: st rule: less_induct)
  case less
  have waiting: "reaches (settled (latest st)) st"
    if inv: "system_inv st" and client: "sy_client st = ClientIdle" and pc: "sy_worker st = Waiting d"
      and IH: "\<And>st'. length (sy_channel st') < length (sy_channel st) \<Longrightarrow> system_inv st' \<Longrightarrow> sy_client st' = ClientIdle
        \<Longrightarrow> sy_worker st' = AtLoop \<Longrightarrow> reaches (settled (latest st')) st'" for st d
  proof (cases "sy_channel st")
    case Nil
    then show ?thesis using settle_waiting_empty that by blast
  next
    case (Cons m ms)
    have m: "m = MailboxFilled"
      using system_invD(1) [OF inv] client Cons by (cases m) (auto simp: order_defs)
    let ?got = "st\<lparr>sy_worker := GotMessage m, sy_channel := ms\<rparr>"
    have inv1: "system_inv ?got" by (rule recv_inv [OF inv pc Cons])
    have inv2: "system_inv (?got\<lparr>sy_worker := AtLoop\<rparr>)" by (rule woken_inv [OF inv1]) (simp add: m)
    have "reaches (settled (latest st)) (?got\<lparr>sy_worker := AtLoop\<rparr>)"
      using IH [of "?got\<lparr>sy_worker := AtLoop\<rparr>", OF _ inv2] client Cons by simp
    then show ?thesis
      using reaches_step [OF worker_recv [OF pc Cons]] reaches_step [OF worker_woken [of ?got]] m by simp
  qed
  have IH: "reaches (settled (latest st')) st'"
    if "length (sy_channel st') < length (sy_channel st)" "system_inv st'" "sy_client st' = ClientIdle"
      "sy_worker st' = AtLoop" for st'
    using less.hyps that by blast
  show ?case
  proof (cases "sy_worker st = AtLoop")
    case True
    let ?look = "st\<lparr>sy_worker := Waiting (mailbox_deadline (sy_mailbox st) (sy_now st) (sy_writer st))\<rparr>"
    have "reaches (settled (latest ?look)) ?look"
      using waiting [of ?look] look_inv [OF less.prems(1) True] less.prems(2) IH by simp
    then show ?thesis using reaches_step [OF worker_look [OF True]] by simp
  next
    case False
    then obtain d where "sy_worker st = Waiting d" using less.prems(3) by blast
    then show ?thesis using waiting less.prems(1,2) IH by blast
  qed
qed

lemma settle_idle:
  assumes inv: "system_inv st" and client: "sy_client st = ClientIdle"
  shows "reaches (settled (latest st)) st"
proof (cases "sy_worker st")
  case (GotMessage m)
  then have m: "sy_worker st = GotMessage MailboxFilled"
    using system_invD(1) [OF inv] client by (cases m) (simp_all add: order_defs)
  have "reaches (settled (latest st)) (st\<lparr>sy_worker := AtLoop\<rparr>)"
    using settle_looping [OF woken_inv [OF inv m]] client by simp
  then show ?thesis by (rule reaches_step [OF worker_woken [OF m]])
next
  case (Writing k s)
  show ?thesis
  proof (cases "sy_mailbox st")
    case None
    then show ?thesis using settle_writing [OF system_invD(1) [OF inv]] client Writing by simp
  next
    case (Some x)
    then have k: "k \<noteq> ShutdownWrite" using system_invD(3) [OF inv] Writing by (auto simp: exit_ok_def)
    have "reaches (settled (latest st)) (finish_write NoFault k s st)"
      using settle_looping [OF write_inv [OF inv Writing, of NoFault]] client k by simp
    then show ?thesis by (rule reaches_step [OF worker_write [OF Writing]])
  qed
next
  case Exited
  then have "sy_mailbox st = None" using system_invD(3) [OF inv] by (auto simp: exit_ok_def)
  then show ?thesis using settled_without_mailbox [OF inv] client Exited by simp
qed (use settle_looping settle_flushing settle_shutting_down inv client in simp_all)

subsection \<open>The blocking call\<close>

definition answered :: "windows_state option \<Rightarrow> writer_system \<Rightarrow> bool" where
  "answered l st \<longleftrightarrow> sy_reply st \<noteq> None \<and> last_written st = l"

lemma not_shutting_down:
  assumes "system_inv st" and "sy_client st = AwaitingReply"
  shows "sy_worker st \<noteq> ShuttingDown" "sy_worker st \<noteq> Exited" "sy_worker st \<noteq> Writing ShutdownWrite s"
  using system_invD(3) [OF assms(1)] assms(2) by (auto simp: exit_ok_def)

lemma answer_serving:
  assumes inv: "system_inv st" and client: "sy_client st = AwaitingReply" and s: "serving (sy_worker st) = Some s"
  shows "reaches (answered (latest st)) st"
proof -
  have l: "latest st = Some s" using system_invD(1) [OF inv] client s by (auto simp: order_defs)
  have finish: "reaches (answered (Some s)) st'" if "sy_worker st' = Writing BlockingWrite s" for st'
    by (intro reaches_step [OF worker_write [OF that, of NoFault]] reaches_now) (simp add: answered_def)
  show ?thesis
  proof (cases "sy_worker st")
    case (GotMessage m)
    then have pc: "sy_worker st = GotMessage (Blocking s)" using s by (cases m) simp_all
    show ?thesis unfolding l by (intro reaches_step [OF worker_blocking [OF pc]] finish) simp
  next
    case (Writing k x)
    then show ?thesis using finish s l by (cases k) simp_all
  qed (use s in simp_all)
qed

lemma answer_looping:
  assumes "system_inv st" and "sy_client st = AwaitingReply" and "sy_worker st = AtLoop \<or> (\<exists>d. sy_worker st = Waiting d)"
  shows "reaches (answered (latest st)) st"
  using assms
proof (induction "length (sy_channel st)" arbitrary: st rule: less_induct)
  case less
  have waiting: "reaches (answered (latest st)) st"
    if inv: "system_inv st" and client: "sy_client st = AwaitingReply" and pc: "sy_worker st = Waiting d"
      and IH: "\<And>st'. length (sy_channel st') < length (sy_channel st) \<Longrightarrow> system_inv st' \<Longrightarrow> sy_client st' = AwaitingReply
        \<Longrightarrow> sy_worker st' = AtLoop \<Longrightarrow> reaches (answered (latest st')) st'" for st d
  proof (cases "sy_channel st")
    case Nil
    then have "answered (latest st) st"
      using system_invD(1) [OF inv] client pc by (auto simp: order_defs answered_def)
    then show ?thesis by (rule reaches_now)
  next
    case (Cons m ms)
    let ?got = "st\<lparr>sy_worker := GotMessage m, sy_channel := ms\<rparr>"
    have inv1: "system_inv ?got" by (rule recv_inv [OF inv pc Cons])
    note step = reaches_step [OF worker_recv [OF pc Cons]]
    show ?thesis
    proof (cases m)
      case (Blocking s)
      then have "reaches (answered (latest ?got)) ?got" using answer_serving [OF inv1] client by simp
      then show ?thesis using step by simp
    next
      case MailboxFilled
      have inv2: "system_inv (?got\<lparr>sy_worker := AtLoop\<rparr>)" by (rule woken_inv [OF inv1]) (simp add: MailboxFilled)
      have "reaches (answered (latest st)) (?got\<lparr>sy_worker := AtLoop\<rparr>)"
        using IH [of "?got\<lparr>sy_worker := AtLoop\<rparr>", OF _ inv2] client Cons by simp
      then show ?thesis using step reaches_step [OF worker_woken [of ?got]] MailboxFilled by simp
    qed
  qed
  have IH: "reaches (answered (latest st')) st'"
    if "length (sy_channel st') < length (sy_channel st)" "system_inv st'" "sy_client st' = AwaitingReply"
      "sy_worker st' = AtLoop" for st'
    using less.hyps that by blast
  show ?case
  proof (cases "sy_worker st = AtLoop")
    case True
    let ?look = "st\<lparr>sy_worker := Waiting (mailbox_deadline (sy_mailbox st) (sy_now st) (sy_writer st))\<rparr>"
    have "reaches (answered (latest ?look)) ?look"
      using waiting [of ?look] look_inv [OF less.prems(1) True] less.prems(2) IH by simp
    then show ?thesis using reaches_step [OF worker_look [OF True]] by simp
  next
    case False
    then obtain d where "sy_worker st = Waiting d" using less.prems(3) by blast
    then show ?thesis using waiting less.prems(1,2) IH by blast
  qed
qed

lemma answer_writing:
  assumes inv: "system_inv st" and client: "sy_client st = AwaitingReply" and pc: "sy_worker st = Writing k s"
  shows "reaches (answered (latest st)) st"
proof (cases "k = BlockingWrite")
  case True
  then show ?thesis using answer_serving [OF inv client] pc by simp
next
  case False
  have "k \<noteq> ShutdownWrite" using not_shutting_down(3) [OF inv client] pc by auto
  then have "reaches (answered (latest st)) (finish_write NoFault k s st)"
    using answer_looping [OF write_inv [OF inv pc, of NoFault]] client by simp
  then show ?thesis by (rule reaches_step [OF worker_write [OF pc]])
qed

lemma answer_call:
  assumes inv: "system_inv st" and client: "sy_client st = AwaitingReply"
  shows "reaches (answered (latest st)) st"
proof (cases "sy_worker st")
  case (GotMessage m)
  show ?thesis
  proof (cases m)
    case (Blocking s)
    then show ?thesis using answer_serving [OF inv client] GotMessage by simp
  next
    case MailboxFilled
    then have pc: "sy_worker st = GotMessage MailboxFilled" using GotMessage by simp
    have "reaches (answered (latest st)) (st\<lparr>sy_worker := AtLoop\<rparr>)"
      using answer_looping [OF woken_inv [OF inv pc]] client by simp
    then show ?thesis by (rule reaches_step [OF worker_woken [OF pc]])
  qed
next
  case Flushing
  let ?take = "take_mailbox ThrottledWrite AtLoop st"
  have inv': "system_inv ?take" by (rule flush_inv [OF inv Flushing])
  have "reaches (answered (latest ?take)) ?take"
  proof (cases "sy_mailbox st")
    case None
    then show ?thesis using answer_looping [OF inv'] client by (simp add: take_mailbox_def)
  next
    case (Some s)
    then show ?thesis using answer_writing [OF inv', of ThrottledWrite s] client by (simp add: take_mailbox_def)
  qed
  moreover have "latest ?take = latest st" by (simp add: take_mailbox_def)
  ultimately show ?thesis using reaches_step [OF worker_flush [OF Flushing]] by simp
qed (use answer_looping answer_writing inv client not_shutting_down [OF inv client] in simp_all)

lemma client_step_throttle: "client_step st st' \<Longrightarrow> wt_throttle (sy_writer st') = wt_throttle (sy_writer st)"
  by (induction rule: client_step.induct) (simp_all add: mailbox_put_def send_wakeup_def send_blocking_def)

lemma finish_write_throttle: "wt_throttle (sy_writer (finish_write fault k s st)) = wt_throttle (sy_writer st)"
  using writer_write_facts(2) by (auto simp: finish_write_def Let_def split: prod.splits)

lemma worker_step_throttle: "worker_step st st' \<Longrightarrow> wt_throttle (sy_writer st') = wt_throttle (sy_writer st)"
  by (induction rule: worker_step.induct) (simp_all add: take_mailbox_def finish_write_throttle)

lemma system_step_throttle: "system_step st st' \<Longrightarrow> wt_throttle (sy_writer st') = wt_throttle (sy_writer st)"
  using client_step_throttle worker_step_throttle by (auto simp: system_step_def)

section \<open>Properties\<close>

text \<open>C6: No save is lost. Whenever the user interface is not in the middle of a save and the writer thread
  has exited, or waits with nothing queued and no deadline, the last snapshot handed to the database is the
  last one requested, in every interleaving of the two threads.\<close>

theorem idle_writer_has_written_latest:
  assumes "system_step\<^sup>*\<^sup>* (initial_system throttle db now) st" and "sy_client st = ClientIdle"
    and "sy_worker st = Exited \<or> (sy_worker st = Waiting None \<and> sy_channel st = [])"
  shows "last_written st = latest st"
proof -
  have inv: "system_inv st" using system_steps_inv [OF assms(1) initial_inv] .
  have "sy_mailbox st = None"
    using system_invD(2,3) [OF inv] assms(2,3) by (auto simp: wake_ok_def exit_ok_def)
  then show ?thesis using system_invD(1) [OF inv] assms(2,3) by (auto simp: order_defs)
qed

text \<open>A run: the thread waits, a snapshot is put and the wake-up sent, the thread gets it and looks again, the
  handle is dropped, the thread shuts down and writes.\<close>

lemma sample_run_steps: "\<exists>st. system_step\<^sup>*\<^sup>* (initial_system SAVE_THROTTLE None 0) st
    \<and> sy_client st = ClientIdle \<and> sy_worker st = Exited \<and> latest st = Some []"
proof -
  define s0 where "s0 = initial_system SAVE_THROTTLE None 0"
  define p where "p = mailbox_put [] s0"
  define n where "n = send_wakeup p"
  define d where "d = n\<lparr>sy_dropped := True\<rparr>"
  define a where "a = d\<lparr>sy_worker := Waiting (Some 0)\<rparr>"
  define b where "b = a\<lparr>sy_worker := GotMessage MailboxFilled, sy_channel := []\<rparr>"
  define c where "c = b\<lparr>sy_worker := AtLoop\<rparr>"
  define e where "e = c\<lparr>sy_worker := Waiting (Some 0)\<rparr>"
  define f where "f = e\<lparr>sy_worker := ShuttingDown\<rparr>"
  define g where "g = take_mailbox ShutdownWrite Exited f"
  define h where "h = finish_write NoFault ShutdownWrite [] g"
  note defs = s0_def p_def n_def d_def a_def b_def c_def e_def f_def g_def
  have "system_step s0 p"
    unfolding system_step_def p_def by (intro disjI1 client_put) (simp_all add: s0_def initial_system_def)
  moreover have "system_step p n"
    unfolding system_step_def n_def by (intro disjI1 client_notify) (simp add: p_def mailbox_put_def)
  moreover have "system_step n d"
    unfolding system_step_def d_def
    by (intro disjI1 client_drop) (simp add: defs send_wakeup_def mailbox_put_def initial_system_def CHANNEL_CAPACITY_def)
  moreover have "system_step d a"
    using worker_look [of d]
    by (simp add: system_step_def defs send_wakeup_def mailbox_put_def initial_system_def CHANNEL_CAPACITY_def
        mailbox_deadline_def new_writer_def)
  moreover have "system_step a b"
    unfolding system_step_def b_def
    by (intro disjI2 worker_recv) (simp_all add: defs send_wakeup_def mailbox_put_def initial_system_def CHANNEL_CAPACITY_def)
  moreover have "system_step b c"
    unfolding system_step_def c_def by (intro disjI2 worker_woken) (simp add: b_def)
  moreover have "system_step c e"
    using worker_look [of c]
    by (simp add: system_step_def defs send_wakeup_def mailbox_put_def initial_system_def CHANNEL_CAPACITY_def
        mailbox_deadline_def new_writer_def)
  moreover have "system_step e f"
    unfolding system_step_def f_def by (intro disjI2 worker_disconnected) (simp_all add: e_def c_def b_def a_def d_def)
  moreover have "system_step f g"
    unfolding system_step_def g_def by (intro disjI2 worker_shut_down) (simp add: f_def)
  moreover have "system_step g h"
    unfolding system_step_def h_def
    by (intro disjI2 worker_write)
      (simp add: defs take_mailbox_def send_wakeup_def mailbox_put_def initial_system_def CHANNEL_CAPACITY_def)
  ultimately have "system_step\<^sup>*\<^sup>* s0 h" by (meson converse_rtranclp_into_rtranclp rtranclp.rtrancl_refl)
  moreover have "sy_client h = ClientIdle" "sy_worker h = Exited" "latest h = Some []"
    by (simp_all add: h_def defs take_mailbox_def send_wakeup_def mailbox_put_def initial_system_def
        CHANNEL_CAPACITY_def) (simp add: latest_def)
  ultimately show ?thesis unfolding s0_def by blast
qed

lemma idle_writer_has_written_latest_witness:
  "\<exists>st. sy_worker st = Exited \<and> latest st = Some [] \<and> last_written st = Some []"
proof -
  obtain st where "system_step\<^sup>*\<^sup>* (initial_system SAVE_THROTTLE None 0) st" "sy_client st = ClientIdle"
    "sy_worker st = Exited" "latest st = Some []" using sample_run_steps by blast
  then show ?thesis using idle_writer_has_written_latest [of SAVE_THROTTLE None 0 st] by auto
qed

text \<open>C20: A save always gets done. From every reachable state the writer thread alone, given time, gets to
  a state where the last requested snapshot was handed to the database, and a caller that waits for a
  blocking save finds its reply there.\<close>

theorem requested_save_gets_written:
  assumes "system_step\<^sup>*\<^sup>* (initial_system throttle db now) st" and "sy_client st \<noteq> Notifying"
  shows "\<exists>st'. worker_step\<^sup>*\<^sup>* st st' \<and> last_written st' = latest st
           \<and> (sy_client st = AwaitingReply \<longrightarrow> sy_reply st' \<noteq> None)"
proof -
  have inv: "system_inv st" using system_steps_inv [OF assms(1) initial_inv] .
  show ?thesis
  proof (cases "sy_client st")
    case ClientIdle
    then show ?thesis using settle_idle [OF inv] by (auto simp: reaches_def settled_def)
  next
    case AwaitingReply
    then show ?thesis using answer_call [OF inv] by (auto simp: reaches_def answered_def)
  qed (use assms(2) in simp)
qed

lemma requested_save_gets_written_witness:
  "\<exists>st'. worker_step\<^sup>*\<^sup>* (send_blocking [] (initial_system SAVE_THROTTLE None 0)) st'
     \<and> last_written st' = Some [] \<and> sy_reply st' \<noteq> None"
proof -
  let ?st = "send_blocking [] (initial_system SAVE_THROTTLE None 0)"
  have "system_step (initial_system SAVE_THROTTLE None 0) ?st"
    unfolding system_step_def
    by (intro disjI1 client_block) (simp_all add: initial_system_def CHANNEL_CAPACITY_def)
  then have "system_step\<^sup>*\<^sup>* (initial_system SAVE_THROTTLE None 0) ?st" by blast
  moreover have "sy_client ?st = AwaitingReply" "latest ?st = Some []" by (simp_all add: send_blocking_def)
  ultimately show ?thesis using requested_save_gets_written [of SAVE_THROTTLE None 0 ?st] by auto
qed

text \<open>C26: The throttle: in every run, a write that no caller waits for comes at least the throttle delay
  after the write before it; and the channel never holds more than its capacity.\<close>

theorem background_writes_are_throttled:
  assumes "system_step\<^sup>*\<^sup>* (initial_system throttle db now) st"
  shows "spaced throttle (sy_history st) \<and> length (sy_channel st) \<le> CHANNEL_CAPACITY"
proof -
  have inv: "system_inv st" using system_steps_inv [OF assms initial_inv] .
  have "wt_throttle (sy_writer st) = throttle"
    using assms
  proof (induction rule: rtranclp_induct)
    case base
    then show ?case by (simp add: initial_system_def new_writer_def)
  next
    case (step y z)
    then show ?case using system_step_throttle by metis
  qed
  then show ?thesis using inv by (auto simp: system_inv_def throttle_ok_def)
qed

lemma background_writes_are_throttled_witness:
  "\<exists>st :: writer_system. sy_worker st = Exited \<and> spaced SAVE_THROTTLE (sy_history st)"
proof -
  obtain st where run: "system_step\<^sup>*\<^sup>* (initial_system SAVE_THROTTLE None 0) st" and ex: "sy_worker st = Exited"
    using sample_run_steps by blast
  show ?thesis
    by (intro exI [of _ st] conjI ex conjunct1 [OF background_writes_are_throttled [OF run]])
qed

end
