(* ===== verification/File_Watch.thy ===== *)
theory File_Watch
  imports Tabs Encoding
begin

text \<open>
  The file watcher, \<^verbatim>\<open>src/fulgur/files/file_watcher/\<close>: translating the notifications of the system into
  events (\<open>watch_channel\<close>: the queue of the channel and the pending half of a rename), suppressing the echoes
  of the program's own saves, and what an event does to the tabs of the window; the conflict dialog of
  \<^verbatim>\<open>src/fulgur/ui/dialogs/file_watcher.rs\<close> and the reload of \<^verbatim>\<open>open_ops/reload.rs\<close>.

  Instants are numbers of milliseconds. Whether the channel takes an event is the answer \<open>accepts\<close> of the
  channel, as its capacity depends on the number of its senders. A reload runs in the background: the
  request is the effect \<open>ReloadFrom\<close>, and \<open>apply_reloaded_contents\<close> is what happens when the file has been read.
\<close>

section \<open>From notifications to events\<close>

datatype rename_mode = RenameFrom | RenameTo | RenameBoth | RenameAny | RenameOther

datatype notify_kind =
    ModifyName rename_mode
  | ModifyOther
  | CreateAny
  | RemoveAny
  | OtherKind

record notify_event =
  ne_kind :: notify_kind
  ne_paths :: "rstr list"

datatype file_watch_event =
    EvModified rstr
  | EvDeleted rstr
  | EvRenamed rstr rstr
  | EvError string

definition PENDING_RENAME_TIMEOUT :: nat where "PENDING_RENAME_TIMEOUT = 500"

record watch_channel =
  wc_queue :: "file_watch_event list"
  wc_pending :: "(rstr \<times> nat) option"

definition send_event ::
  "(file_watch_event list \<Rightarrow> bool) \<Rightarrow> file_watch_event \<Rightarrow> watch_channel \<Rightarrow> watch_channel" where
  "send_event accepts ev ch =
     (if accepts (wc_queue ch) then ch\<lparr>wc_queue := wc_queue ch @ [ev]\<rparr> else ch)"

definition expire_pending_rename_from ::
  "(file_watch_event list \<Rightarrow> bool) \<Rightarrow> nat \<Rightarrow> watch_channel \<Rightarrow> watch_channel" where
  "expire_pending_rename_from accepts now ch =
     (case wc_pending ch of
        Some (p, stored_at) \<Rightarrow>
          if PENDING_RENAME_TIMEOUT \<le> now - stored_at
          then send_event accepts (EvDeleted p) (ch\<lparr>wc_pending := None\<rparr>) else ch
      | None \<Rightarrow> ch)"

definition handle_single_rename ::
  "(file_watch_event list \<Rightarrow> bool) \<Rightarrow> nat \<Rightarrow> rename_mode \<Rightarrow> rstr \<Rightarrow> watch_channel \<Rightarrow> watch_channel" where
  "handle_single_rename accepts now mode p ch =
     (case mode of
        RenameFrom \<Rightarrow> ch\<lparr>wc_pending := Some (p, now)\<rparr>
      | RenameTo \<Rightarrow>
          (case wc_pending ch of
             Some (from, _) \<Rightarrow> send_event accepts (EvRenamed from p) (ch\<lparr>wc_pending := None\<rparr>)
           | None \<Rightarrow> send_event accepts (EvModified p) ch)
      | _ \<Rightarrow>
          (let ch1 = (case wc_pending ch of
                        Some (stale, _) \<Rightarrow> send_event accepts (EvDeleted stale) (ch\<lparr>wc_pending := None\<rparr>)
                      | None \<Rightarrow> ch)
           in if mode = RenameAny then send_event accepts (EvDeleted p) ch1 else ch1))"

definition handle_notify_event ::
  "(file_watch_event list \<Rightarrow> bool) \<Rightarrow> nat \<Rightarrow> notify_event \<Rightarrow> watch_channel \<Rightarrow> watch_channel" where
  "handle_notify_event accepts now ev ch0 =
     (let ch = expire_pending_rename_from accepts now ch0 in
      (case ne_kind ev of
         ModifyName mode \<Rightarrow>
           (case ne_paths ev of
              [from, to] \<Rightarrow> send_event accepts (EvRenamed from to) ch
            | [p] \<Rightarrow> handle_single_rename accepts now mode p ch
            | _ \<Rightarrow> ch)
       | ModifyOther \<Rightarrow> fold (\<lambda>p. send_event accepts (EvModified p)) (ne_paths ev) ch
       | CreateAny \<Rightarrow> fold (\<lambda>p. send_event accepts (EvModified p)) (ne_paths ev) ch
       | RemoveAny \<Rightarrow> fold (\<lambda>p. send_event accepts (EvDeleted p)) (ne_paths ev) ch
       | OtherKind \<Rightarrow> ch))"

section \<open>Suppression\<close>

definition FILE_WATCH_DEBOUNCE :: nat where "FILE_WATCH_DEBOUNCE = 500"

definition recently :: "nat \<Rightarrow> nat option \<Rightarrow> bool" where
  "recently now seen = (case seen of Some t \<Rightarrow> now - t < FILE_WATCH_DEBOUNCE | None \<Rightarrow> False)"

definition upd_watch :: "(file_watch_state \<Rightarrow> file_watch_state) \<Rightarrow> fulgur \<Rightarrow> fulgur" where
  "upd_watch f st = st\<lparr>fg_watch := f (fg_watch st)\<rparr>"

definition note_event :: "nat \<Rightarrow> rstr \<Rightarrow> fulgur \<Rightarrow> fulgur" where
  "note_event now p = upd_watch (\<lambda>w. w\<lparr>fw_last_file_events := (fw_last_file_events w)(p \<mapsto> now)\<rparr>)"

definition note_save :: "nat \<Rightarrow> rstr \<Rightarrow> fulgur \<Rightarrow> fulgur" where
  "note_save now p = upd_watch (\<lambda>w. w\<lparr>fw_last_file_saves := (fw_last_file_saves w)(p \<mapsto> now)\<rparr>)"

definition should_suppress_file_watch_event :: "nat \<Rightarrow> rstr \<Rightarrow> fulgur \<Rightarrow> bool \<times> fulgur" where
  "should_suppress_file_watch_event now p st =
     (if recently now (fw_last_file_events (fg_watch st) p) then (True, st)
      else if recently now (fw_last_file_saves (fg_watch st) p) then (True, st)
      else if p \<in> ran (fg_inflight_saves st) then (True, st)
      else (False, note_event now p st))"

definition clear_file_watch_bookkeeping :: "fulgur \<Rightarrow> fulgur" where
  "clear_file_watch_bookkeeping =
     upd_watch (\<lambda>w. w\<lparr>fw_last_file_events := Map.empty, fw_last_file_saves := Map.empty,
                      fw_pending_conflicts := Map.empty\<rparr>)"

section \<open>Reloading\<close>

definition reload_tab_from_disk :: "nat \<Rightarrow> fulgur \<Rightarrow> fulgur" where
  "reload_tab_from_disk index st =
     (case Option.bind (Option.bind (nth_opt (fg_tabs st) index) as_editor) file_path of
        None \<Rightarrow> st
      | Some p \<Rightarrow> emit (ReloadFrom p) st)"

text \<open>What the editor component answers: where the cursor is after the text was set, and the byte offset of
  a position and back. The cursor is restored as an offset.\<close>

record input_env =
  ie_after_set :: "rstr \<Rightarrow> position_lc \<Rightarrow> position_lc"
  ie_offset :: "rstr \<Rightarrow> position_lc \<Rightarrow> nat"
  ie_position :: "rstr \<Rightarrow> nat \<Rightarrow> position_lc"

definition reloaded_editor :: "input_env \<Rightarrow> nat \<Rightarrow> decoded_contents \<Rightarrow> editor_tab \<Rightarrow> editor_tab" where
  "reloaded_editor ie now decoded e =
     (let e1 = e\<lparr>et_content := (et_content e)
                  \<lparr>es_text := dc_content decoded,
                   es_cursor := ie_after_set ie (dc_content decoded) (es_cursor (et_content e))\<rparr>\<rparr>;
          e2 = set_original_content_from_str (dc_content decoded) e1
      in update_file_tooltip_cache now (dc_byte_len decoded)
           (e2\<lparr>et_encoding := dc_encoding decoded, et_lossy_decode := dc_lossy decoded, et_modified := False\<rparr>))"

definition restore_cursor :: "input_env \<Rightarrow> nat \<Rightarrow> tab \<Rightarrow> tab" where
  "restore_cursor ie cursor t =
     (case t of
        TabEditor e \<Rightarrow>
          TabEditor (e\<lparr>et_content := (et_content e)
                        \<lparr>es_cursor := ie_position ie (es_text (et_content e)) cursor\<rparr>\<rparr>)
      | TabSettings s \<Rightarrow> t
      | TabPreview p \<Rightarrow> t)"

definition reloaded_tab ::
  "app_env \<Rightarrow> input_env \<Rightarrow> nat \<Rightarrow> nat \<Rightarrow> editor_settings \<Rightarrow> decoded_contents \<Rightarrow> tab \<Rightarrow> tab" where
  "reloaded_tab env ie fresh now settings decoded t =
     (case t of
        TabEditor e \<Rightarrow>
          restore_cursor ie (ie_offset ie (es_text (et_content e)) (es_cursor (et_content e)))
            (fst (tab_update_language (ae_langs env) (ae_clip env) fresh settings
                    (TabEditor (reloaded_editor ie now decoded e))))
      | TabSettings s \<Rightarrow> t
      | TabPreview p \<Rightarrow> t)"

definition apply_reloaded_contents :: "app_env \<Rightarrow> input_env \<Rightarrow> nat \<Rightarrow> rstr \<Rightarrow> decoded_contents \<Rightarrow> fulgur \<Rightarrow> fulgur" where
  "apply_reloaded_contents env ie now p decoded st0 =
     (case find_tab_by_path p st0 of
        None \<Rightarrow> st0
      | Some k \<Rightarrow>
          let (fresh, st) = take_fresh st0 in
          st\<lparr>fg_tabs := (fg_tabs st)[k := reloaded_tab env ie fresh now (fg_settings st) decoded (fg_tabs st ! k)]\<rparr>)"

definition reload_watched_tab_by_id :: "nat \<Rightarrow> rstr \<Rightarrow> fulgur \<Rightarrow> fulgur" where
  "reload_watched_tab_by_id i p st =
     (case tab_index_of i st of
        None \<Rightarrow> st
      | Some k \<Rightarrow>
          if Option.bind (Option.bind (nth_opt (fg_tabs st) k) as_editor) file_path = Some p
          then reload_tab_from_disk k st else st)"

text \<open>The buttons of the conflict dialog: both close it, and loading the file comes first.\<close>

definition close_conflict_dialog :: "rstr \<Rightarrow> fulgur \<Rightarrow> fulgur" where
  "close_conflict_dialog p =
     upd_watch (\<lambda>w. w\<lparr>fw_open_conflict_dialogs := fw_open_conflict_dialogs w - {p}\<rparr>)"

definition answer_conflict_dialog :: "bool \<Rightarrow> rstr \<Rightarrow> nat \<Rightarrow> fulgur \<Rightarrow> fulgur" where
  "answer_conflict_dialog load p i st =
     close_conflict_dialog p (if load then reload_watched_tab_by_id i p st else st)"

section \<open>What an event does\<close>

text \<open>\<open>we_relink\<close> tells whether the program was built for neither macOS nor Windows; \<open>we_now\<close> is the clock at
  the test for suppression and \<open>we_after\<close> at the insertion that follows a re-watch.\<close>

record watch_env =
  we_app :: app_env
  we_now :: nat
  we_after :: nat
  we_exists :: "rstr \<Rightarrow> bool"
  we_relink :: bool

definition apply_external_modification :: "rstr \<Rightarrow> fulgur \<Rightarrow> fulgur" where
  "apply_external_modification p st =
     (case find_tab_by_path p st of
        None \<Rightarrow> st
      | Some k \<Rightarrow>
          (case Option.bind (nth_opt (fg_tabs st) k) as_editor of
             None \<Rightarrow> st
           | Some e \<Rightarrow>
               if et_modified e then
                 if active_tab_index st = Some k then show_file_conflict_dialog p (et_id e) st
                 else upd_watch (\<lambda>w. w\<lparr>fw_pending_conflicts := (fw_pending_conflicts w)(p \<mapsto> k)\<rparr>) st
               else emit (NotifyReloaded p) (reload_tab_from_disk k st)))"

definition set_modified :: "tab \<Rightarrow> tab" where
  "set_modified t =
     (case t of TabEditor e \<Rightarrow> TabEditor (e\<lparr>et_modified := True\<rparr>) | TabSettings s \<Rightarrow> t | TabPreview p \<Rightarrow> t)"

definition mark_tab_deleted_externally :: "rstr \<Rightarrow> fulgur \<Rightarrow> fulgur" where
  "mark_tab_deleted_externally p st0 =
     (let st = upd_watch (\<lambda>w. w\<lparr>fw_pending_conflicts := (fw_pending_conflicts w)(p := None)\<rparr>) st0 in
      (case find_tab_by_path p st of
         None \<Rightarrow> st
       | Some k \<Rightarrow> st\<lparr>fg_tabs := (fg_tabs st)[k := set_modified (fg_tabs st ! k)]\<rparr>))"

definition relocate :: "rstr \<Rightarrow> tab \<Rightarrow> tab" where
  "relocate to t =
     (case t of
        TabEditor e \<Rightarrow>
          TabEditor (e\<lparr>et_location := LocLocal to,
                       et_title := (case path_file_name to of Some n \<Rightarrow> n | None \<Rightarrow> UNTITLED)\<rparr>)
      | TabSettings s \<Rightarrow> t
      | TabPreview p \<Rightarrow> t)"

definition handle_deleted :: "watch_env \<Rightarrow> rstr \<Rightarrow> fulgur \<Rightarrow> fulgur" where
  "handle_deleted we p st =
     (if we_exists we p then
        apply_external_modification p
          (if we_relink we
           then note_event (we_after we) p (watch_file (we_app we) p (unwatch_file p st)) else st)
      else emit (NotifyDeleted p) (mark_tab_deleted_externally p st))"

definition handle_renamed :: "watch_env \<Rightarrow> rstr \<Rightarrow> rstr \<Rightarrow> fulgur \<Rightarrow> fulgur" where
  "handle_renamed we from to st0 =
     (case find_tab_by_path from st0 of
        None \<Rightarrow> st0
      | Some k \<Rightarrow>
          let st = watch_file (we_app we) to (unwatch_file from st0) in
          emit (NotifyRenamed from to) (st\<lparr>fg_tabs := (fg_tabs st)[k := relocate to (fg_tabs st ! k)]\<rparr>))"

definition unless_suppressed :: "nat \<Rightarrow> rstr \<Rightarrow> (fulgur \<Rightarrow> fulgur) \<Rightarrow> fulgur \<Rightarrow> fulgur" where
  "unless_suppressed now p f st =
     (let (suppressed, st') = should_suppress_file_watch_event now p st in if suppressed then st' else f st')"

fun handle_file_watch_event :: "watch_env \<Rightarrow> file_watch_event \<Rightarrow> fulgur \<Rightarrow> fulgur" where
  "handle_file_watch_event we (EvModified p) st =
     unless_suppressed (we_now we) p (apply_external_modification p) st"
| "handle_file_watch_event we (EvDeleted p) st = unless_suppressed (we_now we) p (handle_deleted we p) st"
| "handle_file_watch_event we (EvRenamed from to) st =
     unless_suppressed (we_now we) from (handle_renamed we from to) st"
| "handle_file_watch_event we (EvError msg) st = st"

section \<open>Starting, stopping and the consumer\<close>

definition editor_paths :: "fulgur \<Rightarrow> rstr list" where
  "editor_paths st = List.map_filter (\<lambda>t. Option.bind (as_editor t) file_path) (fg_tabs st)"

text \<open>A watcher that was running is dropped, which stops it, when the new one replaces it.\<close>

definition start_file_watcher :: "bool \<Rightarrow> app_env \<Rightarrow> fulgur \<Rightarrow> fulgur" where
  "start_file_watcher can_start env st =
     (if can_start then
        fold (watch_file env) (editor_paths st) (upd_watch (\<lambda>w. w\<lparr>fw_watched := Some []\<rparr>) st)
      else st)"

definition stop_file_watcher :: "fulgur \<Rightarrow> fulgur" where
  "stop_file_watcher st = clear_file_watch_bookkeeping (upd_watch (\<lambda>w. w\<lparr>fw_watched := None\<rparr>) st)"

text \<open>The steps of the watcher and its consumer: a notification arrives, the timer of a pending rename
  fires, or the consumer takes the next event and gives it to the window.\<close>

inductive watch_step ::
  "(file_watch_event list \<Rightarrow> bool) \<Rightarrow> watch_channel \<times> fulgur \<Rightarrow> watch_channel \<times> fulgur \<Rightarrow> bool" for accepts where
  notified: "watch_step accepts (ch, st) (handle_notify_event accepts now ev ch, st)"
| timer: "wc_pending ch \<noteq> None \<Longrightarrow> watch_step accepts (ch, st) (expire_pending_rename_from accepts now ch, st)"
| delivered: "wc_queue ch = ev # evs \<Longrightarrow>
    watch_step accepts (ch, st) (ch\<lparr>wc_queue := evs\<rparr>, handle_file_watch_event we ev st)"

inductive_cases watch_stepE: "watch_step accepts (ch, st) (ch', st')"

section \<open>Frame facts\<close>

lemma upd_watch_frame [simp]:
  "fg_tabs (upd_watch f st) = fg_tabs st" "fg_active (upd_watch f st) = fg_active st"
  "fg_next_tab_id (upd_watch f st) = fg_next_tab_id st" "fg_effects (upd_watch f st) = fg_effects st"
  "fg_inflight_saves (upd_watch f st) = fg_inflight_saves st" "fg_watch (upd_watch f st) = f (fg_watch st)"
  by (simp_all add: upd_watch_def)

lemma watch_effects [simp]:
  "fg_effects (watch_file env p st) = fg_effects st" "fg_effects (unwatch_file p st) = fg_effects st"
  "fg_inflight_saves (watch_file env p st) = fg_inflight_saves st"
  "fg_inflight_saves (unwatch_file p st) = fg_inflight_saves st"
  by (simp_all add: watch_file_def unwatch_file_def prune_file_watch_bookkeeping_for_path_def split: option.splits)

lemma note_frame [simp]:
  "fg_tabs (note_event now p st) = fg_tabs st" "fg_active (note_event now p st) = fg_active st"
  "fg_effects (note_event now p st) = fg_effects st" "fg_next_tab_id (note_event now p st) = fg_next_tab_id st"
  "fg_tabs (note_save now p st) = fg_tabs st" "fg_active (note_save now p st) = fg_active st"
  "fg_effects (note_save now p st) = fg_effects st" "fg_next_tab_id (note_save now p st) = fg_next_tab_id st"
  by (simp_all add: note_event_def note_save_def)

lemma effects_emit [simp]: "fg_effects (emit e st) = fg_effects st @ [e]" "fg_watch (emit e st) = fg_watch st"
  by (simp_all add: emit_def)

lemma suppress_frame [simp]:
  "fg_tabs (snd (should_suppress_file_watch_event now p st)) = fg_tabs st"
  "fg_active (snd (should_suppress_file_watch_event now p st)) = fg_active st"
  by (simp_all add: should_suppress_file_watch_event_def)

lemma path_lookup_frame:
  "fg_tabs st' = fg_tabs st \<Longrightarrow> find_tab_by_path p st' = find_tab_by_path p st"
  by (simp add: find_tab_by_path_def)

lemma active_index_frame:
  "fg_tabs st' = fg_tabs st \<Longrightarrow> fg_active st' = fg_active st \<Longrightarrow> active_tab_index st' = active_tab_index st"
  by (simp add: active_tab_index_def tab_index_of_def cong: option.case_cong)

lemma find_tab_by_path_Some:
  assumes "find_tab_by_path p st = Some k"
  obtains e where "k < length (fg_tabs st)" "fg_tabs st ! k = TabEditor e" "file_path e = Some p"
proof -
  have "k < length (fg_tabs st)" "case fg_tabs st ! k of TabEditor e \<Rightarrow> file_path e = Some p | _ \<Rightarrow> False"
    using position_Some assms by (auto simp: find_tab_by_path_def)
  then show thesis using that by (cases "fg_tabs st ! k") auto
qed

text \<open>What one editor tab looks like to its user, and the tabs that may only gain the modified mark.\<close>

definition tab_text :: "tab \<Rightarrow> rstr option" where
  "tab_text t = map_option (\<lambda>e. es_text (et_content e)) (as_editor t)"

definition texts_kept :: "tab list \<Rightarrow> tab list \<Rightarrow> bool" where
  "texts_kept ts ts' \<longleftrightarrow>
     list_all2 (\<lambda>t t'. tab_id t' = tab_id t \<and> tab_text t' = tab_text t \<and> (tab_is_modified t \<longrightarrow> tab_is_modified t')) ts ts'"

lemma texts_kept_refl [simp]: "texts_kept ts ts"
  by (simp add: texts_kept_def list_all2_refl)

lemma texts_kept_trans: "texts_kept a b \<Longrightarrow> texts_kept b c \<Longrightarrow> texts_kept a c"
  by (auto simp: texts_kept_def list_all2_conv_all_nth)

lemma texts_kept_update:
  assumes "tab_id t' = tab_id (ts ! k)" "tab_text t' = tab_text (ts ! k)"
    "tab_is_modified (ts ! k) \<Longrightarrow> tab_is_modified t'"
  shows "texts_kept ts (ts[k := t'])"
  using assms by (cases "k < length ts") (auto simp: texts_kept_def list_all2_conv_all_nth nth_list_update)

lemma set_modified_facts [simp]:
  "tab_id (set_modified t) = tab_id t" "tab_text (set_modified t) = tab_text t"
  "tab_is_modified t \<Longrightarrow> tab_is_modified (set_modified t)"
  by (cases t; simp add: set_modified_def tab_text_def)+

lemma relocate_facts [simp]:
  "tab_id (relocate to t) = tab_id t" "tab_text (relocate to t) = tab_text t"
  "tab_is_modified (relocate to t) = tab_is_modified t"
  by (cases t; simp add: relocate_def tab_text_def)+

lemma reload_request_tabs [simp]: "fg_tabs (reload_tab_from_disk k st) = fg_tabs st"
  by (simp add: reload_tab_from_disk_def split: option.splits)

lemma external_modification_tabs [simp]: "fg_tabs (apply_external_modification p st) = fg_tabs st"
  by (simp add: apply_external_modification_def split: option.splits)

lemma handled_event_keeps_texts: "texts_kept (fg_tabs st) (fg_tabs (handle_file_watch_event we ev st))"
proof (cases ev)
  case (EvDeleted p)
  have "texts_kept (fg_tabs s) (fg_tabs (handle_deleted we p s))" for s
    by (auto simp: handle_deleted_def mark_tab_deleted_externally_def Let_def intro!: texts_kept_update
        split: option.splits)
  from this [of "note_event (we_now we) p st"] show ?thesis
    using EvDeleted by (auto simp: unless_suppressed_def should_suppress_file_watch_event_def)
next
  case (EvRenamed p q)
  have "texts_kept (fg_tabs s) (fg_tabs (handle_renamed we p q s))" for s
    by (auto simp: handle_renamed_def Let_def intro!: texts_kept_update split: option.splits)
  from this [of "note_event (we_now we) p st"] show ?thesis
    using EvRenamed by (auto simp: unless_suppressed_def should_suppress_file_watch_event_def)
qed (auto simp: unless_suppressed_def should_suppress_file_watch_event_def)

section \<open>Properties\<close>


lemma dialogs_emit [simp]:
  "fw_open_conflict_dialogs (fg_watch (focus_active_tab st)) = fw_open_conflict_dialogs (fg_watch st)"
  "fw_open_conflict_dialogs (fg_watch (reload_pending_remote t st)) = fw_open_conflict_dialogs (fg_watch st)"
  "fw_open_conflict_dialogs (fg_watch (resume_if_log t st)) = fw_open_conflict_dialogs (fg_watch st)"
  "fg_watch (stop_log_poll_task i st) = fg_watch st"
  by (auto simp: focus_active_tab_def reload_pending_remote_def resume_if_log_def resume_log_view_def
      start_log_poll_task_def stop_log_poll_task_def split: option.splits tab_location.splits)

lemma dialog_opened [simp]: "p \<in> fw_open_conflict_dialogs (fg_watch (show_file_conflict_dialog p i st))"
  by (simp add: show_file_conflict_dialog_def)

lemma dialogs_grow:
  "fw_open_conflict_dialogs (fg_watch st) \<subseteq> fw_open_conflict_dialogs (fg_watch (show_file_conflict_dialog q i st))"
  "fw_open_conflict_dialogs (fg_watch st) \<subseteq> fw_open_conflict_dialogs (fg_watch (show_pending_conflict t st))"
  by (auto simp: show_file_conflict_dialog_def show_pending_conflict_def split: option.splits)

lemma activation_shows_conflict:
  assumes "k < length (fg_tabs st)" "as_editor (fg_tabs st ! k) = Some e" "file_path e = Some p"
    and "p \<in> fw_open_conflict_dialogs (fg_watch st) \<or> fw_pending_conflicts (fg_watch st) p \<noteq> None"
  shows "p \<in> fw_open_conflict_dialogs (fg_watch (set_active_tab k st))"
proof -
  have "p \<in> fw_open_conflict_dialogs (fg_watch (show_pending_conflict (fg_tabs st ! k) s))"
    if "fg_watch s = fg_watch st" for s
    using assms that dialogs_grow(2) [of s "fg_tabs st ! k"] by (auto simp: show_pending_conflict_def)
  then show ?thesis using assms(1) by (simp add: set_active_tab_def Let_def split: option.splits)
qed

definition requested_reloads :: "fulgur \<Rightarrow> rstr list" where
  "requested_reloads st = List.map_filter (\<lambda>e. case e of ReloadFrom p \<Rightarrow> Some p | _ \<Rightarrow> None) (fg_effects st)"

lemma requested_reloads_emit:
  "requested_reloads (emit e st) = requested_reloads st @ (case e of ReloadFrom p \<Rightarrow> [p] | _ \<Rightarrow> [])"
  by (simp add: requested_reloads_def List.map_filter_def split: app_effect.splits)

lemma requested_reloads_cong: "fg_effects st' = fg_effects st \<Longrightarrow> requested_reloads st' = requested_reloads st"
  by (simp add: requested_reloads_def)

lemma requested_reloads_dialog [simp]:
  "requested_reloads (show_file_conflict_dialog p i st) = requested_reloads st"
  by (auto simp: show_file_conflict_dialog_def requested_reloads_emit intro: requested_reloads_cong)

lemma requested_reloads_parts [simp]:
  "requested_reloads (focus_active_tab st) = requested_reloads st"
  "requested_reloads (stop_log_poll_task i st) = requested_reloads st"
  "requested_reloads (resume_if_log t st) = requested_reloads st"
  "requested_reloads (reload_pending_remote t st) = requested_reloads st"
  "requested_reloads (st\<lparr>fg_active := a\<rparr>) = requested_reloads st"
  "requested_reloads (st\<lparr>fg_watch := w\<rparr>) = requested_reloads st"
  by (auto simp: focus_active_tab_def stop_log_poll_task_def resume_if_log_def resume_log_view_def
      start_log_poll_task_def reload_pending_remote_def requested_reloads_emit
      intro: requested_reloads_cong split: option.splits tab_location.splits)

lemma requested_reloads_pending [simp]: "requested_reloads (show_pending_conflict t st) = requested_reloads st"
  by (simp add: show_pending_conflict_def split: option.splits)

lemma requested_reloads_activation [simp]: "requested_reloads (set_active_tab k st) = requested_reloads st"
  by (simp add: set_active_tab_def Let_def requested_reloads_emit split: option.splits)

definition watched_path :: rstr where
  "watched_path = lit ''/a''"

definition watched_tab :: "bool \<Rightarrow> editor_tab" where
  "watched_tab m = (sample_tab 0)\<lparr>et_location := LocLocal watched_path, et_modified := m\<rparr>"

definition watched_window :: "bool \<Rightarrow> fulgur" where
  "watched_window m = (empty_window sample_settings)\<lparr>fg_tabs := [TabEditor (watched_tab m)], fg_active := Some 0\<rparr>"

definition sample_watch :: watch_env where
  "sample_watch = \<lparr>we_app = sample_app, we_now = 1000, we_after = 1000, we_exists = (\<lambda>_. False), we_relink = True\<rparr>"

lemma watched_tab_facts [simp]:
  "et_id (watched_tab m) = 0" "file_path (watched_tab m) = Some watched_path" "et_modified (watched_tab m) = m"
  by (simp_all add: watched_tab_def sample_tab_facts file_path_def)

lemma watched_window_facts [simp]:
  "fg_tabs (watched_window m) = [TabEditor (watched_tab m)]" "fg_active (watched_window m) = Some 0"
  "find_tab_by_path watched_path (watched_window m) = Some 0"
  "fw_last_file_events (fg_watch (watched_window m)) = Map.empty"
  "fw_last_file_saves (fg_watch (watched_window m)) = Map.empty"
  "fg_inflight_saves (watched_window m) = Map.empty"
  by (simp_all add: watched_window_def find_tab_by_path_def empty_window_def)

lemma watched_window_not_suppressed [simp]:
  "\<not> fst (should_suppress_file_watch_event now p (watched_window m))"
  by (simp add: should_suppress_file_watch_event_def recently_def)




text \<open>A reload is not a compare-and-set: text typed between the request and the moment the file has been
  read is overwritten, and the mark that would have told so is cleared.\<close>

lemma reloaded_tab_text:
  "tab_text (reloaded_tab env ie fresh now settings decoded (TabEditor e)) = Some (dc_content decoded)
   \<and> \<not> tab_is_modified (reloaded_tab env ie fresh now settings decoded (TabEditor e))"
  by (auto simp: reloaded_tab_def restore_cursor_def tab_update_language_def reattach_if_content_swapped_def
      update_language_def force_language_def reloaded_editor_def update_file_tooltip_cache_def tab_text_def
      set_original_content_from_str_def Let_def split: tab.splits option.splits prod.splits)

lemma typed_during_reload_is_lost:
  assumes "find_tab_by_path p st = Some k" "fg_tabs st ! k = TabEditor e" "et_modified e"
  shows "tab_text (fg_tabs (apply_reloaded_contents env ie now p decoded st) ! k) = Some (dc_content decoded)
    \<and> \<not> tab_is_modified (fg_tabs (apply_reloaded_contents env ie now p decoded st) ! k)"
proof -
  have "k < length (fg_tabs st)" using find_tab_by_path_Some [OF assms(1)] by metis
  then show ?thesis using assms reloaded_tab_text
    by (simp add: apply_reloaded_contents_def take_fresh_def)
qed

section \<open>The two halves of a rename\<close>

lemma send_accepted [simp]:
  assumes "\<And>q. accepts q"
  shows "send_event accepts ev ch = ch\<lparr>wc_queue := wc_queue ch @ [ev]\<rparr>"
  using assms by (simp add: send_event_def)

fun is_name_change :: "notify_kind \<Rightarrow> bool" where
  "is_name_change (ModifyName m) = True"
| "is_name_change _ = False"

lemma other_events_keep_pending:
  assumes "wc_pending ch = Some (p, t)" "\<forall>(now, ev) \<in> set evs. now - t < PENDING_RENAME_TIMEOUT \<and> \<not> is_name_change (ne_kind ev)"
  shows "wc_pending (fold (\<lambda>(now, ev). handle_notify_event accepts now ev) evs ch) = Some (p, t)"
  using assms
proof (induction evs arbitrary: ch)
  case (Cons x evs)
  obtain now ev where x: "x = (now, ev)" by (cases x)
  have f: "wc_pending (fold (\<lambda>q. send_event accepts (g q)) qs ch) = wc_pending ch" for g and qs :: "rstr list" and ch
    by (induction qs arbitrary: ch) (simp_all add: send_event_def)
  have "wc_pending (handle_notify_event accepts now ev ch) = Some (p, t)"
    using Cons.prems x
    by (cases "ne_kind ev") (auto simp: handle_notify_event_def expire_pending_rename_from_def f)
  then show ?case using Cons x by simp
qed simp

text \<open>A file renamed away is remembered until the other half arrives: if a name appears within half a
  second, whatever else was reported in between, the two become one rename event; if none does, the next
  notification or the timer reports the file as deleted. With a channel that takes the events, neither is lost.\<close>

theorem rename_halves_become_one_event:
  assumes "\<And>q. accepts q" "wc_pending ch = None"
    and "\<forall>(now, ev) \<in> set evs. now - t < PENDING_RENAME_TIMEOUT \<and> \<not> is_name_change (ne_kind ev)"
  shows "let ch1 = handle_notify_event accepts t \<lparr>ne_kind = ModifyName RenameFrom, ne_paths = [p]\<rparr> ch;
             ch2 = fold (\<lambda>(now, ev). handle_notify_event accepts now ev) evs ch1
    in (\<forall>t2. t2 - t < PENDING_RENAME_TIMEOUT \<longrightarrow>
          handle_notify_event accepts t2 \<lparr>ne_kind = ModifyName RenameTo, ne_paths = [q]\<rparr> ch2
            = \<lparr>wc_queue = wc_queue ch2 @ [EvRenamed p q], wc_pending = None\<rparr>)
       \<and> (\<forall>t3. PENDING_RENAME_TIMEOUT \<le> t3 - t \<longrightarrow>
          expire_pending_rename_from accepts t3 ch2
            = \<lparr>wc_queue = wc_queue ch2 @ [EvDeleted p], wc_pending = None\<rparr>)"
proof -
  let ?ch1 = "handle_notify_event accepts t \<lparr>ne_kind = ModifyName RenameFrom, ne_paths = [p]\<rparr> ch"
  have "wc_pending ?ch1 = Some (p, t)"
    using assms(2) by (simp add: handle_notify_event_def expire_pending_rename_from_def handle_single_rename_def)
  note other_events_keep_pending [OF this assms(3), of accepts]
  then show ?thesis
    by (auto simp: Let_def handle_notify_event_def expire_pending_rename_from_def handle_single_rename_def assms(1))
qed

lemma rename_halves_become_one_event_witness:
  "handle_notify_event (\<lambda>_. True) 200 \<lparr>ne_kind = ModifyName RenameTo, ne_paths = [lit ''b'']\<rparr>
     (handle_notify_event (\<lambda>_. True) 100 \<lparr>ne_kind = ModifyName RenameFrom, ne_paths = [lit ''a'']\<rparr>
        \<lparr>wc_queue = [], wc_pending = None\<rparr>)
   = \<lparr>wc_queue = [EvRenamed (lit ''a'') (lit ''b'')], wc_pending = None\<rparr>"
  using rename_halves_become_one_event [of "\<lambda>_. True" "\<lparr>wc_queue = [], wc_pending = None\<rparr>" "[]" 100 "lit ''a''" "lit ''b''"]
  by (simp add: Let_def PENDING_RENAME_TIMEOUT_def handle_notify_event_def expire_pending_rename_from_def
      handle_single_rename_def)

text \<open>The slot holds one path: a second file renamed away within the half second replaces the first, whose
  deletion is then never reported.\<close>

lemma second_rename_away_forgets_first:
  "handle_notify_event (\<lambda>_. True) 700 \<lparr>ne_kind = OtherKind, ne_paths = []\<rparr>
     (handle_notify_event (\<lambda>_. True) 150 \<lparr>ne_kind = ModifyName RenameFrom, ne_paths = [lit ''b'']\<rparr>
       (handle_notify_event (\<lambda>_. True) 100 \<lparr>ne_kind = ModifyName RenameFrom, ne_paths = [lit ''a'']\<rparr>
          \<lparr>wc_queue = [], wc_pending = None\<rparr>))
   = \<lparr>wc_queue = [EvDeleted (lit ''b'')], wc_pending = None\<rparr>"
  by (simp add: PENDING_RENAME_TIMEOUT_def handle_notify_event_def expire_pending_rename_from_def
      handle_single_rename_def)

end
