(* ===== verification/Search.thy ===== *)
theory Search
  imports File_Watch
begin

text \<open>
  The search bar, \<^verbatim>\<open>src/fulgur/ui/bars/search_bar/\<close>: finding matches (\<^verbatim>\<open>matching.rs\<close>), the state of the bar and
  moving between matches (\<^verbatim>\<open>actions.rs\<close>, \<^verbatim>\<open>state.rs\<close>), and replacing (\<^verbatim>\<open>replace.rs\<close>).

  Offsets are byte offsets of the UTF-8 text, as in the code; \<open>char_at_byte\<close> finds the character that starts at
  one. The Unicode tables of the standard library are the record \<open>case_tables\<close>; the lowercasing of a string,
  with its special case of the final sigma, is built from them. The scratch buffers are local values.
\<close>

section \<open>Byte offsets and substrings\<close>

fun char_at_byte :: "rstr \<Rightarrow> nat \<Rightarrow> nat option" where
  "char_at_byte s 0 = Some 0"
| "char_at_byte [] (Suc b) = None"
| "char_at_byte (c # s) (Suc b) =
     (if len_utf8 c \<le> Suc b then map_option Suc (char_at_byte s (Suc b - len_utf8 c)) else None)"

definition is_char_boundary :: "rstr \<Rightarrow> nat \<Rightarrow> bool" where
  "is_char_boundary s b \<longleftrightarrow> char_at_byte s b \<noteq> None"

text \<open>\<open>&text[a..b]\<close>, between two character boundaries.\<close>

definition byte_slice :: "rstr \<Rightarrow> nat \<Rightarrow> nat \<Rightarrow> rstr" where
  "byte_slice s a b =
     (case (char_at_byte s a, char_at_byte s b) of
        (Some i, Some j) \<Rightarrow> take (j - i) (drop i s)
      | _ \<Rightarrow> [])"

text \<open>\<open>str::find\<close> of a string: the first character index where it occurs.\<close>

fun find_sub :: "rstr \<Rightarrow> rstr \<Rightarrow> nat option" where
  "find_sub q [] = (if q = [] then Some 0 else None)"
| "find_sub q (c # s) = (if starts_with q (c # s) then Some 0 else map_option Suc (find_sub q s))"

lemma find_sub_bound: "find_sub q s = Some k \<Longrightarrow> k + length q \<le> length s \<and> starts_with q (drop k s)"
  by (induction q s arbitrary: k rule: find_sub.induct)
    (auto simp: starts_with_def split: if_splits dest: arg_cong [where f = length])

text \<open>\<open>str::replace\<close>: the matches from the left that do not overlap. An empty pattern, which Rust matches
  between all characters, does not reach it.\<close>

function str_replace :: "rstr \<Rightarrow> rstr \<Rightarrow> rstr \<Rightarrow> rstr" where
  "str_replace q r s =
     (if q = [] then s
      else case find_sub q s of
             None \<Rightarrow> s
           | Some k \<Rightarrow> take k s @ r @ str_replace q r (drop (k + length q) s))"
  by pat_completeness auto
termination
  by (relation "measure (\<lambda>(q, r, s). length s)") (auto dest!: find_sub_bound simp flip: length_greater_0_conv)

declare str_replace.simps [simp del]

section \<open>Lowercasing\<close>

record case_tables =
  ct_lower :: "uchar \<Rightarrow> rstr"
  ct_cased :: "uchar \<Rightarrow> bool"
  ct_case_ignorable :: "uchar \<Rightarrow> bool"
  ct_alphanumeric :: "uchar \<Rightarrow> bool"

definition case_ignorable_then_cased :: "case_tables \<Rightarrow> rstr \<Rightarrow> bool" where
  "case_ignorable_then_cased ct s =
     (case dropWhile (ct_case_ignorable ct) s of c # _ \<Rightarrow> ct_cased ct c | [] \<Rightarrow> False)"

text \<open>\<open>str::to_lowercase\<close>; \<open>before\<close> holds the characters already read, the last one first.\<close>

fun lowercase_from :: "case_tables \<Rightarrow> rstr \<Rightarrow> rstr \<Rightarrow> rstr" where
  "lowercase_from ct before [] = []"
| "lowercase_from ct before (c # s) =
     (if c = 0x3A3 then
        (if case_ignorable_then_cased ct before \<and> \<not> case_ignorable_then_cased ct s then [0x3C2] else [0x3C3])
      else ct_lower ct c) @ lowercase_from ct (c # before) s"

definition str_to_lowercase :: "case_tables \<Rightarrow> rstr \<Rightarrow> rstr" where
  "str_to_lowercase ct s = lowercase_from ct [] s"

text \<open>The text lowercased character by character and, for each byte of it, the offset of the character it
  comes from, with the length of the text at the end.\<close>

fun lowercase_text_from :: "case_tables \<Rightarrow> nat \<Rightarrow> rstr \<Rightarrow> rstr \<times> nat list" where
  "lowercase_text_from ct off [] = ([], [off])"
| "lowercase_text_from ct off (c # s) =
     (let (lowered, offsets) = lowercase_text_from ct (off + len_utf8 c) s;
          l = ct_lower ct c
      in (l @ lowered, replicate (blen l) off @ offsets))"

definition rebuild_lowercase_text :: "case_tables \<Rightarrow> rstr \<Rightarrow> rstr \<times> nat list" where
  "rebuild_lowercase_text ct text = lowercase_text_from ct 0 text"

section \<open>Finding matches\<close>

record search_match =
  sm_start :: nat
  sm_end :: nat
  sm_line :: nat
  sm_col :: nat

fun newline_offsets_from :: "nat \<Rightarrow> rstr \<Rightarrow> nat list" where
  "newline_offsets_from off [] = []"
| "newline_offsets_from off (c # s) =
     (if c = 10 then [off] else []) @ newline_offsets_from (off + len_utf8 c) s"

definition refresh_newline_offsets :: "rstr \<Rightarrow> nat list" where
  "refresh_newline_offsets text = newline_offsets_from 0 text"

text \<open>\<open>partition_point\<close> of a sorted list counts the offsets below the position.\<close>

definition get_line_col_fast :: "rstr \<Rightarrow> nat \<Rightarrow> nat list \<Rightarrow> nat \<times> nat" where
  "get_line_col_fast text byte_pos newline_offsets =
     (let pos = min byte_pos (blen text);
          line = length (takeWhile (\<lambda>nl. nl < pos) newline_offsets);
          line_start = (if line = 0 then 0 else newline_offsets ! (line - 1) + 1)
      in (line, length (byte_slice text line_start pos)))"

definition is_word_char :: "case_tables \<Rightarrow> uchar \<Rightarrow> bool" where
  "is_word_char ct c \<longleftrightarrow> ct_alphanumeric ct c \<or> c = 95"

definition whole_word :: "case_tables \<Rightarrow> rstr \<Rightarrow> nat \<Rightarrow> nat \<Rightarrow> bool" where
  "whole_word ct text match_start match_end \<longleftrightarrow>
     (match_start = 0
      \<or> (case rev (byte_slice text 0 match_start) of c # _ \<Rightarrow> \<not> is_word_char ct c | [] \<Rightarrow> True))
     \<and> (blen text \<le> match_end
      \<or> (case byte_slice text match_end (blen text) of c # _ \<Rightarrow> \<not> is_word_char ct c | [] \<Rightarrow> True))"

definition match_at ::
  "case_tables \<Rightarrow> rstr \<Rightarrow> nat list option \<Rightarrow> bool \<Rightarrow> nat \<Rightarrow> nat \<Rightarrow> search_match list" where
  "match_at ct text lower_offsets match_whole_word search_start search_end =
     (let (match_start, match_end) =
            (case lower_offsets of
               None \<Rightarrow> (search_start, search_end)
             | Some offs \<Rightarrow> (offs ! search_start, offs ! search_end))
      in if match_whole_word \<and> \<not> whole_word ct text match_start match_end then []
         else let (line, col) = get_line_col_fast text match_start (refresh_newline_offsets text) in
           [\<lparr>sm_start = match_start, sm_end = match_end, sm_line = line, sm_col = col\<rparr>])"

text \<open>The loop: \<open>s\<close> is the search text from byte \<open>start_pos\<close> on. The search goes on after the first character of
  the occurrence, so occurrences may overlap. A query is not empty, so an occurrence starts inside the text.\<close>

function match_loop ::
  "(nat \<Rightarrow> nat \<Rightarrow> search_match list) \<Rightarrow> rstr \<Rightarrow> nat \<Rightarrow> rstr \<Rightarrow> search_match list" where
  "match_loop f q start_pos s =
     (case find_sub q s of
        None \<Rightarrow> []
      | Some k \<Rightarrow>
          if s = [] then []
          else let search_start = start_pos + blen (take k s) in
            f search_start (search_start + blen q)
            @ match_loop f q (start_pos + blen (take (Suc k) s)) (drop (Suc k) s))"
  by pat_completeness auto
termination
  by (relation "measure (\<lambda>(f, q, p, s). length s)") auto

declare match_loop.simps [simp del]

definition find_matches_with_scratch :: "case_tables \<Rightarrow> rstr \<Rightarrow> rstr \<Rightarrow> bool \<Rightarrow> bool \<Rightarrow> search_match list" where
  "find_matches_with_scratch ct text query match_case match_whole_word =
     (if query = [] then []
      else if match_case then match_loop (match_at ct text None match_whole_word) query 0 text
      else let (lowered, offsets) = rebuild_lowercase_text ct text in
        match_loop (match_at ct text (Some offsets) match_whole_word) (str_to_lowercase ct query) 0 lowered)"

section \<open>Replacing\<close>

definition replaceable :: "rstr \<Rightarrow> nat \<Rightarrow> search_match \<Rightarrow> bool" where
  "replaceable text last_pos m \<longleftrightarrow>
     \<not> (sm_start m < last_pos \<or> blen text < sm_end m \<or> sm_end m < sm_start m
        \<or> \<not> is_char_boundary text (sm_start m) \<or> \<not> is_char_boundary text (sm_end m))"

fun replace_loop :: "rstr \<Rightarrow> rstr \<Rightarrow> search_match list \<Rightarrow> nat \<Rightarrow> rstr" where
  "replace_loop text r [] last_pos = byte_slice text last_pos (blen text)"
| "replace_loop text r (m # ms) last_pos =
     (if replaceable text last_pos m
      then byte_slice text last_pos (sm_start m) @ r @ replace_loop text r ms (sm_end m)
      else replace_loop text r ms last_pos)"

definition apply_replacements :: "search_match list \<Rightarrow> rstr \<Rightarrow> rstr \<Rightarrow> rstr" where
  "apply_replacements matches text r = replace_loop text r matches 0"

section \<open>The bar\<close>

record search_bar =
  sb_show_search :: bool
  sb_query :: rstr
  sb_replace :: rstr
  sb_match_case :: bool
  sb_match_whole_word :: bool
  sb_matches :: "search_match list"
  sb_current :: "nat option"
  sb_last_query :: rstr
  sb_last_match_case :: bool
  sb_last_match_whole_word :: bool

text \<open>The buffer the bar searches, with the diagnostics that show the matches: line and first and last column.\<close>

record search_target =
  sr_state :: editor_state
  sr_diagnostics :: "(nat \<times> nat \<times> nat) list"

record search_env =
  sv_tables :: case_tables
  sv_input :: input_env
  sv_clip :: "rstr \<Rightarrow> position_lc \<Rightarrow> position_lc"

definition to_u32 :: "nat \<Rightarrow> nat" where
  "to_u32 n = (if n \<le> u32_max then n else u32_max)"

definition diagnostic_of :: "search_match \<Rightarrow> nat \<times> nat \<times> nat" where
  "diagnostic_of m =
     (to_u32 (sm_line m), to_u32 (sm_col m), to_u32 (sm_col m + (sm_end m - sm_start m)))"

definition highlight_current_match :: "search_env \<Rightarrow> search_bar \<Rightarrow> search_target \<Rightarrow> search_target" where
  "highlight_current_match env bar t =
     (case Option.bind (sb_current bar) (nth_opt (sb_matches bar)) of
        None \<Rightarrow> t
      | Some m \<Rightarrow> t\<lparr>sr_state := set_cursor_position (sv_clip env) (to_u32 (sm_line m), to_u32 (sm_col m)) (sr_state t)\<rparr>)"

definition search_cached :: "search_bar \<Rightarrow> bool" where
  "search_cached bar \<longleftrightarrow> sb_query bar = sb_last_query bar \<and> sb_match_case bar = sb_last_match_case bar
     \<and> sb_match_whole_word bar = sb_last_match_whole_word bar \<and> sb_matches bar \<noteq> []"

definition first_match_from :: "nat \<Rightarrow> search_match list \<Rightarrow> nat option" where
  "first_match_from cursor ms =
     (if ms = [] then None
      else case position (\<lambda>m. cursor \<le> sm_start m) ms of Some i \<Rightarrow> Some i | None \<Rightarrow> Some 0)"

definition perform_search ::
  "search_env \<Rightarrow> search_target option \<Rightarrow> search_bar \<Rightarrow> search_bar \<times> search_target option" where
  "perform_search env target bar =
     (if search_cached bar then (bar, target)
      else
        let bar1 = bar\<lparr>sb_last_query := sb_query bar, sb_last_match_case := sb_match_case bar,
                       sb_last_match_whole_word := sb_match_whole_word bar, sb_matches := [], sb_current := None\<rparr>
        in (case target of
              None \<Rightarrow> (bar1, None)
            | Some t \<Rightarrow>
                if sb_query bar = [] then (bar1, Some (t\<lparr>sr_diagnostics := []\<rparr>))
                else
                  let text = es_text (sr_state t);
                      ms = find_matches_with_scratch (sv_tables env) text (sb_query bar) (sb_match_case bar)
                             (sb_match_whole_word bar);
                      cursor = ie_offset (sv_input env) text (es_cursor (sr_state t));
                      bar2 = bar1\<lparr>sb_matches := ms, sb_current := first_match_from cursor ms\<rparr>
                  in (bar2, Some (highlight_current_match env bar2 (t\<lparr>sr_diagnostics := map diagnostic_of ms\<rparr>)))))"

definition force_perform_search ::
  "search_env \<Rightarrow> search_target option \<Rightarrow> search_bar \<Rightarrow> search_bar \<times> search_target option" where
  "force_perform_search env target bar = perform_search env target (bar\<lparr>sb_last_query := [], sb_matches := []\<rparr>)"

definition refresh_matches ::
  "search_env \<Rightarrow> search_target option \<Rightarrow> search_bar \<Rightarrow> search_bar \<times> search_target option" where
  "refresh_matches env target bar = perform_search env target (bar\<lparr>sb_matches := []\<rparr>)"

definition close_search :: "search_target option \<Rightarrow> search_bar \<Rightarrow> search_bar \<times> search_target option" where
  "close_search target bar =
     (bar\<lparr>sb_show_search := False, sb_matches := [], sb_current := None\<rparr>,
      map_option (\<lambda>t. t\<lparr>sr_diagnostics := []\<rparr>) target)"

definition toggle_search ::
  "search_env \<Rightarrow> search_target option \<Rightarrow> search_bar \<Rightarrow> search_bar \<times> search_target option" where
  "toggle_search env target bar =
     (if sb_show_search bar then close_search target bar
      else perform_search env target (bar\<lparr>sb_show_search := True\<rparr>))"

definition move_to_match ::
  "search_env \<Rightarrow> (nat \<Rightarrow> nat \<Rightarrow> nat) \<Rightarrow> search_target option \<Rightarrow> search_bar \<Rightarrow> search_bar \<times> search_target option" where
  "move_to_match env step target bar =
     (if sb_matches bar = [] then (bar, target)
      else
        let bar1 = bar\<lparr>sb_current :=
                Some (case sb_current bar of Some k \<Rightarrow> step (length (sb_matches bar)) k | None \<Rightarrow> 0)\<rparr>
        in (bar1, map_option (highlight_current_match env bar1) target))"

definition search_next ::
  "search_env \<Rightarrow> search_target option \<Rightarrow> search_bar \<Rightarrow> search_bar \<times> search_target option" where
  "search_next env = move_to_match env (\<lambda>n k. (k + 1) mod n)"

definition search_previous ::
  "search_env \<Rightarrow> search_target option \<Rightarrow> search_bar \<Rightarrow> search_bar \<times> search_target option" where
  "search_previous env = move_to_match env (\<lambda>n k. if k = 0 then n - 1 else k - 1)"

text \<open>\<open>set_value\<close> gives the buffer a new text and emits no change event.\<close>

definition set_value :: "search_env \<Rightarrow> rstr \<Rightarrow> search_target \<Rightarrow> search_target" where
  "set_value env s t =
     t\<lparr>sr_state := (sr_state t)\<lparr>es_text := s,
         es_cursor := ie_after_set (sv_input env) s (es_cursor (sr_state t))\<rparr>\<rparr>"

definition replace_at :: "rstr \<Rightarrow> search_match \<Rightarrow> rstr \<Rightarrow> rstr option" where
  "replace_at text m r =
     (if replaceable text 0 m
      then Some (byte_slice text 0 (sm_start m) @ r @ byte_slice text (sm_end m) (blen text)) else None)"

definition replace_current ::
  "search_env \<Rightarrow> search_target option \<Rightarrow> search_bar \<Rightarrow> search_bar \<times> search_target option" where
  "replace_current env target bar =
     (let (bar1, target1) = force_perform_search env target bar in
      (case (sb_current bar1, Option.bind (sb_current bar1) (nth_opt (sb_matches bar1)), target1) of
         (Some k, Some m, Some t) \<Rightarrow>
           (case replace_at (es_text (sr_state t)) m (sb_replace bar1) of
              None \<Rightarrow> (bar1, target1)
            | Some new_text \<Rightarrow>
                let (bar2, target2) =
                      perform_search env (Some (set_value env new_text t)) (bar1\<lparr>sb_matches := []\<rparr>)
                in if sb_matches bar2 = [] then (bar2, target2)
                   else let bar3 = bar2\<lparr>sb_current := Some (if k < length (sb_matches bar2) then k else 0)\<rparr>
                     in (bar3, map_option (highlight_current_match env bar3) target2))
       | _ \<Rightarrow> (bar1, target1)))"

definition replaced_text :: "search_env \<Rightarrow> search_bar \<Rightarrow> rstr \<Rightarrow> rstr" where
  "replaced_text env bar text =
     (if sb_match_case bar \<and> \<not> sb_match_whole_word bar then str_replace (sb_query bar) (sb_replace bar) text
      else apply_replacements (sb_matches bar) text (sb_replace bar))"

definition replace_all ::
  "search_env \<Rightarrow> search_target option \<Rightarrow> search_bar \<Rightarrow> search_bar \<times> search_target option" where
  "replace_all env target bar =
     (let (bar1, target1) = force_perform_search env target bar in
      if sb_matches bar1 = [] then (bar1, target1)
      else (case target1 of
              None \<Rightarrow> (bar1, target1)
            | Some t \<Rightarrow>
                (bar1\<lparr>sb_matches := [], sb_current := None\<rparr>,
                 Some (set_value env (replaced_text env bar1 (es_text (sr_state t))) t))))"

section \<open>Offsets of characters\<close>

lemma char_at_byte_pos: "0 < b \<Longrightarrow> char_at_byte (c # s) b =
    (if len_utf8 c \<le> b then map_option Suc (char_at_byte s (b - len_utf8 c)) else None)"
  by (cases b) simp_all

lemma char_at_byte_take: "k \<le> length s \<Longrightarrow> char_at_byte s (blen (take k s)) = Some k"
proof (induction s arbitrary: k)
  case (Cons c s)
  then show ?case by (cases k) (simp_all add: char_at_byte_pos)
qed simp

lemma byte_slice_take:
  "i \<le> length s \<Longrightarrow> j \<le> length s \<Longrightarrow> byte_slice s (blen (take i s)) (blen (take j s)) = take (j - i) (drop i s)"
  by (simp add: byte_slice_def char_at_byte_take)

lemma byte_slice_from_start: "j \<le> length s \<Longrightarrow> byte_slice s 0 (blen (take j s)) = take j s"
  using byte_slice_take [of 0 s j] by simp

lemma byte_slice_to_end: "i \<le> length s \<Longrightarrow> byte_slice s (blen (take i s)) (blen s) = drop i s"
  using byte_slice_take [of i s "length s"] by simp

lemma blen_take_mono: "i \<le> j \<Longrightarrow> blen (take i s) \<le> blen (take j s)"
  by (metis add_diff_inverse_nat blen_simps(3) le_add1 not_less take_add)

lemma blen_take_less: "i < j \<Longrightarrow> j \<le> length s \<Longrightarrow> blen (take i s) < blen (take j s)"
proof -
  assume h: "i < j" "j \<le> length s"
  have "take j s = take i s @ take (j - i) (drop i s)" using h by (metis le_add_diff_inverse less_imp_le take_add)
  moreover have "take (j - i) (drop i s) \<noteq> []" using h by simp
  ultimately show ?thesis by (metis add_cancel_right_right blen_eq_0 blen_simps(3) le_add1 le_neq_implies_less)
qed

lemma blen_take_less_iff: "i \<le> length s \<Longrightarrow> j \<le> length s \<Longrightarrow> blen (take i s) < blen (take j s) \<longleftrightarrow> i < j"
  using blen_take_less blen_take_mono by (metis leD le_less_linear)

lemma blen_take_le: "blen (take i s) \<le> blen s"
  using blen_take_mono [of i "max i (length s)" s] by simp

lemma blen_occurrence:
  assumes "starts_with q (drop k s)"
  shows "blen (take k s) + blen q = blen (take (k + length q) s)" and "q \<noteq> [] \<Longrightarrow> k + length q \<le> length s"
proof -
  have t: "take (length q) (drop k s) = q" using assms by (simp add: starts_with_def)
  then show "blen (take k s) + blen q = blen (take (k + length q) s)" by (simp add: take_add)
  show "k + length q \<le> length s" if "q \<noteq> []" using arg_cong [OF t, of length] that by (cases "k \<le> length s") auto
qed

section \<open>The matching loop\<close>

lemma match_loop_Cons:
  assumes "q \<noteq> []"
  shows "match_loop f q p (c # s) =
    (if starts_with q (c # s) then f p (p + blen q) else []) @ match_loop f q (p + len_utf8 c) s"
proof (cases "starts_with q (c # s)")
  case True
  then show ?thesis by (subst match_loop.simps) simp
next
  case False
  show ?thesis
  proof (cases "find_sub q s")
    case None
    then show ?thesis using False by (simp add: match_loop.simps [of f q _ "c # s"] match_loop.simps [of f q _ s])
  next
    case (Some k)
    have "s \<noteq> []" using Some assms by (cases s) auto
    then show ?thesis using False Some
      by (simp add: match_loop.simps [of f q _ "c # s"] match_loop.simps [of f q _ s] Let_def add.assoc)
  qed
qed

definition occurrences :: "rstr \<Rightarrow> rstr \<Rightarrow> nat list" where
  "occurrences q s = filter (\<lambda>k. starts_with q (drop k s)) [0..<length s]"

lemma occurrences_Nil [simp]: "occurrences q [] = []"
  by (simp add: occurrences_def)

lemma upt_length_Cons: "[0..<length (c # s)] = 0 # map Suc [0..<length s]"
  by (simp add: upt_conv_Cons map_Suc_upt del: upt_Suc)

lemma occurrences_Cons:
  "occurrences q (c # s) = (if starts_with q (c # s) then [0] else []) @ map Suc (occurrences q s)"
  unfolding occurrences_def upt_length_Cons by (simp add: filter_map comp_def)

lemma match_loop_occurrences:
  assumes "q \<noteq> []"
  shows "match_loop f q p s = concat (map (\<lambda>k. f (p + blen (take k s)) (p + blen (take k s) + blen q)) (occurrences q s))"
proof (induction s arbitrary: p)
  case Nil
  then show ?case using assms by (simp add: match_loop.simps)
next
  case (Cons c s)
  show ?case unfolding match_loop_Cons [OF assms] Cons.IH occurrences_Cons
    by (simp add: comp_def add.assoc)
qed

section \<open>Lines and columns\<close>

lemma newline_offsets: "newline_offsets_from off s
    = map (\<lambda>j. off + blen (take j s)) (filter (\<lambda>j. s ! j = 10) [0..<length s])"
proof (induction s arbitrary: off)
  case (Cons c s)
  show ?case unfolding upt_length_Cons using Cons by (simp add: filter_map comp_def add.assoc)
qed simp

lemma newlines_before:
  assumes "k \<le> length s"
  shows "takeWhile (\<lambda>nl. nl < blen (take k s)) (refresh_newline_offsets s)
    = map (\<lambda>j. blen (take j s)) (filter (\<lambda>j. s ! j = 10) [0..<k])"
proof -
  let ?P = "\<lambda>j. s ! j = 10"
  have split: "filter ?P [0..<length s] = filter ?P [0..<k] @ filter ?P [k..<length s]"
    using assms by (metis filter_append le_add_diff_inverse upt_add_eq_append zero_le)
  have a: "takeWhile (\<lambda>j. blen (take j s) < blen (take k s)) (filter ?P [0..<k]) = filter ?P [0..<k]"
    using assms by (simp add: takeWhile_eq_all_conv blen_take_less)
  have b: "takeWhile (\<lambda>j. blen (take j s) < blen (take k s)) (filter ?P [k..<length s]) = []"
    by (cases "filter ?P [k..<length s]")
      (auto simp: takeWhile_eq_Nil_iff not_less dest!: arg_cong [where f = set] intro!: blen_take_mono)
  show ?thesis
    unfolding refresh_newline_offsets_def newline_offsets
    by (simp add: takeWhile_map comp_def split takeWhile_append2 takeWhile_append a b)
qed

lemma takeWhile_stop: "\<forall>x \<in> set xs. P x \<Longrightarrow> \<not> P y \<Longrightarrow> takeWhile P (xs @ y # ys) = xs"
  by (induction xs) auto

lemma sorted_le_last: "sorted xs \<Longrightarrow> x \<in> set xs \<Longrightarrow> x \<le> last xs" for x :: nat
  by (induction xs) auto

lemma last_newline:
  assumes "k \<le> length s" "filter (\<lambda>j. s ! j = 10) [0..<k] \<noteq> []"
  shows "let j = last (filter (\<lambda>j. s ! j = 10) [0..<k]) in j < k \<and> s ! j = 10 \<and> 10 \<notin> set (drop (Suc j) (take k s))"
proof -
  define j where "j = last (filter (\<lambda>j. s ! j = 10) [0..<k])"
  have j: "j < k" "s ! j = 10" using assms(2) last_in_set [of "filter (\<lambda>j. s ! j = 10) [0..<k]"] by (auto simp: j_def)
  have "s ! i \<noteq> 10" if i: "j < i" "i < k" for i
  proof
    assume "s ! i = 10"
    have "sorted (filter (\<lambda>j. s ! j = 10) [0..<k])" by (simp add: sorted_wrt_filter)
    moreover have "i \<in> set (filter (\<lambda>j. s ! j = 10) [0..<k])" using i \<open>s ! i = 10\<close> by simp
    ultimately have "i \<le> j" unfolding j_def by (rule sorted_le_last)
    then show False using i by simp
  qed
  then have "10 \<notin> set (drop (Suc j) (take k s))"
    using assms(1) by (auto simp: in_set_conv_nth)
  then show ?thesis using j by (simp add: j_def Let_def)
qed

text \<open>The line and the column of a position: the line feeds before it, and the characters since the last one.\<close>

lemma line_col_spec:
  assumes "k \<le> length s"
  shows "get_line_col_fast s (blen (take k s)) (refresh_newline_offsets s)
    = (length (filter (\<lambda>c. c = 10) (take k s)), length (takeWhile (\<lambda>c. c \<noteq> 10) (rev (take k s))))"
proof -
  define L where "L = filter (\<lambda>j. s ! j = 10) [0..<k]"
  have pos: "min (blen (take k s)) (blen s) = blen (take k s)" using blen_take_le by (simp add: min_def)
  have nth: "take k s = map (\<lambda>j. s ! j) [0..<k]" using assms by (simp add: list_eq_iff_nth_eq)
  have line: "length (filter (\<lambda>c. c = 10) (take k s)) = length L"
    unfolding nth L_def by (simp add: filter_map comp_def)
  have tw: "length (takeWhile (\<lambda>nl. nl < blen (take k s)) (refresh_newline_offsets s)) = length L"
    using newlines_before [OF assms] by (simp add: L_def)
  show ?thesis
  proof (cases "L = []")
    case True
    then have "10 \<notin> set (take k s)" unfolding nth L_def by (auto simp: filter_empty_conv)
    then have "takeWhile (\<lambda>c. c \<noteq> 10) (rev (take k s)) = rev (take k s)"
      by (subst takeWhile_eq_all_conv) auto
    then have "length (takeWhile (\<lambda>c. c \<noteq> 10) (rev (take k s))) = length (take k s)" by (metis length_rev)
    then show ?thesis
      using True line tw byte_slice_from_start [OF assms] by (simp add: get_line_col_fast_def Let_def pos)
  next
    case False
    define j where "j = last L"
    have j: "j < k" "s ! j = 10" "10 \<notin> set (drop (Suc j) (take k s))"
      using last_newline [OF assms] False by (simp_all add: L_def j_def Let_def)
    have off: "refresh_newline_offsets s ! (length L - 1) = blen (take j s)"
    proof -
      have "takeWhile (\<lambda>nl. nl < blen (take k s)) (refresh_newline_offsets s) ! (length L - 1)
          = refresh_newline_offsets s ! (length L - 1)"
        using False tw by (intro takeWhile_nth) simp
      moreover have "map (\<lambda>j. blen (take j s)) L ! (length L - 1) = blen (take j s)"
        using False by (simp add: j_def last_conv_nth)
      ultimately show ?thesis using newlines_before [OF assms] by (simp add: L_def)
    qed
    have "take (Suc j) s = take j s @ [10]" using j assms by (simp add: take_Suc_conv_app_nth)
    then have start: "blen (take j s) + 1 = blen (take (Suc j) s)" by (simp add: len_utf8_def)
    have "take k s = take (Suc j) s @ drop (Suc j) (take k s)" using j(1) by (metis Suc_leI append_take_drop_id min.absorb1 take_take)
    then have "rev (take k s) = rev (drop (Suc j) (take k s)) @ 10 # rev (take j s)"
      using \<open>take (Suc j) s = take j s @ [10]\<close> by (metis append.assoc append_Cons append_Nil rev.simps(2) rev_append rev_rev_ident)
    then have "takeWhile (\<lambda>c. c \<noteq> 10) (rev (take k s)) = rev (drop (Suc j) (take k s))"
      using j(3) takeWhile_stop [of "rev (drop (Suc j) (take k s))" "\<lambda>c. c \<noteq> 10" 10 "rev (take j s)"] by auto
    moreover have "byte_slice s (blen (take (Suc j) s)) (blen (take k s)) = drop (Suc j) (take k s)"
      using byte_slice_take [of "Suc j" s k] j(1) assms by (simp add: drop_take)
    moreover have "takeWhile (\<lambda>nl. nl < blen (take k s)) (refresh_newline_offsets s) \<noteq> []" using tw False by auto
    ultimately show ?thesis
      using False line tw off start by (simp add: get_line_col_fast_def Let_def pos)
  qed
qed

section \<open>Properties\<close>

definition word_bounded :: "case_tables \<Rightarrow> rstr \<Rightarrow> nat \<Rightarrow> nat \<Rightarrow> bool" where
  "word_bounded ct s i j \<longleftrightarrow>
     (i = 0 \<or> \<not> is_word_char ct (s ! (i - 1))) \<and> (j = length s \<or> \<not> is_word_char ct (s ! j))"

lemma whole_word_bounded:
  assumes "i \<le> length s" "j \<le> length s"
  shows "whole_word ct s (blen (take i s)) (blen (take j s)) = word_bounded ct s i j"
proof -
  have z: "blen (take i s) = 0 \<longleftrightarrow> i = 0" using assms(1) by (cases s; cases i; simp)
  have l: "blen s \<le> blen (take j s) \<longleftrightarrow> j = length s"
    using blen_take_less_iff [OF assms(2), of "length s"] assms(2) by auto
  have p: "(case rev (take i s) of c # _ \<Rightarrow> \<not> is_word_char ct c | [] \<Rightarrow> True) \<longleftrightarrow> \<not> is_word_char ct (s ! (i - 1))"
    if "i \<noteq> 0"
  proof -
    have "take i s = take (i - 1) s @ [s ! (i - 1)]"
      using that assms(1) take_Suc_conv_app_nth [of "i - 1" s] by simp
    then show ?thesis by simp
  qed
  have n: "(case drop j s of c # _ \<Rightarrow> \<not> is_word_char ct c | [] \<Rightarrow> True) \<longleftrightarrow> \<not> is_word_char ct (s ! j)"
    if "j \<noteq> length s"
  proof -
    have "drop j s = s ! j # drop (Suc j) s" using that assms(2) by (simp add: Cons_nth_drop_Suc)
    then show ?thesis by simp
  qed
  show ?thesis
    using p n by (auto simp: whole_word_def word_bounded_def z l byte_slice_from_start [OF assms(1)] byte_slice_to_end [OF assms(2)])
qed

lemma concat_map_if: "concat (map (\<lambda>k. if P k then [g k] else []) ks) = map g (filter P ks)"
  by (induction ks) simp_all

definition match_of :: "rstr \<Rightarrow> rstr \<Rightarrow> nat \<Rightarrow> search_match" where
  "match_of s q k =
     \<lparr>sm_start = blen (take k s), sm_end = blen (take k s) + blen q,
      sm_line = length (filter (\<lambda>c. c = 10) (take k s)),
      sm_col = length (takeWhile (\<lambda>c. c \<noteq> 10) (rev (take k s)))\<rparr>"

text \<open>C29: With matching case, the search finds exactly the occurrences of the query, also overlapping ones, in
  the order of the text; with whole words, those with no word character right before or after them. The range of
  a match covers the occurrence, its line counts the line feeds before it and its column the characters since
  the last one.\<close>

theorem search_finds_every_occurrence:
  assumes "q \<noteq> []"
  shows "find_matches_with_scratch ct s q True w
    = map (match_of s q)
        (filter (\<lambda>k. starts_with q (drop k s) \<and> (w \<longrightarrow> word_bounded ct s k (k + length q))) [0..<length s])"
proof -
  have one: "match_at ct s None w (blen (take k s)) (blen (take k s) + blen q)
      = (if w \<longrightarrow> word_bounded ct s k (k + length q) then [match_of s q k] else [])"
    if "k \<in> set (occurrences q s)" for k
  proof -
    have sw: "starts_with q (drop k s)" and k: "k \<le> length s" using that by (auto simp: occurrences_def)
    note e = blen_occurrence(1) [OF sw] blen_occurrence(2) [OF sw assms]
    show ?thesis
      unfolding match_at_def e(1) option.case Let_def
      using whole_word_bounded [OF k e(2)] line_col_spec [OF k] by (auto simp: match_of_def e(1))
  qed
  have "find_matches_with_scratch ct s q True w
      = concat (map (\<lambda>k. match_at ct s None w (blen (take k s)) (blen (take k s) + blen q)) (occurrences q s))"
    using assms by (simp add: find_matches_with_scratch_def match_loop_occurrences)
  also have "\<dots> = concat (map (\<lambda>k. if w \<longrightarrow> word_bounded ct s k (k + length q) then [match_of s q k] else []) (occurrences q s))"
    by (intro arg_cong [where f = concat] map_cong refl one)
  also have "\<dots> = map (match_of s q) (filter (\<lambda>k. w \<longrightarrow> word_bounded ct s k (k + length q)) (occurrences q s))"
    by (rule concat_map_if)
  finally show ?thesis by (simp add: occurrences_def conj_commute)
qed

definition plain_tables :: case_tables where
  "plain_tables = \<lparr>ct_lower = (\<lambda>c. [ascii_lower c]), ct_cased = (\<lambda>c. 65 \<le> c), ct_case_ignorable = (\<lambda>c. c = 39),
     ct_alphanumeric = (\<lambda>c. 48 \<le> c \<and> c \<noteq> 95)\<rparr>"

lemma search_finds_every_occurrence_witness:
  "find_matches_with_scratch plain_tables (lit ''b'' @ [10] @ lit ''aaa'') (lit ''aa'') True False
    = [\<lparr>sm_start = 2, sm_end = 4, sm_line = 1, sm_col = 0\<rparr>, \<lparr>sm_start = 3, sm_end = 5, sm_line = 1, sm_col = 1\<rparr>]"
proof -
  have "lit ''aa'' \<noteq> []" by simp
  from search_finds_every_occurrence [OF this, of plain_tables "lit ''b'' @ [10] @ lit ''aaa''" False]
  show ?thesis by (simp add: match_of_def starts_with_def len_utf8_def upt_rec numeral_eq_Suc)
qed

section \<open>Replacing all\<close>

lemma str_replace_Nil [simp]: "q \<noteq> [] \<Longrightarrow> str_replace q r [] = []"
  by (simp add: str_replace.simps)

lemma str_replace_Cons:
  assumes "q \<noteq> []"
  shows "str_replace q r (c # s) =
    (if starts_with q (c # s) then r @ str_replace q r (drop (length q) (c # s)) else c # str_replace q r s)"
proof (cases "starts_with q (c # s)")
  case True
  then show ?thesis using assms by (subst str_replace.simps) simp
next
  case False
  then show ?thesis using assms
    by (simp add: str_replace.simps [of q r "c # s"] str_replace.simps [of q r s] split: option.splits)
qed

text \<open>The loop over the matches from character \<open>i\<close> on, with the replacement done up to character \<open>l\<close>: the
  occurrences before \<open>l\<close> overlap the last replaced one and are skipped.\<close>

lemma replace_loop_occurrences:
  assumes "q \<noteq> []" "i + length s = length t0" "drop i t0 = s" "l \<le> length t0"
  shows "replace_loop t0 r (map (\<lambda>k. match_of t0 q (i + k)) (occurrences q s)) (blen (take l t0))
    = (if l \<le> i then drop l (take i t0) @ str_replace q r s else str_replace q r (drop (l - i) s))"
  using assms(2-)
proof (induction s arbitrary: i l)
  case Nil
  then show ?case using assms(1) byte_slice_to_end [of l t0] by auto
next
  case (Cons c s)
  note q = assms(1)
  have i: "i < length t0" "t0 ! i = c" "drop (Suc i) t0 = s"
    using Cons.prems(1,2) by (auto simp: hd_drop_conv_nth [symmetric] drop_Suc tl_drop [symmetric])
  have IH: "replace_loop t0 r (map (\<lambda>k. match_of t0 q (Suc i + k)) (occurrences q s)) (blen (take m t0))
      = (if m \<le> Suc i then drop m (take (Suc i) t0) @ str_replace q r s else str_replace q r (drop (m - Suc i) s))"
    if "m \<le> length t0" for m
    by (rule Cons.IH) (use Cons.prems i that in auto)
  have rest: "map (\<lambda>k. match_of t0 q (i + k)) (map Suc (occurrences q s))
      = map (\<lambda>k. match_of t0 q (Suc i + k)) (occurrences q s)" by simp
  show ?case
  proof (cases "starts_with q (c # s)")
    case False
    have dt: "l \<le> i \<Longrightarrow> drop l (take (Suc i) t0) = drop l (take i t0) @ [c]"
      using i by (simp add: take_Suc_conv_app_nth)
    show ?thesis
      unfolding occurrences_Cons using False IH [OF Cons.prems(3)] dt
      by (auto simp: str_replace_Cons [OF q] comp_def not_le Suc_le_eq Suc_diff_le less_Suc_eq
          simp flip: Suc_diff_Suc split: if_splits)
  next
    case True
    have sw: "starts_with q (drop i t0)" using True Cons.prems(2) by simp
    note e = blen_occurrence(1) [OF sw] blen_occurrence(2) [OF sw q]
    have st: "sm_start (match_of t0 q i) = blen (take i t0)" "sm_end (match_of t0 q i) = blen (take (i + length q) t0)"
      by (simp_all add: match_of_def e(1))
    have rep: "replaceable t0 (blen (take l t0)) (match_of t0 q i) \<longleftrightarrow> l \<le> i"
      using e(2) i Cons.prems(3) blen_take_less_iff [of i t0 l]
      by (auto simp: replaceable_def st is_char_boundary_def char_at_byte_take blen_take_le not_less blen_take_mono
          simp del: blen_simps)
    have tail: "replace_loop t0 r (map (\<lambda>k. match_of t0 q (Suc i + k)) (occurrences q s)) (blen (take (i + length q) t0))
        = str_replace q r (drop (length q) (c # s))"
      using IH [OF e(2)] q by (cases q) auto
    show ?thesis
    proof (cases "l \<le> i")
      case le: True
      have "byte_slice t0 (blen (take l t0)) (blen (take i t0)) = drop l (take i t0)"
        using byte_slice_take [of l t0 i] i le by (simp add: drop_take)
      then show ?thesis
        unfolding occurrences_Cons using True rep tail le
        by (simp add: st comp_def str_replace_Cons [OF q] del: drop_Suc_Cons)
    next
      case gt: False
      then have "drop (l - i) (c # s) = drop (l - Suc i) s" by (metis Suc_diff_Suc drop_Suc_Cons not_le)
      then show ?thesis
        unfolding occurrences_Cons using True rep gt IH [OF Cons.prems(3)]
        by (auto simp: comp_def)
    qed
  qed
qed

lemma matches_all_occurrences:
  assumes "q \<noteq> []"
  shows "find_matches_with_scratch ct s q True False = map (match_of s q) (occurrences q s)"
proof -
  have "match_at ct s None False (blen (take k s)) (blen (take k s) + blen q) = [match_of s q k]"
    if "k \<in> set (occurrences q s)" for k
  proof -
    have "k \<le> length s" using that by (auto simp: occurrences_def)
    from line_col_spec [OF this] show ?thesis by (simp add: match_at_def match_of_def)
  qed
  then have "concat (map (\<lambda>k. match_at ct s None False (blen (take k s)) (blen (take k s) + blen q)) (occurrences q s))
      = concat (map (\<lambda>k. [match_of s q k]) (occurrences q s))"
    by (intro arg_cong [where f = concat] map_cong refl)
  then show ?thesis using assms by (simp add: find_matches_with_scratch_def match_loop_occurrences)
qed

lemma replace_branches_agree:
  assumes "q \<noteq> []"
  shows "apply_replacements (find_matches_with_scratch ct s q True False) s r = str_replace q r s"
  using replace_loop_occurrences [OF assms, of 0 s s 0 r]
  by (simp add: apply_replacements_def matches_all_occurrences [OF assms])

lemma apply_no_replacements [simp]: "apply_replacements [] s r = s"
  using byte_slice_from_start [of "length s" s] by (simp add: apply_replacements_def)

lemma highlight_text [simp]: "es_text (sr_state (highlight_current_match env bar t)) = es_text (sr_state t)"
  by (simp add: highlight_current_match_def set_cursor_position_def split: option.splits)

definition current_matches :: "search_env \<Rightarrow> search_bar \<Rightarrow> rstr \<Rightarrow> search_match list" where
  "current_matches env bar s =
     find_matches_with_scratch (sv_tables env) s (sb_query bar) (sb_match_case bar) (sb_match_whole_word bar)"

lemma forced_search:
  assumes "sb_query bar \<noteq> []"
  shows "\<exists>k t'. force_perform_search env (Some t) bar
      = (bar\<lparr>sb_last_query := sb_query bar, sb_last_match_case := sb_match_case bar,
             sb_last_match_whole_word := sb_match_whole_word bar,
             sb_matches := current_matches env bar (es_text (sr_state t)), sb_current := k\<rparr>, Some t')
      \<and> k = first_match_from (ie_offset (sv_input env) (es_text (sr_state t)) (es_cursor (sr_state t)))
             (current_matches env bar (es_text (sr_state t)))
      \<and> es_text (sr_state t') = es_text (sr_state t)"
  using assms by (simp add: force_perform_search_def perform_search_def search_cached_def current_matches_def Let_def)

text \<open>C30: Replacing all applies the replacement to every match of the text as it is now, from the left and skipping
  those that overlap a replaced one, whatever the bar remembered of an earlier search. The two ways the code
  takes, the standard library's replacement and the loop over the matches, give the same text.\<close>

theorem replace_all_replaces_every_match:
  assumes "sb_query bar \<noteq> []"
  shows "\<exists>bar' t'. replace_all env (Some t) bar = (bar', Some t')
    \<and> es_text (sr_state t')
        = apply_replacements (current_matches env bar (es_text (sr_state t))) (es_text (sr_state t)) (sb_replace bar)"
proof -
  let ?s = "es_text (sr_state t)"
  obtain k t1 where f: "force_perform_search env (Some t) bar
      = (bar\<lparr>sb_last_query := sb_query bar, sb_last_match_case := sb_match_case bar,
             sb_last_match_whole_word := sb_match_whole_word bar,
             sb_matches := current_matches env bar ?s, sb_current := k\<rparr>, Some t1)"
    and t1: "es_text (sr_state t1) = ?s"
    using forced_search [OF assms] by blast
  have r: "replaced_text env (bar\<lparr>sb_last_query := sb_query bar, sb_last_match_case := sb_match_case bar,
             sb_last_match_whole_word := sb_match_whole_word bar,
             sb_matches := current_matches env bar ?s, sb_current := k\<rparr>) ?s
      = apply_replacements (current_matches env bar ?s) ?s (sb_replace bar)"
    using replace_branches_agree [OF assms, of "sv_tables env" ?s "sb_replace bar"]
    by (auto simp: replaced_text_def current_matches_def)
  show ?thesis
    using f t1 r by (auto simp: replace_all_def set_value_def)
qed

definition sample_search_env :: search_env where
  "sample_search_env = \<lparr>sv_tables = plain_tables,
     sv_input = \<lparr>ie_after_set = (\<lambda>_ _. (0, 0)), ie_offset = (\<lambda>_ _. 0), ie_position = (\<lambda>_ _. (0, 0))\<rparr>, sv_clip = (\<lambda>_ p. p)\<rparr>"

definition sample_bar :: search_bar where
  "sample_bar = \<lparr>sb_show_search = True, sb_query = [97, 97], sb_replace = [98], sb_match_case = True,
     sb_match_whole_word = False, sb_matches = [], sb_current = None, sb_last_query = [], sb_last_match_case = False,
     sb_last_match_whole_word = False\<rparr>"

definition sample_target :: "rstr \<Rightarrow> search_target" where
  "sample_target s = \<lparr>sr_state = (et_content (sample_tab 0))\<lparr>es_text := s\<rparr>, sr_diagnostics = []\<rparr>"

lemma replace_all_replaces_every_match_witness:
  "\<exists>bar' t'. replace_all sample_search_env (Some (sample_target [97, 97, 97])) sample_bar = (bar', Some t')
     \<and> es_text (sr_state t') = [98, 97]"
proof -
  have q: "sb_query sample_bar \<noteq> []" by (simp add: sample_bar_def)
  have "apply_replacements (current_matches sample_search_env sample_bar [97, 97, 97]) [97, 97, 97] [98] = [98, 97]"
    unfolding current_matches_def sample_bar_def
    by (simp add: replace_branches_agree str_replace_Cons starts_with_def)
  then show ?thesis using replace_all_replaces_every_match [OF q, of sample_search_env "sample_target [97, 97, 97]"]
    by (simp add: sample_target_def) (simp add: sample_bar_def)
qed

section \<open>The current match\<close>

text \<open>The steps of the bar: the user types, switches an option, moves or replaces; the editor asks for a refresh, or
  another text or tab takes the place of the searched one.\<close>

inductive bar_step ::
  "search_env \<Rightarrow> search_bar \<times> search_target option \<Rightarrow> search_bar \<times> search_target option \<Rightarrow> bool" for env where
  bar_query: "bar_step env (bar, t) (perform_search env t (bar\<lparr>sb_query := q\<rparr>))"
| bar_case: "bar_step env (bar, t) (perform_search env t (bar\<lparr>sb_match_case := \<not> sb_match_case bar\<rparr>))"
| bar_word: "bar_step env (bar, t) (perform_search env t (bar\<lparr>sb_match_whole_word := \<not> sb_match_whole_word bar\<rparr>))"
| bar_replacement: "bar_step env (bar, t) (bar\<lparr>sb_replace := r\<rparr>, t)"
| bar_toggle: "bar_step env (bar, t) (toggle_search env t bar)"
| bar_next: "bar_step env (bar, t) (search_next env t bar)"
| bar_previous: "bar_step env (bar, t) (search_previous env t bar)"
| bar_refresh: "bar_step env (bar, t) (refresh_matches env t bar)"
| bar_replace: "bar_step env (bar, t) (replace_current env t bar)"
| bar_replace_all: "bar_step env (bar, t) (replace_all env t bar)"
| bar_other_target: "bar_step env (bar, t) (bar, t')"

definition current_ok :: "search_bar \<Rightarrow> bool" where
  "current_ok bar \<longleftrightarrow>
     (sb_current bar = None \<longrightarrow> sb_matches bar = []) \<and> (\<forall>k. sb_current bar = Some k \<longrightarrow> k < length (sb_matches bar))"

lemma first_match_ok:
  "(first_match_from c ms = None \<longrightarrow> ms = []) \<and> (\<forall>k. first_match_from c ms = Some k \<longrightarrow> k < length ms)"
  by (auto simp: first_match_from_def dest: position_lt split: option.splits)

lemma perform_search_ok:
  assumes "sb_matches bar = [] \<or> current_ok bar"
  shows "current_ok (fst (perform_search env t bar))"
  using assms first_match_ok
  by (auto simp: perform_search_def search_cached_def current_ok_def Let_def split: option.splits)

lemma current_ok_fields [simp]:
  "current_ok (bar\<lparr>sb_query := q\<rparr>) = current_ok bar" "current_ok (bar\<lparr>sb_match_case := b\<rparr>) = current_ok bar"
  "current_ok (bar\<lparr>sb_match_whole_word := b\<rparr>) = current_ok bar" "current_ok (bar\<lparr>sb_replace := q\<rparr>) = current_ok bar"
  "current_ok (bar\<lparr>sb_show_search := b\<rparr>) = current_ok bar"
  by (simp_all add: current_ok_def)

lemma move_ok:
  assumes "current_ok bar" "\<And>n k. k < n \<Longrightarrow> step n k < n"
  shows "current_ok (fst (move_to_match env step t bar))"
  using assms by (auto simp: move_to_match_def current_ok_def Let_def split: option.splits)

lemma replace_ok: "current_ok (fst (replace_current env t bar))" "current_ok (fst (replace_all env t bar))"
proof -
  have f: "current_ok (fst (force_perform_search env t bar))"
    by (simp add: force_perform_search_def perform_search_ok)
  then have f': "force_perform_search env t bar = (b, t') \<Longrightarrow> current_ok b" for b t' by simp
  have p: "perform_search env t' (b\<lparr>sb_matches := []\<rparr>) = (b2, t2) \<Longrightarrow> current_ok b2" for t' b b2 t2
    using perform_search_ok [of "b\<lparr>sb_matches := []\<rparr>" env t'] by simp
  show "current_ok (fst (replace_all env t bar))"
    by (auto simp: replace_all_def current_ok_def dest: f' split: prod.splits option.splits)
  show "current_ok (fst (replace_current env t bar))"
    by (auto simp: replace_current_def Let_def dest!: f' p split: prod.splits option.splits)
      (auto simp: current_ok_def)
qed

lemma bar_ops_ok:
  "current_ok bar \<Longrightarrow> current_ok (fst (toggle_search env t bar))"
  "current_ok bar \<Longrightarrow> current_ok (fst (search_next env t bar))"
  "current_ok bar \<Longrightarrow> current_ok (fst (search_previous env t bar))"
  "current_ok (fst (refresh_matches env t bar))"
proof -
  show "current_ok bar \<Longrightarrow> current_ok (fst (toggle_search env t bar))"
    by (auto simp: toggle_search_def close_search_def intro!: perform_search_ok) (simp add: current_ok_def)
  show "current_ok bar \<Longrightarrow> current_ok (fst (search_next env t bar))"
    "current_ok bar \<Longrightarrow> current_ok (fst (search_previous env t bar))"
    unfolding search_next_def search_previous_def by (erule move_ok; auto)+
  show "current_ok (fst (refresh_matches env t bar))"
    unfolding refresh_matches_def by (rule perform_search_ok) simp
qed

lemma bar_step_ok: "bar_step env p p' \<Longrightarrow> current_ok (fst p) \<Longrightarrow> current_ok (fst p')"
proof (induction rule: bar_step.induct)
  case (bar_query bar t q)
  then show ?case by (intro perform_search_ok) simp
next
  case (bar_case bar t)
  then show ?case by (intro perform_search_ok) simp
next
  case (bar_word bar t)
  then show ?case by (intro perform_search_ok) simp
qed (simp_all add: bar_ops_ok replace_ok)

text \<open>C31: In every state the bar can reach, the current match is one of the matches, and there is one whenever
  there are matches.\<close>

theorem current_match_always_valid:
  assumes "(bar_step env)\<^sup>*\<^sup>* p p'" "current_ok (fst p)"
  shows "current_ok (fst p')"
  using assms by (induction rule: rtranclp_induct) (auto dest: bar_step_ok)

lemma current_match_always_valid_witness:
  "current_ok (fst (search_next sample_search_env (Some (sample_target [97, 97])) sample_bar))"
proof (rule current_match_always_valid)
  show "(bar_step sample_search_env)\<^sup>*\<^sup>* (sample_bar, Some (sample_target [97, 97]))
      (search_next sample_search_env (Some (sample_target [97, 97])) sample_bar)"
    by (rule r_into_rtranclp) (rule bar_next)
qed (simp add: current_ok_def sample_bar_def)

text \<open>Without matching case, the text is lowercased character by character but the query as a string, where a
  capital sigma at the end of a word becomes the final sigma: such a query does not find itself.\<close>

definition greek_tables :: case_tables where
  "greek_tables = \<lparr>ct_lower = (\<lambda>c. if 0x391 \<le> c \<and> c \<le> 0x3A9 then [c + 32] else [c]),
     ct_cased = (\<lambda>c. 0x391 \<le> c \<and> c \<le> 0x3C9), ct_case_ignorable = (\<lambda>c. c = 39), ct_alphanumeric = (\<lambda>c. 0x391 \<le> c)\<rparr>"

lemma final_sigma_not_found: "find_matches_with_scratch greek_tables [0x39F, 0x3A3] [0x39F, 0x3A3] False w = []"
  by (simp add: find_matches_with_scratch_def rebuild_lowercase_text_def str_to_lowercase_def greek_tables_def
      case_ignorable_then_cased_def match_loop.simps starts_with_def)

text \<open>A replacement gives the buffer its new text without the change event that updates the modified mark: an
  unmodified tab keeps saying so.\<close>

lemma replaced_tab_stays_unmodified:
  assumes "blen new_text \<noteq> et_original_content_len e"
  shows "let e' = e\<lparr>et_content := sr_state (set_value env new_text \<lparr>sr_state = et_content e, sr_diagnostics = ds\<rparr>)\<rparr>
    in et_modified e' = et_modified e \<and> content_differs_from_original e'"
  using assms by (simp add: set_value_def content_differs_from_original_def Let_def)

end
