(* ===== verification/Ssh_Pool.thy ===== *)
theory Ssh_Pool
  imports Known_Hosts "HOL-Library.AList" "HOL-Library.Multiset"
begin

text \<open>
  \<^verbatim>\<open>src/fulgur/sync/ssh/pool.rs\<close>: the pool of idle SSH sessions. The hash map is an association list with distinct
  keys whose order stands for the iteration order of the map; SHA-256 is a parameter, a session is the stream that
  \<open>connect\<close> returned, and times are milliseconds. The guard \<open>PooledSession\<close> is a pair of key and session that the
  step relation keeps until the guard is dropped or invalidated.
\<close>

section \<open>The pool\<close>

definition SSH_SESSION_IDLE_TTL :: nat where "SSH_SESSION_IDLE_TTL = 60 * 60 * 1000"
definition SSH_SESSION_POOL_CAPACITY :: nat where "SSH_SESSION_POOL_CAPACITY = 64"

record ssh_session_key =
  sk_host :: rstr
  sk_port :: u16
  sk_user :: rstr
  sk_password_hash :: "u8 list"

record slot_entry =
  sl_session :: nat
  sl_last_used :: nat

type_synonym session_pool = "(ssh_session_key \<times> slot_entry) list"

definition new_session_key :: "(rstr \<Rightarrow> u8 list) \<Rightarrow> rstr \<Rightarrow> u16 \<Rightarrow> rstr \<Rightarrow> rstr \<Rightarrow> ssh_session_key" where
  "new_session_key sha host port user pw =
     \<lparr>sk_host = host, sk_port = port, sk_user = user, sk_password_hash = sha pw\<rparr>"

definition evict_stale :: "nat \<Rightarrow> nat \<Rightarrow> session_pool \<Rightarrow> session_pool" where
  "evict_stale now ttl pool = filter (\<lambda>(k, sl). now - sl_last_used sl < ttl) pool"

definition pool_take :: "nat \<Rightarrow> nat \<Rightarrow> ssh_session_key \<Rightarrow> session_pool \<Rightarrow> nat option \<times> session_pool" where
  "pool_take now ttl key pool0 =
     (let pool = evict_stale now ttl pool0 in (map_option sl_session (map_of pool key), AList.delete key pool))"

fun oldest_key :: "session_pool \<Rightarrow> (ssh_session_key \<times> nat) option" where
  "oldest_key [] = None"
| "oldest_key ((k, sl) # pool) =
     (case oldest_key pool of
        None \<Rightarrow> Some (k, sl_last_used sl)
      | Some (k', t) \<Rightarrow> if sl_last_used sl \<le> t then Some (k, sl_last_used sl) else Some (k', t))"

definition pool_put :: "nat \<Rightarrow> nat \<Rightarrow> ssh_session_key \<Rightarrow> nat \<Rightarrow> session_pool \<Rightarrow> session_pool" where
  "pool_put now ttl key session pool0 =
     (let pool = evict_stale now ttl pool0;
          room = (if SSH_SESSION_POOL_CAPACITY \<le> length pool
                  then (case oldest_key pool of Some (k, _) \<Rightarrow> AList.delete k pool | None \<Rightarrow> pool)
                  else pool)
      in AList.update key \<lparr>sl_session = session, sl_last_used = now\<rparr> room)"

definition pool_clear :: "session_pool \<Rightarrow> session_pool" where "pool_clear pool = []"

definition invalidate_by_credential :: "rstr \<Rightarrow> u16 \<Rightarrow> rstr \<Rightarrow> session_pool \<Rightarrow> session_pool" where
  "invalidate_by_credential host port user pool =
     filter (\<lambda>(k, _). \<not> (sk_host k = host \<and> sk_port k = port \<and> sk_user k = user)) pool"

text \<open>\<open>alive\<close> is the answer of \<open>is_authenticated\<close> for a pooled session; a dead one is dropped and a new session
  connected.\<close>

definition checkout_or_connect ::
  "(rstr \<Rightarrow> u8 list) \<Rightarrow> connect_env \<Rightarrow> (nat \<Rightarrow> bool) \<Rightarrow> nat \<Rightarrow> nat \<Rightarrow> u8 list option \<Rightarrow> remote_spec \<Rightarrow> rstr \<Rightarrow> rstr
     \<Rightarrow> (rstr \<Rightarrow> rstr \<Rightarrow> u16 \<Rightarrow> host_key_decision) \<Rightarrow> session_pool
     \<Rightarrow> (ssh_error + ssh_session_key \<times> nat) \<times> session_pool \<times> u8 list option \<times> connect_event list" where
  "checkout_or_connect sha env alive now ttl file spec user pw decide pool0 =
     (let key = new_session_key sha (rs_host spec) (rs_port spec) user pw;
          (taken, pool) = pool_take now ttl key pool0;
          fresh = (case connect env file spec user pw decide of
                     (Inl e, file', evs) \<Rightarrow> (Inl e, pool, file', evs)
                   | (Inr s, file', evs) \<Rightarrow> (Inr (key, s), pool, file', evs))
      in (case taken of
            Some s \<Rightarrow> if alive s then (Inr (key, s), pool, file, []) else fresh
          | None \<Rightarrow> fresh))"

section \<open>The pool in use\<close>

text \<open>The process: the pool, the guards in use, the \<^verbatim>\<open>known_hosts\<close> file and the clock. A record of the successful
  connections (session, location, user, password) is kept for the statements; no step reads it but to choose a
  stream that is new.\<close>

record pool_system =
  ps_pool :: session_pool
  ps_guards :: "(ssh_session_key \<times> nat) list"
  ps_file :: "u8 list option"
  ps_now :: nat
  ps_made :: "(nat \<times> remote_spec \<times> rstr \<times> rstr) list"

definition new_pool_system :: "u8 list option \<Rightarrow> pool_system" where
  "new_pool_system file = \<lparr>ps_pool = [], ps_guards = [], ps_file = file, ps_now = 0, ps_made = []\<rparr>"

definition drop_guard :: "nat \<Rightarrow> ssh_session_key \<times> nat \<Rightarrow> pool_system \<Rightarrow> pool_system" where
  "drop_guard ttl g st =
     st\<lparr>ps_guards := remove1 g (ps_guards st), ps_pool := pool_put (ps_now st) ttl (fst g) (snd g) (ps_pool st)\<rparr>"

definition invalidate_guard :: "ssh_session_key \<times> nat \<Rightarrow> pool_system \<Rightarrow> pool_system" where
  "invalidate_guard g st = st\<lparr>ps_guards := remove1 g (ps_guards st)\<rparr>"

inductive pool_step :: "(rstr \<Rightarrow> u8 list) \<Rightarrow> nat \<Rightarrow> pool_system \<Rightarrow> pool_system \<Rightarrow> bool"
  for sha ttl where
    passes: "pool_step sha ttl st (st\<lparr>ps_now := ps_now st + d\<rparr>)"
  | reuses: "\<lbrakk>checkout_or_connect sha env alive (ps_now st) ttl (ps_file st) spec user pw decide (ps_pool st)
                = (Inr g, pool, file, []); pool_take (ps_now st) ttl (fst g) (ps_pool st) = (Some (snd g), pool)\<rbrakk>
      \<Longrightarrow> pool_step sha ttl st (st\<lparr>ps_pool := pool, ps_guards := g # ps_guards st, ps_file := file\<rparr>)"
  | connects: "\<lbrakk>checkout_or_connect sha env alive (ps_now st) ttl (ps_file st) spec user pw decide (ps_pool st)
                = (Inr g, pool, file, evs); connect env (ps_file st) spec user pw decide = (Inr (snd g), file, evs);
                snd g \<notin> fst ` set (ps_made st)\<rbrakk>
      \<Longrightarrow> pool_step sha ttl st
           (st\<lparr>ps_pool := pool, ps_guards := g # ps_guards st, ps_file := file,
               ps_made := (snd g, spec, user, pw) # ps_made st\<rparr>)"
  | fails: "checkout_or_connect sha env alive (ps_now st) ttl (ps_file st) spec user pw decide (ps_pool st)
                = (Inl e, pool, file, evs)
      \<Longrightarrow> pool_step sha ttl st (st\<lparr>ps_pool := pool, ps_file := file\<rparr>)"
  | drops: "g \<in> set (ps_guards st) \<Longrightarrow> pool_step sha ttl st (drop_guard ttl g st)"
  | invalidates: "g \<in> set (ps_guards st) \<Longrightarrow> pool_step sha ttl st (invalidate_guard g st)"
  | clears: "pool_step sha ttl st (st\<lparr>ps_pool := pool_clear (ps_pool st)\<rparr>)"
  | forgets: "pool_step sha ttl st (st\<lparr>ps_pool := invalidate_by_credential h p u (ps_pool st)\<rparr>)"

inductive pool_reaches :: "(rstr \<Rightarrow> u8 list) \<Rightarrow> nat \<Rightarrow> pool_system \<Rightarrow> pool_system \<Rightarrow> bool"
  for sha ttl where
    here: "pool_reaches sha ttl st st"
  | onward: "\<lbrakk>pool_reaches sha ttl st0 st; pool_step sha ttl st st'\<rbrakk> \<Longrightarrow> pool_reaches sha ttl st0 st'"

section \<open>What the users of a pool rely on\<close>

text \<open>The interface of a pool: what it holds is a multiset of keys with their sessions; taking hands out a held
  session and gives it up, and putting adds at most the session put, under the key it is put under. A pool may
  forget sessions at any time.\<close>

locale session_cache =
  fixes contents :: "'p \<Rightarrow> ('k \<times> 's) multiset"
    and take_out :: "nat \<Rightarrow> 'k \<Rightarrow> 'p \<Rightarrow> 's option \<times> 'p"
    and put_in :: "nat \<Rightarrow> 'k \<Rightarrow> 's \<Rightarrow> 'p \<Rightarrow> 'p"
  assumes take_out_gives: "take_out now k p = (Some s, p') \<Longrightarrow> add_mset (k, s) (contents p') \<subseteq># contents p"
    and take_out_keeps: "take_out now k p = (r, p') \<Longrightarrow> contents p' \<subseteq># contents p"
    and put_in_adds: "contents (put_in now k s p) \<subseteq># add_mset (k, s) (contents p)"
begin

text \<open>Whatever bounds the sessions held and handed out together goes on to bound them.\<close>

lemma handing_out:
  assumes "take_out now k p = (Some s, p')" "contents p + mset out \<subseteq># M"
  shows "contents p' + mset ((k, s) # out) \<subseteq># M"
proof -
  have "contents p' + mset ((k, s) # out) = add_mset (k, s) (contents p') + mset out" by simp
  then show ?thesis
    using take_out_gives [OF assms(1)] assms(2) by (metis subset_mset.add_right_mono subset_mset.order_trans)
qed

lemma giving_back:
  assumes "(k, s) \<in> set out" "contents p + mset out \<subseteq># M"
  shows "contents (put_in now k s p) + mset (remove1 (k, s) out) \<subseteq># M"
proof -
  have "contents (put_in now k s p) + mset (remove1 (k, s) out)
      \<subseteq># add_mset (k, s) (contents p) + mset (remove1 (k, s) out)"
    by (rule subset_mset.add_right_mono [OF put_in_adds])
  also have "\<dots> = contents p + mset out" using assms(1) by (simp add: insert_DiffM)
  finally show ?thesis using assms(2) by (rule subset_mset.order_trans)
qed

lemma connecting:
  assumes "take_out now k p = (r, p')" "contents p + mset out \<subseteq># M"
  shows "contents p' + mset (x # out) \<subseteq># add_mset x M"
  using subset_mset.order_trans [OF subset_mset.add_right_mono [OF take_out_keeps [OF assms(1)]] assms(2)] by simp

lemma forgetting:
  assumes "contents p' \<subseteq># contents p" "contents p + mset out \<subseteq># M"
  shows "contents p' + mset out \<subseteq># M"
  using assms by (metis subset_mset.add_right_mono subset_mset.order_trans)

end

definition pooled :: "session_pool \<Rightarrow> (ssh_session_key \<times> nat) multiset" where
  "pooled pool = image_mset (\<lambda>(k, sl). (k, sl_session sl)) (mset pool)"

lemma mset_delete_sub: "mset (AList.delete k p) \<subseteq># mset p"
  by (simp add: AList.delete_eq)

lemma mset_delete_gives: "map_of p k = Some v \<Longrightarrow> add_mset (k, v) (mset (AList.delete k p)) \<subseteq># mset p"
proof (induction p)
  case (Cons x p)
  obtain k' v' where x: "x = (k', v')" by fastforce
  show ?case
  proof (cases "k' = k")
    case True
    then show ?thesis using Cons.prems x mset_delete_sub [of k p] by simp
  next
    case False
    then have "add_mset x (add_mset (k, v) (mset (AList.delete k p))) \<subseteq># add_mset x (mset p)"
      using Cons x by simp
    then show ?thesis using False x by (simp add: add_mset_commute)
  qed
qed simp

lemma mset_update_sub: "mset (AList.update k v p) \<subseteq># add_mset (k, v) (mset p)"
proof (induction p)
  case (Cons x p)
  obtain k' v' where x: "x = (k', v')" by fastforce
  show ?case using Cons x by (auto simp: add_mset_commute)
qed simp

lemma pooled_mono: "mset p' \<subseteq># mset p \<Longrightarrow> pooled p' \<subseteq># pooled p"
  by (simp add: pooled_def image_mset_subseteq_mono)

lemma evicted_sub: "mset (evict_stale now ttl p) \<subseteq># mset p"
  by (simp add: evict_stale_def)

interpretation pool: session_cache pooled "\<lambda>now. pool_take now ttl" "\<lambda>now. pool_put now ttl" for ttl
proof unfold_locales
  fix now k s and p p' :: session_pool
  assume "pool_take now ttl k p = (Some s, p')"
  then obtain sl where sl: "map_of (evict_stale now ttl p) k = Some sl" "sl_session sl = s"
    "p' = AList.delete k (evict_stale now ttl p)"
    by (auto simp: pool_take_def Let_def)
  have "add_mset (k, s) (pooled p') = image_mset (\<lambda>(k, sl). (k, sl_session sl)) (add_mset (k, sl) (mset p'))"
    using sl by (simp add: pooled_def)
  also have "\<dots> \<subseteq># pooled (evict_stale now ttl p)"
    unfolding pooled_def using mset_delete_gives [OF sl(1)] sl(3) by (simp add: image_mset_subseteq_mono del: image_mset_add_mset)
  finally show "add_mset (k, s) (pooled p') \<subseteq># pooled p"
    using pooled_mono [OF evicted_sub] by (rule subset_mset.order_trans)
next
  fix now k r and p p' :: session_pool
  assume "pool_take now ttl k p = (r, p')"
  then have "mset p' \<subseteq># mset p"
    using subset_mset.order_trans [OF mset_delete_sub evicted_sub] by (auto simp: pool_take_def Let_def)
  then show "pooled p' \<subseteq># pooled p" by (rule pooled_mono)
next
  fix now k s and p :: session_pool
  define q where "q = evict_stale now ttl p"
  define room where "room = (if SSH_SESSION_POOL_CAPACITY \<le> length q
      then (case oldest_key q of Some (k, _) \<Rightarrow> AList.delete k q | None \<Rightarrow> q) else q)"
  have r: "pool_put now ttl k s p = AList.update k \<lparr>sl_session = s, sl_last_used = now\<rparr> room"
    unfolding pool_put_def Let_def q_def room_def by (rule refl)
  have "mset room \<subseteq># mset q" using mset_delete_sub by (auto simp: room_def split: option.splits)
  then have "mset room \<subseteq># mset p" unfolding q_def using evicted_sub by (rule subset_mset.order_trans)
  then have "add_mset (k, \<lparr>sl_session = s, sl_last_used = now\<rparr>) (mset room)
      \<subseteq># add_mset (k, \<lparr>sl_session = s, sl_last_used = now\<rparr>) (mset p)" by simp
  then have "mset (pool_put now ttl k s p) \<subseteq># add_mset (k, \<lparr>sl_session = s, sl_last_used = now\<rparr>) (mset p)"
    unfolding r by (rule subset_mset.order_trans [OF mset_update_sub])
  from image_mset_subseteq_mono [OF this, of "\<lambda>(k, sl). (k, sl_session sl)"]
  show "pooled (pool_put now ttl k s p) \<subseteq># add_mset (k, s) (pooled p)" by (simp add: pooled_def)
qed

section \<open>Sessions and their owners\<close>

definition made_entry :: "(rstr \<Rightarrow> u8 list) \<Rightarrow> nat \<times> remote_spec \<times> rstr \<times> rstr \<Rightarrow> ssh_session_key \<times> nat" where
  "made_entry sha m = (case m of (s, spec, u, pw) \<Rightarrow> (new_session_key sha (rs_host spec) (rs_port spec) u pw, s))"

lemma snd_made_entry [simp]: "snd (made_entry sha m) = fst m"
  by (simp add: made_entry_def split: prod.splits)

definition connected :: "nat \<times> remote_spec \<times> rstr \<times> rstr \<Rightarrow> bool" where
  "connected m \<longleftrightarrow> (case m of (s, spec, u, pw) \<Rightarrow>
     \<exists>env file decide file' evs. connect env file spec u pw decide = (Inr s, file', evs))"

definition pool_ok :: "session_pool \<Rightarrow> bool" where
  "pool_ok p \<longleftrightarrow> distinct (map fst p) \<and> length p \<le> SSH_SESSION_POOL_CAPACITY"

definition system_ok :: "(rstr \<Rightarrow> u8 list) \<Rightarrow> pool_system \<Rightarrow> bool" where
  "system_ok sha st \<longleftrightarrow>
     pool_ok (ps_pool st)
     \<and> pooled (ps_pool st) + mset (ps_guards st) \<subseteq># mset (map (made_entry sha) (ps_made st))
     \<and> distinct (map fst (ps_made st)) \<and> (\<forall>m \<in> set (ps_made st). connected m)"

lemma pool_ok_filter [intro]: "pool_ok p \<Longrightarrow> pool_ok (filter P p)"
  unfolding pool_ok_def by (meson distinct_map_filter le_trans length_filter_le)

lemma pool_ok_delete [intro]: "pool_ok p \<Longrightarrow> pool_ok (AList.delete k p)"
  unfolding AList.delete_eq by (rule pool_ok_filter)

lemma pool_ok_evict [intro]: "pool_ok p \<Longrightarrow> pool_ok (evict_stale now ttl p)"
  unfolding evict_stale_def by (rule pool_ok_filter)

lemma pool_ok_take: "pool_ok p \<Longrightarrow> pool_take now ttl k p = (r, p') \<Longrightarrow> pool_ok p'"
  by (auto simp: pool_take_def Let_def)

lemma oldest_key_in: "p \<noteq> [] \<Longrightarrow> \<exists>k t. oldest_key p = Some (k, t) \<and> k \<in> fst ` set p"
proof (induction p)
  case (Cons x p)
  show ?case
  proof (cases "p = []")
    case False
    then obtain k t where "oldest_key p = Some (k, t)" "k \<in> fst ` set p" using Cons.IH by blast
    then show ?thesis by (cases x) auto
  qed (cases x, simp)
qed simp

lemma length_update: "length (AList.update k v p) = (if k \<in> fst ` set p then length p else Suc (length p))"
  by (induction p) auto

lemma length_delete_in: "k \<in> fst ` set p \<Longrightarrow> length (AList.delete k p) < length p"
proof (induction p)
  case (Cons x p)
  show ?case
  proof (cases "fst x = k")
    case True
    then show ?thesis using AList.length_delete_le [of k p] by (cases x) (simp add: less_Suc_eq_le)
  next
    case False
    then have "k \<in> fst ` set p" using Cons.prems by auto
    then show ?thesis using Cons.IH False by (cases x) simp
  qed
qed simp

lemma pool_ok_put:
  assumes "pool_ok p"
  shows "pool_ok (pool_put now ttl k s p)"
proof -
  define q where "q = evict_stale now ttl p"
  have q: "pool_ok q" unfolding q_def using assms by (rule pool_ok_evict)
  define room where "room = (if SSH_SESSION_POOL_CAPACITY \<le> length q
      then (case oldest_key q of Some (k, _) \<Rightarrow> AList.delete k q | None \<Rightarrow> q) else q)"
  have "distinct (map fst room)" using q by (auto simp: room_def pool_ok_def distinct_delete split: option.splits)
  moreover have "length room < SSH_SESSION_POOL_CAPACITY"
  proof (cases "SSH_SESSION_POOL_CAPACITY \<le> length q")
    case True
    then have "q \<noteq> []" by (auto simp: SSH_SESSION_POOL_CAPACITY_def)
    then obtain k' t where o: "oldest_key q = Some (k', t)" "k' \<in> fst ` set q" using oldest_key_in by blast
    then show ?thesis using length_delete_in [OF o(2)] q True by (simp add: room_def pool_ok_def)
  qed (simp add: room_def)
  ultimately show ?thesis
    by (auto simp: pool_put_def Let_def q_def [symmetric] room_def [symmetric] pool_ok_def distinct_update length_update)
qed

lemma checkout_pool:
  assumes "checkout_or_connect sha env alive now ttl file spec user pw decide p = (r, p', file', evs)"
  shows "\<exists>t. pool_take now ttl (new_session_key sha (rs_host spec) (rs_port spec) user pw) p = (t, p')"
    and "r = Inr g \<Longrightarrow> fst g = new_session_key sha (rs_host spec) (rs_port spec) user pw"
  using assms by (auto simp: checkout_or_connect_def Let_def split: prod.splits option.splits if_splits sum.splits)

lemma system_ok_step:
  assumes "pool_step sha ttl st st'" "system_ok sha st"
  shows "system_ok sha st'"
  using assms
proof (cases rule: pool_step.cases)
  case (passes d)
  then show ?thesis using assms(2) by (simp add: system_ok_def)
next
  case (reuses env alive spec user pw decide g pool fl)
  have "pooled pool + mset ((fst g, snd g) # ps_guards st) \<subseteq># mset (map (made_entry sha) (ps_made st))"
    using pool.handing_out [OF reuses(3)] assms(2) by (simp add: system_ok_def)
  then show ?thesis using assms(2) pool_ok_take [OF _ reuses(3)] by (simp add: reuses(1) system_ok_def)
next
  case (connects env alive spec user pw decide g pool fl evs)
  obtain t where t: "pool_take (ps_now st) ttl (new_session_key sha (rs_host spec) (rs_port spec) user pw) (ps_pool st) = (t, pool)"
    using checkout_pool(1) [OF connects(2)] by blast
  have g: "made_entry sha (snd g, spec, user, pw) = g"
    using checkout_pool(2) [OF connects(2), of g] by (cases g) (simp add: made_entry_def)
  have "pooled pool + mset (g # ps_guards st) \<subseteq># add_mset g (mset (map (made_entry sha) (ps_made st)))"
    using pool.connecting [OF t] assms(2) by (simp add: system_ok_def)
  moreover have "connected (snd g, spec, user, pw)" unfolding connected_def using connects(3) by (simp, blast)
  ultimately show ?thesis using assms(2) pool_ok_take [OF _ t] connects(4)
    by (auto simp: connects(1) system_ok_def g)
next
  case (fails env alive spec user pw decide e pool fl evs)
  obtain t where t: "pool_take (ps_now st) ttl (new_session_key sha (rs_host spec) (rs_port spec) user pw) (ps_pool st) = (t, pool)"
    using checkout_pool(1) [OF fails(2)] by blast
  have "pooled pool + mset (ps_guards st) \<subseteq># mset (map (made_entry sha) (ps_made st))"
    using pool.forgetting [OF pool.take_out_keeps [OF t]] assms(2) by (simp add: system_ok_def)
  then show ?thesis using assms(2) pool_ok_take [OF _ t] by (simp add: fails(1) system_ok_def)
next
  case (drops g)
  have "pooled (pool_put (ps_now st) ttl (fst g) (snd g) (ps_pool st)) + mset (remove1 (fst g, snd g) (ps_guards st))
      \<subseteq># mset (map (made_entry sha) (ps_made st))"
    using assms(2) drops(2) by (intro pool.giving_back) (simp_all add: system_ok_def)
  then show ?thesis using assms(2) pool_ok_put by (simp add: drops(1) drop_guard_def system_ok_def)
next
  case (invalidates g)
  have "mset (remove1 g (ps_guards st)) \<subseteq># mset (ps_guards st)" by simp
  then have "pooled (ps_pool st) + mset (remove1 g (ps_guards st)) \<subseteq># pooled (ps_pool st) + mset (ps_guards st)"
    by (rule subset_mset.add_left_mono)
  note sub = subset_mset.order_trans [OF this]
  show ?thesis using assms(2) sub
    by (simp add: invalidates(1) invalidate_guard_def system_ok_def del: mset_remove1 mset_map)
next
  case clears
  then show ?thesis using assms(2) pool.forgetting [of "[]" "ps_pool st"]
    by (simp add: system_ok_def pool_clear_def pool_ok_def pooled_def)
next
  case (forgets h p u)
  have "mset (invalidate_by_credential h p u (ps_pool st)) \<subseteq># mset (ps_pool st)" by (simp add: invalidate_by_credential_def)
  then have "pooled (invalidate_by_credential h p u (ps_pool st)) \<subseteq># pooled (ps_pool st)" by (rule pooled_mono)
  then show ?thesis using assms(2) pool.forgetting pool_ok_filter
    by (auto simp: forgets(1) system_ok_def invalidate_by_credential_def)
qed

lemma reaches_ok: "pool_reaches sha ttl st0 st \<Longrightarrow> system_ok sha st0 \<Longrightarrow> system_ok sha st"
  by (induction rule: pool_reaches.induct) (auto intro: system_ok_step)

lemma system_ok_new: "system_ok sha (new_pool_system f)"
  by (simp add: system_ok_def new_pool_system_def pool_ok_def pooled_def)

lemma distinct_sub_mset:
  assumes "mset xs \<subseteq># mset ys" "distinct ys"
  shows "distinct xs"
proof -
  have "count (mset xs) a = (if a \<in> set xs then 1 else 0)" for a
  proof -
    have "count (mset xs) a \<le> count (mset ys) a" using assms(1) by (rule mset_subset_eq_count)
    also have "\<dots> \<le> 1" using assms(2) by (simp add: distinct_count_atmost_1)
    finally have "count (mset xs) a \<le> 1" .
    moreover have "0 < count (mset xs) a" if "a \<in> set xs" using that by simp
    moreover have "count (mset xs) a = 0" if "a \<notin> set xs" using that by (simp add: count_eq_zero_iff)
    ultimately show ?thesis by (cases "a \<in> set xs") (simp_all add: le_Suc_eq)
  qed
  then show ?thesis by (simp add: distinct_count_atmost_1)
qed

text \<open>C17: Whatever sequence of checkouts, returns, invalidations, credential resets and delays the process runs, the
  pool stays within its capacity with one session per key, every session is in one place only, in the pool or with
  one guard, and it serves only the host, port, user and password digest for which it was connected.\<close>

theorem sessions_stay_with_their_credentials:
  assumes "pool_reaches sha ttl (new_pool_system f) st"
  defines "held \<equiv> map (\<lambda>(k, sl). (k, sl_session sl)) (ps_pool st) @ ps_guards st"
  shows "length (ps_pool st) \<le> SSH_SESSION_POOL_CAPACITY \<and> distinct (map fst (ps_pool st))
    \<and> distinct (map snd held)
    \<and> list_all (\<lambda>g. list_ex (\<lambda>m. made_entry sha m = g \<and> connected m) (ps_made st)) held"
proof -
  have ok: "system_ok sha st" using reaches_ok [OF assms(1) system_ok_new] .
  have held: "mset held = pooled (ps_pool st) + mset (ps_guards st)" by (simp add: held_def pooled_def)
  have sub: "mset held \<subseteq># mset (map (made_entry sha) (ps_made st))" using ok by (simp add: system_ok_def held)
  have "mset (map snd held) \<subseteq># mset (map fst (ps_made st))"
    using image_mset_subseteq_mono [OF sub, of snd] by (simp add: image_mset.compositionality comp_def)
  then have "distinct (map snd held)" by (rule distinct_sub_mset) (use ok in \<open>simp add: system_ok_def\<close>)
  moreover have "list_ex (\<lambda>m. made_entry sha m = g \<and> connected m) (ps_made st)" if g: "g \<in> set held" for g
  proof -
    have "g \<in># mset (map (made_entry sha) (ps_made st))" using mset_subset_eqD [OF sub] g by simp
    then show ?thesis using ok by (auto simp: list_ex_iff system_ok_def)
  qed
  ultimately show ?thesis using ok by (simp add: system_ok_def pool_ok_def list_all_iff)
qed

definition sample_connect_env :: connect_env where
  "sample_connect_env = \<lparr>cn_resolve = Inr [Inr 4], cn_session_error = None, cn_handshake_error = None,
     cn_host_key = sample_env CheckMatch, cn_userauth_error = None, cn_authenticated = True, cn_sftp_error = None\<rparr>"

definition sample_location :: remote_spec where
  "sample_location = \<lparr>rs_host = [97], rs_port = 22, rs_user = None, rs_path = [47], rs_password = None\<rparr>"

definition sample_guard :: "ssh_session_key \<times> nat" where
  "sample_guard = (new_session_key (\<lambda>_. [7]) [97] 22 [98] [99], 4)"

definition sample_pool_system :: pool_system where
  "sample_pool_system =
     \<lparr>ps_pool = [(fst sample_guard, \<lparr>sl_session = 4, sl_last_used = 0\<rparr>)], ps_guards = [], ps_file = None, ps_now = 0,
      ps_made = [(4, sample_location, [98], [99])]\<rparr>"

lemma sample_connects:
  "connect sample_connect_env None sample_location [98] [99] (\<lambda>_ _ _. Reject)
     = (Inr 4, None, [Handshake 4, SentPassword [98] [99]])"
  by (simp add: connect_def connect_tcp_def hostkey_preferences_def known_host_algorithms_for_target_def
      hostkey_method_preferences_from_known_hosts_def sample_connect_env_def sample_location_def sample_defs)

lemma sample_pool_reached: "pool_reaches (\<lambda>_. [7]) 10 (new_pool_system None) sample_pool_system"
proof -
  let ?st = "\<lparr>ps_pool = [], ps_guards = [sample_guard], ps_file = None, ps_now = 0,
      ps_made = [(4, sample_location, [98], [99])]\<rparr>"
  have co: "checkout_or_connect (\<lambda>_. [7]) sample_connect_env (\<lambda>_. True) 0 10 None sample_location [98] [99]
      (\<lambda>_ _ _. Reject) [] = (Inr sample_guard, [], None, [Handshake 4, SentPassword [98] [99]])"
    by (simp add: checkout_or_connect_def pool_take_def evict_stale_def Let_def sample_connects sample_guard_def)
      (simp add: sample_location_def)
  have s1: "pool_step (\<lambda>_. [7]) 10 (new_pool_system None) ?st"
    using pool_step.connects [of "\<lambda>_. [7]" sample_connect_env "\<lambda>_. True" "new_pool_system None" 10 sample_location
        "[98]" "[99]" "\<lambda>_ _ _. Reject" sample_guard "[]" None "[Handshake 4, SentPassword [98] [99]]"] co sample_connects
    by (simp add: new_pool_system_def) (simp add: sample_guard_def)
  have s2: "pool_step (\<lambda>_. [7]) 10 ?st (drop_guard 10 sample_guard ?st)" by (rule pool_step.drops) simp
  have d: "drop_guard 10 sample_guard ?st = sample_pool_system"
    by (simp add: drop_guard_def pool_put_def evict_stale_def SSH_SESSION_POOL_CAPACITY_def sample_pool_system_def)
      (simp add: sample_guard_def)
  show ?thesis
    by (rule pool_reaches.onward [OF pool_reaches.onward [OF pool_reaches.here s1] s2 [unfolded d]])
qed

lemma sessions_stay_with_their_credentials_witness:
  "pool_reaches (\<lambda>_. [7]) 10 (new_pool_system None) sample_pool_system
   \<and> list_ex (\<lambda>m. made_entry (\<lambda>_. [7]) m = sample_guard \<and> connected m) (ps_made sample_pool_system)"
  using sessions_stay_with_their_credentials [OF sample_pool_reached] sample_pool_reached
  by (simp add: Let_def sample_pool_system_def) (simp add: sample_guard_def)

text \<open>A session reused was idle for less than the time to live, and is still authenticated; otherwise the checkout is
  a connection.\<close>

lemma checkout_reuses_or_connects:
  assumes "checkout_or_connect sha env alive now ttl file spec user pw decide p = (Inr g, p', file', evs)"
    and "distinct (map fst p)"
  shows "(\<exists>sl. map_of p (fst g) = Some sl \<and> sl_session sl = snd g \<and> now - sl_last_used sl < ttl \<and> alive (snd g)
            \<and> evs = [] \<and> file' = file)
       \<or> connect env file spec user pw decide = (Inr (snd g), file', evs)"
proof -
  have "map_of (evict_stale now ttl p) k = Some sl \<longrightarrow> map_of p k = Some sl \<and> now - sl_last_used sl < ttl" for k sl
    using assms(2) by (auto simp: evict_stale_def dest!: map_of_SomeD)
  then show ?thesis
    using assms(1) by (auto simp: checkout_or_connect_def pool_take_def Let_def split: prod.splits option.splits if_splits sum.splits)
qed

text \<open>Returning a session to a full pool evicts the oldest entry even when its key is in the pool already.\<close>

lemma full_pool_evicts_for_its_own_key:
  assumes "evict_stale now ttl p = p" "length p = SSH_SESSION_POOL_CAPACITY" "distinct (map fst p)"
    "key \<in> fst ` set p" "oldest_key p = Some (k, t)" "k \<noteq> key"
  shows "length (pool_put now ttl key s p) < SSH_SESSION_POOL_CAPACITY"
proof -
  have p: "p \<noteq> []" using assms(2) by (auto simp: SSH_SESSION_POOL_CAPACITY_def)
  have "k \<in> fst ` set p" using oldest_key_in [OF p] assms(5) by auto
  then have "length (AList.delete k p) < length p" by (rule length_delete_in)
  moreover have "key \<in> fst ` set (AList.delete k p)" using assms(4,6) by (force simp: AList.delete_eq)
  ultimately show ?thesis using assms by (simp add: pool_put_def Let_def length_update)
qed

end
