(* ===== verification/Atomic_Write.thy ===== *)
theory Atomic_Write
  imports Prelude
begin

text \<open>
  \<^verbatim>\<open>src/fulgur/utils/atomic_write.rs\<close> on Unix: writing a file through a temporary sibling that is renamed over it,
  and the removal of temporary files a crash left behind. The file system is a map from paths to the contents and the
  mode of a file; which system call fails is the answer of \<open>aw_env\<close>. The file system after every call is kept,
  since a crash can stop the program there.
\<close>

section \<open>The file system and its calls\<close>

type_synonym file_sys = "rstr \<rightharpoonup> u8 list \<times> nat"

datatype aw_step =
    CreateTemp
  | WriteAll
  | FlushTemp
  | SyncTemp
  | SetPermissions
  | RenameOver
  | OpenParent
  | SyncParent

datatype aw_error = NoParentDirectory | NoFileName | StepFailed aw_step

record aw_env =
  aw_canonicalize :: "rstr \<Rightarrow> rstr option"
  aw_pid :: nat
  aw_nonce :: nat
  aw_created_mode :: "nat option \<Rightarrow> nat"
  aw_fails :: "aw_step \<Rightarrow> bool"
  aw_partial :: nat
  aw_remove_fails :: bool

definition resolve_target :: "aw_env \<Rightarrow> rstr \<Rightarrow> rstr" where
  "resolve_target env p = (case aw_canonicalize env p of Some q \<Rightarrow> q | None \<Rightarrow> p)"

text \<open>\<open>Path::join\<close> of a name that has no separator.\<close>

definition path_join :: "rstr \<Rightarrow> rstr \<Rightarrow> rstr" where
  "path_join d n = (if d = [] then n else if ends_with [47] d then d @ n else d @ 47 # n)"

definition tmp_name :: "rstr \<Rightarrow> nat \<Rightarrow> nat \<Rightarrow> nat \<Rightarrow> rstr" where
  "tmp_name filename pid nonce counter =
     [46] @ filename @ [46] @ show_nat pid @ [46] @ show_nat nonce @ [46] @ show_nat counter @ lit ''.tmp''"

definition exec_step ::
  "aw_env \<Rightarrow> rstr \<Rightarrow> rstr \<Rightarrow> u8 list \<Rightarrow> nat option \<Rightarrow> aw_step \<Rightarrow> file_sys \<Rightarrow> file_sys \<times> bool" where
  "exec_step env target tmp contents perms s fs =
     (case s of
        CreateTemp \<Rightarrow>
          (if aw_fails env s \<or> fs tmp \<noteq> None then (fs, False)
           else (fs(tmp \<mapsto> ([], aw_created_mode env perms)), True))
      | WriteAll \<Rightarrow>
          (let mode = (case fs tmp of Some (_, m) \<Rightarrow> m | None \<Rightarrow> 0) in
           if aw_fails env s then (fs(tmp \<mapsto> (take (aw_partial env) contents, mode)), False)
           else (fs(tmp \<mapsto> (contents, mode)), True))
      | SetPermissions \<Rightarrow>
          (case perms of
             None \<Rightarrow> (fs, True)
           | Some m \<Rightarrow>
               if aw_fails env s then (fs, False)
               else (fs(tmp := map_option (\<lambda>(c, _). (c, m)) (fs tmp)), True))
      | RenameOver \<Rightarrow>
          (if aw_fails env s then (fs, False) else (fs(target := fs tmp, tmp := None), True))
      | _ \<Rightarrow> (fs, \<not> aw_fails env s))"

fun run_steps :: "(aw_step \<Rightarrow> file_sys \<Rightarrow> file_sys \<times> bool) \<Rightarrow> aw_step list \<Rightarrow> file_sys
    \<Rightarrow> file_sys list \<times> (aw_error + unit) \<times> file_sys" where
  "run_steps f [] fs = ([], Inr (), fs)"
| "run_steps f (s # ss) fs =
     (let (fs1, ok) = f s fs in
      if ok then (let (tr, r) = run_steps f ss fs1 in (fs1 # tr, r)) else ([fs1], Inl (StepFailed s), fs1))"

definition write_steps :: "aw_step list" where
  "write_steps = [CreateTemp, WriteAll, FlushTemp, SyncTemp, SetPermissions, RenameOver, OpenParent, SyncParent]"

text \<open>The result, the file system at the end and the one after each call; the counter is the program's
  \<open>ATOMIC_WRITE_COUNTER\<close>.\<close>

definition atomic_write_file ::
  "aw_env \<Rightarrow> nat \<Rightarrow> rstr \<Rightarrow> u8 list \<Rightarrow> file_sys \<Rightarrow> (aw_error + unit) \<times> file_sys \<times> file_sys list \<times> nat" where
  "atomic_write_file env counter path contents fs =
     (let target = resolve_target env path in
      (case path_parent target of
         None \<Rightarrow> (Inl NoParentDirectory, fs, [], counter)
       | Some parent \<Rightarrow>
           (case path_file_name target of
              None \<Rightarrow> (Inl NoFileName, fs, [], counter)
            | Some filename \<Rightarrow>
                let perms = map_option snd (fs target);
                    tmp = path_join parent (tmp_name filename (aw_pid env) (aw_nonce env) counter);
                    (trace, result, fs1) = run_steps (exec_step env target tmp contents perms) write_steps fs;
                    fs2 = (case result of
                             Inl _ \<Rightarrow> if aw_remove_fails env then fs1 else fs1(tmp := None)
                           | Inr _ \<Rightarrow> fs1)
                in (result, fs2, trace @ [fs2], counter + 1))))"

definition is_orphan_temp :: "rstr \<Rightarrow> bool" where
  "is_orphan_temp name \<longleftrightarrow> starts_with [46] name \<and> ends_with (lit ''.tmp'') name"

text \<open>The entries are the names in the directory, \<open>removable\<close> tells which removals succeed.\<close>

definition cleanup_orphan_temp_files ::
  "(rstr \<Rightarrow> bool) \<Rightarrow> rstr \<Rightarrow> rstr list option \<Rightarrow> file_sys \<Rightarrow> file_sys" where
  "cleanup_orphan_temp_files removable dir entries fs =
     (case entries of
        None \<Rightarrow> fs
      | Some names \<Rightarrow>
          fold (\<lambda>n fs. if is_orphan_temp n \<and> removable (path_join dir n) then fs(path_join dir n := None) else fs)
            names fs)"

definition backup_path_for :: "rstr \<Rightarrow> rstr" where
  "backup_path_for p =
     (let name = (case path_file_name p of Some n \<Rightarrow> n | None \<Rightarrow> []);
          dir = (if path_file_name p = None then p else case path_parent p of Some d \<Rightarrow> d | None \<Rightarrow> p)
      in path_join dir (name @ lit ''.bak''))"

section \<open>Paths\<close>

lemma split_on_none: "d \<notin> set n \<Longrightarrow> split_on d n = [n]"
  by (induction n) auto

lemma split_on_snoc: "d \<notin> set n \<Longrightarrow> split_on d (p @ d # n) = split_on d p @ [n]"
proof (induction p)
  case Nil
  then show ?case by (simp add: split_on_none)
next
  case (Cons c p)
  obtain x xs where "split_on d p = x # xs" using split_on_not_Nil by (metis neq_Nil_conv)
  then show ?case using Cons by simp
qed

lemma join_file_name:
  assumes "47 \<notin> set n" "n \<noteq> []" "n \<noteq> [46]" "n \<noteq> [46, 46]"
  shows "path_file_name (path_join d n) = Some n"
proof -
  have c: "last (path_components q) = n \<and> path_components q \<noteq> []" if "last (split_on 47 q) = n" for q
  proof -
    have "split_on 47 q = butlast (split_on 47 q) @ [n]"
      using that append_butlast_last_id [OF split_on_not_Nil, of 47 q] by simp
    then obtain xs where xs: "split_on 47 q = xs @ [n]" by blast
    show ?thesis unfolding path_components_def Let_def xs using assms(2,3) by simp
  qed
  have "last (split_on 47 (path_join d n)) = n"
  proof (cases "ends_with [47] d")
    case True
    then have "d = take (length d - 1) d @ [47]" by (simp add: ends_with_def) (metis append_take_drop_id)
    then obtain d' where "d = d' @ [47]" by blast
    then show ?thesis using split_on_snoc [of 47 n d'] assms(1) True by (simp add: path_join_def)
  next
    case False
    then show ?thesis using split_on_snoc [of 47 n d] split_on_none [of 47 n] assms(1) by (simp add: path_join_def)
  qed
  from c [OF this] show ?thesis using assms by (simp add: path_file_name_def Let_def)
qed

lemma file_name_no_slash: "path_file_name p = Some n \<Longrightarrow> 47 \<notin> set n"
proof -
  assume h: "path_file_name p = Some n"
  then have n: "path_components p \<noteq> []" "n = last (path_components p)" "n \<noteq> [46]"
    by (auto simp: path_file_name_def Let_def split: if_splits)
  then have "n \<in> set (path_components p)" by simp
  then have "n \<in> set (split_on 47 p)" using n(3) by (auto simp: path_components_def Let_def split: if_splits)
  then show ?thesis by (rule split_on_no_sep)
qed

lemma digits_no_slash: "47 \<notin> set (show_nat k)"
  using show_nat_digits by (fastforce simp: is_ascii_digit_def)

lemma ends_with_append: "ends_with s (x @ s)"
  by (simp add: ends_with_def)

lemma tmp_name_orphan: "is_orphan_temp (tmp_name f a b c)"
proof -
  have "tmp_name f a b c
      = ([46] @ f @ [46] @ show_nat a @ [46] @ show_nat b @ [46] @ show_nat c) @ lit ''.tmp''"
    by (simp add: tmp_name_def)
  then have "ends_with (lit ''.tmp'') (tmp_name f a b c)" using ends_with_append by metis
  then show ?thesis by (simp add: is_orphan_temp_def tmp_name_def starts_with_iff)
qed

lemma tmp_name_facts:
  assumes "47 \<notin> set f"
  shows "47 \<notin> set (tmp_name f a b c)" "length f < length (tmp_name f a b c)"
    "6 \<le> length (tmp_name f a b c)"
  using assms digits_no_slash
  by (auto simp: tmp_name_def)

lemma tmp_is_not_target:
  assumes "path_file_name target = Some f"
  shows "path_join d (tmp_name f a b c) \<noteq> target"
proof
  assume t: "path_join d (tmp_name f a b c) = target"
  note n = tmp_name_facts [OF file_name_no_slash [OF assms], of a b c]
  have "path_file_name (path_join d (tmp_name f a b c)) = Some (tmp_name f a b c)"
    by (rule join_file_name) (use n in auto)
  then show False using t assms n(2) by simp
qed

section \<open>All or nothing\<close>

text \<open>What every call keeps: the file at the target is the old one or has all of the new contents, the other
  files are untouched, and once the contents are written the temporary file has them.\<close>

definition aw_safe :: "rstr \<Rightarrow> rstr \<Rightarrow> u8 list \<Rightarrow> file_sys \<Rightarrow> file_sys \<Rightarrow> bool" where
  "aw_safe target tmp contents fs s \<longleftrightarrow>
     (s target = fs target \<or> map_option fst (s target) = Some contents)
     \<and> (\<forall>q. q \<noteq> target \<longrightarrow> q \<noteq> tmp \<longrightarrow> s q = fs q)"

definition temp_full :: "rstr \<Rightarrow> u8 list \<Rightarrow> nat option \<Rightarrow> bool \<Rightarrow> file_sys \<Rightarrow> bool" where
  "temp_full tmp contents perms p s \<longleftrightarrow>
     (\<exists>m. s tmp = Some (contents, m) \<and> (p \<longrightarrow> (\<forall>k. perms = Some k \<longrightarrow> m = k)))"

lemma safe_steps:
  assumes "tmp \<noteq> target" "aw_safe target tmp contents fs s" "exec_step env target tmp contents perms a s = (s', ok)"
    and "a = RenameOver \<Longrightarrow> temp_full tmp contents perms True s"
  shows "aw_safe target tmp contents fs s'"
  using assms by (cases a) (auto simp: aw_safe_def exec_step_def temp_full_def Let_def split: if_splits option.splits)

lemma run_safe:
  assumes "tmp \<noteq> target" "aw_safe target tmp contents fs s" "RenameOver \<notin> set ss"
    and "run_steps (exec_step env target tmp contents perms) ss s = (tr, r, s')"
  shows "(\<forall>x \<in> set tr. aw_safe target tmp contents fs x) \<and> aw_safe target tmp contents fs s'"
  using assms(2-)
proof (induction ss arbitrary: s tr r s')
  case (Cons a ss)
  obtain s1 ok where e: "exec_step env target tmp contents perms a s = (s1, ok)" by fastforce
  have s1: "aw_safe target tmp contents fs s1"
    using safe_steps [OF assms(1) Cons.prems(1) e] Cons.prems(2) by auto
  show ?case
  proof (cases ok)
    case False
    then show ?thesis using Cons.prems(3) e s1 by auto
  next
    case True
    obtain tr1 r1 s2 where r: "run_steps (exec_step env target tmp contents perms) ss s1 = (tr1, r1, s2)"
      by (metis prod_cases3)
    have "tr = s1 # tr1" "s' = s2" using Cons.prems(3) e r True by simp_all
    then show ?thesis using Cons.IH [OF s1 _ r] Cons.prems(2) s1 by simp
  qed
qed simp

lemma run_append:
  "run_steps f (a @ b) s =
     (let (tr, r, s1) = run_steps f a s in
      case r of Inl e \<Rightarrow> (tr, Inl e, s1) | Inr u \<Rightarrow> let (tr2, r2, s2) = run_steps f b s1 in (tr @ tr2, r2, s2))"
  by (induction a arbitrary: s) (auto simp: Let_def split: prod.splits sum.splits)

lemma prepared_temp:
  assumes "run_steps (exec_step env target tmp contents perms)
      [CreateTemp, WriteAll, FlushTemp, SyncTemp, SetPermissions] s = (tr, Inr u, s')"
  shows "temp_full tmp contents perms True s'"
  using assms by (auto simp: exec_step_def temp_full_def Let_def split: if_splits option.splits)

lemma renamed_over:
  assumes "tmp \<noteq> target" "temp_full tmp contents perms True s"
    and "run_steps (exec_step env target tmp contents perms) [RenameOver, OpenParent, SyncParent] s = (tr, r, s')"
  shows "s' target = s target \<and> r \<noteq> Inr () \<or> (\<exists>m. s' target = Some (contents, m) \<and> (\<forall>k. perms = Some k \<longrightarrow> m = k))"
    and "\<forall>x \<in> set tr. x target = s target \<or> map_option fst (x target) = Some contents"
    and "\<forall>x \<in> insert s' (set tr). \<forall>q. q \<noteq> target \<longrightarrow> q \<noteq> tmp \<longrightarrow> x q = s q"
    and "r = Inr () \<Longrightarrow> s' tmp = None"
  using assms by (auto simp: exec_step_def temp_full_def split: if_splits)

lemma aw_safe_remove: "tmp \<noteq> target \<Longrightarrow> aw_safe target tmp contents fs s \<Longrightarrow> aw_safe target tmp contents fs (s(tmp := None))"
  by (auto simp: aw_safe_def)

lemma all_steps:
  assumes "tmp \<noteq> target"
    and "run_steps (exec_step env target tmp contents (map_option snd (fs target))) write_steps fs = (tr, r, s')"
  shows "\<forall>x \<in> insert s' (set tr). aw_safe target tmp contents fs x"
    and "r = Inr () \<Longrightarrow> s' tmp = None \<and>
      (\<exists>m. s' target = Some (contents, m) \<and> (\<forall>k. map_option snd (fs target) = Some k \<longrightarrow> m = k))"
proof -
  let ?run = "run_steps (exec_step env target tmp contents (map_option snd (fs target)))"
  have w: "write_steps = [CreateTemp, WriteAll, FlushTemp, SyncTemp, SetPermissions] @ [RenameOver, OpenParent, SyncParent]"
    by (simp add: write_steps_def)
  obtain tr1 r1 s1 where a: "?run [CreateTemp, WriteAll, FlushTemp, SyncTemp, SetPermissions] fs = (tr1, r1, s1)"
    by (metis prod_cases3)
  obtain tr2 r2 s2 where b: "?run [RenameOver, OpenParent, SyncParent] s1 = (tr2, r2, s2)"
    by (metis prod_cases3)
  have "aw_safe target tmp contents fs fs" by (simp add: aw_safe_def)
  from run_safe [OF assms(1) this _ a] have sa: "(\<forall>x \<in> set tr1. aw_safe target tmp contents fs x) \<and> aw_safe target tmp contents fs s1"
    by simp
  have split: "(tr, r, s') = (case r1 of Inl e \<Rightarrow> (tr1, Inl e, s1) | Inr u \<Rightarrow> (tr1 @ tr2, r2, s2))"
    using assms(2) unfolding w run_append Let_def a prod.case b by (cases r1) auto
  have full: "temp_full tmp contents (map_option snd (fs target)) True s1" if "r1 = Inr u" for u
    using prepared_temp a that by metis
  have safe2: "aw_safe target tmp contents fs x" if "r1 = Inr u" "x \<in> insert s2 (set tr2)" for x u
  proof -
    note n = renamed_over [OF assms(1) full [OF that(1)] b]
    have "x target = s1 target \<or> map_option fst (x target) = Some contents" using n(1,2) that(2) by auto
    moreover have "\<forall>q. q \<noteq> target \<longrightarrow> q \<noteq> tmp \<longrightarrow> x q = s1 q" using n(3) that(2) by blast
    ultimately show ?thesis using sa by (auto simp: aw_safe_def)
  qed
  show "\<forall>x \<in> insert s' (set tr). aw_safe target tmp contents fs x"
    using split sa safe2 by (cases r1) auto
  show "s' tmp = None \<and> (\<exists>m. s' target = Some (contents, m) \<and> (\<forall>k. map_option snd (fs target) = Some k \<longrightarrow> m = k))"
    if ok: "r = Inr ()"
  proof -
    obtain u where u: "r1 = Inr u" "r2 = Inr ()" "s' = s2" using split ok by (cases r1) auto
    show ?thesis
      using renamed_over(1) [OF assms(1) full [OF u(1)] b] renamed_over(4) [OF assms(1) full [OF u(1)] b] u by auto
  qed
qed

text \<open>C7: Writing a file is all or nothing. At every moment, also if the program stops there, the target holds
  its old contents or all of the new ones, and only the temporary file besides it is touched. A success leaves the
  new contents with the old mode and no temporary file; a failure leaves none unless its removal failed too.\<close>

theorem atomic_write_is_all_or_nothing:
  assumes "atomic_write_file env counter path contents fs = (result, fs', trace, counter')"
  shows "let target = resolve_target env path in
    \<exists>tmp. tmp \<noteq> target
      \<and> (\<forall>s \<in> insert fs' (set trace).
           (s target = fs target \<or> map_option fst (s target) = Some contents)
           \<and> (\<forall>q. q \<noteq> target \<longrightarrow> q \<noteq> tmp \<longrightarrow> s q = fs q))
      \<and> (result = Inr () \<longrightarrow> map_option fst (fs' target) = Some contents \<and> fs' tmp = None
           \<and> (fs target \<noteq> None \<longrightarrow> map_option snd (fs' target) = map_option snd (fs target)))
      \<and> (result \<noteq> Inr () \<longrightarrow> \<not> aw_remove_fails env \<longrightarrow> fs' = fs \<or> fs' tmp = None)"
proof -
  let ?t = "resolve_target env path"
  show ?thesis
  proof (cases "path_parent ?t = None \<or> path_file_name ?t = None")
    case True
    then have "fs' = fs" "trace = []" "result \<noteq> Inr ()"
      using assms by (auto simp: atomic_write_file_def Let_def split: option.splits)
    then show ?thesis by (intro exI [of _ "47 # ?t"] | simp add: Let_def)+
  next
    case False
    then obtain d f where df: "path_parent ?t = Some d" "path_file_name ?t = Some f" by auto
    define tmp where "tmp = path_join d (tmp_name f (aw_pid env) (aw_nonce env) counter)"
    have ne: "tmp \<noteq> ?t" unfolding tmp_def by (rule tmp_is_not_target [OF df(2)])
    obtain tr r s where run: "run_steps (exec_step env ?t tmp contents (map_option snd (fs ?t))) write_steps fs = (tr, r, s)"
      by (metis prod_cases3)
    note n = all_steps [OF ne run]
    have res: "result = r" "fs' = (case r of Inl _ \<Rightarrow> if aw_remove_fails env then s else s(tmp := None) | Inr _ \<Rightarrow> s)"
      "trace = tr @ [fs']"
      using assms run [unfolded tmp_def] by (auto simp: atomic_write_file_def Let_def df tmp_def split: sum.splits)
    have fs': "aw_safe ?t tmp contents fs fs'" using n(1) res(2) aw_safe_remove [OF ne] by (auto split: sum.splits)
    have all: "\<forall>x \<in> insert fs' (set trace). aw_safe ?t tmp contents fs x" using n(1) fs' res(3) by auto
    have ok: "result = Inr () \<longrightarrow> map_option fst (fs' ?t) = Some contents \<and> fs' tmp = None
        \<and> (fs ?t \<noteq> None \<longrightarrow> map_option snd (fs' ?t) = map_option snd (fs ?t))"
      using n(2) res by auto
    have bad: "result \<noteq> Inr () \<longrightarrow> \<not> aw_remove_fails env \<longrightarrow> fs' tmp = None"
      using res by (cases r) auto
    show ?thesis unfolding Let_def using ne all ok bad by (intro exI [of _ tmp]) (auto simp: aw_safe_def)
  qed
qed

definition sample_aw :: "aw_step set \<Rightarrow> aw_env" where
  "sample_aw bad = \<lparr>aw_canonicalize = (\<lambda>p. Some p), aw_pid = 7, aw_nonce = 5, aw_created_mode = (\<lambda>_. 420),
     aw_fails = (\<lambda>s. s \<in> bad), aw_partial = 1, aw_remove_fails = False\<rparr>"

definition sample_fs :: file_sys where
  "sample_fs = [lit ''/d/f'' \<mapsto> ([1, 2], 384)]"

lemma atomic_write_is_all_or_nothing_witness:
  "(\<exists>r tr c. atomic_write_file (sample_aw {}) 0 (lit ''/d/f'') [3, 4] sample_fs
      = (Inr (), [lit ''/d/f'' \<mapsto> ([3, 4], 384)], tr, c))
   \<and> (\<exists>r fs' tr c. atomic_write_file (sample_aw {RenameOver}) 0 (lit ''/d/f'') [3, 4] sample_fs = (r, fs', tr, c)
       \<and> (fs' (lit ''/d/f'') = Some ([1, 2], 384) \<or> map_option fst (fs' (lit ''/d/f'')) = Some [3, 4]))"
proof -
  have p: "path_parent (lit ''/d/f'') = Some (lit ''/d'')" "path_file_name (lit ''/d/f'') = Some (lit ''f'')"
    by code_simp+
  have r: "resolve_target (sample_aw bad) q = q" for bad q by (simp add: resolve_target_def sample_aw_def)
  define tmp where "tmp = path_join (lit ''/d'') (tmp_name (lit ''f'') 7 5 0)"
  have ne: "tmp \<noteq> lit ''/d/f''" unfolding tmp_def by (rule tmp_is_not_target [OF p(2)])
  have "\<exists>tr c. atomic_write_file (sample_aw {}) 0 (lit ''/d/f'') [3, 4] sample_fs
      = (Inr (), [lit ''/d/f'' \<mapsto> ([3, 4], 384)], tr, c)"
    using ne unfolding atomic_write_file_def Let_def r p option.case
    by (simp add: sample_aw_def write_steps_def exec_step_def sample_fs_def tmp_def [symmetric] fun_eq_iff
        del: lit_Cons)
  moreover have "fs' (lit ''/d/f'') = Some ([1, 2], 384) \<or> map_option fst (fs' (lit ''/d/f'')) = Some [3, 4]"
    if "atomic_write_file (sample_aw {RenameOver}) 0 (lit ''/d/f'') [3, 4] sample_fs = (r, fs', tr, c)" for r fs' tr c
    using atomic_write_is_all_or_nothing [OF that] by (auto simp: Let_def r sample_fs_def simp del: lit_Cons)
  ultimately show ?thesis by (metis prod_cases4)
qed

text \<open>A temporary file that a crash left in a directory is removed by the cleanup.\<close>

lemma cleanup_removes_temp:
  assumes "tmp_name f a b c \<in> set names" "removable (path_join dir (tmp_name f a b c))"
  shows "cleanup_orphan_temp_files removable dir (Some names) fs (path_join dir (tmp_name f a b c)) = None"
proof -
  let ?g = "\<lambda>n fs. if is_orphan_temp n \<and> removable (path_join dir n) then fs(path_join dir n := None) else fs"
  have keep: "fold ?g ns s q = None" if "s q = None" for ns s q
    using that by (induction ns arbitrary: s) auto
  have rem: "fold ?g ns s (path_join dir n) = None" if "n \<in> set ns" "is_orphan_temp n" "removable (path_join dir n)" for ns s n
    using that(1)
  proof (induction ns arbitrary: s)
    case (Cons m ns)
    show ?case
    proof (cases "m = n")
      case True
      then show ?thesis using that(2,3) keep [of "s(path_join dir n := None)" "path_join dir n" ns] by simp
    next
      case False
      then show ?thesis using Cons by simp
    qed
  qed simp
  show ?thesis unfolding cleanup_orphan_temp_files_def option.case
    by (rule rem [OF assms(1) tmp_name_orphan assms(2)])
qed

end
