(* ===== verification/Local_Save.thy ===== *)
theory Local_Save
  imports File_Watch Atomic_Write
begin

text \<open>
  Saving: \<^verbatim>\<open>src/fulgur/files/file_operations/save_ops/\<close> (\<open>save_file\<close>, Save As, the completions) and the dialogs of
  \<^verbatim>\<open>src/fulgur/ui/dialogs/lossy_save.rs\<close>. A save marks the tab as saved at once, writes in the background, and
  a completion runs when the write has ended. What an operation starts is its second result, a \<open>save_request\<close>:
  the dialog it opens, the task it spawns or the remote save it calls.
\<close>

section \<open>Model\<close>

record saved_baseline =
  sb_hash :: u64
  sb_len :: nat
  sb_modified :: bool

record save_completion =
  sc_tab_id :: nat
  sc_path :: rstr
  sc_byte_len :: nat
  sc_previous_baseline :: "saved_baseline option"

datatype save_request =
    NothingToSave
  | AskLossySave nat rstr
  | AskLossySaveAs nat rstr rstr rstr
  | PromptForPath nat rstr rstr "rstr option"
  | SpawnSave save_completion "u8 list"
  | SpawnSaveAs save_completion rstr "u8 list"
  | SaveRemote nat remote_spec rstr "u8 list"

definition update_editor_tab :: "nat \<Rightarrow> (editor_tab \<Rightarrow> editor_tab) \<Rightarrow> fulgur \<Rightarrow> fulgur" where
  "update_editor_tab i f =
     update_tab i (\<lambda>t. case t of TabEditor e \<Rightarrow> TabEditor (f e) | TabSettings s \<Rightarrow> t | TabPreview p \<Rightarrow> t)"

definition capture_saved_baseline :: "nat \<Rightarrow> fulgur \<Rightarrow> saved_baseline option" where
  "capture_saved_baseline i st =
     map_option (\<lambda>e. \<lparr>sb_hash = et_original_content_hash e, sb_len = et_original_content_len e,
                       sb_modified = et_modified e\<rparr>) (editor_tab_of i st)"

definition restore_baseline :: "saved_baseline \<Rightarrow> editor_tab \<Rightarrow> editor_tab" where
  "restore_baseline b e =
     (let edited_during_save = et_modified e;
          e1 = e\<lparr>et_original_content_hash := sb_hash b, et_original_content_len := sb_len b\<rparr>
      in if et_large_file e1 then e1\<lparr>et_modified := sb_modified b \<or> edited_during_save\<rparr> else check_modified e1)"

definition handle_failed_save :: "save_completion \<Rightarrow> fulgur \<Rightarrow> fulgur" where
  "handle_failed_save c st =
     emit NotifyView (emit (OtherRequest ''notify: failed to save'')
       (case sc_previous_baseline c of
          Some b \<Rightarrow> update_editor_tab (sc_tab_id c) (restore_baseline b) st
        | None \<Rightarrow> st))"

definition start_save :: "nat \<Rightarrow> rstr \<Rightarrow> u8 list \<Rightarrow> fulgur \<Rightarrow> fulgur \<times> save_completion" where
  "start_save i p bytes st =
     (let st1 = st\<lparr>fg_inflight_saves := (fg_inflight_saves st)(i \<mapsto> p)\<rparr>;
          c = \<lparr>sc_tab_id = i, sc_path = p, sc_byte_len = length bytes,
                sc_previous_baseline = capture_saved_baseline i st1\<rparr>
      in (update_editor_tab i mark_as_saved st1, c))"

definition spawn_local_save :: "nat \<Rightarrow> rstr \<Rightarrow> u8 list \<Rightarrow> fulgur \<Rightarrow> fulgur \<times> save_request" where
  "spawn_local_save i p bytes st =
     (if fg_inflight_saves st i \<noteq> None then (st, NothingToSave)
      else let (st1, c) = start_save i p bytes st in (emit NotifyView st1, SpawnSave c bytes))"

definition finish_local_save ::
  "watch_env \<Rightarrow> save_completion \<Rightarrow> aw_error + unit \<Rightarrow> fulgur \<Rightarrow> fulgur" where
  "finish_local_save we c write_result st0 =
     (let st = st0\<lparr>fg_inflight_saves := (fg_inflight_saves st0)(sc_tab_id c := None)\<rparr> in
      (case write_result of
         Inr _ \<Rightarrow>
           let st1 = (if we_relink we then watch_file (we_app we) (sc_path c) (unwatch_file (sc_path c) st) else st);
               st2 = note_save (we_now we) (sc_path c) st1
           in emit NotifyView
                (update_editor_tab (sc_tab_id c) (update_file_tooltip_cache (we_after we) (sc_byte_len c)) st2)
       | Inl err \<Rightarrow> handle_failed_save c st))"

text \<open>The directory the path prompt starts in: that of the file, or the working directory.\<close>

definition save_directory :: "rstr \<Rightarrow> editor_tab \<Rightarrow> rstr" where
  "save_directory cwd e =
     (case file_path e of
        Some p \<Rightarrow> (case path_parent p of Some d \<Rightarrow> d | None \<Rightarrow> lit ''.'')
      | None \<Rightarrow> cwd)"

definition active_editor_at :: "fulgur \<Rightarrow> editor_tab option" where
  "active_editor_at st =
     Option.bind (active_tab_index st) (\<lambda>k. Option.bind (nth_opt (fg_tabs st) k) as_editor)"

definition save_file_as :: "rstr \<Rightarrow> fulgur \<Rightarrow> fulgur \<times> save_request" where
  "save_file_as cwd st =
     (case active_editor_at st of
        None \<Rightarrow> (st, NothingToSave)
      | Some e \<Rightarrow> (st, PromptForPath (et_id e) (et_encoding e) (save_directory cwd e) (get_suggested_filename e)))"

definition finalize_save_as :: "nat \<Rightarrow> rstr \<Rightarrow> u8 list \<Rightarrow> rstr \<Rightarrow> fulgur \<Rightarrow> fulgur \<times> save_request" where
  "finalize_save_as i p bytes encoding st =
     (if fg_inflight_saves st i \<noteq> None then (st, NothingToSave)
      else let (st1, c) = start_save i p bytes st in (st1, SpawnSaveAs c encoding bytes))"

text \<open>What happens when the prompt returned a path: the text and the tab are looked up then.\<close>

definition save_as_path_chosen :: "codecs \<Rightarrow> nat \<Rightarrow> rstr \<Rightarrow> rstr \<Rightarrow> fulgur \<Rightarrow> fulgur \<times> save_request" where
  "save_as_path_chosen cd i encoding p st =
     (case editor_tab_of i st of
        None \<Rightarrow> (st, NothingToSave)
      | Some e \<Rightarrow>
          let contents = es_text (et_content e) in
          (case encode_for_save cd contents encoding of
             Encoded bytes \<Rightarrow> finalize_save_as i p bytes encoding st
           | EncodedLossy \<Rightarrow> (st, AskLossySaveAs i p contents encoding)))"

definition saved_as ::
  "app_env \<Rightarrow> nat \<Rightarrow> nat \<Rightarrow> rstr \<Rightarrow> rstr \<Rightarrow> nat \<Rightarrow> editor_settings \<Rightarrow> tab \<Rightarrow> tab" where
  "saved_as env fresh now p encoding byte_len settings t =
     (case t of
        TabEditor e \<Rightarrow>
          (let e1 = e\<lparr>et_location := LocLocal p,
                      et_title := (case path_file_name p of Some n \<Rightarrow> n | None \<Rightarrow> UNTITLED),
                      et_encoding := encoding\<rparr>
           in fst (tab_update_language (ae_langs env) (ae_clip env) fresh settings
                    (TabEditor (update_file_tooltip_cache now byte_len e1))))
      | TabSettings s \<Rightarrow> t
      | TabPreview v \<Rightarrow> t)"

text \<open>A success carries the canonical path of the file that was written.\<close>

definition finish_save_as ::
  "watch_env \<Rightarrow> save_completion \<Rightarrow> rstr \<Rightarrow> aw_error + rstr \<Rightarrow> fulgur \<Rightarrow> fulgur" where
  "finish_save_as we c encoding write_result st0 =
     (let st = st0\<lparr>fg_inflight_saves := (fg_inflight_saves st0)(sc_tab_id c := None)\<rparr> in
      (case write_result of
         Inr p \<Rightarrow>
           (case tab_entity_of (sc_tab_id c) st of
              None \<Rightarrow> st
            | Some t \<Rightarrow>
                let st1 = (case Option.bind (as_editor t) file_path of
                             Some old \<Rightarrow> unwatch_file old st | None \<Rightarrow> st);
                    (fresh, st2) = take_fresh (note_save (we_now we) p st1);
                    st3 = update_tab (sc_tab_id c)
                            (saved_as (we_app we) fresh (we_after we) p encoding (sc_byte_len c) (fg_settings st2)) st2
                in watch_file (we_app we) p (emit NotifyView st3))
       | Inl err \<Rightarrow> handle_failed_save c st))"

definition save_file :: "codecs \<Rightarrow> rstr \<Rightarrow> fulgur \<Rightarrow> fulgur \<times> save_request" where
  "save_file cd cwd st =
     (case active_editor_at st of
        None \<Rightarrow> (st, NothingToSave)
      | Some e \<Rightarrow>
          if et_location e = LocUntitled then save_file_as cwd st
          else
            let contents = es_text (et_content e);
                bytes = (if et_lossy_decode e then None
                         else case encode_for_save cd contents (et_encoding e) of
                                Encoded bs \<Rightarrow> Some bs | EncodedLossy \<Rightarrow> None)
            in (case bytes of
                  None \<Rightarrow> (st, AskLossySave (et_id e) (et_encoding e))
                | Some bs \<Rightarrow>
                    (case et_location e of
                       LocLocal p \<Rightarrow> spawn_local_save (et_id e) p bs st
                     | LocRemote spec \<Rightarrow> (st, SaveRemote (et_id e) spec contents bs)
                     | LocUntitled \<Rightarrow> (st, NothingToSave))))"

text \<open>The confirmations of the two dialogs that offer UTF-8.\<close>

definition confirm_lossy_save :: "codecs \<Rightarrow> rstr \<Rightarrow> nat \<Rightarrow> fulgur \<Rightarrow> fulgur \<times> save_request" where
  "confirm_lossy_save cd cwd i st =
     save_file cd cwd (update_editor_tab i (\<lambda>e. e\<lparr>et_encoding := UTF_8, et_lossy_decode := False\<rparr>) st)"

definition confirm_lossy_save_as :: "nat \<Rightarrow> rstr \<Rightarrow> rstr \<Rightarrow> fulgur \<Rightarrow> fulgur \<times> save_request" where
  "confirm_lossy_save_as i p contents st = finalize_save_as i p (utf8 contents) UTF_8 st"

section \<open>Looking up the saved tab\<close>

lemma find_update_position:
  "position P xs = Some p \<Longrightarrow> P y \<Longrightarrow> List.find P (xs[p := y]) = Some y"
  by (induction xs arbitrary: p) (auto split: if_splits)

lemma find_position_ex: "List.find P xs = Some x \<Longrightarrow> \<exists>p. position P xs = Some p \<and> xs ! p = x"
  by (induction xs) (auto split: if_splits)

lemma tab_entity_of_update:
  assumes "tab_entity_of i st = Some t" "tab_id (f t) = i"
  shows "tab_entity_of i (update_tab i f st) = Some (f t)"
proof -
  obtain p where "position (\<lambda>t. tab_id t = i) (fg_tabs st) = Some p" "fg_tabs st ! p = t"
    using find_position_ex assms(1) unfolding tab_entity_of_def by metis
  then show ?thesis
    using find_update_position [of "\<lambda>t. tab_id t = i" "fg_tabs st" p "f t"] assms(2)
    by (simp add: tab_entity_of_def update_tab_def tab_index_of_def)
qed

lemma editor_entity: "editor_tab_of i st = Some e \<longleftrightarrow> tab_entity_of i st = Some (TabEditor e)"
proof
  assume "editor_tab_of i st = Some e"
  then obtain t where "tab_entity_of i st = Some t" "as_editor t = Some e"
    by (auto simp: editor_tab_of_def bind_eq_Some_conv)
  then show "tab_entity_of i st = Some (TabEditor e)" by (cases t) auto
qed (simp add: editor_tab_of_def)

lemma editor_id: "editor_tab_of i st = Some e \<Longrightarrow> et_id e = i"
  using find_SomeD unfolding editor_entity tab_entity_of_def by fastforce

lemma editor_tab_of_update:
  assumes "editor_tab_of i st = Some e" "et_id (f e) = et_id e"
  shows "editor_tab_of i (update_editor_tab i f st) = Some (f e)"
  using tab_entity_of_update [of i st "TabEditor e"] assms editor_id [OF assms(1)]
  by (simp add: editor_entity update_editor_tab_def)

lemma editor_tab_of_cong: "fg_tabs st' = fg_tabs st \<Longrightarrow> editor_tab_of i st' = editor_tab_of i st"
  by (simp add: editor_tab_of_def tab_entity_of_def)

lemma editor_tab_of_frame [simp]:
  "editor_tab_of i (emit ef st) = editor_tab_of i st"
  "editor_tab_of i (st\<lparr>fg_inflight_saves := m\<rparr>) = editor_tab_of i st"
  "editor_tab_of i (note_save now p st) = editor_tab_of i st"
  "editor_tab_of i (watch_file env p st) = editor_tab_of i st"
  "editor_tab_of i (unwatch_file p st) = editor_tab_of i st"
  by (rule editor_tab_of_cong; simp)+

lemma saved_marks [simp]:
  "et_id (mark_as_saved e) = et_id e" "et_content (mark_as_saved e) = et_content e"
  "et_large_file (mark_as_saved e) = et_large_file e" "et_location (mark_as_saved e) = et_location e"
  "et_encoding (mark_as_saved e) = et_encoding e" "et_lossy_decode (mark_as_saved e) = et_lossy_decode e"
  "et_modified (mark_as_saved e) = False"
  by (simp_all add: mark_as_saved_def Let_def split: prod.splits)

lemma restored_baseline [simp]:
  "et_id (restore_baseline b e) = et_id e" "et_content (restore_baseline b e) = et_content e"
  by (simp_all add: restore_baseline_def check_modified_def Let_def)

text \<open>Typing into a tab, one text after the other, with the content subscription running after each.\<close>

definition type_texts :: "nat \<Rightarrow> rstr list \<Rightarrow> fulgur \<Rightarrow> fulgur" where
  "type_texts i ss st = fold (\<lambda>s. update_tab i (with_text s)) ss st"

definition typed :: "rstr \<Rightarrow> editor_tab \<Rightarrow> editor_tab" where
  "typed s e =
     (let e1 = e\<lparr>et_content := (et_content e)\<lparr>es_text := s\<rparr>\<rparr> in
      if et_large_file e then e1\<lparr>et_modified := True\<rparr> else check_modified e1)"

lemma with_text_typed: "with_text s (TabEditor e) = TabEditor (typed s e)"
  by (simp add: with_text_def typed_def Let_def)

lemma type_texts_editor:
  assumes "editor_tab_of i st = Some e"
  shows "editor_tab_of i (type_texts i ss st) = Some (fold typed ss e)"
  using assms
proof (induction ss arbitrary: st e)
  case Nil
  then show ?case by (simp add: type_texts_def)
next
  case (Cons s ss)
  have "editor_tab_of i (update_tab i (with_text s) st) = Some (typed s e)"
    using tab_entity_of_update [of i st "TabEditor e" "with_text s"] Cons.prems editor_id [OF Cons.prems]
    by (simp add: editor_entity with_text_typed typed_def check_modified_def Let_def)
  from Cons.IH [OF this] show ?case by (simp add: type_texts_def)
qed

lemma fold_typed_baseline:
  "et_original_content_hash (fold typed ss e) = et_original_content_hash e
   \<and> et_original_content_len (fold typed ss e) = et_original_content_len e
   \<and> et_large_file (fold typed ss e) = et_large_file e
   \<and> es_text (et_content (fold typed ss e)) = last (es_text (et_content e) # ss)
   \<and> et_id (fold typed ss e) = et_id e"
  by (induction ss arbitrary: e) (simp_all add: typed_def check_modified_def Let_def)

lemma typed_flag:
  assumes "\<not> et_large_file e" "et_modified e = content_differs_from_original e"
  shows "et_modified (fold typed ss e) = content_differs_from_original (fold typed ss e)"
  using assms
proof (induction ss arbitrary: e)
  case (Cons s ss)
  have "et_modified (typed s e) = content_differs_from_original (typed s e)" "\<not> et_large_file (typed s e)"
    using Cons.prems(1) by (simp_all add: typed_def check_modified_def content_differs_from_original_def Let_def)
  then show ?case using Cons.IH by simp
qed simp

lemma update_tab_frame [simp]:
  "fg_inflight_saves (update_tab i f st) = fg_inflight_saves st" "fg_watch (update_tab i f st) = fg_watch st"
  "fg_inflight_saves (update_editor_tab i g st) = fg_inflight_saves st"
  "fg_watch (update_editor_tab i g st) = fg_watch st"
  by (simp_all add: update_tab_def update_editor_tab_def split: option.splits)

lemma inflight_emit [simp]: "fg_inflight_saves (emit ef st) = fg_inflight_saves st"
  by (simp add: emit_def)

lemma type_texts_frame [simp]:
  "fg_inflight_saves (type_texts i ss st) = fg_inflight_saves st" "fg_watch (type_texts i ss st) = fg_watch st"
  unfolding type_texts_def by (induction ss arbitrary: st) simp_all

section \<open>Properties\<close>

lemma spawned:
  assumes "spawn_local_save i p bytes st = (st1, SpawnSave c bs)" "editor_tab_of i st = Some e"
  shows "fg_inflight_saves st i = None \<and> bs = bytes \<and> sc_tab_id c = i \<and> sc_path c = p
    \<and> sc_byte_len c = length bytes
    \<and> sc_previous_baseline c = Some \<lparr>sb_hash = et_original_content_hash e, sb_len = et_original_content_len e,
         sb_modified = et_modified e\<rparr>
    \<and> editor_tab_of i st1 = Some (mark_as_saved e) \<and> fg_inflight_saves st1 i = Some p"
  using assms editor_tab_of_update [of i "st\<lparr>fg_inflight_saves := (fg_inflight_saves st)(i \<mapsto> p)\<rparr>" e mark_as_saved]
  by (auto simp: spawn_local_save_def start_save_def capture_saved_baseline_def Let_def split: if_splits)


definition saved_window :: fulgur where
  "saved_window = (watched_window False)\<lparr>fg_tabs := [TabEditor (mark_as_saved (watched_tab False))]\<rparr>"

lemma watched_tab_more [simp]:
  "es_text (et_content (watched_tab m)) = [97, 98]" "et_location (watched_tab m) = LocLocal watched_path"
  "et_encoding (watched_tab m) = UTF_8" "\<not> et_lossy_decode (watched_tab m)" "\<not> et_large_file (watched_tab m)"
proof -
  have "et_encoding (sample_tab 0) = UTF_8 \<and> \<not> et_lossy_decode (sample_tab 0)"
    by (simp add: sample_tab_def editor_tab_from_content_def Let_def split: prod.splits)
  then show "es_text (et_content (watched_tab m)) = [97, 98]" "et_location (watched_tab m) = LocLocal watched_path"
    "et_encoding (watched_tab m) = UTF_8" "\<not> et_lossy_decode (watched_tab m)" "\<not> et_large_file (watched_tab m)"
    by (simp_all add: watched_tab_def sample_tab_facts)
qed

lemma saved_window_facts:
  "editor_tab_of 0 saved_window = Some (mark_as_saved (watched_tab False))"
  "\<not> et_large_file (mark_as_saved (watched_tab False))"
  "es_text (et_content (mark_as_saved (watched_tab False))) = [97, 98]"
  "(et_original_content_hash (mark_as_saved (watched_tab False)),
    et_original_content_len (mark_as_saved (watched_tab False))) = content_fingerprint_from_str [97, 98]"
  "fg_inflight_saves saved_window = Map.empty" "active_editor_at saved_window = Some (mark_as_saved (watched_tab False))"
  by (simp_all add: saved_window_def editor_tab_of_def tab_entity_of_def
      active_editor_at_def active_tab_index_def tab_index_of_def nth_opt_def
      mark_as_saved_def rope_fingerprint Let_def split: prod.splits)

lemma saved_window_spawns: "\<exists>st1 c. spawn_local_save 0 watched_path [97, 98] saved_window = (st1, SpawnSave c [97, 98])"
  by (simp add: spawn_local_save_def saved_window_facts start_save_def Let_def)


fun event_path :: "file_watch_event \<Rightarrow> rstr option" where
  "event_path (EvModified p) = Some p"
| "event_path (EvDeleted p) = Some p"
| "event_path (EvRenamed p q) = Some p"
| "event_path (EvError msg) = None"

lemma suppressed_event:
  assumes "event_path ev = Some p" "should_suppress_file_watch_event (we_now we) p st = (True, st)"
  shows "handle_file_watch_event we ev st = st"
  using assms by (cases ev) (auto simp: unless_suppressed_def)

lemma inflight_suppresses:
  "fg_inflight_saves st i = Some p \<Longrightarrow> should_suppress_file_watch_event now p st = (True, st)"
  by (auto simp: should_suppress_file_watch_event_def ran_def)

lemma recent_save_suppresses:
  "fw_last_file_saves (fg_watch st) p = Some t \<Longrightarrow> now - t < FILE_WATCH_DEBOUNCE
    \<Longrightarrow> should_suppress_file_watch_event now p st = (True, st)"
  by (simp add: should_suppress_file_watch_event_def recently_def)

text \<open>A save is never taken for a change by another program: what the watcher reports for the file while it
  is being written, and for half a second after the write has ended, changes nothing, whatever is typed meanwhile.\<close>

theorem own_save_is_not_external:
  assumes "spawn_local_save i p bytes st = (st1, SpawnSave c bs)" "editor_tab_of i st = Some e" "event_path ev = Some p"
  shows "handle_file_watch_event we' ev (type_texts i ss st1) = type_texts i ss st1
    \<and> (we_now we' - we_now we < FILE_WATCH_DEBOUNCE \<longrightarrow>
        (let st2 = finish_local_save we c (Inr ()) (type_texts i ss st1) in
          handle_file_watch_event we' ev (type_texts i ss' st2) = type_texts i ss' st2))"
proof
  note sp = spawned [OF assms(1,2)]
  show "handle_file_watch_event we' ev (type_texts i ss st1) = type_texts i ss st1"
    by (rule suppressed_event [OF assms(3)], rule inflight_suppresses [of _ i]) (simp add: sp)
  let ?st2 = "finish_local_save we c (Inr ()) (type_texts i ss st1)"
  have "fw_last_file_saves (fg_watch (type_texts i ss' ?st2)) p = Some (we_now we)"
    by (simp add: finish_local_save_def Let_def sp note_save_def)
  then show "we_now we' - we_now we < FILE_WATCH_DEBOUNCE \<longrightarrow>
        (let st2 = ?st2 in handle_file_watch_event we' ev (type_texts i ss' st2) = type_texts i ss' st2)"
    using suppressed_event [OF assms(3)] recent_save_suppresses by (metis (no_types, lifting))
qed

lemma own_save_is_not_external_witness:
  "\<exists>st1 c. spawn_local_save 0 watched_path [97, 98] saved_window = (st1, SpawnSave c [97, 98])
     \<and> handle_file_watch_event sample_watch (EvModified watched_path) st1 = st1
     \<and> (let st2 = finish_local_save sample_watch c (Inr ()) st1 in
          handle_file_watch_event sample_watch (EvModified watched_path) st2 = st2)"
proof -
  obtain st1 c where sp: "spawn_local_save 0 watched_path [97, 98] saved_window = (st1, SpawnSave c [97, 98])"
    using saved_window_spawns by blast
  have "event_path (EvModified watched_path) = Some watched_path" by simp
  note t = own_save_is_not_external [OF sp saved_window_facts(1) this, of sample_watch "[]" sample_watch "[]"]
  show ?thesis using sp t by (auto simp: Let_def FILE_WATCH_DEBOUNCE_def type_texts_def simp del: handle_file_watch_event.simps)
qed

text \<open>C28: Saving a UTF-8 file and writing it succeeds only with the text on disk: the file at the resolved path
  holds bytes that read back as exactly the text of the buffer when the save was requested, without loss and as
  UTF-8.\<close>

theorem saved_text_reads_back:
  assumes "active_editor_at st = Some e" "et_encoding e = UTF_8" "\<forall>ch \<in> set (es_text (et_content e)). is_scalar ch"
    and "save_file cd cwd st = (st1, SpawnSave c bytes)"
    and "atomic_write_file env counter (sc_path c) bytes fs = (Inr (), fs', trace, counter')"
  shows "et_location e = LocLocal (sc_path c)
    \<and> map_option fst (fs' (resolve_target env (sc_path c))) = Some bytes
    \<and> detect_encoding_and_decode cd' bytes
        = \<lparr>dc_encoding = UTF_8, dc_content = es_text (et_content e), dc_lossy = False, dc_byte_len = length bytes\<rparr>"
proof -
  have enc: "encode_for_save cd (es_text (et_content e)) (et_encoding e) = Encoded (utf8 (es_text (et_content e)))"
    by (simp add: encode_for_save_def assms(2))
  have loc: "et_location e = LocLocal (sc_path c)" and b: "bytes = utf8 (es_text (et_content e))"
    using assms(4) unfolding save_file_def assms(1) Let_def option.case enc
    by (auto simp: save_file_as_def spawn_local_save_def start_save_def Let_def assms(1) split: tab_location.splits if_splits)
  let ?t = "resolve_target env (sc_path c)"
  obtain d f where df: "path_parent ?t = Some d" "path_file_name ?t = Some f"
    using assms(5) by (auto simp: atomic_write_file_def Let_def split: option.splits)
  define tmp where "tmp = path_join d (tmp_name f (aw_pid env) (aw_nonce env) counter)"
  have ne: "tmp \<noteq> ?t" unfolding tmp_def by (rule tmp_is_not_target [OF df(2)])
  obtain tr r s where run: "run_steps (exec_step env ?t tmp bytes (map_option snd (fs ?t))) write_steps fs = (tr, r, s)"
    by (metis prod_cases3)
  have "r = Inr ()" "fs' = s"
    using assms(5) run [unfolded tmp_def] by (auto simp: atomic_write_file_def Let_def df split: sum.splits)
  then have "map_option fst (fs' ?t) = Some bytes" using all_steps(2) [OF ne run] by auto
  moreover have "detect_encoding_and_decode cd' bytes
        = \<lparr>dc_encoding = UTF_8, dc_content = es_text (et_content e), dc_lossy = False, dc_byte_len = length bytes\<rparr>"
    unfolding b by (simp add: detect_encoding_and_decode_def utf8_decode_encode(1) [OF assms(3)])
  ultimately show ?thesis using loc by blast
qed

lemma watched_saves: "\<exists>st1 c. save_file cd cwd saved_window = (st1, SpawnSave c [97, 98]) \<and> sc_path c = watched_path"
  by (simp add: save_file_def saved_window_facts encode_for_save_def Let_def spawn_local_save_def start_save_def
      utf8_char_def)

lemma saved_text_reads_back_witness:
  "\<forall>cd cwd. \<exists>st1 c fs'. save_file cd cwd saved_window = (st1, SpawnSave c [97, 98]) \<and> sc_path c = watched_path
     \<and> map_option fst (fs' watched_path) = Some [97, 98]
     \<and> (\<exists>tr k. atomic_write_file (sample_aw {}) 0 watched_path [97, 98] Map.empty = (Inr (), fs', tr, k))
     \<and> dc_content (detect_encoding_and_decode cd [97, 98]) = [97, 98]"
proof (intro allI)
  fix cd :: codecs and cwd :: rstr
  obtain st1 c where sp: "save_file cd cwd saved_window = (st1, SpawnSave c [97, 98])" "sc_path c = watched_path"
    using watched_saves by blast
  have r: "resolve_target (sample_aw {}) q = q" for q by (simp add: resolve_target_def sample_aw_def)
  have p: "path_parent watched_path = Some [47]" "path_file_name watched_path = Some [97]"
    unfolding watched_path_def by code_simp+
  obtain fs' tr k where w: "atomic_write_file (sample_aw {}) 0 watched_path [97, 98] Map.empty = (Inr (), fs', tr, k)"
    unfolding atomic_write_file_def Let_def r p option.case
    by (simp add: sample_aw_def write_steps_def exec_step_def)
  have "\<forall>ch \<in> set (es_text (et_content (mark_as_saved (watched_tab False)))). is_scalar ch"
    by (simp add: is_scalar_def)
  from saved_text_reads_back [OF saved_window_facts(6) _ this sp(1), of "sample_aw {}" 0 Map.empty fs' tr k cd]
  show "\<exists>st1 c fs'. save_file cd cwd saved_window = (st1, SpawnSave c [97, 98]) \<and> sc_path c = watched_path
     \<and> map_option fst (fs' watched_path) = Some [97, 98]
     \<and> (\<exists>tr k. atomic_write_file (sample_aw {}) 0 watched_path [97, 98] Map.empty = (Inr (), fs', tr, k))
     \<and> dc_content (detect_encoding_and_decode cd [97, 98]) = [97, 98]"
    using sp w r by auto
qed

text \<open>The mark is cleared when the write starts, not when it has succeeded: a tab closed in between is closed
  without a question, and a failed write then has no tab left to mark.\<close>

lemma closing_during_save_does_not_ask:
  assumes "editor_tab_of i st = Some e" "spawn_local_save i p bytes st = (st1, SpawnSave c bs)"
  shows "close_tab i st1 = emit SaveState (focus_active_tab (remove_tab_by_id i st1))"
proof -
  have e: "editor_tab_of i st1 = Some (mark_as_saved e)" using spawned [OF assms(2,1)] by simp
  then have t: "tab_entity_of i st1 = Some (TabEditor (mark_as_saved e))" by (simp add: editor_entity)
  then have "i \<in> set (tab_ids st1)" using find_SomeD by (fastforce simp: tab_entity_of_def tab_ids_def)
  then show ?thesis using t by (simp add: close_tab_def check_tab_modified_def)
qed

text \<open>On the systems where a finished save watches its file again, this also happens for a tab that was
  closed during the save: the file stays watched with no tab to show it.\<close>

lemma save_of_closed_tab_watches:
  assumes "we_relink we" "ae_can_watch (we_app we) (sc_path c)" "fw_watched (fg_watch st) = Some ps"
  shows "\<exists>qs. fw_watched (fg_watch (finish_local_save we c (Inr ()) st)) = Some qs \<and> sc_path c \<in> set qs"
  using assms
  by (simp add: finish_local_save_def Let_def note_save_def watch_file_def unwatch_file_def
      prune_file_watch_bookkeeping_for_path_def)

end
