(* ===== verification/Remote_Files.thy ===== *)
theory Remote_Files
  imports Local_Save
begin

text \<open>
  Opening and saving files over SSH: \<^verbatim>\<open>src/fulgur/files/file_operations/remote_open.rs\<close>, \<^verbatim>\<open>remote_save.rs\<close>,
  \<^verbatim>\<open>remote_processing.rs\<close>, \<^verbatim>\<open>remote_types.rs\<close> and the lookup of \<^verbatim>\<open>tab_lookup.rs\<close>. \<open>remote_window\<close> adds
  to the window's state what these operations keep: the counter of the requests, the URL of the last failed
  open, the passwords and the outcomes that wait to be processed. A background task or a dialog that an operation
  starts is its second result, a \<open>remote_request\<close>; its outcome comes back through \<open>publish_remote_open_outcome\<close>
  or \<open>handle_remote_save_result\<close>, in any order. How the task runs is the subject of \<open>Ssh_Task\<close>.
\<close>

section \<open>State\<close>

record ssh_cred_key =
  ck_host :: rstr
  ck_port :: u16
  ck_user :: rstr

definition cred_display :: "ssh_cred_key \<Rightarrow> rstr" where
  "cred_display k = ck_user k @ lit ''@'' @ ck_host k @ lit '':'' @ show_nat (unat (ck_port k))"

record remote_directory_entry =
  re_name :: rstr
  re_is_dir :: bool
  re_full_path :: rstr

record remote_browse_result =
  rb_directory_spec :: remote_spec
  rb_entries :: "remote_directory_entry list"
  rb_notice :: "rstr option"

datatype remote_open_result = OpenedFile remote_file_result | OpenedBrowse remote_browse_result

record pending_outcome =
  po_target :: "nat option"
  po_request :: "u64 option"
  po_result :: "rstr + remote_open_result"

record remote_open_params =
  op_spec :: remote_spec
  op_password :: rstr
  op_key :: ssh_cred_key
  op_target :: "nat option"
  op_request :: "u64 option"

record remote_save_params =
  sp_tab_id :: nat
  sp_request :: u64
  sp_spec :: remote_spec
  sp_content :: rstr
  sp_bytes :: "u8 list"
  sp_password :: rstr
  sp_key :: ssh_cred_key

datatype remote_request =
    NoRequest
  | AskPasswordForOpen remote_spec "nat option" "u64 option"
  | AskPasswordForSave nat remote_spec rstr "u8 list"
  | SpawnOpen remote_open_params
  | SpawnRemoteSave remote_save_params

record remote_window =
  rw_win :: fulgur
  rw_next_request :: u64
  rw_last_failed_url :: "rstr option"
  rw_cache :: "ssh_cred_key \<rightharpoonup> rstr"
  rw_pending_open :: "pending_outcome list"

definition on_win :: "(fulgur \<Rightarrow> fulgur) \<Rightarrow> remote_window \<Rightarrow> remote_window" where
  "on_win f w = w\<lparr>rw_win := f (rw_win w)\<rparr>"

definition note_latest_open :: "nat \<Rightarrow> u64 option \<Rightarrow> remote_window \<Rightarrow> remote_window" where
  "note_latest_open i r = on_win (\<lambda>st. st\<lparr>fg_latest_remote_open := (fg_latest_remote_open st)(i := r)\<rparr>)"

definition note_latest_save :: "nat \<Rightarrow> u64 option \<Rightarrow> remote_window \<Rightarrow> remote_window" where
  "note_latest_save i r = on_win (\<lambda>st. st\<lparr>fg_latest_remote_save := (fg_latest_remote_save st)(i := r)\<rparr>)"

definition SSH_HOST_KEY_APPROVAL_TIMEOUT_SECS :: nat where "SSH_HOST_KEY_APPROVAL_TIMEOUT_SECS = 60"

definition format_remote_endpoint_label :: "rstr \<Rightarrow> rstr \<Rightarrow> u16 \<Rightarrow> rstr \<Rightarrow> rstr" where
  "format_remote_endpoint_label prefix host port user =
     (if user = [] then prefix @ host @ lit '':'' @ show_nat (unat port)
      else prefix @ user @ lit ''@'' @ host @ lit '':'' @ show_nat (unat port))"

section \<open>Opening\<close>

definition same_remote_file :: "remote_spec \<Rightarrow> remote_spec \<Rightarrow> bool" where
  "same_remote_file a b \<longleftrightarrow>
     rs_host a = rs_host b \<and> rs_port a = rs_port b \<and> rs_user a = rs_user b \<and> rs_path a = rs_path b"

definition remote_spec_of :: "tab \<Rightarrow> remote_spec option" where
  "remote_spec_of t =
     (case t of
        TabEditor e \<Rightarrow> (case et_location e of LocRemote s \<Rightarrow> Some s | LocLocal p \<Rightarrow> None | LocUntitled \<Rightarrow> None)
      | TabSettings s \<Rightarrow> None
      | TabPreview p \<Rightarrow> None)"

definition find_tab_by_remote_spec :: "remote_spec \<Rightarrow> fulgur \<Rightarrow> nat option" where
  "find_tab_by_remote_spec spec st =
     position (\<lambda>t. case remote_spec_of t of Some s \<Rightarrow> same_remote_file s spec | None \<Rightarrow> False) (fg_tabs st)"

text \<open>Taking the next request identity, which wraps around, and noting it as the latest for the tab.\<close>

definition take_request :: "remote_window \<Rightarrow> u64 \<times> remote_window" where
  "take_request w = (rw_next_request w, w\<lparr>rw_next_request := rw_next_request w + 1\<rparr>)"

definition cred_key_of :: "remote_spec \<Rightarrow> rstr \<Rightarrow> ssh_cred_key" where
  "cred_key_of spec user = \<lparr>ck_host = rs_host spec, ck_port = rs_port spec, ck_user = user\<rparr>"

text \<open>A password given in the URL goes to the cache when the user is known; it is taken from the specification
  either way once the user is known.\<close>

definition cache_url_password :: "remote_spec \<Rightarrow> remote_window \<Rightarrow> remote_spec \<times> remote_window" where
  "cache_url_password spec w =
     (case rs_user spec of
        None \<Rightarrow> (spec\<lparr>rs_password := None\<rparr>, w)
      | Some user \<Rightarrow>
          (case rs_password spec of
             None \<Rightarrow> (spec, w)
           | Some pw \<Rightarrow> (spec\<lparr>rs_password := None\<rparr>, w\<lparr>rw_cache := (rw_cache w)(cred_key_of spec user \<mapsto> pw)\<rparr>)))"

definition spawn_ssh_open_task :: "remote_open_params \<Rightarrow> remote_window \<Rightarrow> remote_window \<times> remote_request" where
  "spawn_ssh_open_task p w =
     (case op_target p of
        None \<Rightarrow> (w, SpawnOpen p)
      | Some i \<Rightarrow>
          (on_win (\<lambda>st. st\<lparr>fg_inflight_remote_restore := insert i (fg_inflight_remote_restore st)\<rparr>) w, SpawnOpen p))"

definition open_remote_file_with_target ::
  "remote_spec \<Rightarrow> nat option \<Rightarrow> remote_window \<Rightarrow> remote_window \<times> remote_request" where
  "open_remote_file_with_target spec0 target w0 =
     (let (request, w1) =
            (case target of
               None \<Rightarrow> (None, w0)
             | Some i \<Rightarrow> let (r, w) = take_request w0 in (Some r, note_latest_open i (Some r) w));
          (spec, w2) = cache_url_password spec0 w1
      in (case rs_user spec of
            None \<Rightarrow> (w2, AskPasswordForOpen spec target request)
          | Some user \<Rightarrow>
              (case rw_cache w2 (cred_key_of spec user) of
                 Some pw \<Rightarrow>
                   spawn_ssh_open_task
                     \<lparr>op_spec = spec\<lparr>rs_password := None\<rparr>, op_password = pw, op_key = cred_key_of spec user,
                      op_target = target, op_request = request\<rparr> w2
               | None \<Rightarrow> (w2, AskPasswordForOpen spec target request))))"

text \<open>The confirmation of the password dialog.\<close>

definition password_for_open ::
  "rstr \<Rightarrow> rstr \<Rightarrow> remote_spec \<Rightarrow> nat option \<Rightarrow> u64 option \<Rightarrow> remote_window \<Rightarrow> remote_window \<times> remote_request" where
  "password_for_open user pw spec target request w =
     (let spec1 = spec\<lparr>rs_user := Some user, rs_password := None\<rparr>;
          key = cred_key_of spec1 user
      in spawn_ssh_open_task
           \<lparr>op_spec = spec1, op_password = pw, op_key = key, op_target = target, op_request = request\<rparr>
           (w\<lparr>rw_cache := (rw_cache w)(key \<mapsto> pw)\<rparr>))"

definition do_open_remote_file :: "remote_spec \<Rightarrow> remote_window \<Rightarrow> remote_window \<times> remote_request" where
  "do_open_remote_file spec w =
     (case find_tab_by_remote_spec spec (rw_win w) of
        Some k \<Rightarrow>
          (on_win (\<lambda>st. emit NotifyView (focus_active_tab
             (st\<lparr>fg_active := map_option tab_id (nth_opt (fg_tabs st) k)\<rparr>))) w, NoRequest)
      | None \<Rightarrow>
          open_remote_file_with_target spec None (w\<lparr>rw_last_failed_url := Some (format_remote_url spec)\<rparr>))"

definition ensure_remote_tab_loaded :: "nat \<Rightarrow> remote_spec \<Rightarrow> remote_window \<Rightarrow> remote_window \<times> remote_request" where
  "ensure_remote_tab_loaded i spec w = open_remote_file_with_target spec (Some i) w"

text \<open>Cancelling the progress of an open forgets the latest request of the tab, whichever it is.\<close>

definition cancel_open :: "nat option \<Rightarrow> remote_window \<Rightarrow> remote_window" where
  "cancel_open target w =
     (case target of
        None \<Rightarrow> w
      | Some i \<Rightarrow>
          on_win (\<lambda>st. st\<lparr>fg_inflight_remote_restore := fg_inflight_remote_restore st - {i}\<rparr>)
            (note_latest_open i None w))"

text \<open>Of the timeout and the worker, the first to finish publishes; \<open>finished\<close> is the flag they share.\<close>

definition publish_remote_open_outcome ::
  "bool \<Rightarrow> nat option \<Rightarrow> u64 option \<Rightarrow> rstr + remote_open_result \<Rightarrow> remote_window \<Rightarrow> remote_window \<times> bool \<times> bool" where
  "publish_remote_open_outcome finished target request outcome w =
     (if finished then (w, True, False)
      else (w\<lparr>rw_pending_open := rw_pending_open w
               @ [\<lparr>po_target = target, po_request = request, po_result = outcome\<rparr>]\<rparr>, True, True))"

section \<open>Processing the outcomes\<close>

definition reloaded_remote_editor :: "input_env \<Rightarrow> nat \<Rightarrow> remote_file_result \<Rightarrow> editor_tab \<Rightarrow> editor_tab" where
  "reloaded_remote_editor ie now rf e =
     (let e1 = e\<lparr>et_content := (et_content e)
                  \<lparr>es_text := rr_content rf, es_cursor := ie_after_set ie (rr_content rf) (es_cursor (et_content e))\<rparr>,
                 et_location := LocRemote (rr_spec rf), et_encoding := rr_encoding rf\<rparr>;
          e2 = (set_original_content_from_str (rr_content rf) e1)\<lparr>et_modified := False\<rparr>
      in (update_file_tooltip_cache now (rr_file_size rf) e2)\<lparr>et_title := remote_file_name (rs_path (rr_spec rf))\<rparr>)"

definition reload_remote_tab ::
  "app_env \<Rightarrow> input_env \<Rightarrow> nat \<Rightarrow> nat \<Rightarrow> editor_settings \<Rightarrow> remote_file_result \<Rightarrow> tab \<Rightarrow> tab" where
  "reload_remote_tab env ie fresh now settings rf t =
     (case t of
        TabEditor e \<Rightarrow>
          (let e1 = reloaded_remote_editor ie now rf e;
               language = detect_language (ae_langs env) (et_title e1) (rr_content rf)
           in fst (tab_force_language (ae_langs env) (ae_clip env) fresh language settings (TabEditor e1)))
      | TabSettings s \<Rightarrow> t
      | TabPreview p \<Rightarrow> t)"

definition apply_remote_reload_to_existing_tab ::
  "app_env \<Rightarrow> input_env \<Rightarrow> nat \<Rightarrow> nat \<Rightarrow> remote_file_result \<Rightarrow> fulgur \<Rightarrow> fulgur" where
  "apply_remote_reload_to_existing_tab env ie now i rf st0 =
     (if tab_entity_of i st0 = None then st0
      else let (fresh, st) = take_fresh st0 in
        emit NotifyView (update_tab i (reload_remote_tab env ie fresh now (fg_settings st) rf) st))"

definition set_pending_restore :: "nat \<Rightarrow> fulgur \<Rightarrow> fulgur" where
  "set_pending_restore i st = st\<lparr>fg_pending_remote_restore := insert i (fg_pending_remote_restore st)\<rparr>"

definition place_remote_file :: "app_env \<Rightarrow> nat \<Rightarrow> remote_file_result \<Rightarrow> fulgur \<Rightarrow> fulgur" where
  "place_remote_file env now rf st =
     (let (i, st1) = allocate_tab_id st;
          (fresh, st2) = take_fresh st1;
          t = TabEditor (editor_tab_from_remote_loaded (ae_langs env) fresh now i rf (fg_settings st2));
          (_, st3) = place_editor_tab_reusing_scratch t st2
      in emit NotifyView (emit SaveState (emit (OtherRequest ''add recent file'') (focus_active_tab st3))))"

definition outcome_is_stale :: "pending_outcome \<Rightarrow> remote_window \<Rightarrow> bool" where
  "outcome_is_stale o1 w =
     (case (po_target o1, po_request o1) of
        (Some i, Some r) \<Rightarrow> fg_latest_remote_open (rw_win w) i \<noteq> Some r
      | _ \<Rightarrow> False)"

definition accept_outcome :: "pending_outcome \<Rightarrow> remote_window \<Rightarrow> remote_window" where
  "accept_outcome o1 w =
     (case po_target o1 of
        None \<Rightarrow> w
      | Some i \<Rightarrow>
          on_win (\<lambda>st. st\<lparr>fg_inflight_remote_restore := fg_inflight_remote_restore st - {i}\<rparr>)
            (if po_request o1 = None then w else note_latest_open i None w))"

definition apply_outcome ::
  "app_env \<Rightarrow> input_env \<Rightarrow> nat \<Rightarrow> nat option \<Rightarrow> rstr + remote_open_result \<Rightarrow> remote_window \<Rightarrow> remote_window" where
  "apply_outcome env ie now target result w =
     (case (result, target) of
        (Inr (OpenedFile rf), Some i) \<Rightarrow>
          on_win (\<lambda>st. apply_remote_reload_to_existing_tab env ie now i rf
            (st\<lparr>fg_pending_remote_restore := fg_pending_remote_restore st - {i}\<rparr>)) w
      | (Inr (OpenedFile rf), None) \<Rightarrow> on_win (place_remote_file env now rf) (w\<lparr>rw_last_failed_url := None\<rparr>)
      | (Inr (OpenedBrowse b), Some i) \<Rightarrow>
          on_win (\<lambda>st. emit (OtherRequest ''notify: restored path is no longer a file'') (set_pending_restore i st)) w
      | (Inr (OpenedBrowse b), None) \<Rightarrow> on_win (emit (OtherRequest ''remote path browser'')) w
      | (Inl msg, Some i) \<Rightarrow>
          on_win (\<lambda>st. emit (OtherRequest ''notify: remote open failed'') (set_pending_restore i st)) w
      | (Inl msg, None) \<Rightarrow> on_win (emit (OtherRequest ''notify: remote open failed'')) w)"

definition process_outcome :: "app_env \<Rightarrow> input_env \<Rightarrow> nat \<Rightarrow> pending_outcome \<Rightarrow> remote_window \<Rightarrow> remote_window" where
  "process_outcome env ie now o1 w =
     (if outcome_is_stale o1 w then w
      else apply_outcome env ie now (po_target o1) (po_result o1) (accept_outcome o1 w))"

definition process_pending_remote_files :: "app_env \<Rightarrow> input_env \<Rightarrow> nat \<Rightarrow> remote_window \<Rightarrow> remote_window" where
  "process_pending_remote_files env ie now w =
     fold (process_outcome env ie now) (rw_pending_open w) (w\<lparr>rw_pending_open := []\<rparr>)"

section \<open>Saving\<close>

definition spawn_save ::
  "nat \<Rightarrow> remote_spec \<Rightarrow> rstr \<Rightarrow> u8 list \<Rightarrow> rstr \<Rightarrow> ssh_cred_key \<Rightarrow> remote_window \<Rightarrow> remote_window \<times> remote_request" where
  "spawn_save i spec contents bytes pw key w0 =
     (let (r, w) = take_request w0 in
      (note_latest_save i (Some r) w,
       SpawnRemoteSave \<lparr>sp_tab_id = i, sp_request = r, sp_spec = spec, sp_content = contents, sp_bytes = bytes,
                         sp_password = pw, sp_key = key\<rparr>))"

definition save_remote_file ::
  "nat \<Rightarrow> remote_spec \<Rightarrow> rstr \<Rightarrow> u8 list \<Rightarrow> remote_window \<Rightarrow> remote_window \<times> remote_request" where
  "save_remote_file i spec0 contents bytes w0 =
     (let (spec, w) = cache_url_password spec0 w0 in
      (case rs_user spec of
         None \<Rightarrow> (w, AskPasswordForSave i spec contents bytes)
       | Some user \<Rightarrow>
           (case rw_cache w (cred_key_of spec user) of
              Some pw \<Rightarrow> spawn_save i (spec\<lparr>rs_password := None\<rparr>) contents bytes pw (cred_key_of spec user) w
            | None \<Rightarrow> (w, AskPasswordForSave i spec contents bytes))))"

definition set_remote_user :: "rstr \<Rightarrow> editor_tab \<Rightarrow> editor_tab" where
  "set_remote_user user e =
     (case et_location e of
        LocRemote s \<Rightarrow> e\<lparr>et_location := LocRemote (s\<lparr>rs_user := Some user\<rparr>)\<rparr>
      | LocLocal p \<Rightarrow> e
      | LocUntitled \<Rightarrow> e)"

definition password_for_save ::
  "rstr \<Rightarrow> rstr \<Rightarrow> nat \<Rightarrow> remote_spec \<Rightarrow> rstr \<Rightarrow> u8 list \<Rightarrow> remote_window \<Rightarrow> remote_window \<times> remote_request" where
  "password_for_save user pw i spec contents bytes w =
     (let spec1 = spec\<lparr>rs_user := Some user, rs_password := None\<rparr>;
          key = cred_key_of spec1 user;
          w1 = on_win (update_editor_tab i (set_remote_user user)) (w\<lparr>rw_cache := (rw_cache w)(key \<mapsto> pw)\<rparr>)
      in spawn_save i spec1 contents bytes pw key w1)"

definition cancel_save :: "nat \<Rightarrow> u64 \<Rightarrow> remote_window \<Rightarrow> remote_window" where
  "cancel_save i r w =
     (if fg_latest_remote_save (rw_win w) i = Some r then note_latest_save i None w else w)"

definition publish_remote_save_outcome ::
  "bool \<Rightarrow> rstr + unit \<Rightarrow> (rstr + unit) option \<Rightarrow> (rstr + unit) option \<times> bool \<times> bool" where
  "publish_remote_save_outcome finished outcome slot =
     (if finished then (slot, True, False) else (Some outcome, True, True))"

definition saved_remotely :: "nat \<Rightarrow> rstr \<Rightarrow> editor_tab \<Rightarrow> editor_tab" where
  "saved_remotely now saved e =
     (let e1 = (set_original_content_from_str saved e)\<lparr>et_modified := False\<rparr>
      in update_file_tooltip_cache now (blen saved) (e1\<lparr>et_modified := content_differs_from_original e1\<rparr>))"

definition handle_remote_save_result ::
  "nat \<Rightarrow> nat \<Rightarrow> u64 \<Rightarrow> rstr \<Rightarrow> rstr + unit \<Rightarrow> remote_window \<Rightarrow> remote_window" where
  "handle_remote_save_result now i r saved result w0 =
     (if fg_latest_remote_save (rw_win w0) i \<noteq> Some r then w0
      else
        let w = note_latest_save i None w0 in
        (case result of
           Inr _ \<Rightarrow>
             on_win (\<lambda>st.
               (if editor_tab_of i st = None then st
                else let st1 = update_editor_tab i (saved_remotely now saved) st in
                  emit NotifyView (st1\<lparr>fg_pending_remote_restore := fg_pending_remote_restore st1 - {i},
                                       fg_inflight_remote_restore := fg_inflight_remote_restore st1 - {i}\<rparr>))) w
         | Inl msg \<Rightarrow> on_win (emit (OtherRequest ''notify: failed to save'')) w))"

section \<open>Frame facts\<close>

lemma on_win_simps [simp]:
  "rw_win (on_win f w) = f (rw_win w)" "rw_next_request (on_win f w) = rw_next_request w"
  "rw_cache (on_win f w) = rw_cache w" "rw_pending_open (on_win f w) = rw_pending_open w"
  "rw_last_failed_url (on_win f w) = rw_last_failed_url w"
  by (simp_all add: on_win_def)

lemma latest_emit [simp]:
  "fg_latest_remote_open (emit e st) = fg_latest_remote_open st"
  "fg_latest_remote_save (emit e st) = fg_latest_remote_save st"
  "fg_latest_remote_open (update_tab i f st) = fg_latest_remote_open st"
  by (simp_all add: emit_def update_tab_def split: option.splits)

lemma note_latest_simps [simp]:
  "fg_latest_remote_open (rw_win (note_latest_open i r w)) = (fg_latest_remote_open (rw_win w))(i := r)"
  "fg_latest_remote_save (rw_win (note_latest_save i r w)) = (fg_latest_remote_save (rw_win w))(i := r)"
  "rw_next_request (note_latest_open i r w) = rw_next_request w"
  "rw_next_request (note_latest_save i r w) = rw_next_request w"
  "rw_cache (note_latest_open i r w) = rw_cache w" "rw_cache (note_latest_save i r w) = rw_cache w"
  by (simp_all add: note_latest_open_def note_latest_save_def)

lemma cache_frame [simp]:
  "rw_win (snd (cache_url_password spec w)) = rw_win w"
  "rw_next_request (snd (cache_url_password spec w)) = rw_next_request w"
  by (simp_all add: cache_url_password_def split: option.splits)

lemma opened_for_tab:
  "fg_latest_remote_open (rw_win (fst (ensure_remote_tab_loaded i spec w)))
     = (fg_latest_remote_open (rw_win w))(i \<mapsto> rw_next_request w)
   \<and> rw_next_request (fst (ensure_remote_tab_loaded i spec w)) = rw_next_request w + 1"
proof -
  obtain s2 w2 where c: "cache_url_password spec (note_latest_open i (Some (rw_next_request w)) (w\<lparr>rw_next_request := rw_next_request w + 1\<rparr>)) = (s2, w2)"
    by fastforce
  have "rw_win w2 = rw_win (note_latest_open i (Some (rw_next_request w)) (w\<lparr>rw_next_request := rw_next_request w + 1\<rparr>))"
    "rw_next_request w2 = rw_next_request w + 1"
    using arg_cong [OF c, of "\<lambda>p. rw_win (snd p)"] arg_cong [OF c, of "\<lambda>p. rw_next_request (snd p)"] by simp_all
  then show ?thesis
    using c by (auto simp: ensure_remote_tab_loaded_def open_remote_file_with_target_def take_request_def
        spawn_ssh_open_task_def Let_def split: option.splits)
qed

lemma applied_latest [simp]:
  "fg_latest_remote_open (rw_win (apply_outcome env ie now (Some i) result w)) = fg_latest_remote_open (rw_win w)"
  by (auto simp: apply_outcome_def apply_remote_reload_to_existing_tab_def take_fresh_def set_pending_restore_def
      split: sum.splits remote_open_result.splits)

lemma processed_latest:
  assumes "po_target o1 = Some i" "po_request o1 = Some r"
  shows "fg_latest_remote_open (rw_win (process_outcome env ie now o1 w)) i \<noteq> Some r"
  using assms by (auto simp: process_outcome_def outcome_is_stale_def accept_outcome_def)

section \<open>Properties\<close>


definition sample_spec :: remote_spec where
  "sample_spec = \<lparr>rs_host = lit ''h'', rs_port = 22, rs_user = Some (lit ''u''), rs_path = lit ''/f'', rs_password = None\<rparr>"

definition sample_remote :: remote_window where
  "sample_remote = \<lparr>rw_win = saved_window, rw_next_request = 0, rw_last_failed_url = None, rw_cache = Map.empty,
     rw_pending_open = []\<rparr>"

definition sample_outcome :: "u64 \<Rightarrow> rstr + remote_open_result \<Rightarrow> pending_outcome" where
  "sample_outcome r res = \<lparr>po_target = Some 0, po_request = Some r, po_result = res\<rparr>"


lemma reload_remote_editor:
  "\<exists>e'. reload_remote_tab env ie fresh now settings rf (TabEditor e) = TabEditor e'
     \<and> et_id e' = et_id e \<and> es_text (et_content e') = rr_content rf \<and> et_location e' = LocRemote (rr_spec rf)
     \<and> \<not> et_modified e' \<and> \<not> content_differs_from_original e' \<and> et_encoding e' = rr_encoding rf
     \<and> et_lossy_decode e' = et_lossy_decode e"
  by (auto simp: reload_remote_tab_def reloaded_remote_editor_def tab_force_language_def force_language_def Let_def
      reattach_if_content_swapped_def update_file_tooltip_cache_def set_original_content_from_str_def
      content_differs_from_original_def rope_fingerprint content_fingerprint_from_str_def split: prod.splits)

lemma editor_tab_of_tabs_cong [simp]:
  "editor_tab_of i (st\<lparr>fg_pending_remote_restore := x\<rparr>) = editor_tab_of i st"
  "editor_tab_of i (st\<lparr>fg_inflight_remote_restore := x\<rparr>) = editor_tab_of i st"
  "editor_tab_of i (st\<lparr>fg_latest_remote_open := y\<rparr>) = editor_tab_of i st"
  "editor_tab_of i (st\<lparr>fg_latest_remote_save := y\<rparr>) = editor_tab_of i st"
  "editor_tab_of i (st\<lparr>fg_fresh := n\<rparr>) = editor_tab_of i st"
  by (rule editor_tab_of_cong; simp)+

lemma restore_sets_emit [simp]:
  "fg_pending_remote_restore (emit e st) = fg_pending_remote_restore st"
  "fg_inflight_remote_restore (emit e st) = fg_inflight_remote_restore st"
  "fg_pending_remote_restore (update_tab i f st) = fg_pending_remote_restore st"
  "fg_inflight_remote_restore (update_tab i f st) = fg_inflight_remote_restore st"
  by (simp_all add: emit_def update_tab_def split: option.splits)

lemma remote_reload_tab:
  assumes "editor_tab_of i st = Some e"
  shows "\<exists>e'. editor_tab_of i (apply_remote_reload_to_existing_tab env ie now i rf st) = Some e'
    \<and> es_text (et_content e') = rr_content rf \<and> et_location e' = LocRemote (rr_spec rf) \<and> \<not> et_modified e'
    \<and> \<not> content_differs_from_original e' \<and> et_lossy_decode e' = et_lossy_decode e"
proof -
  let ?st = "st\<lparr>fg_fresh := Suc (fg_fresh st)\<rparr>"
  let ?f = "reload_remote_tab env ie (fg_fresh st) now (fg_settings st) rf"
  have te: "tab_entity_of i ?st = Some (TabEditor e)" using assms by (simp add: editor_entity tab_entity_of_def)
  obtain e' where e': "?f (TabEditor e) = TabEditor e'" "et_id e' = et_id e" "es_text (et_content e') = rr_content rf"
      "et_location e' = LocRemote (rr_spec rf)" "\<not> et_modified e'" "\<not> content_differs_from_original e'"
      "et_lossy_decode e' = et_lossy_decode e"
    using reload_remote_editor by blast
  have "tab_entity_of i (update_tab i ?f ?st) = Some (TabEditor e')"
    using tab_entity_of_update [OF te, of ?f] e'(1,2) editor_id [OF assms] by simp
  then have "editor_tab_of i (apply_remote_reload_to_existing_tab env ie now i rf st) = Some e'"
    using assms by (simp add: apply_remote_reload_to_existing_tab_def take_fresh_def editor_entity)
  then show ?thesis using e' by blast
qed

text \<open>C33: The outcome of the current request of a restored tab either shows the file, unmodified and identical to
  what was read, and ends the restore, or leaves the tab as it is and pending, so that activating it loads it
  again; the tab is never left marked as in flight.\<close>

theorem restore_ends_loaded_or_pending:
  assumes "editor_tab_of i (rw_win w) = Some e" "fg_latest_remote_open (rw_win w) i = Some r"
    and "po_target o1 = Some i" "po_request o1 = Some r"
  shows "let st = rw_win (process_outcome env ie now o1 w) in
    i \<notin> fg_inflight_remote_restore st \<and>
    (case po_result o1 of
       Inr (OpenedFile rf) \<Rightarrow>
         i \<notin> fg_pending_remote_restore st
         \<and> (\<exists>e'. editor_tab_of i st = Some e' \<and> es_text (et_content e') = rr_content rf
              \<and> et_location e' = LocRemote (rr_spec rf) \<and> \<not> et_modified e' \<and> \<not> content_differs_from_original e')
     | _ \<Rightarrow> i \<in> fg_pending_remote_restore st \<and> editor_tab_of i st = Some e)"
proof -
  let ?w = "accept_outcome o1 w"
  have acc: "process_outcome env ie now o1 w = apply_outcome env ie now (Some i) (po_result o1) ?w"
    using assms(2-4) by (simp add: process_outcome_def outcome_is_stale_def)
  have ed: "editor_tab_of i (rw_win ?w) = Some e" and inf: "i \<notin> fg_inflight_remote_restore (rw_win ?w)"
    using assms(1,3,4) by (simp_all add: accept_outcome_def note_latest_open_def)
  have res: "(\<exists>rf. po_result o1 = Inr (OpenedFile rf)) \<or> (\<exists>b. po_result o1 = Inr (OpenedBrowse b))
      \<or> (\<exists>m. po_result o1 = Inl m)"
    by (metis remote_open_result.exhaust sum.exhaust)
  show ?thesis
  proof (cases "\<exists>rf. po_result o1 = Inr (OpenedFile rf)")
    case True
    then obtain rf where opened: "po_result o1 = Inr (OpenedFile rf)" by blast
    let ?st = "(rw_win ?w)\<lparr>fg_pending_remote_restore := fg_pending_remote_restore (rw_win ?w) - {i}\<rparr>"
    have ap: "apply_outcome env ie now (Some i) (po_result o1) ?w
        = on_win (\<lambda>st. apply_remote_reload_to_existing_tab env ie now i rf
            (st\<lparr>fg_pending_remote_restore := fg_pending_remote_restore st - {i}\<rparr>)) ?w"
      by (simp add: apply_outcome_def opened)
    have sets: "i \<notin> fg_pending_remote_restore (apply_remote_reload_to_existing_tab env ie now i rf ?st)"
      "i \<notin> fg_inflight_remote_restore (apply_remote_reload_to_existing_tab env ie now i rf ?st)"
      using inf by (simp_all add: apply_remote_reload_to_existing_tab_def take_fresh_def)
    have "editor_tab_of i ?st = Some e" using ed by simp
    from remote_reload_tab [OF this, of env ie now rf] show ?thesis
      unfolding Let_def acc ap using sets by (auto simp: opened)
  next
    case False
    then show ?thesis using res acc ed inf by (auto simp: apply_outcome_def set_pending_restore_def)
  qed
qed

lemma restore_ends_loaded_or_pending_witness:
  "let w1 = fst (ensure_remote_tab_loaded 0 sample_spec sample_remote);
       rf = \<lparr>rr_spec = sample_spec, rr_content = [120], rr_encoding = UTF_8, rr_lossy = False, rr_file_size = 1\<rparr>
   in \<forall>env ie now. \<exists>e'. editor_tab_of 0 (rw_win (process_outcome env ie now (sample_outcome 0 (Inr (OpenedFile rf))) w1)) = Some e'
        \<and> es_text (et_content e') = [120]"
proof -
  define w1 where "w1 = fst (ensure_remote_tab_loaded 0 sample_spec sample_remote)"
  define rf where "rf = \<lparr>rr_spec = sample_spec, rr_content = [120], rr_encoding = UTF_8, rr_lossy = False, rr_file_size = 1\<rparr>"
  have l: "fg_latest_remote_open (rw_win w1) 0 = Some 0"
    unfolding w1_def using opened_for_tab [of 0 sample_spec sample_remote] by (simp add: sample_remote_def)
  have ed: "editor_tab_of 0 (rw_win w1) = Some (mark_as_saved (watched_tab False))"
    using saved_window_facts(1)
    by (simp add: w1_def ensure_remote_tab_loaded_def open_remote_file_with_target_def take_request_def Let_def
        cache_url_password_def sample_spec_def sample_remote_def note_latest_open_def)
  have o: "po_target (sample_outcome 0 (Inr (OpenedFile rf))) = Some 0"
    "po_request (sample_outcome 0 (Inr (OpenedFile rf))) = Some 0"
    "po_result (sample_outcome 0 (Inr (OpenedFile rf))) = Inr (OpenedFile rf)"
    by (simp_all add: sample_outcome_def)
  have "\<exists>e'. editor_tab_of 0 (rw_win (process_outcome env ie now (sample_outcome 0 (Inr (OpenedFile rf))) w1)) = Some e'
        \<and> es_text (et_content e') = [120]" for env ie now
    using restore_ends_loaded_or_pending [OF ed l o(1,2), of env ie now]
    by (simp add: o Let_def) (auto simp: rf_def)
  then show ?thesis unfolding w1_def [symmetric] rf_def [symmetric] Let_def by blast
qed

lemma spawned_remote_save:
  assumes "save_remote_file i spec contents bytes w = (w1, SpawnRemoteSave p)"
  shows "sp_tab_id p = i \<and> sp_content p = contents \<and> sp_bytes p = bytes
    \<and> fg_latest_remote_save (rw_win w1) i = Some (sp_request p) \<and> fg_tabs (rw_win w1) = fg_tabs (rw_win w)"
proof -
  obtain s2 w2 where c: "cache_url_password spec w = (s2, w2)" by fastforce
  have "rw_win w2 = rw_win w" using arg_cong [OF c, of "\<lambda>p. rw_win (snd p)"] by simp
  then show ?thesis
    using assms c by (auto simp: save_remote_file_def spawn_save_def take_request_def note_latest_save_def Let_def split: option.splits)
qed

lemma type_texts_latest [simp]:
  "fg_latest_remote_save (type_texts i ss st) = fg_latest_remote_save st"
proof -
  have "fg_latest_remote_save (update_tab i f s) = fg_latest_remote_save s" for f s
    by (simp add: update_tab_def split: option.splits)
  then show ?thesis unfolding type_texts_def by (induction ss arbitrary: st) simp_all
qed



text \<open>Reloading a restored tab records the encoding of the file but not that decoding it lost something: the
  question \<open>save_file\<close> asks before it writes such a text back is not asked.\<close>

lemma restored_tab_forgets_lossy:
  assumes "editor_tab_of i st = Some e" "\<not> et_lossy_decode e"
  shows "\<exists>e'. editor_tab_of i (apply_remote_reload_to_existing_tab env ie now i rf st) = Some e'
    \<and> es_text (et_content e') = rr_content rf \<and> \<not> et_lossy_decode e'"
  using remote_reload_tab [OF assms(1), of env ie now rf] assms(2) by blast

text \<open>For a large file the recomputation after a save keeps the mark it has just cleared when the lengths agree:
  an edit made during the save that keeps the length is taken for saved.\<close>

lemma large_file_edit_during_save_unmarked:
  assumes "et_large_file e" "blen (es_text (et_content e)) = blen saved"
  shows "\<not> et_modified (saved_remotely now saved e)"
  using assms by (simp add: saved_remotely_def update_file_tooltip_cache_def set_original_content_from_str_def
      content_differs_from_original_def Let_def)

end
