(* ===== verification/Sftp.thy ===== *)
theory Sftp
  imports Remote_Files
begin

text \<open>
  \<^verbatim>\<open>src/fulgur/sync/ssh/sftp.rs\<close>: remote paths, the search for the closest existing directory, listing a
  directory and writing a file on the server, and the resolution of a location to a file or a listing in
  \<^verbatim>\<open>remote_open.rs\<close>. The server's answers are parameters: what a path is (\<open>classify\<close>), what a directory holds,
  and which call of a write fails. The server's files are a map from paths to contents and mode, as for local
  files.
\<close>

section \<open>Paths\<close>

definition trim_slashes :: "rstr \<Rightarrow> rstr" where
  "trim_slashes p = trim_end (\<lambda>c. c = 47) p"

definition normalize_remote_path :: "rstr \<Rightarrow> rstr" where
  "normalize_remote_path p =
     (let trimmed = trim p in
      if trimmed = [] then REMOTE_ROOT_PATH
      else if trimmed = [126] \<or> starts_with [126, 47] trimmed then trimmed
      else let slashes = replace_char 92 [47] trimmed in
        if starts_with REMOTE_ROOT_PATH slashes then slashes else REMOTE_ROOT_PATH @ slashes)"

definition parent_remote_path :: "rstr \<Rightarrow> rstr" where
  "parent_remote_path p =
     (let trimmed = trim_slashes p in
      if trimmed = [] \<or> trimmed = REMOTE_ROOT_PATH then REMOTE_ROOT_PATH
      else (case str_rfind (\<lambda>c. c = 47) trimmed of
              None \<Rightarrow> REMOTE_ROOT_PATH
            | Some index \<Rightarrow> if index = 0 then REMOTE_ROOT_PATH else take index trimmed))"

definition join_remote_path :: "rstr \<Rightarrow> rstr \<Rightarrow> rstr" where
  "join_remote_path directory name =
     (let d = normalize_remote_path directory in
      if d = REMOTE_ROOT_PATH then REMOTE_ROOT_PATH @ name else trim_slashes d @ 47 # name)"

section \<open>What a path is\<close>

datatype remote_path_kind = RemoteFile | RemoteDirectory | RemoteMissing

text \<open>The answer of \<open>stat\<close> is the mode, if the server reports one, or the error with its SFTP code.\<close>

record sftp_server =
  sv_stat :: "rstr \<Rightarrow> (nat \<times> rstr) + nat option"
  sv_opendir :: "rstr \<Rightarrow> bool"
  sv_readdir :: "rstr \<Rightarrow> rstr + (rstr \<times> nat option) list"
  sv_read :: "rstr \<Rightarrow> ssh_error + u8 list"

definition is_directory_mode :: "nat \<Rightarrow> bool" where
  "is_directory_mode perm \<longleftrightarrow> perm div 4096 mod 16 = 4"

definition classify_remote_path :: "sftp_server \<Rightarrow> rstr \<Rightarrow> ssh_error + remote_path_kind" where
  "classify_remote_path sv remote_path =
     (let p = normalize_remote_path remote_path in
      (case sv_stat sv p of
         Inr (Some perm) \<Rightarrow> Inr (if is_directory_mode perm then RemoteDirectory else RemoteFile)
       | Inr None \<Rightarrow> Inr (if sv_opendir sv p then RemoteDirectory else RemoteFile)
       | Inl (code, e) \<Rightarrow>
           if code = 2 then Inr RemoteMissing else Inl (SftpError (lit ''Cannot inspect '' @ p @ lit '': '' @ e))))"

text \<open>The loop of \<open>closest_existing_remote_directory\<close>; not returning would be \<open>None\<close>.\<close>

partial_function (option) closest_loop ::
  "(rstr \<Rightarrow> ssh_error + remote_path_kind) \<Rightarrow> rstr \<Rightarrow> (ssh_error + rstr) option" where
  "closest_loop classify candidate =
     (case classify candidate of
        Inl e \<Rightarrow> Some (Inl e)
      | Inr kind \<Rightarrow>
          if kind = RemoteDirectory then Some (Inr candidate)
          else if candidate = REMOTE_ROOT_PATH then Some (Inr REMOTE_ROOT_PATH)
          else closest_loop classify (parent_remote_path candidate))"

definition closest_existing_remote_directory :: "sftp_server \<Rightarrow> rstr \<Rightarrow> (ssh_error + rstr) option" where
  "closest_existing_remote_directory sv p = closest_loop (classify_remote_path sv) (normalize_remote_path p)"

section \<open>Listing\<close>

text \<open>The order of the entries: directories first, then by the lowercased name; the sort is stable.\<close>

fun str_le :: "rstr \<Rightarrow> rstr \<Rightarrow> bool" where
  "str_le [] t = True"
| "str_le (a # s) [] = False"
| "str_le (a # s) (b # t) = (a < b \<or> a = b \<and> str_le s t)"

definition entry_le :: "(rstr \<Rightarrow> rstr) \<Rightarrow> remote_directory_entry \<Rightarrow> remote_directory_entry \<Rightarrow> bool" where
  "entry_le lower a b \<longleftrightarrow>
     (if re_is_dir a = re_is_dir b then str_le (lower (re_name a)) (lower (re_name b)) else re_is_dir a)"

fun insert_entry :: "('a \<Rightarrow> 'a \<Rightarrow> bool) \<Rightarrow> 'a \<Rightarrow> 'a list \<Rightarrow> 'a list" where
  "insert_entry le x [] = [x]"
| "insert_entry le x (y # ys) = (if le x y then x # y # ys else y # insert_entry le x ys)"

definition sort_entries :: "('a \<Rightarrow> 'a \<Rightarrow> bool) \<Rightarrow> 'a list \<Rightarrow> 'a list" where
  "sort_entries le xs = foldr (insert_entry le) xs []"

definition directory_entry :: "rstr \<Rightarrow> rstr \<times> nat option \<Rightarrow> remote_directory_entry option" where
  "directory_entry directory x =
     (case path_file_name (fst x) of
        None \<Rightarrow> None
      | Some name \<Rightarrow>
          if name = [46] \<or> name = [46, 46] then None
          else Some \<lparr>re_name = name,
                     re_is_dir = (case snd x of Some perm \<Rightarrow> is_directory_mode perm | None \<Rightarrow> False),
                     re_full_path = join_remote_path directory name\<rparr>)"

definition list_remote_directory ::
  "(rstr \<Rightarrow> rstr) \<Rightarrow> sftp_server \<Rightarrow> rstr \<Rightarrow> ssh_error + remote_directory_entry list" where
  "list_remote_directory lower sv dir =
     (let directory = normalize_remote_path dir in
      (case sv_readdir sv directory of
         Inl e \<Rightarrow> Inl (SftpError (lit ''Cannot list directory '' @ directory @ lit '': '' @ e))
       | Inr found \<Rightarrow>
           Inr (take 500 (sort_entries (entry_le lower) (List.map_filter (directory_entry directory) found)))))"

section \<open>Opening a location\<close>

definition read_remote_file :: "sftp_server \<Rightarrow> rstr \<Rightarrow> ssh_error + u8 list" where
  "read_remote_file sv p = sv_read sv p"

definition opened_file :: "codecs \<Rightarrow> remote_spec \<Rightarrow> u8 list \<Rightarrow> remote_open_result" where
  "opened_file cd spec bytes =
     (let d = detect_encoding_and_decode cd bytes in
      OpenedFile \<lparr>rr_spec = spec, rr_content = dc_content d, rr_encoding = dc_encoding d, rr_lossy = dc_lossy d,
                  rr_file_size = dc_byte_len d\<rparr>)"

definition build_remote_browse_result ::
  "(rstr \<Rightarrow> rstr) \<Rightarrow> sftp_server \<Rightarrow> remote_spec \<Rightarrow> rstr \<Rightarrow> rstr option \<Rightarrow> ssh_error + remote_open_result" where
  "build_remote_browse_result lower sv spec directory_path notice =
     (let directory = (if trim directory_path = [] then REMOTE_ROOT_PATH else directory_path);
          up = (if directory \<noteq> REMOTE_ROOT_PATH
                then [\<lparr>re_name = [46, 46], re_is_dir = True, re_full_path = parent_remote_path directory\<rparr>] else [])
      in rbind (list_remote_directory lower sv directory) (\<lambda>entries.
           Inr (OpenedBrowse \<lparr>rb_directory_spec = spec\<lparr>rs_path := directory\<rparr>, rb_entries = up @ entries,
                              rb_notice = notice\<rparr>)))"

definition missing_notice :: "rstr \<Rightarrow> rstr \<Rightarrow> rstr" where
  "missing_notice p d =
     lit ''Remote path '' @ [39] @ p @ [39] @ lit '' was not found. Showing closest existing directory '' @ [39] @ d
       @ [39, 46]"

definition resolve_remote_open_result ::
  "codecs \<Rightarrow> (rstr \<Rightarrow> rstr) \<Rightarrow> sftp_server \<Rightarrow> remote_spec \<Rightarrow> (ssh_error + remote_open_result) option" where
  "resolve_remote_open_result cd lower sv spec =
     (case classify_remote_path sv (rs_path spec) of
        Inl e \<Rightarrow> Some (Inl e)
      | Inr RemoteFile \<Rightarrow> Some (rbind (read_remote_file sv (rs_path spec)) (\<lambda>bytes. Inr (opened_file cd spec bytes)))
      | Inr RemoteDirectory \<Rightarrow> Some (build_remote_browse_result lower sv spec (rs_path spec) None)
      | Inr RemoteMissing \<Rightarrow>
          map_option (\<lambda>r. rbind r (\<lambda>d.
              build_remote_browse_result lower sv spec d (Some (missing_notice (rs_path spec) d))))
            (closest_existing_remote_directory sv (rs_path spec)))"

section \<open>Writing\<close>

datatype sw_call = SwOpenTemp | SwWriteTemp | SwRename nat | SwOpenDest | SwWriteDest

record sftp_write_env =
  sw_realpath :: "rstr \<Rightarrow> rstr option"
  sw_stat_fails :: bool
  sw_pid :: nat
  sw_nanos :: nat
  sw_fails :: "sw_call \<Rightarrow> bool"
  sw_partial :: nat
  sw_setstat_fails :: bool
  sw_unlink_fails :: bool

definition DEFAULT_REMOTE_FILE_MODE :: nat where "DEFAULT_REMOTE_FILE_MODE = 420"

definition resolved_path :: "sftp_write_env \<Rightarrow> rstr \<Rightarrow> rstr" where
  "resolved_path env p = (case sw_realpath env p of Some q \<Rightarrow> q | None \<Rightarrow> p)"

definition temp_path :: "sftp_write_env \<Rightarrow> rstr \<Rightarrow> rstr" where
  "temp_path env resolved =
     resolved @ lit ''.fulgur.tmp.'' @ show_nat (sw_pid env) @ lit ''.'' @ show_nat (sw_nanos env)"

type_synonym remote_fs = "rstr \<rightharpoonup> u8 list \<times> nat"

definition unlink :: "sftp_write_env \<Rightarrow> rstr \<Rightarrow> remote_fs \<Rightarrow> remote_fs" where
  "unlink env p fs = (if sw_unlink_fails env then fs else fs(p := None))"

text \<open>Opening with WRITE, CREATE and TRUNCATE empties the file and writing all of the data follows; the mode is
  that of the call for a new file.\<close>

definition open_and_write ::
  "sftp_write_env \<Rightarrow> sw_call \<Rightarrow> sw_call \<Rightarrow> rstr \<Rightarrow> u8 list \<Rightarrow> nat \<Rightarrow> remote_fs \<Rightarrow> (sw_call + unit) \<times> remote_fs" where
  "open_and_write env open_call write_call p data mode fs =
     (if sw_fails env open_call then (Inl open_call, fs)
      else
        let m = (case fs p of Some (_, old) \<Rightarrow> old | None \<Rightarrow> mode) in
        if sw_fails env write_call then (Inl write_call, fs(p \<mapsto> (take (sw_partial env) data, m)))
        else (Inr (), fs(p \<mapsto> (data, m))))"

definition direct_write_fallback ::
  "sftp_write_env \<Rightarrow> rstr \<Rightarrow> u8 list \<Rightarrow> nat \<Rightarrow> remote_fs \<Rightarrow> (sw_call + unit) \<times> remote_fs" where
  "direct_write_fallback env dest data mode fs = open_and_write env SwOpenDest SwWriteDest dest data mode fs"

fun rename_attempts :: "sftp_write_env \<Rightarrow> nat list \<Rightarrow> rstr \<Rightarrow> rstr \<Rightarrow> remote_fs \<Rightarrow> remote_fs option" where
  "rename_attempts env [] tmp dest fs = None"
| "rename_attempts env (k # ks) tmp dest fs =
     (if sw_fails env (SwRename k) then rename_attempts env ks tmp dest fs
      else Some (fs(dest := fs tmp, tmp := None)))"

definition rename_with_fallback ::
  "sftp_write_env \<Rightarrow> rstr \<Rightarrow> rstr \<Rightarrow> u8 list \<Rightarrow> nat \<Rightarrow> remote_fs \<Rightarrow> (sw_call + unit) \<times> remote_fs" where
  "rename_with_fallback env tmp dest data mode fs =
     (case rename_attempts env [0, 1, 2] tmp dest fs of
        Some fs1 \<Rightarrow> (Inr (), fs1)
      | None \<Rightarrow> direct_write_fallback env dest data mode fs)"

definition dest_mode :: "sftp_write_env \<Rightarrow> rstr \<Rightarrow> remote_fs \<Rightarrow> nat" where
  "dest_mode env resolved fs =
     (if sw_stat_fails env then DEFAULT_REMOTE_FILE_MODE
      else (case fs resolved of Some (_, m) \<Rightarrow> m mod 512 | None \<Rightarrow> DEFAULT_REMOTE_FILE_MODE))"

definition write_remote_file ::
  "sftp_write_env \<Rightarrow> rstr \<Rightarrow> u8 list \<Rightarrow> remote_fs \<Rightarrow> (sw_call + unit) \<times> remote_fs" where
  "write_remote_file env remote_path data fs =
     (let resolved = resolved_path env remote_path;
          mode = dest_mode env resolved fs;
          tmp = temp_path env resolved;
          (w, fs1) = open_and_write env SwOpenTemp SwWriteTemp tmp data mode fs
      in (case w of
            Inl e \<Rightarrow> (Inl e, unlink env tmp fs1)
          | Inr _ \<Rightarrow>
              let fs2 = (if sw_setstat_fails env then fs1 else fs1(tmp := map_option (\<lambda>(c, _). (c, mode)) (fs1 tmp)));
                  (r, fs3) = rename_with_fallback env tmp resolved data mode fs2
              in (r, unlink env tmp fs3)))"

section \<open>The search for a directory ends\<close>

lemma parent_shrinks: "parent_remote_path p = REMOTE_ROOT_PATH \<or> length (parent_remote_path p) < length p"
proof -
  have l: "length (trim_slashes p) \<le> length p" by (simp add: trim_slashes_def length_trim_end)
  show ?thesis
  proof (cases "str_rfind (\<lambda>c. c = 47) (trim_slashes p)")
    case None
    then show ?thesis by (simp add: parent_remote_path_def Let_def)
  next
    case (Some i)
    then have "i < length (trim_slashes p)" using str_rfind_Some by blast
    then show ?thesis using Some l by (auto simp: parent_remote_path_def Let_def)
  qed
qed

lemma closest_loop_returns:
  "\<exists>r. closest_loop cls c = Some r
    \<and> (\<forall>d. r = Inr d \<longrightarrow> (\<exists>n. d = (parent_remote_path ^^ n) c \<and> (cls d = Inr RemoteDirectory \<or> d = REMOTE_ROOT_PATH)
        \<and> (\<forall>k < n. cls ((parent_remote_path ^^ k) c) = Inr RemoteFile \<or> cls ((parent_remote_path ^^ k) c) = Inr RemoteMissing)))"
proof (induction "if c = REMOTE_ROOT_PATH then 0 else Suc (length c)" arbitrary: c rule: less_induct)
  case less
  show ?case
  proof (cases "cls c")
    case (Inl e)
    then show ?thesis by (simp add: closest_loop.simps)
  next
    case (Inr kind)
    show ?thesis
    proof (cases "kind = RemoteDirectory \<or> c = REMOTE_ROOT_PATH")
      case True
      then show ?thesis using Inr
        by (auto simp: closest_loop.simps intro!: exI [of _ 0])
    next
      case False
      then have "(if parent_remote_path c = REMOTE_ROOT_PATH then 0 else Suc (length (parent_remote_path c)))
          < (if c = REMOTE_ROOT_PATH then 0 else Suc (length c))"
        using parent_shrinks [of c] by auto
      from less [OF this] obtain r where r: "closest_loop cls (parent_remote_path c) = Some r"
        "\<forall>d. r = Inr d \<longrightarrow> (\<exists>n. d = (parent_remote_path ^^ n) (parent_remote_path c) \<and> (cls d = Inr RemoteDirectory \<or> d = REMOTE_ROOT_PATH)
          \<and> (\<forall>k < n. cls ((parent_remote_path ^^ k) (parent_remote_path c)) = Inr RemoteFile
               \<or> cls ((parent_remote_path ^^ k) (parent_remote_path c)) = Inr RemoteMissing))"
        by blast
      have here: "cls c = Inr RemoteFile \<or> cls c = Inr RemoteMissing" using Inr False by (cases kind) auto
      have "closest_loop cls c = Some r" using False Inr r(1) by (simp add: closest_loop.simps [of cls c])
      moreover have "\<exists>n. d = (parent_remote_path ^^ n) c \<and> (cls d = Inr RemoteDirectory \<or> d = REMOTE_ROOT_PATH)
          \<and> (\<forall>k < n. cls ((parent_remote_path ^^ k) c) = Inr RemoteFile \<or> cls ((parent_remote_path ^^ k) c) = Inr RemoteMissing)"
        if rd: "r = Inr d" for d
      proof -
        obtain n where n: "d = (parent_remote_path ^^ n) (parent_remote_path c)"
          "cls d = Inr RemoteDirectory \<or> d = REMOTE_ROOT_PATH"
          "\<forall>k < n. cls ((parent_remote_path ^^ k) (parent_remote_path c)) = Inr RemoteFile
               \<or> cls ((parent_remote_path ^^ k) (parent_remote_path c)) = Inr RemoteMissing"
          using r(2) rd by blast
        have "cls ((parent_remote_path ^^ k) c) = Inr RemoteFile \<or> cls ((parent_remote_path ^^ k) c) = Inr RemoteMissing"
          if kn: "k < Suc n" for k
          using kn n(3) here by (cases k) (auto simp: funpow_swap1)
        then show ?thesis using n(1,2) by (intro exI [of _ "Suc n"]) (auto simp: funpow_swap1)
      qed
      ultimately show ?thesis by blast
    qed
  qed
qed

text \<open>C35: The search for the closest existing directory always ends, whatever the server answers: it fails with
  the server's error, or it ends at the path itself or one of its ancestors, with everything below it on the way
  not a directory, and that is a directory or the root.\<close>

theorem closest_directory_search_ends:
  "\<exists>r. closest_existing_remote_directory sv p = Some r
    \<and> (\<forall>d. r = Inr d \<longrightarrow>
        (\<exists>n. d = (parent_remote_path ^^ n) (normalize_remote_path p)
           \<and> (classify_remote_path sv d = Inr RemoteDirectory \<or> d = REMOTE_ROOT_PATH)
           \<and> (\<forall>k < n. classify_remote_path sv ((parent_remote_path ^^ k) (normalize_remote_path p)) \<noteq> Inr RemoteDirectory)))"
proof -
  obtain r where r: "closest_loop (classify_remote_path sv) (normalize_remote_path p) = Some r"
    "\<forall>d. r = Inr d \<longrightarrow> (\<exists>n. d = (parent_remote_path ^^ n) (normalize_remote_path p)
        \<and> (classify_remote_path sv d = Inr RemoteDirectory \<or> d = REMOTE_ROOT_PATH)
        \<and> (\<forall>k < n. classify_remote_path sv ((parent_remote_path ^^ k) (normalize_remote_path p)) = Inr RemoteFile
             \<or> classify_remote_path sv ((parent_remote_path ^^ k) (normalize_remote_path p)) = Inr RemoteMissing))"
    using closest_loop_returns [of "classify_remote_path sv" "normalize_remote_path p"] by blast
  have "\<exists>n. d = (parent_remote_path ^^ n) (normalize_remote_path p)
      \<and> (classify_remote_path sv d = Inr RemoteDirectory \<or> d = REMOTE_ROOT_PATH)
      \<and> (\<forall>k < n. classify_remote_path sv ((parent_remote_path ^^ k) (normalize_remote_path p)) \<noteq> Inr RemoteDirectory)"
    if rd: "r = Inr d" for d
  proof -
    obtain n where "d = (parent_remote_path ^^ n) (normalize_remote_path p)"
        "classify_remote_path sv d = Inr RemoteDirectory \<or> d = REMOTE_ROOT_PATH"
        "\<forall>k < n. classify_remote_path sv ((parent_remote_path ^^ k) (normalize_remote_path p)) = Inr RemoteFile
             \<or> classify_remote_path sv ((parent_remote_path ^^ k) (normalize_remote_path p)) = Inr RemoteMissing"
      using r(2) rd by blast
    then show ?thesis by (intro exI [of _ n]) fastforce
  qed
  then show ?thesis using r(1) by (auto simp: closest_existing_remote_directory_def)
qed

lemma closest_directory_search_ends_witness:
  "\<exists>r. closest_existing_remote_directory
      \<lparr>sv_stat = (\<lambda>q. if q = lit ''/a'' then Inr (Some 16877) else Inl (2, [])), sv_opendir = (\<lambda>_. False),
       sv_readdir = (\<lambda>_. Inl []), sv_read = (\<lambda>_. Inl AuthFailed)\<rparr> (lit ''/a/b/c'') = Some r
     \<and> r = Inr (lit ''/a'')"
proof -
  let ?sv = "\<lparr>sv_stat = (\<lambda>q. if q = lit ''/a'' then Inr (Some 16877) else Inl (2, [])), sv_opendir = (\<lambda>_. False),
       sv_readdir = (\<lambda>_. Inl []), sv_read = (\<lambda>_. Inl AuthFailed)\<rparr>"
  have n: "normalize_remote_path (lit ''/a/b/c'') = lit ''/a/b/c''" "normalize_remote_path (lit ''/a/b'') = lit ''/a/b''"
    "normalize_remote_path (lit ''/a'') = lit ''/a''" "parent_remote_path (lit ''/a/b/c'') = lit ''/a/b''"
    "parent_remote_path (lit ''/a/b'') = lit ''/a''" "lit ''/a/b/c'' \<noteq> lit ''/a''" "lit ''/a/b'' \<noteq> lit ''/a''"
    "lit ''/a/b/c'' \<noteq> REMOTE_ROOT_PATH" "lit ''/a/b'' \<noteq> REMOTE_ROOT_PATH"
    by (simp_all add: normalize_remote_path_def REMOTE_ROOT_PATH_def replace_char_def trim_def trim_start_def trim_end_def
        is_ws_def starts_with_def parent_remote_path_def trim_slashes_def str_rfind_def Let_def)
  have "closest_existing_remote_directory ?sv (lit ''/a/b/c'') = Some (Inr (lit ''/a''))"
    using n by (simp add: closest_existing_remote_directory_def classify_remote_path_def is_directory_mode_def Let_def
        closest_loop.simps [of _ "lit ''/a/b/c''"] closest_loop.simps [of _ "lit ''/a/b''"]
        closest_loop.simps [of _ "lit ''/a''"] del: lit_Cons)
  then show ?thesis using closest_directory_search_ends [of ?sv "lit ''/a/b/c''"] by simp
qed

section \<open>Writing to the server\<close>

lemma temp_not_dest [simp]: "temp_path env d \<noteq> d" "d \<noteq> temp_path env d"
proof -
  have "length (temp_path env d) \<noteq> length d" by (simp add: temp_path_def)
  then show "temp_path env d \<noteq> d" "d \<noteq> temp_path env d" by metis+
qed

lemma rename_attempts_result:
  "rename_attempts env ks tmp dest fs
    = (if \<forall>k \<in> set ks. sw_fails env (SwRename k) then None else Some (fs(dest := fs tmp, tmp := None)))"
  by (induction ks) auto

lemma rename_with_fallback_result:
  assumes "rename_with_fallback env tmp dest data mode fs = (r, fs')" "tmp \<noteq> dest" "map_option fst (fs tmp) = Some data"
  shows "r = Inr () \<Longrightarrow> map_option fst (fs' dest) = Some data"
    and "r \<noteq> Inr () \<Longrightarrow> fs' dest = fs dest \<or> ((\<forall>k < 3. sw_fails env (SwRename k)) \<and> r = Inl SwWriteDest)"
    and "q \<noteq> dest \<Longrightarrow> q \<noteq> tmp \<Longrightarrow> fs' q = fs q"
proof -
  have all: "(\<forall>k \<in> set [0, 1, 2]. sw_fails env (SwRename k)) = (\<forall>k < 3. sw_fails env (SwRename k))"
    by (auto simp: numeral_eq_Suc less_Suc_eq)
  have c: "r = Inr () \<and> fs' = fs(dest := fs tmp, tmp := None)
    \<or> (\<forall>k < 3. sw_fails env (SwRename k)) \<and> open_and_write env SwOpenDest SwWriteDest dest data mode fs = (r, fs')"
  proof (cases "\<forall>k < 3. sw_fails env (SwRename k)")
    case True
    then have "\<forall>k \<in> set [0, 1, 2]. sw_fails env (SwRename k)" using all by blast
    then have "rename_attempts env [0, 1, 2] tmp dest fs = None" unfolding rename_attempts_result by (rule if_P)
    then show ?thesis using assms(1) True by (simp add: rename_with_fallback_def direct_write_fallback_def)
  next
    case False
    then have "\<not> (\<forall>k \<in> set [0, 1, 2]. sw_fails env (SwRename k))" using all by blast
    then have "rename_attempts env [0, 1, 2] tmp dest fs = Some (fs(dest := fs tmp, tmp := None))"
      unfolding rename_attempts_result by (rule if_not_P)
    then show ?thesis using assms(1) by (simp add: rename_with_fallback_def del: rename_attempts.simps)
  qed
  show "r = Inr () \<Longrightarrow> map_option fst (fs' dest) = Some data"
    using c assms(2,3) by (auto simp: open_and_write_def Let_def split: if_splits)
  show "r \<noteq> Inr () \<Longrightarrow> fs' dest = fs dest \<or> ((\<forall>k < 3. sw_fails env (SwRename k)) \<and> r = Inl SwWriteDest)"
    using c by (auto simp: open_and_write_def Let_def split: if_splits)
  show "q \<noteq> dest \<Longrightarrow> q \<noteq> tmp \<Longrightarrow> fs' q = fs q"
    using c by (auto simp: open_and_write_def Let_def split: if_splits)
qed

text \<open>C19: Saving over SSH leaves the server's file with all of the new contents when it succeeds, and with the old
  ones when it fails, unless every way to rename was refused and the file was then written directly; no other
  file changes but the temporary one.\<close>

theorem remote_write_keeps_old_or_new:
  assumes "write_remote_file env p data fs = (result, fs')"
  shows "let dest = resolved_path env p; tmp = temp_path env dest in
    (result = Inr () \<longrightarrow> map_option fst (fs' dest) = Some data)
    \<and> (result \<noteq> Inr () \<longrightarrow> fs' dest = fs dest \<or> ((\<forall>k < 3. sw_fails env (SwRename k)) \<and> result = Inl SwWriteDest))
    \<and> (\<forall>q. q \<noteq> dest \<longrightarrow> q \<noteq> tmp \<longrightarrow> fs' q = fs q)
    \<and> (\<not> sw_unlink_fails env \<longrightarrow> \<not> sw_fails env SwOpenTemp \<longrightarrow> fs' tmp = None)"
proof -
  let ?dest = "resolved_path env p" and ?tmp = "temp_path env (resolved_path env p)" and ?mode = "dest_mode env (resolved_path env p) fs"
  obtain w fs1 where w: "open_and_write env SwOpenTemp SwWriteTemp ?tmp data ?mode fs = (w, fs1)" by fastforce
  have other: "fs1 q = fs q" if q: "q \<noteq> ?tmp" for q
    using w q by (auto simp: open_and_write_def Let_def split: if_splits)
  show ?thesis
  proof (cases w)
    case (Inl e)
    then have r: "result = Inl e" "fs' = unlink env ?tmp fs1" using assms w by (auto simp: write_remote_file_def Let_def)
    show ?thesis using r other by (auto simp: Let_def unlink_def)
  next
    case (Inr u)
    define fs2 where "fs2 = (if sw_setstat_fails env then fs1 else fs1(?tmp := map_option (\<lambda>(c, _). (c, ?mode)) (fs1 ?tmp)))"
    obtain r fs3 where rn: "rename_with_fallback env ?tmp ?dest data ?mode fs2 = (r, fs3)" by fastforce
    have res: "result = r" "fs' = unlink env ?tmp fs3"
      using assms w Inr rn by (auto simp: write_remote_file_def Let_def fs2_def)
    have "map_option fst (fs1 ?tmp) = Some data" using w Inr by (auto simp: open_and_write_def Let_def split: if_splits)
    then have t2: "map_option fst (fs2 ?tmp) = Some data" by (auto simp: fs2_def)
    have o2: "fs2 q = fs q" if q: "q \<noteq> ?tmp" for q using other q by (simp add: fs2_def)
    note facts = rename_with_fallback_result [OF rn temp_not_dest(1) t2]
    show ?thesis using facts o2 by (simp add: res Let_def unlink_def)
  qed
qed

definition sample_sw :: "sw_call set \<Rightarrow> sftp_write_env" where
  "sample_sw bad = \<lparr>sw_realpath = (\<lambda>_. None), sw_stat_fails = False, sw_pid = 1, sw_nanos = 2, sw_fails = (\<lambda>c. c \<in> bad), sw_partial = 1,
     sw_setstat_fails = False, sw_unlink_fails = False\<rparr>"

definition sample_remote_fs :: remote_fs where
  "sample_remote_fs = [lit ''f'' \<mapsto> ([1, 2], 420)]"

lemma remote_write_keeps_old_or_new_witness:
  "\<exists>fs1 fs2. write_remote_file (sample_sw {}) (lit ''f'') [3, 4] sample_remote_fs = (Inr (), fs1)
     \<and> map_option fst (fs1 (lit ''f'')) = Some [3, 4]
     \<and> write_remote_file (sample_sw {SwWriteTemp}) (lit ''f'') [3, 4] sample_remote_fs = (Inl SwWriteTemp, fs2)
     \<and> fs2 (lit ''f'') = Some ([1, 2], 420)"
proof -
  have d: "resolved_path (sample_sw b) (lit ''f'') = lit ''f''" for b by (simp add: resolved_path_def sample_sw_def)
  obtain fs1 where 1: "write_remote_file (sample_sw {}) (lit ''f'') [3, 4] sample_remote_fs = (Inr (), fs1)"
    by (simp add: write_remote_file_def d open_and_write_def rename_with_fallback_def
        sample_sw_def Let_def del: lit_Cons)
  obtain fs2 where 2: "write_remote_file (sample_sw {SwWriteTemp}) (lit ''f'') [3, 4] sample_remote_fs = (Inl SwWriteTemp, fs2)"
    by (simp add: write_remote_file_def d open_and_write_def sample_sw_def Let_def del: lit_Cons)
  have f: "sw_fails (sample_sw b) (SwRename 0) \<longleftrightarrow> SwRename 0 \<in> b" for b by (simp add: sample_sw_def)
  have "map_option fst (fs1 (lit ''f'')) = Some [3, 4]"
    using remote_write_keeps_old_or_new [OF 1] by (auto simp: Let_def d simp del: lit_Cons)
  moreover have "fs2 (lit ''f'') = Some ([1, 2], 420)"
    using remote_write_keeps_old_or_new [OF 2] by (auto simp: Let_def d f sample_remote_fs_def simp del: lit_Cons)
  ultimately show ?thesis using 1 2 by blast
qed

text \<open>When the direct write fails after it emptied the file, the temporary file, the only complete copy on the
  server, is removed as well.\<close>

lemma failed_direct_write_loses_both:
  "\<exists>fs'. write_remote_file (sample_sw {SwRename 0, SwRename 1, SwRename 2, SwWriteDest}) (lit ''f'') [3, 4] sample_remote_fs
      = (Inl SwWriteDest, fs')
     \<and> fs' (lit ''f'') = Some ([3], 420)
     \<and> fs' (temp_path (sample_sw {SwRename 0, SwRename 1, SwRename 2, SwWriteDest}) (lit ''f'')) = None"
  by (simp add: write_remote_file_def resolved_path_def open_and_write_def rename_with_fallback_def
      direct_write_fallback_def unlink_def sample_sw_def sample_remote_fs_def temp_path_def Let_def)

end
