(* ===== verification/Ssh_Task.thy ===== *)
theory Ssh_Task
  imports Ssh_Pool Sftp
begin

text \<open>
  \<^verbatim>\<open>src/fulgur/files/file_operations/remote_ssh_task.rs\<close> and \<open>wait_for_host_key_decision\<close> of \<^verbatim>\<open>remote_types.rs\<close>: one
  SSH operation is a worker thread and a monitor on the user interface that share flags and slots. Every access to
  something shared is a step of its own, so the relation has all interleavings of the two, of the user (who answers
  the question for the host key, closes it, or cancels), of other operations on the pool and of time. Times are
  milliseconds.
\<close>

section \<open>Errors for the user\<close>

fun ssh_user_message :: "ssh_error \<Rightarrow> rstr" where
  "ssh_user_message (ParseError msg) = lit ''Invalid remote URL: '' @ msg"
| "ssh_user_message (ConnectionFailed msg) = lit ''Connection failed: '' @ msg"
| "ssh_user_message (HostKeyMismatch host port) =
     lit ''Host key mismatch for '' @ host @ [COLON] @ show_port port
       @ lit '' - possible MITM. Verify or update ~/.ssh/known_hosts.''"
| "ssh_user_message (UnknownHost host port fp) =
     lit ''Unknown host '' @ host @ [COLON] @ show_port port @ lit '' (fingerprint: '' @ fp @ lit '')''"
| "ssh_user_message AuthFailed = lit ''Authentication failed - check username and password.''"
| "ssh_user_message (SftpError msg) = lit ''SFTP error: '' @ msg"
| "ssh_user_message (IoError msg) = lit ''I/O error: '' @ msg"

section \<open>The state of one operation\<close>

text \<open>The closures given to \<open>spawn_ssh_task\<close>: what publishing stores once the flag is taken, what the monitor finds
  when it looks, and what the operation is for.\<close>

record ('w, 's, 'p) ssh_task_kind =
  kd_store :: "rstr + 'w \<Rightarrow> 's \<Rightarrow> 's"
  kd_poll :: "bool \<Rightarrow> 's \<Rightarrow> 'p option \<times> 's"
  kd_label :: rstr
  kd_spec :: remote_spec
  kd_password :: rstr
  kd_key :: ssh_cred_key

text \<open>The worker: about to connect, waiting for the answer since a time, with the answer, having an outcome to hand
  over, having taken the flag, done. The monitor: between two polls, or before its next access.\<close>

datatype 'w worker_phase =
    Connecting
  | AwaitingKey nat
  | KeyDecided host_key_decision
  | Ending "rstr + 'w"
  | Publishing "rstr + 'w"
  | Storing "rstr + 'w"
  | WorkerDone

datatype monitor_phase = MWait | MCancel | MKey | MReject | MPublish | MStore | MFinal | MStopped

record app_shared =
  ap_pool :: session_pool
  ap_cache :: "ssh_cred_key \<rightharpoonup> rstr"
  ap_file :: "u8 list option"

text \<open>\<open>tk_answer\<close>, \<open>tk_result\<close> and \<open>tk_stored\<close> record what the wait returned, what the work returned and what was stored.\<close>

record ('w, 's, 'p) ssh_task =
  tk_worker :: "'w worker_phase"
  tk_monitor :: monitor_phase
  tk_request :: bool
  tk_dialog :: bool
  tk_channel :: "host_key_decision option"
  tk_timed_out :: bool
  tk_cancelled :: bool
  tk_finished :: bool
  tk_shared :: 's
  tk_delivered :: "'p list"
  tk_now :: nat
  tk_deadline :: nat
  tk_app :: app_shared
  tk_answer :: "host_key_decision option"
  tk_result :: "(ssh_error + 'w) option"
  tk_stored :: "(rstr + 'w) list"

definition approval_ms :: nat where "approval_ms = SSH_HOST_KEY_APPROVAL_TIMEOUT_SECS * 1000"

definition new_ssh_task :: "'s \<Rightarrow> app_shared \<Rightarrow> nat \<Rightarrow> ('w, 's, 'p) ssh_task" where
  "new_ssh_task s app now =
     \<lparr>tk_worker = Connecting, tk_monitor = MWait, tk_request = False, tk_dialog = False, tk_channel = None,
      tk_timed_out = False, tk_cancelled = False, tk_finished = False, tk_shared = s, tk_delivered = [], tk_now = now,
      tk_deadline = now + approval_ms, tk_app = app, tk_answer = None, tk_result = None, tk_stored = []\<rparr>"

definition timeout_message :: "('w, 's, 'p) ssh_task_kind \<Rightarrow> rstr" where
  "timeout_message kd = kd_label kd @ lit '' ('' @ show_nat SSH_HOST_KEY_APPROVAL_TIMEOUT_SECS @ lit '' s)''"

section \<open>The worker\<close>

text \<open>\<open>wait_for_host_key_decision\<close>: what the wait returns at a moment, \<open>None\<close> while it goes on, and whether it marks
  the operation as timed out. The channel is closed when neither the slot nor the dialog holds its sender.\<close>

definition wait_for_host_key_decision ::
  "host_key_decision option \<Rightarrow> bool \<Rightarrow> nat \<Rightarrow> nat \<Rightarrow> (host_key_decision \<times> bool) option" where
  "wait_for_host_key_decision channel sender_alive since now =
     (case channel of
        Some d \<Rightarrow> Some (d, False)
      | None \<Rightarrow>
          if \<not> sender_alive then Some (Reject, False)
          else if since + approval_ms \<le> now then Some (Reject, True)
          else None)"

text \<open>After the session was checked out: a refused password leaves the cache, the work runs, and its session goes
  back to the pool only when the work succeeded.\<close>

definition forget_refused_password :: "ssh_cred_key \<Rightarrow> ssh_error + 'g \<Rightarrow> app_shared \<Rightarrow> app_shared" where
  "forget_refused_password key r app =
     (case r of
        Inl e \<Rightarrow> if e = AuthFailed then app\<lparr>ap_cache := (ap_cache app)(key := None)\<rparr> else app
      | Inr _ \<Rightarrow> app)"

definition run_work ::
  "nat \<Rightarrow> nat \<Rightarrow> (nat \<Rightarrow> ssh_error + 'w) \<Rightarrow> ssh_error + ssh_session_key \<times> nat \<Rightarrow> app_shared \<Rightarrow> (ssh_error + 'w) \<times> app_shared" where
  "run_work now ttl work r app =
     (case r of
        Inl e \<Rightarrow> (Inl e, app)
      | Inr (k, s) \<Rightarrow>
          (case work s of
             Inl e \<Rightarrow> (Inl e, app)
           | Inr x \<Rightarrow> (Inr x, app\<lparr>ap_pool := pool_put now ttl k s (ap_pool app)\<rparr>)))"

definition worker_outcome :: "bool \<Rightarrow> rstr \<Rightarrow> ssh_error + 'w \<Rightarrow> rstr + 'w" where
  "worker_outcome timed_out timeout r =
     (if timed_out then Inl timeout else (case r of Inl e \<Rightarrow> Inl (ssh_user_message e) | Inr x \<Rightarrow> Inr x))"

definition asked :: "connect_event list \<Rightarrow> bool" where
  "asked evs \<longleftrightarrow> (\<exists>ev \<in> set evs. case ev of AskedHostKey fp h p \<Rightarrow> True | _ \<Rightarrow> False)"

definition worker_finish ::
  "('w, 's, 'p) ssh_task_kind \<Rightarrow> nat \<Rightarrow> (nat \<Rightarrow> ssh_error + 'w) \<Rightarrow> ssh_error + ssh_session_key \<times> nat
     \<Rightarrow> session_pool \<Rightarrow> u8 list option \<Rightarrow> ('w, 's, 'p) ssh_task \<Rightarrow> ('w, 's, 'p) ssh_task" where
  "worker_finish kd ttl work r pool file st =
     (let app = forget_refused_password (kd_key kd) r ((tk_app st)\<lparr>ap_pool := pool, ap_file := file\<rparr>);
          (result, app') = run_work (tk_now st) ttl work r app
      in st\<lparr>tk_app := app', tk_result := Some result,
            tk_worker := Ending (worker_outcome (tk_timed_out st) (timeout_message kd) result)\<rparr>)"

text \<open>Handing over: a cancelled operation only sets the flag; otherwise the flag is taken and, by the first taker
  only, the outcome stored.\<close>

fun worker_hand_over :: "('w, 's, 'p) ssh_task_kind \<Rightarrow> ('w, 's, 'p) ssh_task \<Rightarrow> 'w worker_phase \<Rightarrow> ('w, 's, 'p) ssh_task" where
  "worker_hand_over kd st (Ending r) =
     (if tk_cancelled st then st\<lparr>tk_finished := True, tk_worker := WorkerDone\<rparr> else st\<lparr>tk_worker := Publishing r\<rparr>)"
| "worker_hand_over kd st (Publishing r) =
     st\<lparr>tk_finished := True, tk_worker := if tk_finished st then WorkerDone else Storing r\<rparr>"
| "worker_hand_over kd st (Storing r) =
     st\<lparr>tk_shared := kd_store kd r (tk_shared st), tk_stored := tk_stored st @ [r], tk_worker := WorkerDone\<rparr>"
| "worker_hand_over kd st Connecting = st"
| "worker_hand_over kd st (AwaitingKey t) = st"
| "worker_hand_over kd st (KeyDecided d) = st"
| "worker_hand_over kd st WorkerDone = st"

section \<open>The monitor\<close>

definition deliver :: "('w, 's, 'p) ssh_task_kind \<Rightarrow> monitor_phase \<Rightarrow> ('w, 's, 'p) ssh_task \<Rightarrow> ('w, 's, 'p) ssh_task" where
  "deliver kd next st =
     (case kd_poll kd (tk_finished st) (tk_shared st) of
        (Some p, s) \<Rightarrow> st\<lparr>tk_shared := s, tk_delivered := tk_delivered st @ [p], tk_monitor := MStopped\<rparr>
      | (None, s) \<Rightarrow> st\<lparr>tk_shared := s, tk_monitor := next\<rparr>)"

fun monitor_step :: "('w, 's, 'p) ssh_task_kind \<Rightarrow> ('w, 's, 'p) ssh_task \<Rightarrow> monitor_phase \<Rightarrow> ('w, 's, 'p) ssh_task" where
  "monitor_step kd st MWait = deliver kd MCancel st"
| "monitor_step kd st MCancel = st\<lparr>tk_monitor := if tk_cancelled st then MStopped else MKey\<rparr>"
| "monitor_step kd st MKey =
     (st\<lparr>tk_monitor := if tk_now st \<le> tk_deadline st then MWait else MReject\<rparr>)
       \<lparr>tk_request := False, tk_dialog := tk_dialog st \<or> tk_request st\<rparr>"
| "monitor_step kd st MReject =
     (if tk_request st then st\<lparr>tk_request := False, tk_channel := Some Reject, tk_monitor := MPublish\<rparr>
      else st\<lparr>tk_monitor := MPublish\<rparr>)"
| "monitor_step kd st MPublish =
     st\<lparr>tk_finished := True, tk_monitor := if tk_finished st then MFinal else MStore\<rparr>"
| "monitor_step kd st MStore =
     st\<lparr>tk_shared := kd_store kd (Inl (timeout_message kd)) (tk_shared st),
        tk_stored := tk_stored st @ [Inl (timeout_message kd)], tk_monitor := MFinal\<rparr>"
| "monitor_step kd st MFinal = deliver kd MStopped st"
| "monitor_step kd st MStopped = st"

section \<open>All interleavings\<close>

inductive task_step ::
  "('w, 's, 'p) ssh_task_kind \<Rightarrow> (rstr \<Rightarrow> u8 list) \<Rightarrow> nat \<Rightarrow> ('w, 's, 'p) ssh_task \<Rightarrow> ('w, 's, 'p) ssh_task \<Rightarrow> bool"
  for kd sha ttl where
    asks: "tk_worker st = Connecting
      \<Longrightarrow> task_step kd sha ttl st (st\<lparr>tk_worker := AwaitingKey (tk_now st), tk_request := True\<rparr>)"
  | hears: "\<lbrakk>tk_worker st = AwaitingKey t;
        wait_for_host_key_decision (tk_channel st) (tk_request st \<or> tk_dialog st) t (tk_now st) = Some (d, late)\<rbrakk>
      \<Longrightarrow> task_step kd sha ttl st
           (st\<lparr>tk_worker := KeyDecided d, tk_answer := Some d, tk_timed_out := tk_timed_out st \<or> late\<rparr>)"
  | connects: "\<lbrakk>tk_worker st = Connecting;
        checkout_or_connect sha env alive (tk_now st) ttl (ap_file (tk_app st)) (kd_spec kd)
          (case rs_user (kd_spec kd) of Some u \<Rightarrow> u | None \<Rightarrow> []) (kd_password kd) decide (ap_pool (tk_app st))
          = (r, pool, file, evs); \<not> asked evs\<rbrakk>
      \<Longrightarrow> task_step kd sha ttl st (worker_finish kd ttl work r pool file st)"
  | connects_asked: "\<lbrakk>tk_worker st = KeyDecided d;
        checkout_or_connect sha env alive (tk_now st) ttl (ap_file (tk_app st)) (kd_spec kd)
          (case rs_user (kd_spec kd) of Some u \<Rightarrow> u | None \<Rightarrow> []) (kd_password kd) (\<lambda>_ _ _. d) (ap_pool (tk_app st))
          = (r, pool, file, evs); asked evs\<rbrakk>
      \<Longrightarrow> task_step kd sha ttl st (worker_finish kd ttl work r pool file st)"
  | hands_over: "task_step kd sha ttl st (worker_hand_over kd st (tk_worker st))"
  | monitors: "task_step kd sha ttl st (monitor_step kd st (tk_monitor st))"
  | answers: "tk_dialog st \<Longrightarrow> task_step kd sha ttl st (st\<lparr>tk_dialog := False, tk_channel := Some d\<rparr>)"
  | closes: "tk_dialog st \<Longrightarrow> task_step kd sha ttl st (st\<lparr>tk_dialog := False\<rparr>)"
  | cancels: "task_step kd sha ttl st (st\<lparr>tk_cancelled := True\<rparr>)"
  | others: "task_step kd sha ttl st (st\<lparr>tk_app := app\<rparr>)"
  | passes: "task_step kd sha ttl st (st\<lparr>tk_now := tk_now st + d\<rparr>)"

inductive task_reaches ::
  "('w, 's, 'p) ssh_task_kind \<Rightarrow> (rstr \<Rightarrow> u8 list) \<Rightarrow> nat \<Rightarrow> ('w, 's, 'p) ssh_task \<Rightarrow> ('w, 's, 'p) ssh_task \<Rightarrow> bool"
  for kd sha ttl where
    here: "task_reaches kd sha ttl st st"
  | onward: "\<lbrakk>task_reaches kd sha ttl st0 st; task_step kd sha ttl st st'\<rbrakk> \<Longrightarrow> task_reaches kd sha ttl st0 st'"

section \<open>The interface of the closures\<close>

text \<open>What a pair of closures owes the monitor: storing keeps to the outcome given, and a payload found either says
  that the operation has finished, for closures that look at the flag, or stands for a stored outcome.\<close>

locale completion =
  fixes store :: "rstr + 'w \<Rightarrow> 's \<Rightarrow> 's" and poll :: "bool \<Rightarrow> 's \<Rightarrow> 'p option \<times> 's"
    and held :: "'s \<Rightarrow> (rstr + 'w) set" and uses_flag :: bool and payloads :: "(rstr + 'w) set \<Rightarrow> 'p set"
  assumes held_store: "held (store r s) \<subseteq> insert r (held s)"
    and held_poll: "poll f s = (q, s') \<Longrightarrow> held s' \<subseteq> held s"
    and poll_gives: "poll f s = (Some p, s') \<Longrightarrow> uses_flag \<and> f \<or> p \<in> payloads (held s)"
    and payloads_mono: "A \<subseteq> B \<Longrightarrow> payloads A \<subseteq> payloads B"
begin

lemma stored_bounds: "held s \<subseteq> set rs \<Longrightarrow> held (store r s) \<subseteq> set (rs @ [r])"
  using held_store by fastforce

lemma polled_payload: "held s \<subseteq> A \<Longrightarrow> poll f s = (Some p, s') \<Longrightarrow> uses_flag \<and> f \<or> p \<in> payloads A"
  using poll_gives payloads_mono by blast

end

definition store_save :: "rstr + unit \<Rightarrow> (rstr + unit) option \<Rightarrow> (rstr + unit) option" where
  "store_save r s = Some r"

definition poll_save :: "bool \<Rightarrow> (rstr + unit) option \<Rightarrow> (rstr + unit) option \<times> (rstr + unit) option" where
  "poll_save f s = (s, None)"

definition store_open ::
  "nat option \<Rightarrow> u64 option \<Rightarrow> rstr + remote_open_result \<Rightarrow> pending_outcome list \<Rightarrow> pending_outcome list" where
  "store_open target request r s = s @ [\<lparr>po_target = target, po_request = request, po_result = r\<rparr>]"

definition poll_open :: "bool \<Rightarrow> pending_outcome list \<Rightarrow> unit option \<times> pending_outcome list" where
  "poll_open f s = (if f then Some () else None, s)"

interpretation saved: completion store_save poll_save set_option False id
  by unfold_locales (auto simp: store_save_def poll_save_def)

interpretation opened: completion "store_open target request" poll_open
    "\<lambda>s. po_result ` set s" True "\<lambda>_. {}" for target request
  by unfold_locales (auto simp: store_open_def poll_open_def split: if_splits)

section \<open>Invariants\<close>

definition storing :: "('w, 's, 'p) ssh_task \<Rightarrow> nat" where
  "storing st = (case tk_worker st of Storing r \<Rightarrow> 1 | _ \<Rightarrow> 0) + (if tk_monitor st = MStore then 1 else 0)
     + length (tk_stored st)"

fun carried :: "'w worker_phase \<Rightarrow> (rstr + 'w) option" where
  "carried (Ending r) = Some r"
| "carried (Publishing r) = Some r"
| "carried (Storing r) = Some r"
| "carried Connecting = None"
| "carried (AwaitingKey t) = None"
| "carried (KeyDecided d) = None"
| "carried WorkerDone = None"

fun before_work :: "'w worker_phase \<Rightarrow> bool" where
  "before_work Connecting = True"
| "before_work (AwaitingKey t) = True"
| "before_work (KeyDecided d) = True"
| "before_work _ = False"

definition one_outcome :: "('w, 's, 'p) ssh_task \<Rightarrow> bool" where
  "one_outcome st \<longleftrightarrow> storing st \<le> 1 \<and> (0 < storing st \<longrightarrow> tk_finished st)
     \<and> length (tk_delivered st) \<le> (if tk_monitor st = MStopped then 1 else 0)"

definition answered_ok :: "('w, 's, 'p) ssh_task \<Rightarrow> bool" where
  "answered_ok st \<longleftrightarrow>
     (tk_worker st = Connecting \<longrightarrow> tk_answer st = None)
     \<and> (before_work (tk_worker st) \<longrightarrow> tk_result st = None \<and> list_all isl (tk_stored st)
          \<and> (tk_timed_out st \<longrightarrow> tk_worker st = KeyDecided Reject))
     \<and> (\<forall>d. tk_worker st = KeyDecided d \<longrightarrow> tk_answer st = Some d)
     \<and> (\<forall>x. carried (tk_worker st) = Some (Inr x) \<or> Inr x \<in> set (tk_stored st)
          \<longrightarrow> tk_result st = Some (Inr x) \<and> tk_answer st \<noteq> Some Reject \<and> \<not> tk_timed_out st)"

lemma worker_finish_simps [simp]:
  "tk_monitor (worker_finish kd ttl work r pool fl st) = tk_monitor st"
  "tk_finished (worker_finish kd ttl work r pool fl st) = tk_finished st"
  "tk_stored (worker_finish kd ttl work r pool fl st) = tk_stored st"
  "tk_shared (worker_finish kd ttl work r pool fl st) = tk_shared st"
  "tk_delivered (worker_finish kd ttl work r pool fl st) = tk_delivered st"
  "tk_answer (worker_finish kd ttl work r pool fl st) = tk_answer st"
  "tk_timed_out (worker_finish kd ttl work r pool fl st) = tk_timed_out st"
  by (simp_all add: worker_finish_def Let_def split: prod.splits)

lemma worker_finish_ending:
  "\<exists>r'. tk_worker (worker_finish kd ttl work r pool fl st) = Ending r'
    \<and> (\<forall>x. r' = Inr x \<longrightarrow> tk_result (worker_finish kd ttl work r pool fl st) = Some (Inr x) \<and> \<not> tk_timed_out st
         \<and> (\<exists>g. r = Inr g \<and> work (snd g) = Inr x))"
  by (auto simp: worker_finish_def Let_def worker_outcome_def run_work_def split: prod.splits sum.splits)

lemma deliver_cases:
  obtains s where "deliver kd next st = st\<lparr>tk_shared := s, tk_monitor := next\<rparr>"
      "kd_poll kd (tk_finished st) (tk_shared st) = (None, s)"
  | p s where "deliver kd next st = st\<lparr>tk_shared := s, tk_delivered := tk_delivered st @ [p], tk_monitor := MStopped\<rparr>"
      "kd_poll kd (tk_finished st) (tk_shared st) = (Some p, s)"
  by (cases "kd_poll kd (tk_finished st) (tk_shared st)"; cases "fst (kd_poll kd (tk_finished st) (tk_shared st))")
    (auto simp: deliver_def)

lemma one_outcome_worker:
  assumes "one_outcome st"
  shows "one_outcome (worker_hand_over kd st (tk_worker st))"
  using assms by (cases "tk_worker st") (auto simp: one_outcome_def storing_def)

lemma one_outcome_monitor:
  assumes "one_outcome st"
  shows "one_outcome (monitor_step kd st (tk_monitor st))"
proof (cases "tk_monitor st = MWait \<or> tk_monitor st = MFinal")
  case True
  then show ?thesis
    using assms by (elim disjE; cases rule: deliver_cases [of kd "if tk_monitor st = MWait then MCancel else MStopped" st])
      (auto simp: one_outcome_def storing_def)
next
  case False
  then show ?thesis using assms by (cases "tk_monitor st") (auto simp: one_outcome_def storing_def)
qed

lemma one_outcome_step: "task_step kd sha ttl st st' \<Longrightarrow> one_outcome st \<Longrightarrow> one_outcome st'"
proof (induction rule: task_step.induct)
  case (connects st env alive decide r pool fl evs work)
  then show ?case using worker_finish_ending [of kd ttl work r pool fl st] by (auto simp: one_outcome_def storing_def)
next
  case (connects_asked st d env alive r pool fl evs work)
  then show ?case using worker_finish_ending [of kd ttl work r pool fl st] by (auto simp: one_outcome_def storing_def)
next
  case (hands_over st)
  then show ?case by (rule one_outcome_worker)
next
  case (monitors st)
  then show ?case by (rule one_outcome_monitor)
qed (auto simp: one_outcome_def storing_def)

lemma rejected_connect:
  assumes "connect env fl spec u pw (\<lambda>_ _ _. Reject) = (Inr s, fl', evs)"
  shows "\<not> asked evs"
proof -
  let ?c = "check_host_key (cn_host_key env) fl (rs_host spec) (rs_port spec) (\<lambda>_ _ _. Reject)"
  have ok: "fst ?c = Inr ()" using connect_ok [OF assms] by simp
  have none: "snd (snd ?c) = []" using ok by (auto simp: check_host_key_def Let_def split: option.splits check_result.splits)
  show ?thesis
    using assms none
    by (auto simp: connect_def Let_def asked_def split: sum.splits option.splits prod.splits if_splits)
qed

lemma rejected_checkout:
  assumes "checkout_or_connect sha env alive now ttl fl spec u pw (\<lambda>_ _ _. Reject) p = (r, p', fl', evs)" "asked evs"
  shows "isl r"
  using assms rejected_connect
  by (auto simp: checkout_or_connect_def Let_def asked_def split: prod.splits option.splits if_splits sum.splits)

lemma answered_ok_worker:
  assumes "answered_ok st"
  shows "answered_ok (worker_hand_over kd st (tk_worker st))"
  using assms by (cases "tk_worker st") (auto simp: answered_ok_def)

lemma answered_ok_monitor:
  assumes "answered_ok st"
  shows "answered_ok (monitor_step kd st (tk_monitor st))"
proof (cases "tk_monitor st = MWait \<or> tk_monitor st = MFinal")
  case True
  then show ?thesis
    using assms by (elim disjE; cases rule: deliver_cases [of kd "if tk_monitor st = MWait then MCancel else MStopped" st])
      (auto simp: answered_ok_def)
next
  case False
  then show ?thesis using assms by (cases "tk_monitor st") (auto simp: answered_ok_def)
qed

lemma answered_ok_finish:
  assumes "answered_ok st" "before_work (tk_worker st)" "tk_answer st = Some Reject \<longrightarrow> isl r"
  shows "answered_ok (worker_finish kd ttl work r pool fl st)"
proof -
  let ?st = "worker_finish kd ttl work r pool fl st"
  obtain r' where r': "tk_worker ?st = Ending r'"
    "\<forall>x. r' = Inr x \<longrightarrow> tk_result ?st = Some (Inr x) \<and> \<not> tk_timed_out st \<and> (\<exists>g. r = Inr g \<and> work (snd g) = Inr x)"
    using worker_finish_ending [of kd ttl work r pool fl st] by blast
  have "list_all isl (tk_stored st)" using assms(1,2) by (simp add: answered_ok_def)
  then have "Inr x \<notin> set (tk_stored st)" for x by (auto simp: list_all_iff)
  then show ?thesis using r' assms(3) by (auto simp: answered_ok_def)
qed

lemma answered_ok_step: "task_step kd sha ttl st st' \<Longrightarrow> answered_ok st \<Longrightarrow> answered_ok st'"
proof (induction rule: task_step.induct)
  case (hears st t d late)
  then show ?case
    by (auto simp: answered_ok_def list_all_iff wait_for_host_key_decision_def split: option.splits if_splits)
next
  case (connects st env alive decide r pool fl evs work)
  then show ?case by (intro answered_ok_finish) (auto simp: answered_ok_def)
next
  case (connects_asked st d env alive r pool fl evs work)
  then show ?case using rejected_checkout by (intro answered_ok_finish) (auto simp: answered_ok_def)
next
  case (hands_over st)
  then show ?case by (intro answered_ok_worker)
next
  case (monitors st)
  then show ?case by (intro answered_ok_monitor)
qed (auto simp: answered_ok_def)

context completion
begin

text \<open>Of the closures of a task: what the shared state holds was stored, and a payload is accounted for.\<close>

definition accounted :: "('w, 's, 'p) ssh_task \<Rightarrow> bool" where
  "accounted st \<longleftrightarrow> held (tk_shared st) \<subseteq> set (tk_stored st)
     \<and> (\<forall>p \<in> set (tk_delivered st). uses_flag \<and> tk_finished st \<or> p \<in> payloads (set (tk_stored st)))"

lemma accounted_deliver:
  assumes "accounted st" "kd_poll kd = poll"
  shows "accounted (deliver kd next st)"
proof (cases rule: deliver_cases [of kd "next" st])
  case (1 s)
  then show ?thesis using assms held_poll [of "tk_finished st" "tk_shared st" None s] by (auto simp: accounted_def)
next
  case (2 p s)
  then show ?thesis
    using assms held_poll [of "tk_finished st" "tk_shared st" "Some p" s]
      polled_payload [of "tk_shared st" "set (tk_stored st)" "tk_finished st" p s]
    by (auto simp: accounted_def)
qed

lemma accounted_store:
  assumes "accounted st"
  shows "held (store r (tk_shared st)) \<subseteq> set (tk_stored st @ [r])
    \<and> (\<forall>p \<in> set (tk_delivered st). uses_flag \<and> tk_finished st \<or> p \<in> payloads (set (tk_stored st @ [r])))"
proof -
  have "payloads (set (tk_stored st)) \<subseteq> payloads (set (tk_stored st @ [r]))" by (rule payloads_mono) auto
  then show ?thesis using assms stored_bounds [of "tk_shared st" "tk_stored st" r] by (auto simp: accounted_def)
qed

lemma accounted_worker:
  assumes "accounted st" "kd_store kd = store"
  shows "accounted (worker_hand_over kd st (tk_worker st))"
  using assms accounted_store [OF assms(1)] by (cases "tk_worker st") (auto simp: accounted_def)

lemma accounted_monitor:
  assumes "accounted st" "kd_store kd = store" "kd_poll kd = poll"
  shows "accounted (monitor_step kd st (tk_monitor st))"
  using assms accounted_store [OF assms(1)] accounted_deliver [OF assms(1,3)]
  by (cases "tk_monitor st") (auto simp: accounted_def)

lemma accounted_step:
  assumes "kd_store kd = store" "kd_poll kd = poll"
  shows "task_step kd sha ttl st st' \<Longrightarrow> accounted st \<Longrightarrow> accounted st'"
proof (induction rule: task_step.induct)
  case (connects st env alive decide r pool fl evs work)
  then show ?case by (simp add: accounted_def)
next
  case (connects_asked st d env alive r pool fl evs work)
  then show ?case by (simp add: accounted_def)
next
  case (hands_over st)
  then show ?case using assms by (intro accounted_worker)
next
  case (monitors st)
  then show ?case using assms by (intro accounted_monitor)
qed (auto simp: accounted_def)

lemma accounted_reaches:
  assumes "task_reaches kd sha ttl (new_ssh_task s0 app now) st" "kd_store kd = store" "kd_poll kd = poll" "held s0 = {}"
  shows "accounted st"
  using assms
proof (induction "new_ssh_task s0 app now :: ('w, 's, 'p) ssh_task" st rule: task_reaches.induct)
  case here
  then show ?case by (simp add: accounted_def new_ssh_task_def)
qed (auto intro: accounted_step)

end

lemma task_invariants:
  assumes "task_reaches kd sha ttl (new_ssh_task s0 app now) st"
  shows "one_outcome st \<and> answered_ok st"
  using assms
proof (induction "new_ssh_task s0 app now :: ('a, 'b, 'c) ssh_task" st rule: task_reaches.induct)
  case here
  then show ?case by (simp add: one_outcome_def storing_def answered_ok_def new_ssh_task_def)
qed (auto intro: one_outcome_step answered_ok_step)

section \<open>Saves\<close>

definition save_kind :: "rstr \<Rightarrow> remote_spec \<Rightarrow> rstr \<Rightarrow> ssh_cred_key \<Rightarrow> (unit, (rstr + unit) option, rstr + unit) ssh_task_kind" where
  "save_kind label spec pw key =
     \<lparr>kd_store = store_save, kd_poll = poll_save, kd_label = label, kd_spec = spec, kd_password = pw, kd_key = key\<rparr>"

lemma save_kind_simps [simp]:
  "kd_store (save_kind label spec pw key) = store_save"
  "kd_poll (save_kind label spec pw key) = poll_save"
  by (simp_all add: save_kind_def)

text \<open>Until something is delivered the slot of a save holds what was stored, and the flag is only taken to store or
  because of a cancellation.\<close>

definition slot_ok :: "(unit, (rstr + unit) option, rstr + unit) ssh_task \<Rightarrow> bool" where
  "slot_ok st \<longleftrightarrow>
     (tk_delivered st = [] \<longrightarrow> tk_stored st \<noteq> [] \<longrightarrow> tk_shared st \<noteq> None)
     \<and> (tk_finished st \<longrightarrow> tk_cancelled st \<or> 0 < storing st)
     \<and> (tk_monitor st \<in> {MStore, MFinal} \<longrightarrow> tk_finished st)"

lemma slot_ok_worker: "slot_ok st \<Longrightarrow> slot_ok (worker_hand_over (save_kind l s p k) st (tk_worker st))"
  by (cases "tk_worker st") (auto simp: slot_ok_def storing_def store_save_def)

lemma slot_ok_monitor: "slot_ok st \<Longrightarrow> slot_ok (monitor_step (save_kind l s p k) st (tk_monitor st))"
  by (cases "tk_monitor st")
    (auto simp: slot_ok_def storing_def store_save_def deliver_def poll_save_def split: option.splits worker_phase.splits)

lemma slot_ok_step: "task_step (save_kind l s p k) sha ttl st st' \<Longrightarrow> slot_ok st \<Longrightarrow> slot_ok st'"
proof (induction rule: task_step.induct)
  case (connects st env alive decide r pool fl evs work)
  then show ?case using worker_finish_ending [of "save_kind l s p k" ttl work r pool fl st]
    by (auto simp: slot_ok_def storing_def worker_finish_def Let_def split: prod.splits)
next
  case (connects_asked st d env alive r pool fl evs work)
  then show ?case using worker_finish_ending [of "save_kind l s p k" ttl work r pool fl st]
    by (auto simp: slot_ok_def storing_def worker_finish_def Let_def split: prod.splits)
next
  case (hands_over st)
  then show ?case by (intro slot_ok_worker)
next
  case (monitors st)
  then show ?case by (intro slot_ok_monitor)
qed (auto simp: slot_ok_def storing_def)

lemma slot_ok_reaches:
  assumes "task_reaches (save_kind l s p k) sha ttl (new_ssh_task None app now) st"
  shows "slot_ok st"
  using assms
proof (induction "new_ssh_task None app now :: (unit, (rstr + unit) option, rstr + unit) ssh_task" st rule: task_reaches.induct)
  case here
  then show ?case by (simp add: slot_ok_def new_ssh_task_def)
qed (auto intro: slot_ok_step)

text \<open>C11: In every interleaving of the worker, the monitor, the user, other operations and time, a save over SSH
  reports at most one outcome, which is one that was published; it reports success only when the write on the
  server succeeded, and never after the host key was refused or the wait for an answer timed out.\<close>

theorem remote_save_reports_once:
  assumes "task_reaches (save_kind label spec pw key) sha ttl (new_ssh_task None app now) st"
  shows "length (tk_stored st) \<le> 1 \<and> length (tk_delivered st) \<le> 1 \<and> set (tk_delivered st) \<subseteq> set (tk_stored st)
    \<and> (Inr () \<in> set (tk_delivered st) \<longrightarrow>
          tk_result st = Some (Inr ()) \<and> tk_answer st \<noteq> Some Reject \<and> \<not> tk_timed_out st)"
proof -
  have inv: "one_outcome st" "answered_ok st" using task_invariants [OF assms] by auto
  have acc: "saved.accounted st" using saved.accounted_reaches [OF assms] by simp
  have "length (tk_stored st) \<le> 1" using inv(1) by (simp add: one_outcome_def storing_def)
  moreover have "length (tk_delivered st) \<le> 1" using inv(1) by (auto simp: one_outcome_def split: if_splits)
  moreover have "set (tk_delivered st) \<subseteq> set (tk_stored st)" using acc by (auto simp: saved.accounted_def)
  ultimately show ?thesis using inv(2) by (auto simp: answered_ok_def)
qed

fun monitor_run :: "('w, 's, 'p) ssh_task_kind \<Rightarrow> nat \<Rightarrow> ('w, 's, 'p) ssh_task \<Rightarrow> ('w, 's, 'p) ssh_task" where
  "monitor_run kd 0 st = st"
| "monitor_run kd (Suc n) st = monitor_run kd n (monitor_step kd st (tk_monitor st))"

lemma monitor_run_7: "monitor_run kd 7 st = monitor_run kd (Suc (Suc (Suc (Suc (Suc (Suc (Suc 0))))))) st"
  by (simp add: numeral_eq_Suc)


section \<open>Runs\<close>

datatype run_action = RunConnect | RunWorker | RunMonitor | RunTime nat

definition task_app :: app_shared where
  "task_app = \<lparr>ap_pool = [], ap_cache = (\<lambda>_. None), ap_file = None\<rparr>"

definition sample_kind :: "(unit, (rstr + unit) option, rstr + unit) ssh_task_kind" where
  "sample_kind = save_kind [115] (sample_location\<lparr>rs_user := Some [98]\<rparr>) [99] \<lparr>ck_host = [97], ck_port = 22, ck_user = [98]\<rparr>"

definition sample_task :: "(unit, (rstr + unit) option, rstr + unit) ssh_task" where
  "sample_task = new_ssh_task None task_app 0"

fun run_op :: "run_action \<Rightarrow> (unit, (rstr + unit) option, rstr + unit) ssh_task \<Rightarrow> (unit, (rstr + unit) option, rstr + unit) ssh_task" where
  "run_op RunConnect st =
     (if tk_worker st = Connecting \<and> tk_app st = task_app
      then worker_finish sample_kind 10 (\<lambda>_. Inr ()) (Inr sample_guard) [] None st else st)"
| "run_op RunWorker st = worker_hand_over sample_kind st (tk_worker st)"
| "run_op RunMonitor st = monitor_step sample_kind st (tk_monitor st)"
| "run_op (RunTime d) st = st\<lparr>tk_now := tk_now st + d\<rparr>"

lemma sample_checkout:
  "checkout_or_connect (\<lambda>_. [7]) sample_connect_env (\<lambda>_. True) now 10 None (sample_location\<lparr>rs_user := Some [98]\<rparr>) [98] [99]
     (\<lambda>_ _ _. Reject) [] = (Inr sample_guard, [], None, [Handshake 4, SentPassword [98] [99]])"
proof -
  have "connect sample_connect_env None (sample_location\<lparr>rs_user := Some [98]\<rparr>) [98] [99] (\<lambda>_ _ _. Reject)
      = (Inr 4, None, [Handshake 4, SentPassword [98] [99]])"
    by (simp add: connect_def connect_tcp_def hostkey_preferences_def known_host_algorithms_for_target_def
        hostkey_method_preferences_from_known_hosts_def sample_connect_env_def sample_location_def sample_defs)
  then show ?thesis
    by (simp add: checkout_or_connect_def pool_take_def evict_stale_def Let_def sample_guard_def)
      (simp add: sample_location_def)
qed

lemma run_op_step:
  "task_step sample_kind (\<lambda>_. [7]) 10 st (run_op x st) \<or> run_op x st = st"
proof (cases x)
  case RunConnect
  show ?thesis
  proof (cases "tk_worker st = Connecting \<and> tk_app st = task_app")
    case True
    have "checkout_or_connect (\<lambda>_. [7]) sample_connect_env (\<lambda>_. True) (tk_now st) 10 (ap_file (tk_app st)) (kd_spec sample_kind)
        (case rs_user (kd_spec sample_kind) of Some u \<Rightarrow> u | None \<Rightarrow> []) (kd_password sample_kind) (\<lambda>_ _ _. Reject)
        (ap_pool (tk_app st)) = (Inr sample_guard, [], None, [Handshake 4, SentPassword [98] [99]])"
      using True sample_checkout [of "tk_now st"] by (simp add: sample_kind_def save_kind_def task_app_def)
    moreover have "\<not> asked [Handshake 4, SentPassword [98] [99]]" by (simp add: asked_def)
    ultimately show ?thesis
      using True RunConnect task_step.connects [of st "\<lambda>_. [7]" sample_connect_env "\<lambda>_. True" 10 sample_kind] by simp
  next
    case False
    then show ?thesis unfolding RunConnect run_op.simps by (auto simp only: if_False)
  qed
qed (auto intro: task_step.hands_over task_step.monitors task_step.passes)

lemma run_ops_reaches: "task_reaches sample_kind (\<lambda>_. [7]) 10 sample_task (fold run_op xs sample_task)"
proof (induction xs rule: rev_induct)
  case (snoc x xs)
  then show ?case using run_op_step [of "fold run_op xs sample_task" x] by (auto intro: task_reaches.onward)
qed (simp add: task_reaches.here)

lemmas run_defs = sample_task_def sample_kind_def save_kind_def new_ssh_task_def worker_finish_def run_work_def
  worker_outcome_def deliver_def poll_save_def store_save_def approval_ms_def SSH_HOST_KEY_APPROVAL_TIMEOUT_SECS_def
  forget_refused_password_def

lemma remote_save_reports_once_witness:
  "\<exists>st. task_reaches sample_kind (\<lambda>_. [7]) 10 sample_task st \<and> tk_delivered st = [Inr ()] \<and> tk_result st = Some (Inr ())
     \<and> length (tk_stored st) \<le> 1"
proof -
  let ?st = "fold run_op [RunConnect, RunWorker, RunWorker, RunWorker, RunMonitor] sample_task"
  have d: "tk_delivered ?st = [Inr ()]" by (simp add: run_defs sample_guard_def)
  have r: "task_reaches sample_kind (\<lambda>_. [7]) 10 sample_task ?st" by (rule run_ops_reaches)
  note once = remote_save_reports_once [OF r [unfolded sample_kind_def sample_task_def], folded sample_kind_def sample_task_def]
  have "length (tk_stored ?st) \<le> 1" using once by (rule conjunct1)
  moreover have "tk_result ?st = Some (Inr ())" using once d by simp
  ultimately show ?thesis using d r by blast
qed


text \<open>The case the deadline excludes: the worker has taken the flag and not yet stored its outcome when the monitor
  gives up. The write has succeeded, and the user is told nothing.\<close>

lemma outcome_lost_at_the_deadline:
  "\<exists>st. task_reaches sample_kind (\<lambda>_. [7]) 10 sample_task st \<and> tk_monitor st = MStopped \<and> tk_worker st = WorkerDone
     \<and> tk_result st = Some (Inr ()) \<and> \<not> tk_cancelled st \<and> tk_delivered st = []"
proof -
  let ?st = "fold run_op [RunConnect, RunWorker, RunMonitor, RunTime 60001, RunMonitor, RunMonitor, RunMonitor,
    RunWorker, RunMonitor, RunMonitor, RunWorker] sample_task"
  have "tk_monitor ?st = MStopped \<and> tk_worker ?st = WorkerDone \<and> tk_result ?st = Some (Inr ()) \<and> \<not> tk_cancelled ?st
      \<and> tk_delivered ?st = []"
    by (simp add: run_defs sample_guard_def)
  then show ?thesis using run_ops_reaches by blast
qed

text \<open>A save reported as timed out goes on: the worker is not stopped, and its write succeeds afterwards.\<close>

lemma timed_out_save_still_writes:
  "\<exists>st. task_reaches sample_kind (\<lambda>_. [7]) 10 sample_task st \<and> tk_delivered st = [Inl (timeout_message sample_kind)]
     \<and> tk_result st = Some (Inr ())"
proof -
  let ?st = "fold run_op [RunTime 60001, RunMonitor, RunMonitor, RunMonitor, RunMonitor, RunMonitor, RunMonitor,
    RunMonitor, RunConnect, RunWorker, RunWorker] sample_task"
  have "tk_delivered ?st = [Inl (timeout_message sample_kind)] \<and> tk_result ?st = Some (Inr ())"
    by (simp add: run_defs sample_guard_def)
  then show ?thesis using run_ops_reaches by blast
qed

end
