(* ===== verification/App_Settings.thy ===== *)
theory App_Settings
  imports Atomic_Write Editor_Tab Utf8 Complex_Main "HOL-Library.Sublist"
begin

text \<open>
  \<^verbatim>\<open>src/fulgur/settings/types.rs\<close> and \<^verbatim>\<open>persistence.rs\<close>: the settings, their defaults, the recent files, validation after
  loading, and saving and loading with the backup. The record of the editor settings extends the one the tabs read.
  JSON (serde) and the URL parser are parameters; a 32-bit float is not a number, an infinity or a rational.
\<close>

section \<open>Types\<close>

datatype float32 = NotANumber | Infinite bool | Finite rat

fun f32_lt :: "float32 \<Rightarrow> float32 \<Rightarrow> bool" where
  "f32_lt NotANumber y = False"
| "f32_lt x NotANumber = False"
| "f32_lt (Infinite a) (Infinite b) = (\<not> a \<and> b)"
| "f32_lt (Infinite a) (Finite y) = (\<not> a)"
| "f32_lt (Finite x) (Infinite b) = b"
| "f32_lt (Finite x) (Finite y) = (x < y)"

fun f32_is_finite :: "float32 \<Rightarrow> bool" where
  "f32_is_finite (Finite x) = True"
| "f32_is_finite NotANumber = False"
| "f32_is_finite (Infinite b) = False"

definition f32_clamp :: "float32 \<Rightarrow> float32 \<Rightarrow> float32 \<Rightarrow> float32" where
  "f32_clamp x lo hi = (if f32_lt x lo then lo else if f32_lt hi x then hi else x)"

record server_profile =
  sp_id :: rstr
  sp_name :: rstr
  sp_is_active :: bool
  sp_server_url :: "rstr option"
  sp_email :: "rstr option"
  sp_public_key :: "rstr option"
  sp_is_deduplication :: bool

record synchronization_settings =
  sy_activated :: bool
  sy_profiles :: "server_profile list"

datatype tab_color_style = TextColor | Dot

record full_editor_settings = editor_settings +
  st_font_family :: rstr
  st_font_size :: float32
  st_limit_preview_width :: bool
  st_watch_files :: bool

record app_settings =
  as_confirm_exit :: bool
  as_debug_mode :: bool
  as_theme :: rstr
  as_scrollbar_show :: "rstr option"
  as_sync :: synchronization_settings
  as_tab_color_style :: tab_color_style
  as_persist_unsaved_buffers :: bool

record recent_files =
  rf_files :: "rstr list"
  rf_max_files :: nat

record settings =
  se_editor :: full_editor_settings
  se_app :: app_settings
  se_recent :: recent_files

section \<open>Defaults and lookups\<close>

definition MAX_PROFILES :: nat where "MAX_PROFILES = 16"
definition DEFAULT_PROFILE_NAME :: rstr where "DEFAULT_PROFILE_NAME = lit ''Fulgurant''"

definition new_server_profile :: "rstr \<Rightarrow> rstr \<Rightarrow> server_profile" where
  "new_server_profile uuid name =
     \<lparr>sp_id = uuid, sp_name = name, sp_is_active = False, sp_server_url = None, sp_email = None, sp_public_key = None,
      sp_is_deduplication = True\<rparr>"

definition new_synchronization_settings :: synchronization_settings where
  "new_synchronization_settings = \<lparr>sy_activated = False, sy_profiles = []\<rparr>"

definition primary_profile :: "synchronization_settings \<Rightarrow> server_profile option" where
  "primary_profile s = (case sy_profiles s of [] \<Rightarrow> None | p # _ \<Rightarrow> Some p)"

definition ensure_primary_profile :: "rstr \<Rightarrow> synchronization_settings \<Rightarrow> synchronization_settings" where
  "ensure_primary_profile uuid s =
     (if sy_profiles s = [] then s\<lparr>sy_profiles := [new_server_profile uuid DEFAULT_PROFILE_NAME]\<rparr> else s)"

definition find_profile :: "rstr \<Rightarrow> synchronization_settings \<Rightarrow> server_profile option" where
  "find_profile i s = find (\<lambda>p. sp_id p = i) (sy_profiles s)"

fun update_first :: "('a \<Rightarrow> bool) \<Rightarrow> ('a \<Rightarrow> 'a) \<Rightarrow> 'a list \<Rightarrow> 'a list" where
  "update_first P f [] = []"
| "update_first P f (x # xs) = (if P x then f x # xs else x # update_first P f xs)"

definition modify_profile :: "rstr \<Rightarrow> (server_profile \<Rightarrow> server_profile) \<Rightarrow> synchronization_settings \<Rightarrow> synchronization_settings" where
  "modify_profile i f s = s\<lparr>sy_profiles := update_first (\<lambda>p. sp_id p = i) f (sy_profiles s)\<rparr>"

definition name_collides :: "(rstr \<Rightarrow> rstr) \<Rightarrow> rstr \<Rightarrow> rstr option \<Rightarrow> synchronization_settings \<Rightarrow> bool" where
  "name_collides lower candidate exclude s \<longleftrightarrow>
     list_ex (\<lambda>p. exclude \<noteq> Some (sp_id p) \<and> lower (trim (sp_name p)) = lower (trim candidate)) (sy_profiles s)"

definition new_editor_settings :: full_editor_settings where
  "new_editor_settings =
     \<lparr>st_show_line_numbers = True, st_show_indent_guides = True, st_tab_size = 4, st_use_spaces = True,
      st_soft_wrap = False, st_show_whitespaces = False, st_highlight_colors = True, st_show_markdown_toolbar = False,
      st_show_markdown_preview = True, st_preview_mode = DedicatedTab, st_font_family = lit ''Monaco'',
      st_font_size = Finite 14, st_limit_preview_width = True, st_watch_files = True\<rparr>"

definition new_app_settings :: app_settings where
  "new_app_settings =
     \<lparr>as_confirm_exit = True, as_debug_mode = False, as_theme = lit ''Default Light'', as_scrollbar_show = None,
      as_sync = new_synchronization_settings, as_tab_color_style = TextColor, as_persist_unsaved_buffers = True\<rparr>"

definition new_recent_files :: "nat \<Rightarrow> recent_files" where
  "new_recent_files n = \<lparr>rf_files = [], rf_max_files = n\<rparr>"

definition new_settings :: settings where
  "new_settings = \<lparr>se_editor = new_editor_settings, se_app = new_app_settings, se_recent = new_recent_files 10\<rparr>"

section \<open>Recent files\<close>

definition recent_add_file :: "rstr \<Rightarrow> recent_files \<Rightarrow> recent_files" where
  "recent_add_file f r =
     (let files = rf_files r @ [f] in r\<lparr>rf_files := if rf_max_files r < length files then drop 1 files else files\<rparr>)"

definition recent_remove_file :: "rstr \<Rightarrow> recent_files \<Rightarrow> recent_files" where
  "recent_remove_file f r = r\<lparr>rf_files := filter (\<lambda>g. g \<noteq> f) (rf_files r)\<rparr>"

definition get_recent_files :: "settings \<Rightarrow> rstr list" where
  "get_recent_files s = rev (rf_files (se_recent s))"

definition add_recent_file :: "rstr \<Rightarrow> settings \<Rightarrow> settings" where
  "add_recent_file f s =
     (let r = se_recent s;
          r1 = (if f \<in> set (rf_files r) then recent_remove_file f r else r)
      in s\<lparr>se_recent := recent_add_file f r1\<rparr>)"

section \<open>Validation\<close>

definition FONT_SIZE_MIN :: float32 where "FONT_SIZE_MIN = Finite 6"
definition FONT_SIZE_MAX :: float32 where "FONT_SIZE_MAX = Finite 72"
definition TAB_SIZE_MIN :: nat where "TAB_SIZE_MIN = 1"
definition TAB_SIZE_MAX :: nat where "TAB_SIZE_MAX = 16"
definition MAX_RECENT_FILES_MAX :: nat where "MAX_RECENT_FILES_MAX = 100"

definition is_valid_email :: "rstr \<Rightarrow> bool" where
  "is_valid_email email =
     (if list_ex is_ws email then False
      else (case str_find (\<lambda>c. c = 64) email of
              None \<Rightarrow> False
            | Some i \<Rightarrow>
                let local_part = take i email; domain = drop (Suc i) email in
                if local_part = [] \<or> 64 \<in> set domain then False
                else 2 \<le> length (split_on 46 domain) \<and> list_all (\<lambda>l. l \<noteq> []) (split_on 46 domain)))"

definition valid_font_size :: "float32 \<Rightarrow> float32" where
  "valid_font_size x =
     (if f32_lt x FONT_SIZE_MIN \<or> f32_lt FONT_SIZE_MAX x \<or> \<not> f32_is_finite x
      then (let y = f32_clamp x FONT_SIZE_MIN FONT_SIZE_MAX in if f32_is_finite y then y else Finite 14)
      else x)"

definition valid_tab_size :: "nat \<Rightarrow> nat" where
  "valid_tab_size n = (if n < TAB_SIZE_MIN \<or> TAB_SIZE_MAX < n then min TAB_SIZE_MAX (max TAB_SIZE_MIN n) else n)"

definition valid_profile :: "(rstr \<Rightarrow> bool) \<Rightarrow> server_profile \<Rightarrow> server_profile" where
  "valid_profile url_ok p =
     (let p1 = (case sp_server_url p of Some u \<Rightarrow> if url_ok u then p else p\<lparr>sp_server_url := None\<rparr> | None \<Rightarrow> p)
      in (case sp_email p1 of
            Some e \<Rightarrow> if is_valid_email (trim e) then p1 else p1\<lparr>sp_email := None\<rparr>
          | None \<Rightarrow> p1))"

definition validate :: "(rstr \<Rightarrow> bool) \<Rightarrow> settings \<Rightarrow> settings" where
  "validate url_ok s =
     (let es = (se_editor s)\<lparr>st_font_size := valid_font_size (st_font_size (se_editor s)),
                            st_tab_size := valid_tab_size (st_tab_size (se_editor s))\<rparr>;
          rf = (se_recent s)\<lparr>rf_max_files := min MAX_RECENT_FILES_MAX (rf_max_files (se_recent s))\<rparr>;
          sy = as_sync (se_app s);
          sy' = sy\<lparr>sy_profiles := map (valid_profile url_ok) (take MAX_PROFILES (sy_profiles sy))\<rparr>
      in s\<lparr>se_editor := es, se_app := (se_app s)\<lparr>as_sync := sy'\<rparr>, se_recent := rf\<rparr>)"

section \<open>Files\<close>

text \<open>The parameters of saving: the JSON writer, and whether the copy to the backup fails and what part of the bytes
  it has written then.\<close>

record settings_io =
  si_to_json :: "settings \<Rightarrow> rstr + rstr"
  si_parse :: "rstr \<Rightarrow> rstr + settings"
  si_copy_fails :: "(nat option) option"

definition copy_to_backup :: "settings_io \<Rightarrow> aw_env \<Rightarrow> rstr \<Rightarrow> file_sys \<Rightarrow> file_sys" where
  "copy_to_backup io env path fs =
     (case fs (resolve_target env path) of
        None \<Rightarrow> fs
      | Some (c, m) \<Rightarrow>
          (case si_copy_fails io of
             None \<Rightarrow> fs(backup_path_for path \<mapsto> (c, m))
           | Some None \<Rightarrow> fs
           | Some (Some n) \<Rightarrow> fs(backup_path_for path \<mapsto> (take n c, m))))"

datatype settings_error = JsonError rstr | WriteError aw_error | Unreadable | BothCorrupted

definition save_settings_to_path ::
  "settings_io \<Rightarrow> aw_env \<Rightarrow> nat \<Rightarrow> rstr \<Rightarrow> settings \<Rightarrow> file_sys \<Rightarrow> (settings_error + unit) \<times> file_sys" where
  "save_settings_to_path io env counter path s fs =
     (case si_to_json io s of
        Inl e \<Rightarrow> (Inl (JsonError e), fs)
      | Inr json \<Rightarrow>
          let fs1 = copy_to_backup io env path fs;
              (r, fs2, _, _) = atomic_write_file env counter path (utf8 json) fs1
          in (case r of Inl e \<Rightarrow> (Inl (WriteError e), fs2) | Inr _ \<Rightarrow> (Inr (), fs2)))"

definition read_text :: "aw_env \<Rightarrow> rstr \<Rightarrow> file_sys \<Rightarrow> rstr option" where
  "read_text env path fs = (case fs (resolve_target env path) of Some (c, _) \<Rightarrow> from_utf8 c | None \<Rightarrow> None)"

definition load_settings_from_path :: "settings_io \<Rightarrow> (rstr \<Rightarrow> bool) \<Rightarrow> aw_env \<Rightarrow> rstr \<Rightarrow> file_sys \<Rightarrow> settings_error + settings" where
  "load_settings_from_path io url_ok env path fs =
     (case read_text env path fs of
        None \<Rightarrow> Inl Unreadable
      | Some json \<Rightarrow>
          (case si_parse io json of
             Inr s \<Rightarrow> Inr (validate url_ok s)
           | Inl primary \<Rightarrow>
               (case read_text env (backup_path_for path) fs of
                  None \<Rightarrow> Inl (JsonError primary)
                | Some bak \<Rightarrow>
                    (case si_parse io bak of
                       Inl _ \<Rightarrow> Inl BothCorrupted
                     | Inr s \<Rightarrow> Inr (validate url_ok s)))))"

section \<open>What validation guarantees\<close>

fun font_in_range :: "float32 \<Rightarrow> bool" where
  "font_in_range (Finite x) = (6 \<le> x \<and> x \<le> 72)"
| "font_in_range NotANumber = False"
| "font_in_range (Infinite b) = False"

definition settings_ok :: "(rstr \<Rightarrow> bool) \<Rightarrow> settings \<Rightarrow> bool" where
  "settings_ok url_ok s \<longleftrightarrow>
     font_in_range (st_font_size (se_editor s))
     \<and> st_tab_size (se_editor s) \<in> {1..16}
     \<and> rf_max_files (se_recent s) \<le> 100
     \<and> length (sy_profiles (as_sync (se_app s))) \<le> 16
     \<and> list_all (\<lambda>p. (\<forall>u \<in> set_option (sp_server_url p). url_ok u)
                     \<and> (\<forall>e \<in> set_option (sp_email p). is_valid_email (trim e))) (sy_profiles (as_sync (se_app s)))"

lemma valid_font_in_range: "font_in_range (valid_font_size x)"
  by (cases x) (auto simp: valid_font_size_def f32_clamp_def FONT_SIZE_MIN_def FONT_SIZE_MAX_def Let_def)

lemma valid_font_id: "font_in_range x \<Longrightarrow> valid_font_size x = x"
  by (cases x) (auto simp: valid_font_size_def FONT_SIZE_MIN_def FONT_SIZE_MAX_def)

lemma valid_profile_ok:
  "(\<forall>u \<in> set_option (sp_server_url (valid_profile url_ok p)). url_ok u)
   \<and> (\<forall>e \<in> set_option (sp_email (valid_profile url_ok p)). is_valid_email (trim e))"
  by (cases "sp_server_url p"; cases "sp_email p") (auto simp: valid_profile_def Let_def)

lemma valid_profile_id:
  "\<forall>u \<in> set_option (sp_server_url p). url_ok u \<Longrightarrow> \<forall>e \<in> set_option (sp_email p). is_valid_email (trim e)
   \<Longrightarrow> valid_profile url_ok p = p"
  by (cases "sp_server_url p"; cases "sp_email p") (auto simp: valid_profile_def Let_def)

lemma validated_ok: "settings_ok url_ok (validate url_ok s)"
  using valid_font_in_range [of "st_font_size (se_editor s)"] valid_profile_ok
  by (auto simp: settings_ok_def validate_def Let_def valid_tab_size_def TAB_SIZE_MIN_def TAB_SIZE_MAX_def
      MAX_RECENT_FILES_MAX_def MAX_PROFILES_def list_all_iff)

lemma validate_ok_id:
  assumes "settings_ok url_ok s"
  shows "validate url_ok s = s"
proof -
  have "map (valid_profile url_ok) (take MAX_PROFILES (sy_profiles (as_sync (se_app s)))) = sy_profiles (as_sync (se_app s))"
    using assms by (auto simp: settings_ok_def MAX_PROFILES_def list_all_iff intro!: map_idI valid_profile_id)
  moreover have "valid_tab_size (st_tab_size (se_editor s)) = st_tab_size (se_editor s)"
    using assms by (auto simp: settings_ok_def valid_tab_size_def TAB_SIZE_MIN_def TAB_SIZE_MAX_def)
  moreover have "min MAX_RECENT_FILES_MAX (rf_max_files (se_recent s)) = rf_max_files (se_recent s)"
    using assms by (simp add: settings_ok_def MAX_RECENT_FILES_MAX_def)
  moreover have "valid_font_size (st_font_size (se_editor s)) = st_font_size (se_editor s)"
    using assms by (simp add: settings_ok_def valid_font_id)
  ultimately show ?thesis by (simp add: validate_def Let_def)
qed

lemma default_settings_ok: "settings_ok url_ok new_settings"
  by (simp add: settings_ok_def new_settings_def new_editor_settings_def new_app_settings_def new_recent_files_def
      new_synchronization_settings_def)

section \<open>Saving and loading\<close>

lemma joined_temp: "ends_with (lit ''.tmp'') (path_join d (tmp_name f a b c))"
proof -
  have e: "ends_with s (x @ y) \<longleftrightarrow> ends_with s y" if "length s \<le> length y" for s x y :: rstr
    using that by (auto simp: ends_with_def)
  have "ends_with (lit ''.tmp'') (tmp_name f a b c)" using tmp_name_orphan [of f a b c] by (simp add: is_orphan_temp_def)
  moreover have "length (lit ''.tmp'') \<le> length (tmp_name f a b c)" by (simp add: tmp_name_def)
  ultimately show ?thesis using e [of "lit ''.tmp''" "tmp_name f a b c"] e [of "lit ''.tmp''" "47 # tmp_name f a b c" d]
      e [of "lit ''.tmp''" "tmp_name f a b c" "[47]"]
    by (simp add: path_join_def)
qed

lemma written_atomically:
  assumes "atomic_write_file env k path c fs = (Inr (), fs', tr, k')"
  shows "map_option fst (fs' (resolve_target env path)) = Some c"
    and "q \<noteq> resolve_target env path \<Longrightarrow> \<not> ends_with (lit ''.tmp'') q \<Longrightarrow> fs' q = fs q"
proof -
  let ?t = "resolve_target env path"
  obtain d f where df: "path_parent ?t = Some d" "path_file_name ?t = Some f"
    using assms by (auto simp: atomic_write_file_def Let_def split: option.splits)
  define tmp where "tmp = path_join d (tmp_name f (aw_pid env) (aw_nonce env) k)"
  have ne: "tmp \<noteq> ?t" unfolding tmp_def by (rule tmp_is_not_target [OF df(2)])
  obtain tr1 r s1 where run: "run_steps (exec_step env ?t tmp c (map_option snd (fs ?t))) write_steps fs = (tr1, r, s1)"
    by (metis prod_cases3)
  have res: "r = Inr ()" "fs' = s1"
    using assms df run by (auto simp: atomic_write_file_def Let_def tmp_def [symmetric] split: sum.splits prod.splits)
  show "map_option fst (fs' ?t) = Some c" using all_steps(2) [OF ne run res(1)] res(2) by auto
  show "fs' q = fs q" if "q \<noteq> ?t" "\<not> ends_with (lit ''.tmp'') q" for q
  proof -
    have "q \<noteq> tmp" using that(2) joined_temp unfolding tmp_def by blast
    moreover have "aw_safe ?t tmp c fs s1" using all_steps(1) [OF ne run] by simp
    ultimately show ?thesis using that(1) res(2) by (simp add: aw_safe_def)
  qed
qed



section \<open>Recent files\<close>

text \<open>Opening a file puts it first in the menu, once, keeps the order of the others and never makes a list that is
  within its maximum longer than it.\<close>

lemma recent_files_most_recent_first:
  assumes "0 < rf_max_files (se_recent s)" "length (rf_files (se_recent s)) \<le> rf_max_files (se_recent s)"
    "distinct (rf_files (se_recent s))"
  shows "\<exists>rest. get_recent_files (add_recent_file f s) = f # rest \<and> distinct (f # rest)
      \<and> length (f # rest) \<le> rf_max_files (se_recent s) \<and> prefix rest (filter (\<lambda>g. g \<noteq> f) (get_recent_files s))"
proof -
  let ?keep = "filter (\<lambda>g. g \<noteq> f) (rf_files (se_recent s))"
  have r1: "rf_files (if f \<in> set (rf_files (se_recent s)) then recent_remove_file f (se_recent s) else se_recent s) = ?keep"
    by (auto simp: recent_remove_file_def intro!: filter_True [symmetric])
  have len: "length ?keep \<le> rf_max_files (se_recent s)" using assms(2) length_filter_le le_trans by blast
  have g: "get_recent_files (add_recent_file f s)
      = f # rev (if rf_max_files (se_recent s) < Suc (length ?keep) then drop 1 ?keep else ?keep)"
    using assms(1) r1 by (auto simp: get_recent_files_def add_recent_file_def recent_add_file_def Let_def
        recent_remove_file_def filter_id_conv)
  define kept where "kept = (if rf_max_files (se_recent s) < Suc (length ?keep) then drop 1 ?keep else ?keep)"
  have "distinct ?keep" using assms(3) by simp
  then have d: "distinct kept" by (simp add: kept_def)
  have "set kept \<subseteq> set ?keep" using set_drop_subset [of 1 ?keep] by (auto simp: kept_def)
  then have n: "f \<notin> set kept" by auto
  have l: "Suc (length kept) \<le> rf_max_files (se_recent s)" using len assms(1) by (auto simp: kept_def)
  have "prefix (rev (drop 1 ?keep)) (rev ?keep)" using prefixeq_butlast [of "rev ?keep"] by (simp add: butlast_rev drop_Suc)
  then have p: "prefix (rev kept) (rev ?keep)" by (simp add: kept_def)
  have e: "filter (\<lambda>g. g \<noteq> f) (get_recent_files s) = rev ?keep" by (simp add: get_recent_files_def rev_filter)
  show ?thesis unfolding g kept_def [symmetric] e using d n l p by simp
qed

text \<open>A list longer than its maximum, as validation leaves it when the maximum in the file is lowered, never shrinks
  to it: adding a file removes one entry only.\<close>

lemma overfull_recent_files_stay:
  assumes "f \<notin> set (rf_files (se_recent s))" "rf_max_files (se_recent s) < length (rf_files (se_recent s))"
  shows "rf_max_files (se_recent s) < length (rf_files (se_recent (add_recent_file f s)))"
  using assms by (simp add: add_recent_file_def recent_add_file_def Let_def)

section \<open>A settings file\<close>

definition other_settings :: settings where
  "other_settings = new_settings\<lparr>se_recent := new_recent_files 7\<rparr>"

definition sample_io :: settings_io where
  "sample_io = \<lparr>si_to_json = (\<lambda>s. Inr (if s = new_settings then [65] else [66])),
     si_parse = (\<lambda>j. if j = [65] then Inr new_settings else if j = [66] then Inr other_settings else Inl []),
     si_copy_fails = None\<rparr>"

lemma sample_write:
  assumes "fs (path_join (lit ''/d'') (tmp_name (lit ''f'') 7 5 k)) = None"
  shows "\<exists>tr. atomic_write_file (sample_aw {}) k (lit ''/d/f'') c fs
    = (Inr (), fs(lit ''/d/f'' \<mapsto> (c, case fs (lit ''/d/f'') of Some (_, m) \<Rightarrow> m | None \<Rightarrow> 420)), tr, k + 1)"
proof -
  have p: "path_parent (lit ''/d/f'') = Some (lit ''/d'')" "path_file_name (lit ''/d/f'') = Some (lit ''f'')"
    by code_simp+
  have r: "resolve_target (sample_aw bad) q = q" for bad q by (simp add: resolve_target_def sample_aw_def)
  define tmp where "tmp = path_join (lit ''/d'') (tmp_name (lit ''f'') 7 5 k)"
  have ne: "tmp \<noteq> lit ''/d/f''" unfolding tmp_def by (rule tmp_is_not_target [OF p(2)])
  show ?thesis
    using ne assms unfolding atomic_write_file_def Let_def r p option.case
    by (cases "fs (lit ''/d/f'')")
      (auto simp: sample_aw_def write_steps_def exec_step_def tmp_def [symmetric] fun_eq_iff simp del: lit_Cons)
qed

lemma sample_paths:
  "backup_path_for (lit ''/d/f'') = lit ''/d/f.bak''" "lit ''/d/f'' \<noteq> lit ''/d/f.bak''"
  "\<not> ends_with (lit ''.tmp'') (lit ''/d/f.bak'')" "\<not> ends_with (lit ''.tmp'') (lit ''/d/f'')"
  by code_simp+



end
