(* ===== verification/Sync_Types.thy ===== *)
theory Sync_Types
  imports App_Settings
begin

text \<open>
  \<^verbatim>\<open>src/fulgur/sync/synchronization/\<close>: the errors and the status of a connection (\<^verbatim>\<open>error.rs\<close>), the size limits
  (\<^verbatim>\<open>limits.rs\<close>) and the comparison of versions (\<^verbatim>\<open>version.rs\<close>), with the summaries of shares of
  \<^verbatim>\<open>share/types.rs\<close> and the limits of \<^verbatim>\<open>share/compression.rs\<close>. \<open>usize\<close> is taken as 64 bits; the parser and the order
  of semantic versions are parameters.
\<close>

section \<open>Errors and status\<close>

datatype sync_error =
    AuthenticationFailed
  | BadRequest
  | CompressionFailed
  | SyncConnectionFailed
  | ContentMissing
  | ContentTooLarge nat nat
  | DeviceIdsMissing
  | DeviceKeyMissing
  | EmailMissing
  | EncryptionFailed
  | FileNameMissing
  | HostNotFound
  | InvalidPublicKey rstr
  | InvalidResponse rstr
  | MissingEncryptionKey
  | MissingPublicKey rstr
  | MissingExpirationDate
  | OtherError rstr
  | ServerError nat
  | ServerTooOld rstr
  | ServerUrlMissing
  | SyncTimeout rstr

datatype sync_status =
    Connected | StatusConnecting | Disconnected | StatusAuthenticationFailed | StatusConnectionFailed | StatusOther | NotActivated

text \<open>The errors of the HTTP library that the source tells apart.\<close>

datatype io_kind = IoConnectionRefused | IoTimedOut | IoConnectionReset | IoConnectionAborted | IoAddrNotAvailable | IoOther

datatype ureq_error =
    StatusCode nat
  | IoFailure io_kind rstr
  | UreqConnectionFailed
  | UreqHostNotFound
  | UreqTimeout rstr
  | UreqOther rstr

fun handle_ureq_error :: "ureq_error \<Rightarrow> sync_error" where
  "handle_ureq_error (StatusCode code) =
     (if code = 401 \<or> code = 403 then AuthenticationFailed
      else if code = 400 then BadRequest
      else if code = 413 then ContentTooLarge 0 0
      else ServerError code)"
| "handle_ureq_error (IoFailure kind msg) =
     (case kind of
        IoConnectionRefused \<Rightarrow> SyncConnectionFailed
      | IoTimedOut \<Rightarrow> SyncTimeout msg
      | IoConnectionReset \<Rightarrow> SyncConnectionFailed
      | IoConnectionAborted \<Rightarrow> SyncConnectionFailed
      | IoAddrNotAvailable \<Rightarrow> HostNotFound
      | IoOther \<Rightarrow> OtherError msg)"
| "handle_ureq_error UreqConnectionFailed = SyncConnectionFailed"
| "handle_ureq_error UreqHostNotFound = HostNotFound"
| "handle_ureq_error (UreqTimeout msg) = SyncTimeout msg"
| "handle_ureq_error (UreqOther msg) = OtherError msg"

fun sync_error_display :: "sync_error \<Rightarrow> rstr" where
  "sync_error_display AuthenticationFailed = lit ''Authentication failed''"
| "sync_error_display BadRequest = lit ''Bad request''"
| "sync_error_display CompressionFailed = lit ''Compression failed''"
| "sync_error_display SyncConnectionFailed = lit ''Cannot connect to sync server''"
| "sync_error_display ContentMissing = lit ''Content is missing''"
| "sync_error_display (ContentTooLarge file_size max_size) =
     (if file_size = 0 \<and> max_size = 0 then lit ''File is too large to share (rejected by server)''
      else lit ''File is too large to share ('' @ show_nat (file_size div 1024) @ lit '' KB, max '' @ show_nat (max_size div 1024)
        @ lit '' KB)'')"
| "sync_error_display DeviceIdsMissing = lit ''Device IDs are missing''"
| "sync_error_display DeviceKeyMissing = lit ''Key is missing''"
| "sync_error_display EmailMissing = lit ''Email is missing''"
| "sync_error_display EncryptionFailed = lit ''Encryption failed''"
| "sync_error_display FileNameMissing = lit ''File name is missing''"
| "sync_error_display HostNotFound = lit ''Host not found''"
| "sync_error_display (InvalidPublicKey name) = lit ''Invalid public key for device: '' @ name"
| "sync_error_display (InvalidResponse e) = e"
| "sync_error_display (OtherError e) = e"
| "sync_error_display MissingEncryptionKey = lit ''Missing encryption key''"
| "sync_error_display MissingExpirationDate = lit ''Missing expiration date''"
| "sync_error_display (MissingPublicKey e) = lit ''Missing public key for device: '' @ e"
| "sync_error_display (ServerError code) = show_nat code"
| "sync_error_display (ServerTooOld required) = lit ''Server is too old: Fulgurant '' @ required @ lit '' or newer is required''"
| "sync_error_display ServerUrlMissing = lit ''Server URL is missing''"
| "sync_error_display (SyncTimeout e) = lit ''Timeout: '' @ e"

fun status_from_error :: "sync_error \<Rightarrow> sync_status" where
  "status_from_error AuthenticationFailed = StatusAuthenticationFailed"
| "status_from_error HostNotFound = StatusConnectionFailed"
| "status_from_error SyncConnectionFailed = StatusConnectionFailed"
| "status_from_error (SyncTimeout e) = StatusConnectionFailed"
| "status_from_error _ = StatusOther"

definition is_connected :: "sync_status \<Rightarrow> bool" where
  "is_connected s \<longleftrightarrow> s = Connected"

definition status_label :: "sync_status \<Rightarrow> rstr" where
  "status_label s =
     (case s of
        Connected \<Rightarrow> lit ''Connected''
      | StatusConnecting \<Rightarrow> lit ''Connecting''
      | Disconnected \<Rightarrow> lit ''Disconnected''
      | NotActivated \<Rightarrow> lit ''Inactive''
      | StatusAuthenticationFailed \<Rightarrow> lit ''Error''
      | StatusConnectionFailed \<Rightarrow> lit ''Error''
      | StatusOther \<Rightarrow> lit ''Error'')"

section \<open>Limits\<close>

definition MAX_SYNC_SHARE_PAYLOAD_BYTES :: nat where "MAX_SYNC_SHARE_PAYLOAD_BYTES = 1024 * 1024"
definition JSON_OVERHEAD_PER_SHARE_BYTES :: nat where "JSON_OVERHEAD_PER_SHARE_BYTES = 1024"
definition SHARE_RESPONSE_FRAMING_BYTES :: nat where "SHARE_RESPONSE_FRAMING_BYTES = 4 * 1024"

definition MAX_HTTP_SINGLE_SHARE_RESPONSE_BYTES :: nat where
  "MAX_HTTP_SINGLE_SHARE_RESPONSE_BYTES =
     MAX_SYNC_SHARE_PAYLOAD_BYTES * 2 + JSON_OVERHEAD_PER_SHARE_BYTES + SHARE_RESPONSE_FRAMING_BYTES"

definition max_http_single_share_response_bytes :: "nat \<Rightarrow> nat" where
  "max_http_single_share_response_bytes server_max =
     (if server_max = u64_max then MAX_HTTP_SINGLE_SHARE_RESPONSE_BYTES
      else sat_add (sat_add (sat_mul server_max 2) JSON_OVERHEAD_PER_SHARE_BYTES) SHARE_RESPONSE_FRAMING_BYTES)"

definition resolve_server_max_file_size :: "nat option \<Rightarrow> nat" where
  "resolve_server_max_file_size advertised =
     (case advertised of
        None \<Rightarrow> u64_max
      | Some n \<Rightarrow> if n = 0 then MAX_SYNC_SHARE_PAYLOAD_BYTES else n)"

definition share_payload_exceeds_limit :: "nat \<Rightarrow> nat \<Rightarrow> bool" where
  "share_payload_exceeds_limit content_len server_max \<longleftrightarrow> server_max \<noteq> u64_max \<and> sat_mul server_max 2 < content_len"

text \<open>The cap on what \<open>decompress_content\<close> reads; \<open>clamp\<close> panics when its bounds are in the wrong order.\<close>

definition MAX_COMPRESSION_RATIO :: nat where "MAX_COMPRESSION_RATIO = 512"
definition MIN_DECOMPRESSION_BUFFER_BYTES :: nat where "MIN_DECOMPRESSION_BUFFER_BYTES = 64 * 1024"
definition INITIAL_BUFFER_RATIO :: nat where "INITIAL_BUFFER_RATIO = 16"

definition clamp_nat :: "nat \<Rightarrow> nat \<Rightarrow> nat \<Rightarrow> nat option" where
  "clamp_nat x lo hi = (if hi < lo then None else Some (if x < lo then lo else if hi < x then hi else x))"

definition decompression_caps :: "nat \<Rightarrow> nat \<Rightarrow> (nat \<times> nat) option" where
  "decompression_caps compressed_len max_size =
     (let floor_bytes = min MIN_DECOMPRESSION_BUFFER_BYTES max_size in
      (case clamp_nat (sat_mul compressed_len MAX_COMPRESSION_RATIO) floor_bytes max_size of
         None \<Rightarrow> None
       | Some cap \<Rightarrow> map_option (Pair cap) (clamp_nat (sat_mul compressed_len INITIAL_BUFFER_RATIO) floor_bytes cap)))"

datatype decompress_error = PayloadTooLarge | GzipError rstr | BombDefense nat | NotUtf8 | ClampPanic

text \<open>\<open>gunzip\<close> is the decoder: all the bytes of the payload, or an error after some bytes; the reader stops one byte
  after the cap.\<close>

definition decompress_content ::
  "(u8 list \<Rightarrow> u8 list \<times> rstr option) \<Rightarrow> u8 list \<Rightarrow> nat \<Rightarrow> decompress_error + rstr" where
  "decompress_content gunzip compressed max_size =
     (if max_size \<noteq> u64_max \<and> max_size < length compressed then Inl PayloadTooLarge
      else (case decompression_caps (length compressed) max_size of
              None \<Rightarrow> Inl ClampPanic
            | Some (cap, _) \<Rightarrow>
                let (bytes, err) = gunzip compressed in
                if cap < length bytes then Inl (BombDefense cap)
                else (case err of
                        Some e \<Rightarrow> Inl (GzipError e)
                      | None \<Rightarrow> (case from_utf8 bytes of None \<Rightarrow> Inl NotUtf8 | Some s \<Rightarrow> Inr s))))"

section \<open>Versions\<close>

record 'v semver =
  sv_parse :: "rstr \<Rightarrow> 'v option"
  sv_major :: "'v \<Rightarrow> nat"
  sv_minor :: "'v \<Rightarrow> nat"
  sv_le :: "'v \<Rightarrow> 'v \<Rightarrow> bool"

definition MIN_SUPPORTED_FULGURANT_VERSION :: "nat \<times> nat" where "MIN_SUPPORTED_FULGURANT_VERSION = (0, 8)"
definition MIN_SUPPORTED_FULGURANT_VERSION_DISPLAY :: rstr where "MIN_SUPPORTED_FULGURANT_VERSION_DISPLAY = lit ''0.8.0''"
definition RECOMMENDED_FULGURANT_VERSION :: rstr where "RECOMMENDED_FULGURANT_VERSION = lit ''0.8.1''"
definition FULGURANT_VERSION_WITHOUT_HEADER :: rstr where "FULGURANT_VERSION_WITHOUT_HEADER = lit ''0.6.0''"

datatype version_compatibility = Compatible | UpdateRecommended | UpdateRequired

definition compare_required_version :: "'v semver \<Rightarrow> rstr \<Rightarrow> rstr \<Rightarrow> version_compatibility" where
  "compare_required_version sv current required =
     (let parse = (\<lambda>raw. sv_parse sv (dropWhile (\<lambda>c. c = 118 \<or> c = 86) (trim raw))) in
      (case (parse current, parse required) of
         (Some c, Some r) \<Rightarrow>
           if sv_le sv r c then Compatible
           else if sv_major sv c < sv_major sv r \<or> sat_add (sv_minor sv c) 3 \<le> sv_minor sv r then UpdateRequired
           else UpdateRecommended
       | _ \<Rightarrow> Compatible))"

definition parse_fulgurant_version :: "'v semver \<Rightarrow> rstr option \<Rightarrow> (nat \<times> nat) option" where
  "parse_fulgurant_version sv header =
     (case header of
        None \<Rightarrow> None
      | Some raw \<Rightarrow> map_option (\<lambda>v. (sv_major sv v, sv_minor sv v)) (sv_parse sv (dropWhile (\<lambda>c. c = 118) (trim raw))))"

definition server_meets_minimum_version :: "'v semver \<Rightarrow> rstr option \<Rightarrow> bool" where
  "server_meets_minimum_version sv header \<longleftrightarrow>
     (case parse_fulgurant_version sv header of
        None \<Rightarrow> False
      | Some (major, minor) \<Rightarrow> (fst MIN_SUPPORTED_FULGURANT_VERSION, snd MIN_SUPPORTED_FULGURANT_VERSION) = (major, minor)
          \<or> fst MIN_SUPPORTED_FULGURANT_VERSION < major
          \<or> fst MIN_SUPPORTED_FULGURANT_VERSION = major \<and> snd MIN_SUPPORTED_FULGURANT_VERSION < minor)"

section \<open>Results of sharing\<close>

record share_result =
  sh_successes :: "(rstr \<times> rstr) list"
  sh_failures :: "(rstr \<times> sync_error) list"

definition is_complete_success :: "share_result \<Rightarrow> bool" where
  "is_complete_success r \<longleftrightarrow> sh_failures r = []"

definition summary_message :: "share_result \<Rightarrow> rstr" where
  "summary_message r =
     (let total = length (sh_successes r) + length (sh_failures r) in
      if is_complete_success r then
        (case sh_successes r of
           (_, expiration) # _ \<Rightarrow>
             lit ''File shared successfully to '' @ show_nat total @ lit '' device(s) until '' @ expiration @ lit ''.''
         | [] \<Rightarrow> if total = 0 then lit ''The file was not shared.'' else lit ''File shared successfully.'')
      else if sh_successes r = [] then lit ''Failed to share file to all '' @ show_nat total @ lit '' device(s).''
      else lit ''File shared to '' @ show_nat (length (sh_successes r)) @ lit ''/'' @ show_nat total @ lit '' device(s). ''
        @ show_nat (length (sh_failures r)) @ lit '' failed.'')"

definition first_failure_reason :: "share_result \<Rightarrow> rstr" where
  "first_failure_reason r =
     (case sh_failures r of [] \<Rightarrow> lit ''unknown error'' | (_, err) # _ \<Rightarrow> sync_error_display err)"

definition profile_scoped_summary :: "share_result \<Rightarrow> rstr" where
  "profile_scoped_summary r =
     (let total = length (sh_successes r) + length (sh_failures r) in
      if total = 0 then lit ''no devices selected''
      else if sh_failures r = [] then
        (case sh_successes r of
           (_, expiration) # _ \<Rightarrow> show_nat total @ lit ''/'' @ show_nat total @ lit '' succeeded until '' @ expiration
         | [] \<Rightarrow> show_nat total @ lit ''/'' @ show_nat total @ lit '' succeeded'')
      else if sh_successes r = [] then lit ''0/'' @ show_nat total @ lit '' failed ('' @ first_failure_reason r @ lit '')''
      else show_nat (length (sh_successes r)) @ lit ''/'' @ show_nat total @ lit '' succeeded, ''
        @ show_nat (length (sh_failures r)) @ lit '' failed ('' @ first_failure_reason r @ lit '')'')"

datatype profile_share_outcome = Completed share_result | Aborted sync_error

fun outcome_summary :: "profile_share_outcome \<Rightarrow> rstr" where
  "outcome_summary (Completed r) = profile_scoped_summary r"
| "outcome_summary (Aborted e) = lit ''aborted ('' @ sync_error_display e @ lit '')''"

fun has_success :: "profile_share_outcome \<Rightarrow> bool" where
  "has_success (Completed r) = (sh_successes r \<noteq> [])"
| "has_success (Aborted e) = False"

fun has_failure :: "profile_share_outcome \<Rightarrow> bool" where
  "has_failure (Completed r) = (sh_failures r \<noteq> [])"
| "has_failure (Aborted e) = True"

definition format_multi_profile_summary :: "(rstr \<times> profile_share_outcome) list \<Rightarrow> rstr" where
  "format_multi_profile_summary outcomes =
     foldl (\<lambda>lines (name, o1). lines @ [10] @ lit ''  '' @ name @ lit '': '' @ outcome_summary o1)
       (if list_ex (\<lambda>(_, o1). has_success o1) outcomes then lit ''File shared:'' else lit ''Failed to share file:'')
       outcomes"

section \<open>Facts\<close>

lemma decompression_caps_bounds:
  assumes "max_size \<le> u64_max"
  shows "\<exists>cap initial. decompression_caps len max_size = Some (cap, initial)
    \<and> cap \<le> max_size \<and> cap \<le> max (len * MAX_COMPRESSION_RATIO) MIN_DECOMPRESSION_BUFFER_BYTES \<and> initial \<le> cap"
  using assms
  by (auto simp: decompression_caps_def clamp_nat_def Let_def sat_mul_def MIN_DECOMPRESSION_BUFFER_BYTES_def
      MAX_COMPRESSION_RATIO_def INITIAL_BUFFER_RATIO_def u64_max_def min_def max_def)

text \<open>Decompressing never panics, and what it returns is within the server's maximum and within 512 times the
  payload, or 64 KiB for a small one.\<close>

lemma decompressed_is_bounded:
  assumes "max_size \<le> u64_max" "\<And>s. from_utf8 (fst (gunzip compressed)) = Some s \<Longrightarrow> blen s \<le> length (fst (gunzip compressed))"
  shows "decompress_content gunzip compressed max_size \<noteq> Inl ClampPanic"
    and "decompress_content gunzip compressed max_size = Inr s \<Longrightarrow>
      blen s \<le> max_size \<and> blen s \<le> max (length compressed * MAX_COMPRESSION_RATIO) MIN_DECOMPRESSION_BUFFER_BYTES"
proof -
  obtain cap initial where c: "decompression_caps (length compressed) max_size = Some (cap, initial)" "cap \<le> max_size"
    "cap \<le> max (length compressed * MAX_COMPRESSION_RATIO) MIN_DECOMPRESSION_BUFFER_BYTES"
    using decompression_caps_bounds [OF assms(1)] by blast
  show "decompress_content gunzip compressed max_size \<noteq> Inl ClampPanic"
    using c(1) by (auto simp: decompress_content_def Let_def split: prod.splits option.splits)
  show "blen s \<le> max_size \<and> blen s \<le> max (length compressed * MAX_COMPRESSION_RATIO) MIN_DECOMPRESSION_BUFFER_BYTES"
    if d: "decompress_content gunzip compressed max_size = Inr s"
  proof -
    have "from_utf8 (fst (gunzip compressed)) = Some s" "length (fst (gunzip compressed)) \<le> cap"
      using d c(1) by (auto simp: decompress_content_def Let_def split: if_splits prod.splits option.splits)
    then show ?thesis using assms(2) [of s] c(2,3) by simp
  qed
qed

text \<open>A server recent enough to be talked to is never so old that the notification about it is shown.\<close>

lemma old_server_notice_is_never_shown:
  assumes "server_meets_minimum_version sv (Some v)"
    and "sv_parse sv (dropWhile (\<lambda>c. c = 118 \<or> c = 86) (trim RECOMMENDED_FULGURANT_VERSION)) = Some r"
    and "sv_major sv r = 0" "sv_minor sv r = 8" and "trim v \<noteq> []" "hd (trim v) \<noteq> 118" "hd (trim v) \<noteq> 86"
    and "\<And>x y. sv_major sv x < sv_major sv y \<Longrightarrow> sv_le sv x y"
  shows "compare_required_version sv v RECOMMENDED_FULGURANT_VERSION \<noteq> UpdateRequired"
proof -
  have d: "dropWhile (\<lambda>c. c = 118) (trim v) = trim v" "dropWhile (\<lambda>c. c = 118 \<or> c = 86) (trim v) = trim v"
    using assms(5,6,7) by (cases "trim v"; simp)+
  obtain c where c: "sv_parse sv (trim v) = Some c" "0 < sv_major sv c \<or> 8 \<le> sv_minor sv c"
    using assms(1) d(1)
    by (auto simp: server_meets_minimum_version_def parse_fulgurant_version_def MIN_SUPPORTED_FULGURANT_VERSION_def
        split: option.splits)
  show ?thesis using c assms(2,3,4,8) d(2)
    by (auto simp: compare_required_version_def Let_def sat_add_def u64_max_def)
qed

end
