(* ===== verification/Sync_Token.thy ===== *)
theory Sync_Token
  imports Sync_Types
begin

text \<open>
  \<^verbatim>\<open>src/fulgur/sync/access_token.rs\<close>: the access token of a profile, shared by any number of threads. The mutex makes
  each critical section one step; the condition variable may wake a thread at any time, and the wait ends after 30
  seconds. The request to the server is a parameter. Times are seconds.
\<close>

section \<open>The state\<close>

record token_state =
  ts_access_token :: "rstr option"
  ts_expires_at :: "int option"
  ts_refreshing :: bool

definition new_token_state :: token_state where
  "new_token_state = \<lparr>ts_access_token = None, ts_expires_at = None, ts_refreshing = False\<rparr>"

definition clear_token :: "token_state \<Rightarrow> token_state" where
  "clear_token s = s\<lparr>ts_access_token := None, ts_expires_at := None\<rparr>"

definition REFRESH_WAIT_TIMEOUT :: int where "REFRESH_WAIT_TIMEOUT = 30"

definition is_token_valid :: "int \<Rightarrow> int \<Rightarrow> bool" where
  "is_token_valid now expires_at \<longleftrightarrow> now + 5 * 60 < expires_at"

definition cached_token :: "int \<Rightarrow> token_state \<Rightarrow> rstr option" where
  "cached_token now s =
     (case (ts_access_token s, ts_expires_at s) of
        (Some tok, Some exp_time) \<Rightarrow> if is_token_valid now exp_time then Some tok else None
      | _ \<Rightarrow> None)"

section \<open>The request\<close>

text \<open>What the server answers: an HTTP error, a body that cannot be read or parsed, or a token with the time it
  expires at, \<open>None\<close> when that is not an RFC 3339 time.\<close>

datatype token_answer =
    TokenHttpError ureq_error
  | TokenBodyError rstr
  | TokenGranted rstr "int option"

record keychain = kc_device_key :: "rstr \<Rightarrow> rstr + rstr option"

definition request_access_token ::
  "keychain \<Rightarrow> (rstr \<times> rstr \<times> rstr \<Rightarrow> token_answer) \<Rightarrow> server_profile \<Rightarrow> sync_error + rstr \<times> int option" where
  "request_access_token kc server p =
     (case sp_server_url p of
        None \<Rightarrow> Inl ServerUrlMissing
      | Some url \<Rightarrow>
          (case sp_email p of
             None \<Rightarrow> Inl EmailMissing
           | Some email \<Rightarrow>
               (case kc_device_key kc (sp_id p) of
                  Inr (Some key) \<Rightarrow>
                    (case server (url @ lit ''/api/token'', key, email) of
                       TokenHttpError e \<Rightarrow> Inl (handle_ureq_error e)
                     | TokenBodyError e \<Rightarrow> Inl (OtherError e)
                     | TokenGranted tok exp_time \<Rightarrow> Inr (tok, exp_time))
                | _ \<Rightarrow> Inl DeviceKeyMissing)))"

section \<open>The threads\<close>

text \<open>A thread in \<open>get_valid_token\<close>: before the first look, before the critical section, waiting since a time,
  requesting, or back with the result.\<close>

datatype token_thread =
    Entering
  | Locking
  | WaitingRefresh int
  | Requesting
  | Returned "sync_error + rstr"

definition first_look :: "int \<Rightarrow> token_state \<Rightarrow> token_thread" where
  "first_look now s = (case cached_token now s of Some tok \<Rightarrow> Returned (Inr tok) | None \<Rightarrow> Locking)"

text \<open>The head of the loop: wait while another thread refreshes, else refresh.\<close>

definition wait_or_refresh :: "int \<Rightarrow> token_state \<Rightarrow> token_thread \<times> token_state" where
  "wait_or_refresh now s =
     (if ts_refreshing s then (WaitingRefresh now, s) else (Requesting, s\<lparr>ts_refreshing := True\<rparr>))"

definition locked_look :: "int \<Rightarrow> token_state \<Rightarrow> token_thread \<times> token_state" where
  "locked_look now s =
     (case cached_token now s of Some tok \<Rightarrow> (Returned (Inr tok), s) | None \<Rightarrow> wait_or_refresh now s)"

definition woken :: "int \<Rightarrow> bool \<Rightarrow> token_state \<Rightarrow> token_thread \<times> token_state" where
  "woken now timed_out s =
     (case cached_token now s of
        Some tok \<Rightarrow> (Returned (Inr tok), s)
      | None \<Rightarrow>
          if timed_out \<and> ts_refreshing s
          then (Returned (Inl (SyncTimeout (lit ''Timed out waiting for token refresh''))), s)
          else wait_or_refresh now s)"

definition refreshed :: "rstr \<Rightarrow> sync_error + rstr \<times> int option \<Rightarrow> token_state \<Rightarrow> token_thread \<times> token_state" where
  "refreshed parse_error answer s =
     (case answer of
        Inl e \<Rightarrow> (Returned (Inl e), s\<lparr>ts_refreshing := False\<rparr>)
      | Inr (tok, None) \<Rightarrow> (Returned (Inl (OtherError parse_error)), s\<lparr>ts_refreshing := False\<rparr>)
      | Inr (tok, Some t) \<Rightarrow>
          (Returned (Inr tok),
           s\<lparr>ts_access_token := Some tok, ts_expires_at := Some t, ts_refreshing := False\<rparr>))"

text \<open>The process: the state, the clock, the threads, and a record of the tokens granted by the server and of when
  each was returned and how long it was valid then.\<close>

record token_system =
  tm_state :: token_state
  tm_now :: int
  tm_threads :: "token_thread list"
  tm_granted :: "(rstr \<times> int) list"

definition set_thread :: "nat \<Rightarrow> token_thread \<times> token_state \<Rightarrow> token_system \<Rightarrow> token_system" where
  "set_thread i r st = st\<lparr>tm_threads := (tm_threads st)[i := fst r], tm_state := snd r\<rparr>"

inductive token_step :: "keychain \<Rightarrow> token_system \<Rightarrow> token_system \<Rightarrow> bool" for kc where
    enters: "token_step kc st (st\<lparr>tm_threads := tm_threads st @ [Entering]\<rparr>)"
  | looks: "\<lbrakk>i < length (tm_threads st); tm_threads st ! i = Entering\<rbrakk>
      \<Longrightarrow> token_step kc st (set_thread i (first_look (tm_now st) (tm_state st), tm_state st) st)"
  | locks: "\<lbrakk>i < length (tm_threads st); tm_threads st ! i = Locking\<rbrakk>
      \<Longrightarrow> token_step kc st (set_thread i (locked_look (tm_now st) (tm_state st)) st)"
  | wakes: "\<lbrakk>i < length (tm_threads st); tm_threads st ! i = WaitingRefresh t;
        timed_out \<longrightarrow> t + REFRESH_WAIT_TIMEOUT \<le> tm_now st\<rbrakk>
      \<Longrightarrow> token_step kc st (set_thread i (woken (tm_now st) timed_out (tm_state st)) st)"
  | requests: "\<lbrakk>i < length (tm_threads st); tm_threads st ! i = Requesting;
        answer = request_access_token kc server p\<rbrakk>
      \<Longrightarrow> token_step kc st
           ((set_thread i (refreshed msg answer (tm_state st)) st)
              \<lparr>tm_granted := (case answer of Inr (tok, Some t) \<Rightarrow> [(tok, t)] | _ \<Rightarrow> []) @ tm_granted st\<rparr>)"
  | clears: "token_step kc st (st\<lparr>tm_state := clear_token (tm_state st)\<rparr>)"
  | passes: "0 \<le> d \<Longrightarrow> token_step kc st (st\<lparr>tm_now := tm_now st + d\<rparr>)"

inductive token_reaches :: "keychain \<Rightarrow> token_system \<Rightarrow> token_system \<Rightarrow> bool" for kc where
    here: "token_reaches kc st st"
  | onward: "\<lbrakk>token_reaches kc st0 st; token_step kc st st'\<rbrakk> \<Longrightarrow> token_reaches kc st0 st'"

definition new_token_system :: "int \<Rightarrow> token_system" where
  "new_token_system now = \<lparr>tm_state = new_token_state, tm_now = now, tm_threads = [], tm_granted = []\<rparr>"

section \<open>One refresh at a time\<close>

definition requesting :: "token_thread list \<Rightarrow> nat" where
  "requesting ts = length (filter (\<lambda>t. t = Requesting) ts)"

lemma requesting_append [simp]: "requesting (ts @ us) = requesting ts + requesting us"
  by (simp add: requesting_def)

lemma requesting_update:
  "i < length ts \<Longrightarrow>
     requesting (ts[i := t]) + (if ts ! i = Requesting then 1 else 0) = requesting ts + (if t = Requesting then 1 else 0)"
proof (induction ts arbitrary: i)
  case (Cons u ts)
  show ?case
  proof (cases i)
    case 0
    then show ?thesis by (simp add: requesting_def)
  next
    case (Suc n)
    then show ?thesis using Cons.IH [of n] Cons.prems by (auto simp: requesting_def)
  qed
qed simp

definition token_ok :: "token_system \<Rightarrow> bool" where
  "token_ok st \<longleftrightarrow>
     requesting (tm_threads st) = (if ts_refreshing (tm_state st) then 1 else 0)
     \<and> (\<forall>tok t. ts_access_token (tm_state st) = Some tok \<longrightarrow> ts_expires_at (tm_state st) = Some t
          \<longrightarrow> (tok, t) \<in> set (tm_granted st))
     \<and> (\<forall>tok. Returned (Inr tok) \<in> set (tm_threads st) \<longrightarrow> tok \<in> fst ` set (tm_granted st))"

lemma cached_token_granted:
  "token_ok st \<Longrightarrow> cached_token (tm_now st) (tm_state st) = Some tok
     \<Longrightarrow> \<exists>t. (tok, t) \<in> set (tm_granted st) \<and> tm_now st + 5 * 60 < t"
  by (auto simp: cached_token_def token_ok_def is_token_valid_def split: option.splits if_splits)

lemma returned_update:
  "Returned r \<in> set (ts[i := t]) \<Longrightarrow> Returned r \<in> set ts \<or> t = Returned r"
  using set_update_subset_insert by fastforce

lemma token_ok_step: "token_step kc st st' \<Longrightarrow> token_ok st \<Longrightarrow> token_ok st'"
proof (induction rule: token_step.induct)
  case (enters st)
  then show ?case by (auto simp: token_ok_def requesting_def)
next
  case (looks i st)
  then show ?case
    using requesting_update [OF looks(1), of "first_look (tm_now st) (tm_state st)"] cached_token_granted [OF looks(3)]
    by (auto simp: token_ok_def set_thread_def first_look_def split: option.splits dest!: returned_update) force+
next
  case (locks i st)
  then show ?case
    using requesting_update [OF locks(1), of "fst (locked_look (tm_now st) (tm_state st))"] cached_token_granted [OF locks(3)]
    by (auto simp: token_ok_def set_thread_def locked_look_def wait_or_refresh_def split: option.splits if_splits
        dest!: returned_update) force+
next
  case (wakes i st t timed_out)
  then show ?case
    using requesting_update [OF wakes(1), of "fst (woken (tm_now st) timed_out (tm_state st))"]
      cached_token_granted [OF wakes(4)]
    by (auto simp: token_ok_def set_thread_def woken_def wait_or_refresh_def split: option.splits if_splits
        dest!: returned_update) force+
next
  case (requests i st answer server p msg)
  then show ?case
    using requesting_update [OF requests(1), of "fst (refreshed msg answer (tm_state st))"]
    by (auto simp: token_ok_def set_thread_def refreshed_def split: option.splits sum.splits if_splits
        dest!: returned_update)
next
  case (clears st)
  then show ?case by (auto simp: token_ok_def clear_token_def)
next
  case (passes d st)
  then show ?case by (simp add: token_ok_def)
qed

lemma token_reaches_ok: "token_reaches kc st0 st \<Longrightarrow> token_ok st0 \<Longrightarrow> token_ok st"
  by (induction rule: token_reaches.induct) (auto intro: token_ok_step)

lemma new_token_ok: "token_ok (new_token_system now)"
  by (simp add: token_ok_def new_token_system_def new_token_state_def requesting_def)

text \<open>What a thread that is not requesting does next ends its wait: with the cached token, as the one thread that
  refreshes, or with a timeout while another refreshes.\<close>

lemma woken_after_timeout:
  "fst (woken now True s) \<noteq> WaitingRefresh t"
  by (auto simp: woken_def wait_or_refresh_def split: option.splits)


definition sample_token_profile :: server_profile where
  "sample_token_profile = (new_server_profile [105] [110])\<lparr>sp_server_url := Some [117], sp_email := Some [101]\<rparr>"

definition sample_keychain :: keychain where
  "sample_keychain = \<lparr>kc_device_key = (\<lambda>_. Inr (Some [107]))\<rparr>"

lemma sample_token_run:
  "token_reaches sample_keychain (new_token_system 0)
     \<lparr>tm_state = \<lparr>ts_access_token = Some [116], ts_expires_at = Some 900, ts_refreshing = False\<rparr>, tm_now = 0,
      tm_threads = [Returned (Inr [116])], tm_granted = [([116], 900)]\<rparr>"
proof -
  let ?st = "\<lambda>s ts g. \<lparr>tm_state = s, tm_now = 0, tm_threads = ts, tm_granted = g\<rparr>"
  let ?s1 = "\<lparr>ts_access_token = None, ts_expires_at = None, ts_refreshing = True\<rparr>"
  have r: "request_access_token sample_keychain (\<lambda>_. TokenGranted [116] (Some 900)) sample_token_profile = Inr ([116], Some 900)"
    by (simp add: request_access_token_def sample_token_profile_def sample_keychain_def)
  have 1: "token_step sample_keychain (new_token_system 0) (?st new_token_state [Entering] [])"
    using token_step.enters [of sample_keychain "new_token_system 0"] by (simp add: new_token_system_def)
  have 2: "token_step sample_keychain (?st new_token_state [Entering] []) (?st new_token_state [Locking] [])"
    using token_step.looks [of 0 "?st new_token_state [Entering] []" sample_keychain]
    by (simp add: set_thread_def first_look_def cached_token_def new_token_state_def)
  have 3: "token_step sample_keychain (?st new_token_state [Locking] []) (?st ?s1 [Requesting] [])"
    using token_step.locks [of 0 "?st new_token_state [Locking] []" sample_keychain]
    by (simp add: set_thread_def locked_look_def wait_or_refresh_def cached_token_def new_token_state_def)
  have 4: "token_step sample_keychain (?st ?s1 [Requesting] [])
      (?st \<lparr>ts_access_token = Some [116], ts_expires_at = Some 900, ts_refreshing = False\<rparr> [Returned (Inr [116])] [([116], 900)])"
    using token_step.requests [of 0 "?st ?s1 [Requesting] []" "Inr ([116], Some 900)" sample_keychain
        "\<lambda>_. TokenGranted [116] (Some 900)" sample_token_profile "[]"] r
    by (simp add: set_thread_def refreshed_def)
  show ?thesis
    by (rule token_reaches.onward [OF token_reaches.onward [OF token_reaches.onward [OF token_reaches.onward
        [OF token_reaches.here 1] 2] 3] 4])
qed


text \<open>\<open>clear_token\<close> does not reach a refresh in flight: with the key, email or server of the profile changed, the
  token the old request obtained is cached after the reset and handed to the next caller.\<close>

lemma cleared_token_comes_back:
  assumes "now + 5 * 60 < t"
  shows "cached_token now (snd (refreshed msg (Inr (old, Some t)) (clear_token s))) = Some old"
  using assms by (simp add: refreshed_def cached_token_def is_token_valid_def)

end
