(* ===== verification/Sync_Share.thy ===== *)
theory Sync_Share
  imports Sync_Token Sanitize "HOL-Library.Multiset"
begin

text \<open>
  \<^verbatim>\<open>src/fulgur/sync/share/\<close>, with the queues of \<^verbatim>\<open>synchronization/begin.rs\<close> and of \<^verbatim>\<open>sse/connection.rs\<close>: sending a file to
  devices (\<^verbatim>\<open>send.rs\<close>), fetching and acknowledging shares, and the decryption pass with its retries (\<^verbatim>\<open>decrypt.rs\<close>). The
  server, the key chain, encryption and gzip are parameters. Times are milliseconds.
\<close>

section \<open>Sending\<close>

record device =
  dv_id :: rstr
  dv_name :: rstr
  dv_public_key :: "rstr option"

record share_file_request =
  sq_content :: rstr
  sq_file_name :: rstr
  sq_device_ids :: "rstr list"
  sq_file_path :: "rstr option"

record share_payload =
  sy_content :: rstr
  sy_file_name :: rstr
  sy_device_id :: rstr
  sy_deduplication :: "rstr option"

datatype share_answer =
    ShareHttpError ureq_error
  | ShareBodyError rstr
  | ShareJson "rstr option"

record share_env =
  sv_valid_key :: "rstr \<Rightarrow> bool"
  sv_hash :: "rstr \<Rightarrow> rstr"
  sv_compress :: "rstr \<Rightarrow> u8 list option"
  sv_encrypt :: "u8 list \<Rightarrow> rstr \<Rightarrow> rstr option"
  sv_server :: "rstr \<Rightarrow> rstr \<Rightarrow> share_payload \<Rightarrow> share_answer"

definition encrypt_content_for_device :: "share_env \<Rightarrow> u8 list \<Rightarrow> rstr \<Rightarrow> sync_error + rstr" where
  "encrypt_content_for_device env compressed key =
     (case sv_encrypt env compressed key of None \<Rightarrow> Inl EncryptionFailed | Some c \<Rightarrow> Inr c)"

definition send_share_request :: "share_env \<Rightarrow> rstr \<Rightarrow> rstr \<Rightarrow> share_payload \<Rightarrow> sync_error + rstr" where
  "send_share_request env url token payload =
     (case sv_server env url token payload of
        ShareHttpError e \<Rightarrow> Inl (handle_ureq_error e)
      | ShareBodyError e \<Rightarrow> Inl (InvalidResponse e)
      | ShareJson None \<Rightarrow> Inl MissingExpirationDate
      | ShareJson (Some date) \<Rightarrow> Inr date)"

fun check_devices :: "share_env \<Rightarrow> device list \<Rightarrow> rstr list \<Rightarrow> sync_error option" where
  "check_devices env devices [] = None"
| "check_devices env devices (i # is) =
     (case find (\<lambda>d. dv_id d = i) devices of
        None \<Rightarrow> Some (OtherError (lit ''Device '' @ i @ lit '' not found''))
      | Some d \<Rightarrow>
          (case dv_public_key d of
             None \<Rightarrow> Some (MissingPublicKey (dv_name d))
           | Some key \<Rightarrow> if \<not> sv_valid_key env key then Some (InvalidPublicKey (dv_name d)) else check_devices env devices is))"

text \<open>What one of the threads does for a device: its result and the payload it sent.\<close>

definition share_to_device ::
  "share_env \<Rightarrow> device list \<Rightarrow> rstr \<Rightarrow> rstr \<Rightarrow> u8 list \<Rightarrow> rstr \<Rightarrow> rstr option \<Rightarrow> rstr
     \<Rightarrow> (rstr \<times> (sync_error + rstr)) \<times> share_payload list" where
  "share_to_device env devices url token compressed file_name dedup i =
     (case find (\<lambda>d. dv_id d = i) devices of
        None \<Rightarrow> ((i, Inl (OtherError (lit ''Device '' @ i @ lit '' not found''))), [])
      | Some d \<Rightarrow>
          (case dv_public_key d of
             None \<Rightarrow> ((i, Inl (MissingPublicKey (dv_name d))), [])
           | Some key \<Rightarrow>
               (case encrypt_content_for_device env compressed key of
                  Inl e \<Rightarrow> ((i, Inl e), [])
                | Inr c \<Rightarrow>
                    let payload = \<lparr>sy_content = c, sy_file_name = file_name, sy_device_id = i, sy_deduplication = dedup\<rparr> in
                    ((i, send_share_request env url token payload), [payload]))))"

definition collect_results :: "(rstr \<times> (sync_error + rstr)) list \<Rightarrow> share_result" where
  "collect_results rs =
     \<lparr>sh_successes = List.map_filter (\<lambda>(i, r). case r of Inr d \<Rightarrow> Some (i, d) | Inl e \<Rightarrow> None) rs,
      sh_failures = List.map_filter (\<lambda>(i, r). case r of Inl e \<Rightarrow> Some (i, e) | Inr d \<Rightarrow> None) rs\<rparr>"

text \<open>The token is the result of \<open>get_valid_token\<close>. The second component is what was sent to the server.\<close>

definition share_file ::
  "share_env \<Rightarrow> server_profile \<Rightarrow> share_file_request \<Rightarrow> device list \<Rightarrow> sync_error + rstr \<Rightarrow> nat
     \<Rightarrow> (sync_error + share_result) \<times> share_payload list" where
  "share_file env profile req devices token_result max_file_size =
     (case sp_server_url profile of
        None \<Rightarrow> (Inl ServerUrlMissing, [])
      | Some server_url \<Rightarrow>
          if sq_content req = [] then (Inl ContentMissing, [])
          else if max_file_size \<noteq> u64_max \<and> max_file_size < blen (sq_content req)
            then (Inl (ContentTooLarge (blen (sq_content req)) max_file_size), [])
          else if sq_file_name req = [] then (Inl FileNameMissing, [])
          else if sq_device_ids req = [] then (Inl DeviceIdsMissing, [])
          else (case check_devices env devices (sq_device_ids req) of
                  Some e \<Rightarrow> (Inl e, [])
                | None \<Rightarrow>
                    (case token_result of
                       Inl e \<Rightarrow> (Inl e, [])
                     | Inr token \<Rightarrow>
                         let dedup = (if sp_is_deduplication profile then map_option (sv_hash env) (sq_file_path req) else None) in
                         (case sv_compress env (sq_content req) of
                            None \<Rightarrow> (Inl CompressionFailed, [])
                          | Some compressed \<Rightarrow>
                              let rs = map (share_to_device env devices (server_url @ lit ''/api/share'') token compressed
                                              (sq_file_name req) dedup) (sq_device_ids req)
                              in (Inr (collect_results (map fst rs)), concat (map snd rs))))))"

section \<open>Receiving\<close>

record shared_file =
  sf_id :: rstr
  sf_file_name :: rstr
  sf_content :: rstr
  sf_device :: rstr

record decrypted_share =
  ds_file_name :: rstr
  ds_content :: rstr

record decryption_outcome =
  oc_key_unavailable :: bool
  oc_key_load_failed :: bool
  oc_decrypt_failures :: nat
  oc_decrypted_count :: nat
  oc_retry_count :: nat
  oc_quarantined_count :: nat

text \<open>The retry state of a share is the number of failed attempts and the time of the next.\<close>

record sync_state =
  ss_pending :: "shared_file list"
  ss_ack :: "rstr set"
  ss_retry :: "rstr \<rightharpoonup> nat \<times> nat"
  ss_decrypted :: "decrypted_share list"
  ss_max :: nat
  ss_in_flight :: bool
  ss_error_signature :: "rstr option"
  ss_notifications :: "rstr list"
  ss_device_name :: "rstr option"
  ss_server_version :: "rstr option"
  ss_server_min_fulgur_version :: "rstr option"

definition new_sync_state :: sync_state where
  "new_sync_state = \<lparr>ss_pending = [], ss_ack = {}, ss_retry = (\<lambda>_. None), ss_decrypted = [], ss_max = u64_max,
     ss_in_flight = False, ss_error_signature = None, ss_notifications = [], ss_device_name = None, ss_server_version = None,
     ss_server_min_fulgur_version = None\<rparr>"

definition MAX_DECRYPT_ATTEMPTS :: nat where "MAX_DECRYPT_ATTEMPTS = 5"
definition DECRYPT_RETRY_BASE_DELAY :: nat where "DECRYPT_RETRY_BASE_DELAY = 2000"
definition KEY_RETRY_DELAY :: nat where "KEY_RETRY_DELAY = 5000"

definition backoff_delay :: "nat \<Rightarrow> nat" where
  "backoff_delay attempts = DECRYPT_RETRY_BASE_DELAY * 2 ^ min (attempts - 1) 16"

text \<open>The server of a profile. Each request first asks for a token; what \<open>get_valid_token\<close> returns may differ from request
  to request, so it is a function of the URL.\<close>

record begin_v2_response =
  bg_device_name :: rstr
  bg_share_ids :: "rstr list"
  bg_max_file_size :: "nat option"
  bg_min_fulgur_version :: "rstr option"

datatype begin_answer =
    BeginHttpError ureq_error
  | BeginAnswer "rstr option" "rstr + rstr + begin_v2_response"

datatype fetch_answer =
    FetchHttpError ureq_error
  | FetchBodyError rstr
  | FetchJsonError rstr
  | FetchedShare shared_file

record 'v share_server =
  ws_semver :: "'v semver"
  ws_profile :: server_profile
  ws_token :: "rstr \<Rightarrow> sync_error + rstr"
  ws_begin :: "rstr \<Rightarrow> rstr \<Rightarrow> rstr \<Rightarrow> begin_answer"
  ws_get :: "rstr \<Rightarrow> rstr \<Rightarrow> nat \<Rightarrow> fetch_answer"
  ws_acknowledge :: "rstr \<Rightarrow> rstr \<Rightarrow> ureq_error option"

text \<open>Fetching one share: the file name is sanitized, and by the doorbell a share too large for the server's limit or one
  whose acknowledgement is pending is left out.\<close>

definition fetch_share_by_id :: "'v share_server \<Rightarrow> rstr \<Rightarrow> nat \<Rightarrow> sync_error + shared_file" where
  "fetch_share_by_id srv i server_max =
     (case sp_server_url (ws_profile srv) of
        None \<Rightarrow> Inl ServerUrlMissing
      | Some server_url \<Rightarrow>
          let url = server_url @ lit ''/api/v2/shares/'' @ i in
          (case ws_token srv url of
             Inl e \<Rightarrow> Inl e
           | Inr token \<Rightarrow>
               (case ws_get srv url token (max_http_single_share_response_bytes server_max) of
                  FetchHttpError e \<Rightarrow> Inl (handle_ureq_error e)
                | FetchBodyError e \<Rightarrow> Inl (OtherError e)
                | FetchJsonError e \<Rightarrow> Inl (InvalidResponse e)
                | FetchedShare s \<Rightarrow> Inr (s\<lparr>sf_file_name := sanitize_filename (sf_file_name s)\<rparr>))))"

definition acknowledge_share_download :: "'v share_server \<Rightarrow> rstr \<Rightarrow> sync_error option" where
  "acknowledge_share_download srv i =
     (case sp_server_url (ws_profile srv) of
        None \<Rightarrow> Some ServerUrlMissing
      | Some server_url \<Rightarrow>
          let url = server_url @ lit ''/api/v2/shares/'' @ i @ lit ''/successful'' in
          (case ws_token srv url of
             Inl e \<Rightarrow> Some e
           | Inr token \<Rightarrow>
               (case ws_acknowledge srv url token of
                  None \<Rightarrow> None
                | Some e \<Rightarrow> if e = StatusCode 404 then None else Some (handle_ureq_error e))))"

definition fetch_single_share_into :: "'v share_server \<Rightarrow> rstr \<Rightarrow> sync_state \<Rightarrow> sync_state" where
  "fetch_single_share_into srv i st =
     (if i \<in> ss_ack st then st
      else (case fetch_share_by_id srv i (ss_max st) of
              Inl e \<Rightarrow> st
            | Inr s \<Rightarrow>
                if share_payload_exceeds_limit (blen (sf_content s)) (ss_max st) then st
                else st\<lparr>ss_ack := insert (sf_id s) (ss_ack st), ss_pending := ss_pending st @ [s]\<rparr>))"

definition MAX_PENDING_SHARES_PER_RESPONSE :: nat where "MAX_PENDING_SHARES_PER_RESPONSE = 1024"

definition perform_begin :: "'v share_server \<Rightarrow> sync_error + begin_v2_response \<times> rstr option" where
  "perform_begin srv =
     (case (sp_server_url (ws_profile srv), sp_public_key (ws_profile srv)) of
        (None, _) \<Rightarrow> Inl ServerUrlMissing
      | (Some server_url, None) \<Rightarrow> Inl MissingEncryptionKey
      | (Some server_url, Some public_key) \<Rightarrow>
          let url = server_url @ lit ''/api/v2/begin'' in
          (case ws_token srv url of
             Inl e \<Rightarrow> Inl e
           | Inr token \<Rightarrow>
               (case ws_begin srv url token public_key of
                  BeginHttpError e \<Rightarrow> Inl (handle_ureq_error e)
                | BeginAnswer version body \<Rightarrow>
                    if \<not> server_meets_minimum_version (ws_semver srv) version
                    then Inl (ServerTooOld MIN_SUPPORTED_FULGURANT_VERSION_DISPLAY)
                    else (case body of
                            Inl e \<Rightarrow> Inl (OtherError e)
                          | Inr (Inl e) \<Rightarrow> Inl (InvalidResponse e)
                          | Inr (Inr b) \<Rightarrow>
                              if MAX_PENDING_SHARES_PER_RESPONSE < length (bg_share_ids b)
                              then Inl (InvalidResponse (lit ''Server returned too many pending share ids (''
                                     @ show_nat (length (bg_share_ids b)) @ lit '' > ''
                                     @ show_nat MAX_PENDING_SHARES_PER_RESPONSE @ lit '')''))
                              else Inr (b, version)))))"

definition list_pending_share_ids :: "'v share_server \<Rightarrow> sync_error + rstr list" where
  "list_pending_share_ids srv = (case perform_begin srv of Inl e \<Rightarrow> Inl e | Inr (b, _) \<Rightarrow> Inr (bg_share_ids b))"

definition fetch_pending_shares_into :: "'v share_server \<Rightarrow> sync_state \<Rightarrow> sync_state" where
  "fetch_pending_shares_into srv st =
     (case list_pending_share_ids srv of Inl e \<Rightarrow> st | Inr ids \<Rightarrow> fold (fetch_single_share_into srv) ids st)"

text \<open>The initial synchronization fetches every announced share, by several threads that take the next index; the
  order in which they finish is a parameter.\<close>

definition fetch_shares_for_ids ::
  "'v share_server \<Rightarrow> (shared_file list \<Rightarrow> shared_file list) \<Rightarrow> rstr list \<Rightarrow> nat \<Rightarrow> shared_file list" where
  "fetch_shares_for_ids srv order ids server_max =
     order (List.map_filter (\<lambda>i. case fetch_share_by_id srv i server_max of Inr s \<Rightarrow> Some s | Inl e \<Rightarrow> None) ids)"

definition queue_pending_shares :: "shared_file list \<Rightarrow> sync_state \<Rightarrow> sync_state" where
  "queue_pending_shares shares st =
     (let queued = sf_id ` set (ss_pending st)
      in st\<lparr>ss_pending := ss_pending st @ filter (\<lambda>s. sf_id s \<notin> queued) shares\<rparr>)"

record initial_sync_outcome =
  io_device_name :: rstr
  io_shares :: "shared_file list"
  io_max_file_size :: "nat option"
  io_min_fulgur_version :: "rstr option"
  io_fulgurant_version :: "rstr option"

definition initial_synchronization ::
  "'v share_server \<Rightarrow> (shared_file list \<Rightarrow> shared_file list) \<Rightarrow> sync_state
     \<Rightarrow> (sync_error + initial_sync_outcome) \<times> sync_state" where
  "initial_synchronization srv order st =
     (case perform_begin srv of
        Inl e \<Rightarrow> (Inl e, st)
      | Inr (b, version) \<Rightarrow>
          let shares = fetch_shares_for_ids srv order (bg_share_ids b) (resolve_server_max_file_size (bg_max_file_size b))
          in (Inr \<lparr>io_device_name = bg_device_name b, io_shares = shares, io_max_file_size = bg_max_file_size b,
                   io_min_fulgur_version = bg_min_fulgur_version b, io_fulgurant_version = version\<rparr>,
              st\<lparr>ss_ack := ss_ack st \<union> sf_id ` set shares\<rparr>))"

text \<open>The version of this program is a parameter.\<close>

definition record_server_min_fulgur_version ::
  "'v semver \<Rightarrow> rstr \<Rightarrow> rstr \<Rightarrow> rstr option \<Rightarrow> sync_state \<Rightarrow> rstr option \<times> sync_state" where
  "record_server_min_fulgur_version sv current name version st =
     ((case version of
         None \<Rightarrow> None
       | Some required \<Rightarrow>
           if compare_required_version sv current required = UpdateRequired
           then Some (name @ lit '': this server needs Fulgur v'' @ required @ lit '' or newer (you have v'' @ current
                        @ lit ''). Please update Fulgur.'')
           else None),
      st\<lparr>ss_server_min_fulgur_version := version\<rparr>)"

definition record_fulgurant_version :: "'v semver \<Rightarrow> rstr \<Rightarrow> rstr option \<Rightarrow> sync_state \<Rightarrow> rstr option \<times> sync_state" where
  "record_fulgurant_version sv name version st =
     (let effective = (case version of Some v \<Rightarrow> v | None \<Rightarrow> FULGURANT_VERSION_WITHOUT_HEADER)
      in (if compare_required_version sv effective RECOMMENDED_FULGURANT_VERSION = UpdateRequired
          then Some (name @ lit '': Fulgur works best with Fulgurant v'' @ RECOMMENDED_FULGURANT_VERSION
                       @ lit '' or newer (this server runs v'' @ effective @ lit ''). Please update Fulgurant.'')
          else None,
          st\<lparr>ss_server_version := version\<rparr>))"

definition record_versions_and_build_notifications ::
  "'v semver \<Rightarrow> rstr \<Rightarrow> rstr \<Rightarrow> rstr option \<Rightarrow> rstr option \<Rightarrow> sync_state \<Rightarrow> rstr list \<times> sync_state" where
  "record_versions_and_build_notifications sv current name min_version version st =
     (let (n1, st1) = record_server_min_fulgur_version sv current name min_version st;
          (n2, st2) = record_fulgurant_version sv name version st1
      in (List.map_filter id [n1, n2], st2))"

definition apply_initial_sync_outcome ::
  "'v semver \<Rightarrow> rstr \<Rightarrow> rstr \<Rightarrow> initial_sync_outcome \<Rightarrow> sync_state \<Rightarrow> (rstr \<times> rstr list) \<times> sync_state" where
  "apply_initial_sync_outcome sv current name oc st =
     (let st1 = st\<lparr>ss_max := resolve_server_max_file_size (io_max_file_size oc), ss_device_name := Some (io_device_name oc)\<rparr>;
          st2 = queue_pending_shares (io_shares oc) st1;
          (notes, st3) = record_versions_and_build_notifications sv current name (io_min_fulgur_version oc)
                           (io_fulgurant_version oc) st2
      in ((io_device_name oc, notes), st3))"

section \<open>The decryption pass\<close>

definition share_due :: "nat \<Rightarrow> sync_state \<Rightarrow> shared_file \<Rightarrow> bool" where
  "share_due now st s = (case ss_retry st (sf_id s) of None \<Rightarrow> True | Some (_, next_at) \<Rightarrow> next_at \<le> now)"

definition any_share_due :: "nat \<Rightarrow> sync_state \<Rightarrow> bool" where
  "any_share_due now st = list_ex (share_due now st) (ss_pending st)"

text \<open>A pass under way: when it began, the limit it read, the shares still to do, those to queue again, the
  identities decrypted and the counts.\<close>

record decryption_pass =
  pw_now :: nat
  pw_max :: nat
  pw_queue :: "shared_file list"
  pw_retry_queue :: "shared_file list"
  pw_decrypted_ids :: "rstr list"
  pw_outcome :: decryption_outcome

definition start_decryption_if_idle :: "nat \<Rightarrow> sync_state \<Rightarrow> sync_state \<times> bool" where
  "start_decryption_if_idle now st =
     (if \<not> any_share_due now st then (st, False)
      else if ss_in_flight st then (st, False)
      else (st\<lparr>ss_in_flight := True\<rparr>, True))"

definition begin_pass :: "nat \<Rightarrow> sync_state \<Rightarrow> decryption_pass \<times> sync_state" where
  "begin_pass now st =
     (\<lparr>pw_now = now, pw_max = ss_max st, pw_queue = filter (share_due now st) (ss_pending st), pw_retry_queue = [],
       pw_decrypted_ids = [],
       pw_outcome = \<lparr>oc_key_unavailable = False, oc_key_load_failed = False, oc_decrypt_failures = 0,
                     oc_decrypted_count = 0, oc_retry_count = 0, oc_quarantined_count = 0\<rparr>\<rparr>,
      st\<lparr>ss_pending := filter (\<lambda>s. \<not> share_due now st s) (ss_pending st)\<rparr>)"

text \<open>One share of the queue with the key at hand: too large, decrypted, failed for good, or to be tried again. What
  became of it is the last component.\<close>

datatype share_fate = Skipped | Opened | Quarantined | Deferred

definition process_share ::
  "(rstr \<Rightarrow> nat \<Rightarrow> rstr option) \<Rightarrow> nat \<Rightarrow> shared_file \<Rightarrow> decryption_pass \<Rightarrow> sync_state
     \<Rightarrow> decryption_pass \<times> sync_state \<times> share_fate" where
  "process_share decode clock s pw st =
     (if share_payload_exceeds_limit (blen (sf_content s)) (pw_max pw) then (pw, st, Skipped)
      else (case decode (sf_content s) (pw_max pw) of
              Some content \<Rightarrow>
                (pw\<lparr>pw_decrypted_ids := pw_decrypted_ids pw @ [sf_id s],
                    pw_outcome := (pw_outcome pw)\<lparr>oc_decrypted_count := oc_decrypted_count (pw_outcome pw) + 1\<rparr>\<rparr>,
                 st\<lparr>ss_decrypted := ss_decrypted st @ [\<lparr>ds_file_name = sf_file_name s, ds_content = content\<rparr>],
                    ss_retry := (ss_retry st)(sf_id s := None)\<rparr>, Opened)
            | None \<Rightarrow>
                let attempts = (case ss_retry st (sf_id s) of Some (a, _) \<Rightarrow> a | None \<Rightarrow> 0) + 1 in
                if MAX_DECRYPT_ATTEMPTS \<le> attempts then
                  (pw\<lparr>pw_outcome := (pw_outcome pw)\<lparr>oc_quarantined_count := oc_quarantined_count (pw_outcome pw) + 1\<rparr>\<rparr>,
                   st\<lparr>ss_retry := (ss_retry st)(sf_id s := None)\<rparr>, Quarantined)
                else
                  (pw\<lparr>pw_retry_queue := pw_retry_queue pw @ [s],
                      pw_outcome := (pw_outcome pw)\<lparr>oc_decrypt_failures := oc_decrypt_failures (pw_outcome pw) + 1\<rparr>\<rparr>,
                   st\<lparr>ss_retry := (ss_retry st)(sf_id s \<mapsto> (attempts, clock + backoff_delay attempts))\<rparr>, Deferred)))"

definition defer_share :: "nat \<Rightarrow> shared_file \<Rightarrow> sync_state \<Rightarrow> sync_state" where
  "defer_share clock s st =
     (let attempts = (case ss_retry st (sf_id s) of Some (a, _) \<Rightarrow> a | None \<Rightarrow> 0)
      in st\<lparr>ss_retry := (ss_retry st)(sf_id s \<mapsto> (attempts, clock + KEY_RETRY_DELAY))\<rparr>)"

definition defer_batch_for_key_retry :: "nat \<Rightarrow> shared_file list \<Rightarrow> sync_state \<Rightarrow> sync_state" where
  "defer_batch_for_key_retry clock shares st = fold (defer_share clock) shares st"

definition pass_without_key :: "bool \<Rightarrow> nat \<Rightarrow> decryption_pass \<Rightarrow> sync_state \<Rightarrow> decryption_pass \<times> sync_state" where
  "pass_without_key load_failed clock pw st =
     (pw\<lparr>pw_queue := [], pw_retry_queue := pw_retry_queue pw @ pw_queue pw,
         pw_outcome := (pw_outcome pw)\<lparr>oc_key_unavailable := \<not> load_failed, oc_key_load_failed := load_failed\<rparr>\<rparr>,
      defer_batch_for_key_retry clock (pw_queue pw) st)"

definition requeue :: "decryption_pass \<Rightarrow> sync_state \<Rightarrow> decryption_pass \<times> sync_state" where
  "requeue pw st =
     (let n = length (pw_retry_queue pw);
          pw1 = pw\<lparr>pw_outcome := (pw_outcome pw)\<lparr>oc_retry_count := n\<rparr>, pw_retry_queue := []\<rparr>
      in (pw1, if 0 < n then st\<lparr>ss_pending := pw_retry_queue pw @ ss_pending st\<rparr> else st))"

definition acknowledge_downloaded_shares :: "'v share_server \<Rightarrow> rstr list \<Rightarrow> sync_state \<Rightarrow> sync_state" where
  "acknowledge_downloaded_shares srv ids st =
     fold (\<lambda>i st. if acknowledge_share_download srv i = None then st\<lparr>ss_ack := ss_ack st - {i}\<rparr> else st) (filter (\<lambda>i. i \<in> ss_ack st) ids) st"

definition error_notification :: "rstr \<Rightarrow> decryption_outcome \<Rightarrow> (rstr \<times> rstr) option" where
  "error_notification name oc =
     (if oc_key_unavailable oc then
        Some (lit ''missing-keychain-private-key'', name @ lit '': Cannot receive shared files because the encryption key is unavailable in the keychain. Fulgur will retry automatically.'')
      else if oc_key_load_failed oc then
        Some (lit ''failed-to-load-keychain-private-key'', name @ lit '': Cannot receive shared files because the encryption key could not be loaded from the keychain. Fulgur will retry automatically.'')
      else if 0 < oc_quarantined_count oc then
        Some (lit ''share-decryption-quarantined'', name @ lit '': Could not decrypt '' @ show_nat (oc_quarantined_count oc)
          @ lit '' shared file(s) after '' @ show_nat MAX_DECRYPT_ATTEMPTS
          @ lit '' attempts. They may have been encrypted for a different device and will not be retried.'')
      else if 0 < oc_decrypt_failures oc then
        Some (lit ''share-decryption-failed'', name @ lit '': Failed to decrypt '' @ show_nat (oc_decrypt_failures oc)
          @ lit '' shared file(s). Fulgur will retry automatically.'')
      else None)"

definition publish_notification :: "rstr \<Rightarrow> decryption_outcome \<Rightarrow> sync_state \<Rightarrow> sync_state" where
  "publish_notification name oc st =
     (case error_notification name oc of
        Some (signature, message) \<Rightarrow>
          if ss_error_signature st \<noteq> Some signature
          then st\<lparr>ss_notifications := ss_notifications st @ [message], ss_error_signature := Some signature\<rparr>
          else st
      | None \<Rightarrow>
          if 0 < oc_decrypted_count oc \<or> oc_retry_count oc = 0 then st\<lparr>ss_error_signature := None\<rparr> else st)"

section \<open>All interleavings\<close>

text \<open>The state, the pass under way, the clock, and a record of what arrived in the queue, was opened (with the text),
  skipped or given up, and of what the window took.\<close>

record share_system =
  sy_state :: sync_state
  sy_pass :: "decryption_pass option"
  sy_clock :: nat
  sy_arrived :: "shared_file list"
  sy_opened :: "(shared_file \<times> rstr) list"
  sy_skipped :: "shared_file list"
  sy_quarantined :: "shared_file list"
  sy_taken :: "decrypted_share list"
  sy_synced :: "initial_sync_outcome list"

definition new_share_system :: "nat \<Rightarrow> share_system" where
  "new_share_system now = \<lparr>sy_state = new_sync_state, sy_pass = None, sy_clock = now, sy_arrived = [], sy_opened = [],
     sy_skipped = [], sy_quarantined = [], sy_taken = [], sy_synced = []\<rparr>"

definition note_arrivals :: "sync_state \<Rightarrow> share_system \<Rightarrow> share_system" where
  "note_arrivals st' sys =
     sys\<lparr>sy_state := st',
         sy_arrived := sy_arrived sys @ drop (length (ss_pending (sy_state sys))) (ss_pending st')\<rparr>"

definition note_fate :: "shared_file \<Rightarrow> (rstr \<Rightarrow> nat \<Rightarrow> rstr option) \<Rightarrow> nat \<Rightarrow> share_fate \<Rightarrow> share_system \<Rightarrow> share_system" where
  "note_fate s decode max_size fate sys =
     (case fate of
        Skipped \<Rightarrow> sys\<lparr>sy_skipped := sy_skipped sys @ [s]\<rparr>
      | Opened \<Rightarrow> sys\<lparr>sy_opened := sy_opened sys @ [(s, the (decode (sf_content s) max_size))]\<rparr>
      | Quarantined \<Rightarrow> sys\<lparr>sy_quarantined := sy_quarantined sys @ [s]\<rparr>
      | Deferred \<Rightarrow> sys)"

text \<open>A version of semver is major, minor, patch, pre-release and build.\<close>

type_synonym version = "nat \<times> nat \<times> nat \<times> rstr \<times> rstr"

inductive share_step :: "share_system \<Rightarrow> share_system \<Rightarrow> bool" where
    fetches: "share_step sys (note_arrivals (fetch_single_share_into (srv :: version share_server) i (sy_state sys)) sys)"
  | synchronizes: "initial_synchronization (srv :: version share_server) order (sy_state sys) = (Inr oc, st)
      \<Longrightarrow> share_step sys (sys\<lparr>sy_state := st, sy_synced := sy_synced sys @ [oc]\<rparr>)"
  | applies: "\<lbrakk>k < length (sy_synced sys); apply_initial_sync_outcome (sv :: version semver) current name (sy_synced sys ! k) (sy_state sys) = (r, st)\<rbrakk>
      \<Longrightarrow> share_step sys (note_arrivals st (sys\<lparr>sy_synced := take k (sy_synced sys) @ drop (Suc k) (sy_synced sys)\<rparr>))"
  | starts: "start_decryption_if_idle (sy_clock sys) (sy_state sys) = (st, True)
      \<Longrightarrow> share_step sys (sys\<lparr>sy_state := st\<rparr>)"
  | finds_none: "\<lbrakk>sy_pass sys = None; ss_in_flight (sy_state sys); \<not> any_share_due (sy_clock sys) (sy_state sys)\<rbrakk>
      \<Longrightarrow> share_step sys (sys\<lparr>sy_state := (sy_state sys)\<lparr>ss_in_flight := False\<rparr>\<rparr>)"
  | begins: "\<lbrakk>sy_pass sys = None; ss_in_flight (sy_state sys); any_share_due (sy_clock sys) (sy_state sys);
        begin_pass (sy_clock sys) (sy_state sys) = (pw, st)\<rbrakk>
      \<Longrightarrow> share_step sys (sys\<lparr>sy_state := st, sy_pass := Some pw\<rparr>)"
  | begins_without_key: "\<lbrakk>sy_pass sys = None; ss_in_flight (sy_state sys); any_share_due (sy_clock sys) (sy_state sys);
        begin_pass (sy_clock sys) (sy_state sys) = (pw, st); pass_without_key load_failed (sy_clock sys) pw st = (pw', st')\<rbrakk>
      \<Longrightarrow> share_step sys (sys\<lparr>sy_state := st', sy_pass := Some pw'\<rparr>)"
  | processes: "\<lbrakk>sy_pass sys = Some pw; pw_queue pw = s # rest;
        process_share decode (sy_clock sys) s (pw\<lparr>pw_queue := rest\<rparr>) (sy_state sys) = (pw', st', fate)\<rbrakk>
      \<Longrightarrow> share_step sys (note_fate s decode (pw_max pw) fate (sys\<lparr>sy_state := st', sy_pass := Some pw'\<rparr>))"
  | requeues: "\<lbrakk>sy_pass sys = Some pw; pw_queue pw = []; pw_retry_queue pw \<noteq> []; requeue pw (sy_state sys) = (pw', st')\<rbrakk>
      \<Longrightarrow> share_step sys (sys\<lparr>sy_state := st', sy_pass := Some pw'\<rparr>)"
  | finishes: "\<lbrakk>sy_pass sys = Some pw; pw_queue pw = []; pw_retry_queue pw = [];
        st' = publish_notification name (pw_outcome pw) (acknowledge_downloaded_shares (srv :: version share_server) (pw_decrypted_ids pw) (sy_state sys))\<rbrakk>
      \<Longrightarrow> share_step sys (sys\<lparr>sy_state := st'\<lparr>ss_in_flight := False\<rparr>, sy_pass := None\<rparr>)"
  | takes: "share_step sys (sys\<lparr>sy_taken := sy_taken sys @ ss_decrypted (sy_state sys),
                              sy_state := (sy_state sys)\<lparr>ss_decrypted := []\<rparr>\<rparr>)"
  | passes: "share_step sys (sys\<lparr>sy_clock := sy_clock sys + d\<rparr>)"

inductive share_reaches :: "share_system \<Rightarrow> share_system \<Rightarrow> bool" where
    here: "share_reaches sys sys"
  | onward: "\<lbrakk>share_reaches sys0 sys; share_step sys sys'\<rbrakk> \<Longrightarrow> share_reaches sys0 sys'"

section \<open>No share is lost\<close>

definition in_pass :: "share_system \<Rightarrow> shared_file multiset" where
  "in_pass sys = (case sy_pass sys of None \<Rightarrow> {#} | Some pw \<Rightarrow> mset (pw_queue pw) + mset (pw_retry_queue pw))"

definition shown_as :: "shared_file \<times> rstr \<Rightarrow> decrypted_share" where
  "shown_as x = \<lparr>ds_file_name = sf_file_name (fst x), ds_content = snd x\<rparr>"

definition attempts_ok :: "(rstr \<rightharpoonup> nat \<times> nat) \<Rightarrow> bool" where
  "attempts_ok m \<longleftrightarrow> (\<forall>x \<in> ran m. fst x < MAX_DECRYPT_ATTEMPTS)"

lemma attempts_ok_simps [simp]:
  "attempts_ok (\<lambda>_. None)"
  "attempts_ok m \<Longrightarrow> attempts_ok (m(i := None))"
  "attempts_ok m \<Longrightarrow> fst x < MAX_DECRYPT_ATTEMPTS \<Longrightarrow> attempts_ok (m(i \<mapsto> x))"
  by (auto simp: attempts_ok_def ran_def split: if_splits)

lemma attempts_ok_at: "attempts_ok m \<Longrightarrow> m i = Some (a, t) \<Longrightarrow> a < MAX_DECRYPT_ATTEMPTS"
  by (auto simp: attempts_ok_def ran_def)

definition share_system_ok :: "share_system \<Rightarrow> bool" where
  "share_system_ok sys \<longleftrightarrow>
     mset (sy_arrived sys) = mset (ss_pending (sy_state sys)) + in_pass sys + mset (map fst (sy_opened sys))
       + mset (sy_skipped sys) + mset (sy_quarantined sys)
     \<and> sy_taken sys @ ss_decrypted (sy_state sys) = map shown_as (sy_opened sys)
     \<and> attempts_ok (ss_retry (sy_state sys))
     \<and> (sy_pass sys \<noteq> None \<longrightarrow> ss_in_flight (sy_state sys))"

lemma fetch_single_facts:
  "\<exists>xs. ss_pending (fetch_single_share_into srv i st) = ss_pending st @ xs"
  "ss_retry (fetch_single_share_into srv i st) = ss_retry st"
  "ss_decrypted (fetch_single_share_into srv i st) = ss_decrypted st"
  "ss_in_flight (fetch_single_share_into srv i st) = ss_in_flight st"
  by (auto simp: fetch_single_share_into_def split: sum.splits)

lemma initial_sync_facts:
  assumes "initial_synchronization srv ord st = (r, st')"
  shows "ss_pending st' = ss_pending st" "ss_retry st' = ss_retry st" "ss_decrypted st' = ss_decrypted st"
    "ss_in_flight st' = ss_in_flight st"
  using assms by (auto simp: initial_synchronization_def Let_def split: sum.splits prod.splits)

lemma applied_facts:
  assumes "apply_initial_sync_outcome sv current name oc st = (r, st')"
  shows "\<exists>xs. ss_pending st' = ss_pending st @ xs" "ss_retry st' = ss_retry st" "ss_decrypted st' = ss_decrypted st"
    "ss_in_flight st' = ss_in_flight st"
  using assms
  by (auto simp: apply_initial_sync_outcome_def queue_pending_shares_def record_versions_and_build_notifications_def
      record_server_min_fulgur_version_def record_fulgurant_version_def Let_def split: prod.splits)

lemma ok_arrivals:
  assumes "share_system_ok sys" "\<exists>xs. ss_pending st' = ss_pending (sy_state sys) @ xs"
    "ss_retry st' = ss_retry (sy_state sys)" "ss_decrypted st' = ss_decrypted (sy_state sys)"
    "ss_in_flight st' = ss_in_flight (sy_state sys)"
  shows "share_system_ok (note_arrivals st' sys)"
  using assms by (auto simp: share_system_ok_def note_arrivals_def in_pass_def)

lemma mset_partition: "mset (filter P xs) + mset (filter (\<lambda>x. \<not> P x) xs) = mset xs"
  by (metis mset_filter multiset_partition)

lemma defer_share_facts [simp]:
  "ss_pending (defer_share c s st) = ss_pending st"
  "ss_decrypted (defer_share c s st) = ss_decrypted st"
  "ss_in_flight (defer_share c s st) = ss_in_flight st"
  by (simp_all add: defer_share_def Let_def)

lemma defer_share_attempts: "attempts_ok (ss_retry st) \<Longrightarrow> attempts_ok (ss_retry (defer_share c s st))"
proof (cases "ss_retry st (sf_id s)")
  case None
  assume "attempts_ok (ss_retry st)"
  then show ?thesis using None by (simp add: defer_share_def MAX_DECRYPT_ATTEMPTS_def)
next
  case (Some x)
  assume "attempts_ok (ss_retry st)"
  then show ?thesis using Some attempts_ok_at [of "ss_retry st" "sf_id s" "fst x" "snd x"]
    by (cases x) (simp add: defer_share_def)
qed

lemma deferred_facts:
  "ss_pending (defer_batch_for_key_retry c ss st) = ss_pending st"
  "ss_decrypted (defer_batch_for_key_retry c ss st) = ss_decrypted st"
  "ss_in_flight (defer_batch_for_key_retry c ss st) = ss_in_flight st"
  "attempts_ok (ss_retry st) \<Longrightarrow> attempts_ok (ss_retry (defer_batch_for_key_retry c ss st))"
  unfolding defer_batch_for_key_retry_def
  by (induction ss arbitrary: st) (simp_all add: defer_share_attempts)

lemma acknowledged_facts:
  "ss_pending (acknowledge_downloaded_shares srv ids st) = ss_pending st"
  "ss_decrypted (acknowledge_downloaded_shares srv ids st) = ss_decrypted st"
  "ss_retry (acknowledge_downloaded_shares srv ids st) = ss_retry st"
proof -
  have "ss_pending (fold (\<lambda>i st. if acknowledge_share_download srv i = None then st\<lparr>ss_ack := ss_ack st - {i}\<rparr> else st) is st) = ss_pending st
      \<and> ss_decrypted (fold (\<lambda>i st. if acknowledge_share_download srv i = None then st\<lparr>ss_ack := ss_ack st - {i}\<rparr> else st) is st) = ss_decrypted st
      \<and> ss_retry (fold (\<lambda>i st. if acknowledge_share_download srv i = None then st\<lparr>ss_ack := ss_ack st - {i}\<rparr> else st) is st) = ss_retry st" for "is"
    by (induction "is" arbitrary: st) auto
  then show "ss_pending (acknowledge_downloaded_shares srv ids st) = ss_pending st"
    "ss_decrypted (acknowledge_downloaded_shares srv ids st) = ss_decrypted st"
    "ss_retry (acknowledge_downloaded_shares srv ids st) = ss_retry st"
    by (simp_all add: acknowledge_downloaded_shares_def)
qed

lemma published_facts:
  "ss_pending (publish_notification n oc st) = ss_pending st"
  "ss_decrypted (publish_notification n oc st) = ss_decrypted st"
  "ss_retry (publish_notification n oc st) = ss_retry st"
  by (auto simp: publish_notification_def split: option.splits)

lemma processed_ok:
  assumes "share_system_ok sys" "sy_pass sys = Some pw" "pw_queue pw = s # rest"
    "process_share decode c s (pw\<lparr>pw_queue := rest\<rparr>) (sy_state sys) = (pw', st', fate)"
  shows "share_system_ok (note_fate s decode (pw_max pw) fate (sys\<lparr>sy_state := st', sy_pass := Some pw'\<rparr>))"
proof (cases "share_payload_exceeds_limit (blen (sf_content s)) (pw_max pw)")
  case True
  then have "pw' = pw\<lparr>pw_queue := rest\<rparr>" "st' = sy_state sys" "fate = Skipped"
    using assms(4) by (auto simp: process_share_def)
  then show ?thesis using assms(1,2,3)
    by (auto simp: share_system_ok_def note_fate_def in_pass_def)
next
  case False
  show ?thesis
  proof (cases "decode (sf_content s) (pw_max pw)")
    case (Some content)
    then show ?thesis using assms False
      by (auto simp: share_system_ok_def note_fate_def in_pass_def process_share_def shown_as_def)
  next
    case None
    then show ?thesis using assms False
      by (auto simp: share_system_ok_def note_fate_def in_pass_def process_share_def Let_def
          split: if_splits option.splits)
  qed
qed

lemma share_step_ok: "share_step sys sys' \<Longrightarrow> share_system_ok sys \<Longrightarrow> share_system_ok sys'"
proof (induction rule: share_step.induct)
  case (fetches sys srv i)
  then show ?case by (intro ok_arrivals fetch_single_facts)
next
  case (synchronizes srv order sys oc st)
  then show ?case using initial_sync_facts [OF synchronizes(1)] by (simp add: share_system_ok_def in_pass_def)
next
  case (applies k sys sv current name r st)
  let ?sys = "sys\<lparr>sy_synced := take k (sy_synced sys) @ drop (Suc k) (sy_synced sys)\<rparr>"
  have "share_system_ok ?sys" using applies(3) by (simp add: share_system_ok_def in_pass_def)
  then show ?case using applied_facts [OF applies(2)] by (intro ok_arrivals) auto
next
  case (starts sys st)
  then show ?case
    by (auto simp: share_system_ok_def start_decryption_if_idle_def in_pass_def split: if_splits)
next
  case (finds_none sys)
  then show ?case by (simp add: share_system_ok_def in_pass_def)
next
  case (begins sys pw st)
  then show ?case using mset_partition [of "share_due (sy_clock sys) (sy_state sys)" "ss_pending (sy_state sys)"]
    by (auto simp: share_system_ok_def begin_pass_def in_pass_def ac_simps)
next
  case (begins_without_key sys pw st load_failed pw' st')
  have st': "st' = defer_batch_for_key_retry (sy_clock sys) (pw_queue pw) st" "pw_queue pw' = []"
    "pw_retry_queue pw' = pw_retry_queue pw @ pw_queue pw"
    using begins_without_key(5) by (auto simp: pass_without_key_def)
  have ok: "attempts_ok (ss_retry st)" using begins_without_key(4,6) by (auto simp: begin_pass_def share_system_ok_def)
  show ?case
    using begins_without_key(1,2,4,6) st' deferred_facts(1-3) deferred_facts(4) [OF ok]
      mset_partition [of "share_due (sy_clock sys) (sy_state sys)" "ss_pending (sy_state sys)"]
    by (auto simp: share_system_ok_def begin_pass_def in_pass_def ac_simps)
next
  case (processes sys pw s rest decode pw' st' fate)
  then show ?case by (intro processed_ok)
next
  case (requeues sys pw pw' st')
  then show ?case by (auto simp: share_system_ok_def requeue_def in_pass_def Let_def)
next
  case (finishes sys pw st' name srv)
  then show ?case
    by (auto simp: share_system_ok_def in_pass_def published_facts acknowledged_facts)
next
  case (takes sys)
  then show ?case by (auto simp: share_system_ok_def in_pass_def)
next
  case (passes sys d)
  then show ?case by (simp add: share_system_ok_def in_pass_def)
qed

lemma new_share_system_ok: "share_system_ok (new_share_system now)"
  by (simp add: share_system_ok_def new_share_system_def new_sync_state_def in_pass_def)

lemma share_reaches_ok: "share_reaches sys0 sys \<Longrightarrow> share_system_ok sys0 \<Longrightarrow> share_system_ok sys"
  by (induction rule: share_reaches.induct) (auto intro: share_step_ok)


definition share_a :: shared_file where
  "share_a = \<lparr>sf_id = lit ''a'', sf_file_name = lit ''f'', sf_content = lit ''c'', sf_device = lit ''d''\<rparr>"

definition server_a :: "version share_server" where
  "server_a = \<lparr>ws_semver = \<lparr>sv_parse = (\<lambda>_. None), sv_major = fst, sv_minor = (\<lambda>v. fst (snd v)), sv_le = (\<lambda>_ _. True)\<rparr>,
     ws_profile = (new_server_profile (lit ''p'') (lit ''n''))\<lparr>sp_server_url := Some (lit ''u'')\<rparr>,
     ws_token = (\<lambda>_. Inr (lit ''t'')), ws_begin = (\<lambda>_ _ _. BeginHttpError UreqConnectionFailed),
     ws_get = (\<lambda>_ _ _. FetchedShare share_a), ws_acknowledge = (\<lambda>_ _. Some UreqConnectionFailed)\<rparr>"

definition one_fetched :: share_system where
  "one_fetched = note_arrivals (fetch_single_share_into server_a (lit ''a'') new_sync_state) (new_share_system 0)"

lemma one_fetched_reached: "share_reaches (new_share_system 0) one_fetched"
  unfolding one_fetched_def
  using onward [OF here fetches [of "new_share_system 0" server_a "lit ''a''"]] by (simp add: new_share_system_def)


section \<open>Duplicate deliveries\<close>

lemma doorbell_is_suppressed: "i \<in> ss_ack st \<Longrightarrow> fetch_single_share_into srv i st = st"
  by (simp add: fetch_single_share_into_def)

lemma failed_acknowledgement_stays_pending:
  assumes "\<And>i. (acknowledge_share_download srv i = None) = False"
  shows "acknowledge_downloaded_shares srv ids st = st"
proof -
  have "fold (\<lambda>i st. if acknowledge_share_download srv i = None then st\<lparr>ss_ack := ss_ack st - {i}\<rparr> else st) is st = st" for "is"
    by (induction "is") (simp_all add: assms del: not_None_eq)
  then show ?thesis by (simp add: acknowledge_downloaded_shares_def)
qed

text \<open>The initial synchronization does not look at the pending acknowledgements: a share that was opened and whose
  acknowledgement failed is queued again after a reconnection.\<close>

lemma reconnection_queues_opened_share_again:
  assumes "sf_id s \<in> ss_ack st" "ss_pending st = []" "perform_begin srv = Inr (b, v)" "bg_share_ids b = [i]"
    "fetch_share_by_id srv i (resolve_server_max_file_size (bg_max_file_size b)) = Inr s"
    "initial_synchronization srv (\<lambda>x. x) st = (Inr oc, st1)"
    "apply_initial_sync_outcome sv current name oc st1 = (r, st2)"
  shows "ss_pending st2 = [s]"
  using assms
  by (auto simp: initial_synchronization_def fetch_shares_for_ids_def apply_initial_sync_outcome_def queue_pending_shares_def
      record_versions_and_build_notifications_def record_server_min_fulgur_version_def record_fulgurant_version_def
      Let_def map_filter_simps split: prod.splits)

text \<open>A server too old to be supported is refused before anything of its answer is used.\<close>

lemma old_server_changes_nothing:
  assumes "perform_begin srv = Inl e"
  shows "initial_synchronization srv order st = (Inl e, st)" "fetch_pending_shares_into srv st = st"
  using assms by (simp_all add: initial_synchronization_def fetch_pending_shares_into_def list_pending_share_ids_def)

lemma begun_with_supported_server:
  assumes "perform_begin srv = Inr (b, v)"
  shows "server_meets_minimum_version (ws_semver srv) v" "length (bg_share_ids b) \<le> MAX_PENDING_SHARES_PER_RESPONSE"
  using assms
  by (auto simp: perform_begin_def Let_def split: option.splits sum.splits begin_answer.splits if_splits)

section \<open>What is sent\<close>

definition addressed :: "share_env \<Rightarrow> device list \<Rightarrow> share_file_request \<Rightarrow> share_payload \<Rightarrow> bool" where
  "addressed env devices req p \<longleftrightarrow>
     sy_device_id p \<in> set (sq_device_ids req) \<and> sy_file_name p = sq_file_name req
     \<and> (\<exists>d key compressed. find (\<lambda>d. dv_id d = sy_device_id p) devices = Some d \<and> dv_public_key d = Some key
          \<and> sv_valid_key env key \<and> sv_compress env (sq_content req) = Some compressed
          \<and> sv_encrypt env compressed key = Some (sy_content p))"

lemma checked_devices:
  "check_devices env devices is = None \<Longrightarrow> i \<in> set is \<Longrightarrow>
     \<exists>d key. find (\<lambda>d. dv_id d = i) devices = Some d \<and> dv_public_key d = Some key \<and> sv_valid_key env key"
  by (induction "is") (auto split: option.splits if_splits)

lemma share_to_device_id: "fst (fst (share_to_device env devices url token c f dd i)) = i"
  by (auto simp: share_to_device_def Let_def split: option.splits sum.splits)

lemma share_to_device_payload:
  assumes "p \<in> set (snd (share_to_device env devices url token c (sq_file_name req) dd i))"
    "check_devices env devices (sq_device_ids req) = None" "i \<in> set (sq_device_ids req)"
    "sv_compress env (sq_content req) = Some c"
  shows "addressed env devices req p"
  using assms(1,3,4) checked_devices [OF assms(2,3)]
  by (auto simp: share_to_device_def addressed_def encrypt_content_for_device_def Let_def split: option.splits sum.splits)

lemma collected_ids:
  "mset (map fst (sh_successes (collect_results rs))) + mset (map fst (sh_failures (collect_results rs))) = mset (map fst rs)"
  by (induction rs) (auto simp: collect_results_def map_filter_simps split: sum.splits)

lemma collected_for:
  "image_mset fst (mset (sh_successes (collect_results (map (\<lambda>i. fst (share_to_device env ds url token c f dd i)) is))))
     + image_mset fst (mset (sh_failures (collect_results (map (\<lambda>i. fst (share_to_device env ds url token c f dd i)) is))))
   = mset is"
  using collected_ids [of "map (\<lambda>i. fst (share_to_device env ds url token c f dd i)) is"]
  by (simp add: o_def share_to_device_id)

definition within_limit :: "nat \<Rightarrow> rstr \<Rightarrow> bool" where
  "within_limit max_size content \<longleftrightarrow> max_size = u64_max \<or> blen content \<le> max_size"

text \<open>C39: Sharing a file either fails before anything is sent, or has one result per requested device, sent only contents
  within the server's limit, and each payload is the compressed text encrypted with the valid key registered for the
  device it is addressed to.\<close>

theorem shares_are_encrypted_for_their_device:
  "case share_file env profile req devices token max_size of
     (Inl e, sent) \<Rightarrow> sent = []
   | (Inr r, sent) \<Rightarrow>
       mset (map fst (sh_successes r)) + mset (map fst (sh_failures r)) = mset (sq_device_ids req)
       \<and> within_limit max_size (sq_content req) \<and> sq_content req \<noteq> [] \<and> sq_device_ids req \<noteq> []
       \<and> list_all (addressed env devices req) sent"
  by (auto simp: share_file_def Let_def collected_for o_def list_all_iff within_limit_def
      intro: share_to_device_payload split: option.splits sum.splits)

end
