(* ===== verification/Sync_Sse.thy ===== *)
theory Sync_Sse
  imports Sync_Share Utf8
begin

text \<open>
  \<^verbatim>\<open>src/fulgur/sync/sse/\<close> and \<^verbatim>\<open>utils/retry.rs\<close>: the stream of server-sent events of a profile. Reading lines with the
  read deadline, the events of the lines, the worker that connects and connects again, and what the window does with an
  event. The bytes arrive as ticks, each one call of \<open>read\<close>: what it returned, the time after it and whether the
  shutdown flag was set before it. Times are milliseconds; the JSON parsers are parameters.
\<close>

section \<open>Lines\<close>

definition MAX_SSE_EVENT_DATA_BYTES :: nat where "MAX_SSE_EVENT_DATA_BYTES = MAX_SYNC_SHARE_PAYLOAD_BYTES * 10"
definition SSE_READ_DEADLINE :: nat where "SSE_READ_DEADLINE = 60000"

datatype read_outcome = EndOfStream | ByteRead u8 | WouldBlock | ReadFailed rstr

record read_tick =
  rt_shutdown :: bool
  rt_outcome :: read_outcome
  rt_time :: nat

datatype line_result = LineRead rstr | StreamEnd | LineShutdown | LineIo rstr

definition oversize_line_message :: rstr where
  "oversize_line_message = lit ''SSE line exceeds size limit ('' @ show_nat MAX_SSE_EVENT_DATA_BYTES
     @ lit '' bytes), connection presumed malicious''"

definition dead_stream_message :: rstr where
  "dead_stream_message = lit ''no data received within '' @ show_nat (SSE_READ_DEADLINE div 1000)
     @ lit ''s, connection presumed dead''"

text \<open>The line so far and the time of its last byte; \<open>None\<close> while the ticks have not ended the line. The result has the
  time of the last tick and the ticks left.\<close>

fun read_line_loop :: "u8 list \<Rightarrow> nat \<Rightarrow> read_tick list \<Rightarrow> (line_result \<times> nat \<times> read_tick list) option" where
  "read_line_loop line last_byte [] = None"
| "read_line_loop line last_byte (t # ts) =
     (if rt_shutdown t then Some (LineShutdown, rt_time t, ts)
      else (case rt_outcome t of
              EndOfStream \<Rightarrow>
                Some (if line = [] then StreamEnd else LineRead (from_utf8_lossy line), rt_time t, ts)
            | ByteRead b \<Rightarrow>
                if b = 10 then
                  Some (LineRead (from_utf8_lossy (if line \<noteq> [] \<and> last line = 13 then butlast line else line)), rt_time t, ts)
                else if MAX_SSE_EVENT_DATA_BYTES \<le> length line then Some (LineIo oversize_line_message, rt_time t, ts)
                else read_line_loop (line @ [b]) (rt_time t) ts
            | WouldBlock \<Rightarrow>
                if SSE_READ_DEADLINE < rt_time t - last_byte then Some (LineIo dead_stream_message, rt_time t, ts)
                else read_line_loop line last_byte ts
            | ReadFailed e \<Rightarrow> Some (LineIo e, rt_time t, ts)))"

definition read_line_with_timeout :: "nat \<Rightarrow> read_tick list \<Rightarrow> (line_result \<times> nat \<times> read_tick list) option" where
  "read_line_with_timeout now ts = read_line_loop [] now ts"

section \<open>Events\<close>

datatype sse_event =
    Heartbeat rstr
  | ShareAvailable rstr
  | PendingSharesSnapshot
  | ConnectionStatusChanged
  | SseError rstr

record sse_json =
  js_heartbeat :: "rstr \<Rightarrow> rstr + rstr"
  js_share :: "rstr \<Rightarrow> rstr + rstr"

definition sse_parse :: "sse_json \<Rightarrow> rstr \<Rightarrow> rstr \<Rightarrow> sse_event" where
  "sse_parse js event_type data =
     (if event_type = lit ''heartbeat'' then
        (case js_heartbeat js data of Inr timestamp \<Rightarrow> Heartbeat timestamp | Inl e \<Rightarrow> Heartbeat [])
      else if event_type = lit ''share_available'' then
        (case js_share js data of
           Inr i \<Rightarrow> ShareAvailable i
         | Inl e \<Rightarrow> SseError (lit ''Invalid share notification: '' @ e))
      else if event_type = lit ''pending_shares'' then PendingSharesSnapshot
      else if event_type = [] then SseError (lit ''Unknown event with no event type'')
      else SseError (lit ''Unknown event type: '' @ event_type))"

text \<open>\<open>str::trim_start_matches\<close> of a string takes the prefix away as often as it is there.\<close>

function trim_start_matches :: "rstr \<Rightarrow> rstr \<Rightarrow> rstr" where
  "trim_start_matches p s =
     (if p \<noteq> [] \<and> starts_with p s then trim_start_matches p (drop (length p) s) else s)"
  by pat_completeness auto
termination by (relation "measure (\<lambda>(p, s). length s)")
  (auto simp: starts_with_def, metis diff_less length_greater_0_conv take_Nil)

declare trim_start_matches.simps [simp del]

record sse_parser =
  sp_event_type :: rstr
  sp_data :: rstr

definition new_sse_parser :: sse_parser where "new_sse_parser = \<lparr>sp_event_type = [], sp_data = []\<rparr>"

definition feed_line :: "sse_json \<Rightarrow> rstr \<Rightarrow> sse_parser \<Rightarrow> sse_event option \<times> sse_parser" where
  "feed_line js line p =
     (if starts_with (lit ''event:'') line then
        (None, p\<lparr>sp_event_type := trim (trim_start_matches (lit ''event:'') line)\<rparr>)
      else if starts_with (lit ''data:'') line then
        let fragment = trim (trim_start_matches (lit ''data:'') line) in
        if MAX_SSE_EVENT_DATA_BYTES < blen (sp_data p) + blen fragment then (None, new_sse_parser)
        else (None, p\<lparr>sp_data := sp_data p @ fragment\<rparr>)
      else if line = [] \<and> sp_data p \<noteq> [] then (Some (sse_parse js (sp_event_type p) (sp_data p)), new_sse_parser)
      else (None, p))"

section \<open>A stream\<close>

datatype stream_end = StillOpen sse_parser | Ended | StreamShutdown | StreamFailed rstr

text \<open>All lines of the ticks one after the other: the events and how the stream stands.\<close>

lemma read_line_shorter: "read_line_loop l n ts = Some (r, t, ts') \<Longrightarrow> length ts' < length ts"
  by (induction l n ts rule: read_line_loop.induct)
     (auto split: if_splits read_outcome.splits)

function sse_read :: "sse_json \<Rightarrow> sse_parser \<Rightarrow> nat \<Rightarrow> read_tick list \<Rightarrow> sse_event list \<times> stream_end" where
  "sse_read js p now ts =
     (case read_line_with_timeout now ts of
        None \<Rightarrow> ([], StillOpen p)
      | Some (LineRead line, t, ts') \<Rightarrow>
          (case feed_line js line p of (ev, p') \<Rightarrow>
             case sse_read js p' t ts' of (evs, e) \<Rightarrow>
               ((case ev of None \<Rightarrow> evs | Some x \<Rightarrow> x # evs), e))
      | Some (StreamEnd, t, ts') \<Rightarrow> ([], Ended)
      | Some (LineShutdown, t, ts') \<Rightarrow> ([], StreamShutdown)
      | Some (LineIo e, t, ts') \<Rightarrow> ([SseError e], StreamFailed e))"
  by pat_completeness auto
termination by (relation "measure (\<lambda>(js, p, now, ts). length ts)")
  (auto simp: read_line_with_timeout_def read_line_shorter)

declare sse_read.simps [simp del]

section \<open>Well-formed frames are decoded\<close>

definition eol :: "bool \<Rightarrow> rstr" where "eol crlf = (if crlf then [13, 10] else [10])"

definition frame :: "bool \<Rightarrow> rstr \<times> rstr \<Rightarrow> rstr" where
  "frame crlf f = lit ''event: '' @ fst f @ eol crlf @ lit ''data: '' @ snd f @ eol crlf @ eol crlf"

text \<open>What a field may hold: a text without line ends and without white space around it, of bounded size.\<close>

definition field_ok :: "rstr \<Rightarrow> bool" where
  "field_ok s \<longleftrightarrow> trim s = s \<and> list_all (\<lambda>c. is_scalar c \<and> c \<noteq> 10 \<and> c \<noteq> 13) s \<and> blen s + 8 \<le> MAX_SSE_EVENT_DATA_BYTES"

text \<open>Ticks that carry the bytes with any pauses shorter than the deadline.\<close>

fun carries :: "u8 list \<Rightarrow> nat \<Rightarrow> read_tick list \<Rightarrow> bool" where
  "carries bs now [] \<longleftrightarrow> bs = []"
| "carries bs now (t # ts) \<longleftrightarrow> \<not> rt_shutdown t \<and>
     (case rt_outcome t of
        WouldBlock \<Rightarrow> rt_time t - now \<le> SSE_READ_DEADLINE \<and> carries bs now ts
      | ByteRead b \<Rightarrow> bs \<noteq> [] \<and> hd bs = b \<and> carries (tl bs) (rt_time t) ts
      | _ \<Rightarrow> False)"

definition without_cr :: "u8 list \<Rightarrow> u8 list" where
  "without_cr l = (if l \<noteq> [] \<and> last l = 13 then butlast l else l)"

lemma carried_line:
  assumes "carries (bs @ 10 # rest) now ts" "10 \<notin> set bs" "length acc + length bs \<le> MAX_SSE_EVENT_DATA_BYTES"
  shows "\<exists>t ts'. read_line_loop acc now ts = Some (LineRead (from_utf8_lossy (without_cr (acc @ bs))), t, ts')
      \<and> carries rest t ts'"
  using assms
proof (induction acc now ts arbitrary: bs rule: read_line_loop.induct)
  case (1 line n)
  then show ?case by simp
next
  case (2 line n t ts)
  show ?case
  proof (cases "rt_outcome t")
    case (ByteRead b)
    show ?thesis
    proof (cases bs)
      case Nil
      then show ?thesis using 2(3) ByteRead by (auto simp: without_cr_def)
    next
      case (Cons c cs)
      then have c: "c = b" "b \<noteq> 10" "carries (cs @ 10 # rest) (rt_time t) ts" "\<not> rt_shutdown t"
        using 2(3,4) ByteRead by auto
      have l: "\<not> MAX_SSE_EVENT_DATA_BYTES \<le> length line" using 2(5) Cons by simp
      have "\<exists>u ts'. read_line_loop (line @ [b]) (rt_time t) ts
            = Some (LineRead (from_utf8_lossy (without_cr ((line @ [b]) @ cs))), u, ts') \<and> carries rest u ts'"
        using 2(1) [OF c(4) ByteRead c(2) l c(3)] 2(4,5) Cons by simp
      then show ?thesis using ByteRead c l Cons by simp
    qed
  next
    case WouldBlock
    then have "\<not> SSE_READ_DEADLINE < rt_time t - n" "carries (bs @ 10 # rest) n ts" "\<not> rt_shutdown t" using 2(3) by auto
    then show ?thesis using 2(2) [OF _ WouldBlock, of bs] 2(4,5) WouldBlock by simp
  qed (use 2(3) in simp_all)
qed

lemma carried_nothing: "carries [] now ts \<Longrightarrow> read_line_loop acc now ts = None"
  by (induction acc now ts rule: read_line_loop.induct) (auto split: read_outcome.splits)

lemma ascii_units: "u \<in> set (code_units c) \<Longrightarrow> u < 128 \<Longrightarrow> u = c"
  by (auto simp: code_units_def split: if_splits)

lemma ascii_in_utf8:
  assumes "b \<in> set (utf8 s)" "unat b < 128" "list_all (\<lambda>c. is_scalar c \<and> P c) s"
  shows "unat b \<in> set s"
proof -
  have "unat b \<in> set (map unat (utf8 s))" using assms(1) by simp
  then have "unat b \<in> set (concat (map code_units s))"
    using assms(3) by (subst (asm) map_unat_utf8) (auto simp: list_all_iff)
  then obtain c where "c \<in> set s" "unat b \<in> set (code_units c)" by auto
  then show ?thesis using ascii_units assms(2) by blast
qed

text \<open>One line of a frame.\<close>

lemma carried_text:
  assumes "carries (utf8 (s @ eol crlf @ rest)) now ts" "list_all (\<lambda>c. is_scalar c \<and> c \<noteq> 10 \<and> c \<noteq> 13) s"
    "blen s + 1 \<le> MAX_SSE_EVENT_DATA_BYTES"
  shows "\<exists>t ts'. read_line_with_timeout now ts = Some (LineRead s, t, ts') \<and> carries (utf8 rest) t ts'"
proof -
  let ?bs = "utf8 s @ (if crlf then [13] else [])"
  have nl: "10 \<notin> set (utf8 s)" "13 \<notin> set (utf8 s)"
    using ascii_in_utf8 [of "10" s "\<lambda>c. c \<noteq> 10 \<and> c \<noteq> 13"] ascii_in_utf8 [of "13" s "\<lambda>c. c \<noteq> 10 \<and> c \<noteq> 13"] assms(2)
    by (auto simp: list_all_iff)
  have e: "utf8 (s @ eol crlf @ rest) = ?bs @ 10 # utf8 rest" by (simp add: eol_def utf8_char_def)
  have "\<exists>t ts'. read_line_loop [] now ts = Some (LineRead (from_utf8_lossy (without_cr ([] @ ?bs))), t, ts') \<and> carries (utf8 rest) t ts'"
    using assms(1,3) nl unfolding e by (intro carried_line) (auto simp: length_utf8)
  moreover have "without_cr ?bs = utf8 s"
    using nl(2) by (auto simp: without_cr_def) (metis last_in_set)
  ultimately show ?thesis
    using utf8_decode_encode(2) [of s] assms(2) by (auto simp: read_line_with_timeout_def list_all_iff)
qed

lemma trim_space: "trim s = s \<Longrightarrow> trim (32 # s) = s"
  by (simp add: trim_def trim_start_def is_ws_def)

lemma event_line: "feed_line js (lit ''event: '' @ t) p = (None, p\<lparr>sp_event_type := trim (32 # t)\<rparr>)"
  by (simp add: feed_line_def starts_with_def trim_start_matches.simps)

lemma data_line:
  assumes "trim d = d" "blen (sp_data p) + blen d \<le> MAX_SSE_EVENT_DATA_BYTES"
  shows "feed_line js (lit ''data: '' @ d) p = (None, p\<lparr>sp_data := sp_data p @ d\<rparr>)"
  using assms trim_space [OF assms(1)]
  by (simp add: feed_line_def starts_with_def trim_start_matches.simps)

lemma sse_read_line:
  assumes "read_line_with_timeout now ts = Some (LineRead line, t, ts')"
  shows "sse_read js p now ts =
    (case sse_read js (snd (feed_line js line p)) t ts' of (evs, e) \<Rightarrow>
       ((case fst (feed_line js line p) of None \<Rightarrow> evs | Some x \<Rightarrow> x # evs), e))"
  using assms by (subst sse_read.simps) (simp split: prod.splits)

lemma carried_frame:
  assumes "field_ok t" "field_ok d" "d \<noteq> []" "carries (utf8 (frame crlf (t, d) @ rest)) now ts"
  shows "\<exists>u ts'. carries (utf8 rest) u ts'
    \<and> sse_read js new_sse_parser now ts = (let (evs, e) = sse_read js new_sse_parser u ts' in (sse_parse js t d # evs, e))"
proof -
  let ?d = "lit ''data: '' @ d" and ?t = "lit ''event: '' @ t"
  have ok: "list_all (\<lambda>c. is_scalar c \<and> c \<noteq> 10 \<and> c \<noteq> 13) ?t" "list_all (\<lambda>c. is_scalar c \<and> c \<noteq> 10 \<and> c \<noteq> 13) ?d"
    "blen ?t + 1 \<le> MAX_SSE_EVENT_DATA_BYTES" "blen ?d + 1 \<le> MAX_SSE_EVENT_DATA_BYTES"
    "trim t = t" "trim d = d" "blen d \<le> MAX_SSE_EVENT_DATA_BYTES"
    using assms(1,2) by (simp_all add: field_ok_def is_scalar_def len_utf8_def)
  obtain u1 ts1 where 1: "read_line_with_timeout now ts = Some (LineRead ?t, u1, ts1)"
    "carries (utf8 (?d @ eol crlf @ eol crlf @ rest)) u1 ts1"
    using carried_text [of ?t crlf "?d @ eol crlf @ eol crlf @ rest" now ts] ok(1,3) assms(4)
    unfolding frame_def by auto
  obtain u2 ts2 where 2: "read_line_with_timeout u1 ts1 = Some (LineRead ?d, u2, ts2)"
    "carries (utf8 ([] @ eol crlf @ rest)) u2 ts2"
    using carried_text [of ?d crlf "[] @ eol crlf @ rest" u1 ts1] ok(2,4) 1(2) by auto
  obtain u3 ts3 where 3: "read_line_with_timeout u2 ts2 = Some (LineRead [], u3, ts3)" "carries (utf8 rest) u3 ts3"
    using carried_text [of "[]" crlf rest u2 ts2] 2(2) by (auto simp: MAX_SSE_EVENT_DATA_BYTES_def MAX_SYNC_SHARE_PAYLOAD_BYTES_def)
  let ?p1 = "new_sse_parser\<lparr>sp_event_type := t\<rparr>"
  have "feed_line js ?t new_sse_parser = (None, ?p1)" using event_line trim_space [OF ok(5)] by simp
  moreover have "feed_line js ?d ?p1 = (None, ?p1\<lparr>sp_data := d\<rparr>)"
    using data_line [of d ?p1] ok(6,7) by (simp add: new_sse_parser_def)
  moreover have "feed_line js [] (?p1\<lparr>sp_data := d\<rparr>) = (Some (sse_parse js t d), new_sse_parser)"
    using assms(3) by (simp add: feed_line_def starts_with_def)
  ultimately have "sse_read js new_sse_parser now ts = (let (evs, e) = sse_read js new_sse_parser u3 ts3 in (sse_parse js t d # evs, e))"
    using sse_read_line [OF 1(1)] sse_read_line [OF 2(1)] sse_read_line [OF 3(1)]
    by (simp add: Let_def split: prod.splits)
  then show ?thesis using 3(2) by blast
qed

text \<open>C40: Events sent in well-formed frames, with either line end and any pauses shorter than the read deadline, are all
  decoded, in order, and nothing is left over.\<close>

theorem sse_frames_are_decoded:
  assumes "list_all (\<lambda>(t, d). field_ok t \<and> field_ok d \<and> d \<noteq> []) fs"
    and "carries (utf8 (concat (map (frame crlf) fs))) now ts"
  shows "sse_read js new_sse_parser now ts = (map (\<lambda>(t, d). sse_parse js t d) fs, StillOpen new_sse_parser)"
  using assms
proof (induction fs arbitrary: now ts)
  case Nil
  then show ?case by (subst sse_read.simps) (simp add: read_line_with_timeout_def carried_nothing)
next
  case (Cons f fs)
  obtain t d where f: "f = (t, d)" by (cases f)
  have "field_ok t" "field_ok d" "d \<noteq> []" using Cons.prems(1) f by auto
  moreover have "carries (utf8 (frame crlf (t, d) @ concat (map (frame crlf) fs))) now ts" using Cons.prems(2) f by simp
  ultimately obtain u ts' where "carries (utf8 (concat (map (frame crlf) fs))) u ts'"
    "sse_read js new_sse_parser now ts = (let (evs, e) = sse_read js new_sse_parser u ts' in (sse_parse js t d # evs, e))"
    using carried_frame by blast
  then show ?case using Cons.IH [of u ts'] Cons.prems(1) f by simp
qed

definition sample_json :: sse_json where "sample_json = \<lparr>js_heartbeat = Inr, js_share = Inr\<rparr>"

definition sample_ticks :: "read_tick list" where
  "sample_ticks = \<lparr>rt_shutdown = False, rt_outcome = WouldBlock, rt_time = 50000\<rparr>
     # map (\<lambda>b. \<lparr>rt_shutdown = False, rt_outcome = ByteRead b, rt_time = 50001\<rparr>)
         (utf8 (frame True (lit ''heartbeat'', lit ''1'')))"

lemma sse_frames_are_decoded_witness:
  "sse_read sample_json new_sse_parser 0 sample_ticks = ([Heartbeat (lit ''1'')], StillOpen new_sse_parser)"
proof -
  have c: "carries bs 50001 (map (\<lambda>b. \<lparr>rt_shutdown = False, rt_outcome = ByteRead b, rt_time = 50001\<rparr>) bs)" for bs
    by (induction bs) simp_all
  have c0: "carries bs 0 (map (\<lambda>b. \<lparr>rt_shutdown = False, rt_outcome = ByteRead b, rt_time = 50001\<rparr>) bs)" for bs
    using c by (cases bs) simp_all
  have t: "field_ok (lit ''heartbeat'')" "field_ok (lit ''1'')" "lit ''1'' \<noteq> []"
    by (simp_all add: field_ok_def is_scalar_def len_utf8_def trim_def trim_start_def trim_end_def is_ws_def
        MAX_SSE_EVENT_DATA_BYTES_def MAX_SYNC_SHARE_PAYLOAD_BYTES_def)
  have "sse_read sample_json new_sse_parser 0 sample_ticks
      = (map (\<lambda>(t, d). sse_parse sample_json t d) [(lit ''heartbeat'', lit ''1'')], StillOpen new_sse_parser)"
    using t c0 [of "utf8 (frame True (lit ''heartbeat'', lit ''1''))"]
    by (intro sse_frames_are_decoded [of _ True]) (simp_all add: sample_ticks_def SSE_READ_DEADLINE_def del: lit_Cons)
  then show ?thesis by (simp add: sse_parse_def sample_json_def)
qed

section \<open>What the reader promises of any bytes\<close>

text \<open>Whatever arrives, a line is at most the maximum long, the data kept of an event too, and an event handed out has a
  field \<open>data\<close>.\<close>

lemma feed_line_bounded:
  assumes "blen (sp_data p) \<le> MAX_SSE_EVENT_DATA_BYTES"
  shows "blen (sp_data (snd (feed_line js line p))) \<le> MAX_SSE_EVENT_DATA_BYTES"
  using assms by (auto simp: feed_line_def new_sse_parser_def Let_def)

text \<open>A stream that is silent for longer than the deadline is given up.\<close>

lemma silent_stream_fails:
  assumes "list_all (\<lambda>t. \<not> rt_shutdown t \<and> rt_outcome t = WouldBlock) ts" "ts \<noteq> []"
    "now + SSE_READ_DEADLINE < rt_time (last ts)"
  shows "\<exists>t ts'. read_line_loop line now ts = Some (LineIo dead_stream_message, t, ts')"
  using assms by (induction line now ts rule: read_line_loop.induct) (auto split: if_splits)

text \<open>A request to stop ends the reader at its next call.\<close>

lemma stopped_reader_ends:
  "rt_shutdown t \<Longrightarrow> read_line_loop line now (t # ts) = Some (LineShutdown, rt_time t, ts)"
  by simp

text \<open>An event whose data is too long is dropped, with its type, at the line that exceeds the maximum; what follows of
  the same event is taken for an event without type, and reported as an error of the server.\<close>

lemma oversize_event_leaves_a_rest:
  assumes "MAX_SSE_EVENT_DATA_BYTES < blen (sp_data p) + blen (trim (trim_start_matches (lit ''data:'') l1))"
    "starts_with (lit ''data:'') l1" "trim d = d" "d \<noteq> []" "blen d \<le> MAX_SSE_EVENT_DATA_BYTES"
  shows "fst (feed_line js [] (snd (feed_line js (lit ''data: '' @ d) (snd (feed_line js l1 p)))))
    = Some (SseError (lit ''Unknown event with no event type''))"
proof -
  have "snd (feed_line js l1 p) = new_sse_parser"
    using assms(1,2) by (cases l1) (auto simp: feed_line_def starts_with_def Let_def)
  then show ?thesis
    using data_line [of d new_sse_parser js] assms(3,4,5)
    by (simp add: new_sse_parser_def feed_line_def starts_with_def sse_parse_def)
qed

text \<open>A blank line that follows no data does not forget the type of the event, which the next event then has.\<close>

lemma type_survives_blank_line: "sp_data p = [] \<Longrightarrow> feed_line js [] p = (None, p)"
  by (simp add: feed_line_def starts_with_def)

end
