(* ===== verification/Sync_Worker.thy ===== *)
theory Sync_Worker
  imports Sync_Sse
begin

text \<open>
  The worker thread of a profile (\<^verbatim>\<open>sync/sse/connection.rs\<close>, \<open>connect_sse\<close>), the jobs that bring a connection up
  (\<^verbatim>\<open>sync/sse/handlers/restart.rs\<close>, \<^verbatim>\<open>sync/synchronization/bootstrap.rs\<close>) and the consumer of its events
  (\<^verbatim>\<open>sync/sse/handlers/events.rs\<close>). A worker looks at its shutdown flag before it publishes a status and writes the
  status afterwards: two steps between which other threads run. Times are milliseconds.
\<close>

section \<open>Delays\<close>

definition TRANSIENT_RETRY_ATTEMPTS :: nat where "TRANSIENT_RETRY_ATTEMPTS = 5"
definition SSE_SLOT_BUSY_STATUS :: nat where "SSE_SLOT_BUSY_STATUS = 429"
definition SSE_SLOT_BUSY_RETRY_DELAY :: nat where "SSE_SLOT_BUSY_RETRY_DELAY = 500"
definition SSE_SLOT_BUSY_FAST_ATTEMPTS :: nat where "SSE_SLOT_BUSY_FAST_ATTEMPTS = 10"

text \<open>\<open>BackoffCalculator\<close> with its default settings, one second doubled up to five minutes: the state is the number of
  consecutive failures. The powers of two are exact in \<open>f64\<close>; the count is far below \<open>2 ^ 31\<close>.\<close>

definition BACKOFF_INITIAL :: nat where "BACKOFF_INITIAL = 1000"
definition BACKOFF_MAX :: nat where "BACKOFF_MAX = 5 * 60 * 1000"

definition record_failure :: "nat \<Rightarrow> nat \<times> nat" where
  "record_failure failures =
     (let n = failures + 1; exponent = n - 1 in (min (BACKOFF_INITIAL * 2 ^ exponent) BACKOFF_MAX, n))"

definition record_success :: "nat \<Rightarrow> nat" where
  "record_success failures = (if 0 < failures then 0 else failures)"

definition sat_inc32 :: "nat \<Rightarrow> nat" where "sat_inc32 n = min (n + 1) (2 ^ 32 - 1)"

definition retry_status :: "nat \<Rightarrow> sync_status option" where
  "retry_status consecutive_failures =
     (if TRANSIENT_RETRY_ATTEMPTS < consecutive_failures then Some Disconnected else None)"

definition is_handoff_retry :: "ureq_error \<Rightarrow> nat \<Rightarrow> bool" where
  "is_handoff_retry e attempts_so_far \<longleftrightarrow>
     e = StatusCode SSE_SLOT_BUSY_STATUS \<and> attempts_so_far < SSE_SLOT_BUSY_FAST_ATTEMPTS"

text \<open>\<open>interruptible_sleep\<close>: the times at which the loop looks, and the answers of the predicate; \<open>None\<close> while it sleeps.\<close>

definition INTERRUPTIBLE_SLEEP_SLICE :: nat where "INTERRUPTIBLE_SLEEP_SLICE = 100"

fun interruptible_sleep :: "nat \<Rightarrow> (nat \<times> bool) list \<Rightarrow> bool option" where
  "interruptible_sleep deadline [] = None"
| "interruptible_sleep deadline ((now, abort) # looks) =
     (if abort then Some True else if deadline \<le> now then Some False else interruptible_sleep deadline looks)"

section \<open>The state of a profile\<close>

datatype sse_phase =
    NotStarted
  | Attempting
  | Announcing sync_status "sse_event list" sse_phase
  | Publishing sync_status "sse_event list" sse_phase
  | CatchingUp
  | Streaming sse_parser
  | Waiting nat
  | WorkerEnded

record sse_worker =
  wk_stop :: bool
  wk_backoff :: nat
  wk_failures :: nat
  wk_handoffs :: nat
  wk_phase :: sse_phase

definition new_worker :: sse_worker where
  "new_worker = \<lparr>wk_stop = False, wk_backoff = 0, wk_failures = 0, wk_handoffs = 0, wk_phase = NotStarted\<rparr>"

datatype job_kind = Bootstrap | Silent | WithProgress

datatype job_phase =
    JobWaiting
  | JobSynced initial_sync_outcome
  | JobReport "sync_error + rstr \<times> rstr list"
  | JobDone

record restart_job =
  rj_kind :: job_kind
  rj_worker :: nat
  rj_cancelled :: bool
  rj_phase :: job_phase

record sse_profile =
  pf_status :: sync_status
  pf_connecting_since :: "nat option"
  pf_last_heartbeat :: "nat option"
  pf_last_event :: "nat option"
  pf_events :: "sse_event list"
  pf_shares :: sync_state
  pf_worker :: "nat option"
  pf_workers :: "sse_worker list"
  pf_jobs :: "restart_job list"
  pf_repaints :: nat

definition new_sse_profile :: "sync_status \<Rightarrow> sse_profile" where
  "new_sse_profile status = \<lparr>pf_status = status, pf_connecting_since = None, pf_last_heartbeat = None, pf_last_event = None,
     pf_events = [], pf_shares = new_sync_state, pf_worker = None, pf_workers = [], pf_jobs = [], pf_repaints = 0\<rparr>"

definition notify_user :: "rstr list \<Rightarrow> sse_profile \<Rightarrow> sse_profile" where
  "notify_user ms pf = pf\<lparr>pf_shares := (pf_shares pf)\<lparr>ss_notifications := ss_notifications (pf_shares pf) @ ms\<rparr>\<rparr>"

section \<open>The worker\<close>

text \<open>One attempt to connect, and how it ended.\<close>

datatype connect_answer = TokenFailed sync_error | CallFailed ureq_error | Accepted "rstr option"

definition announce_retry :: "nat \<Rightarrow> sse_event list \<Rightarrow> sse_phase \<Rightarrow> sse_phase" where
  "announce_retry failures evs next =
     (case retry_status failures of Some s \<Rightarrow> Announcing s evs next | None \<Rightarrow> next)"

definition push_events :: "sse_event list \<Rightarrow> sse_profile \<Rightarrow> sse_profile" where
  "push_events evs pf = pf\<lparr>pf_events := pf_events pf @ evs\<rparr>"

definition attempt ::
  "'v semver \<Rightarrow> (ureq_error \<Rightarrow> rstr) \<Rightarrow> connect_answer \<Rightarrow> sse_worker \<Rightarrow> sse_profile \<Rightarrow> sse_worker \<times> sse_profile" where
  "attempt sv show_ureq answer w pf =
     (case answer of
        TokenFailed e \<Rightarrow>
          let (delay, n) = record_failure (wk_backoff w) in
          (w\<lparr>wk_backoff := n, wk_phase := Announcing StatusAuthenticationFailed [] (Waiting delay)\<rparr>, pf)
      | CallFailed e \<Rightarrow>
          if is_handoff_retry e (wk_handoffs w) then
            (w\<lparr>wk_handoffs := sat_inc32 (wk_handoffs w), wk_phase := Waiting SSE_SLOT_BUSY_RETRY_DELAY\<rparr>, pf)
          else
            let failures = sat_inc32 (wk_failures w); (delay, n) = record_failure (wk_backoff w); err = [SseError (show_ureq e)]
            in (w\<lparr>wk_failures := failures, wk_backoff := n, wk_phase := announce_retry failures err (Waiting delay)\<rparr>,
                if retry_status failures = None then push_events err pf else pf)
      | Accepted version \<Rightarrow>
          let pf1 = pf\<lparr>pf_shares := (pf_shares pf)\<lparr>ss_server_version := version\<rparr>\<rparr> in
          if \<not> server_meets_minimum_version sv version then
            let e = ServerTooOld MIN_SUPPORTED_FULGURANT_VERSION_DISPLAY; (delay, n) = record_failure (wk_backoff w)
            in (w\<lparr>wk_backoff := n,
                  wk_phase := Announcing (status_from_error e) [SseError (sync_error_display e)] (Waiting delay)\<rparr>, pf1)
          else
            (w\<lparr>wk_backoff := record_success (wk_backoff w), wk_failures := 0, wk_handoffs := 0,
               wk_phase := Announcing Connected [] CatchingUp\<rparr>, pf1))"

text \<open>\<open>publish_connection_status\<close>: the flag, then the status, which wakes the windows when it changes; the events that
  follow the call.\<close>

definition look_at_flag :: "sse_worker \<Rightarrow> sse_profile \<Rightarrow> sse_worker \<times> sse_profile" where
  "look_at_flag w pf =
     (case wk_phase w of
        Announcing s evs next \<Rightarrow>
          if wk_stop w then (w\<lparr>wk_phase := next\<rparr>, push_events evs pf) else (w\<lparr>wk_phase := Publishing s evs next\<rparr>, pf)
      | _ \<Rightarrow> (w, pf))"

definition write_status :: "sse_worker \<Rightarrow> sse_profile \<Rightarrow> sse_worker \<times> sse_profile" where
  "write_status w pf =
     (case wk_phase w of
        Publishing s evs next \<Rightarrow>
          (w\<lparr>wk_phase := next\<rparr>,
           push_events evs (if pf_status pf = s then pf else push_events [ConnectionStatusChanged] (pf\<lparr>pf_status := s\<rparr>)))
      | _ \<Rightarrow> (w, pf))"

text \<open>The stream is over: count the failure, announce it when there were many, and wait.\<close>

definition stream_closed :: "sse_worker \<Rightarrow> sse_worker" where
  "stream_closed w =
     (let (delay, n) = record_failure (wk_backoff w); failures = sat_inc32 (wk_failures w)
      in w\<lparr>wk_backoff := n, wk_failures := failures, wk_phase := announce_retry failures [] (Waiting delay)\<rparr>)"

definition line_arrives ::
  "sse_json \<Rightarrow> 'v share_server \<Rightarrow> bool \<Rightarrow> line_result \<Rightarrow> sse_parser \<Rightarrow> sse_worker \<Rightarrow> sse_profile
     \<Rightarrow> sse_worker \<times> sse_profile" where
  "line_arrives js srv receiver_gone r p w pf =
     (case r of
        LineRead line \<Rightarrow>
          (case feed_line js line p of
             (None, p') \<Rightarrow> (w\<lparr>wk_phase := Streaming p'\<rparr>, pf)
           | (Some ev, p') \<Rightarrow>
               let pf1 = (case ev of
                            ShareAvailable i \<Rightarrow> pf\<lparr>pf_shares := fetch_single_share_into srv i (pf_shares pf)\<rparr>
                          | _ \<Rightarrow> pf)
               in if receiver_gone then (w\<lparr>wk_phase := WorkerEnded\<rparr>, pf1)
                  else (w\<lparr>wk_phase := Streaming p'\<rparr>, push_events [ev] pf1))
      | StreamEnd \<Rightarrow> (stream_closed w, pf)
      | LineShutdown \<Rightarrow> (w\<lparr>wk_phase := WorkerEnded\<rparr>, pf)
      | LineIo e \<Rightarrow> (stream_closed w, push_events [SseError e] pf))"

inductive sse_worker_step :: "version share_server \<Rightarrow> sse_worker \<times> sse_profile \<Rightarrow> sse_worker \<times> sse_profile \<Rightarrow> bool"
  for srv where
    stops: "\<lbrakk>wk_stop w; wk_phase w = Attempting \<or> (\<exists>d. wk_phase w = Waiting d) \<or> (\<exists>p. wk_phase w = Streaming p)\<rbrakk>
      \<Longrightarrow> sse_worker_step srv (w, pf) (w\<lparr>wk_phase := WorkerEnded\<rparr>, pf)"
  | attempts: "\<lbrakk>\<not> wk_stop w; wk_phase w = Attempting\<rbrakk>
      \<Longrightarrow> sse_worker_step srv (w, pf) (attempt (ws_semver srv) show_ureq answer w pf)"
  | looks: "wk_phase w = Announcing s evs next \<Longrightarrow> sse_worker_step srv (w, pf) (look_at_flag w pf)"
  | writes: "wk_phase w = Publishing s evs next \<Longrightarrow> sse_worker_step srv (w, pf) (write_status w pf)"
  | catches_up: "wk_phase w = CatchingUp
      \<Longrightarrow> sse_worker_step srv (w, pf) (w\<lparr>wk_phase := Streaming new_sse_parser\<rparr>,
                              pf\<lparr>pf_shares := fetch_pending_shares_into srv (pf_shares pf)\<rparr>)"
  | reads: "\<lbrakk>\<not> wk_stop w; wk_phase w = Streaming p; r \<noteq> LineShutdown\<rbrakk>
      \<Longrightarrow> sse_worker_step srv (w, pf) (line_arrives js srv receiver_gone r p w pf)"
  | wakes: "\<lbrakk>\<not> wk_stop w; wk_phase w = Waiting d\<rbrakk> \<Longrightarrow> sse_worker_step srv (w, pf) (w\<lparr>wk_phase := Attempting\<rparr>, pf)"

section \<open>Starting, stopping and the events\<close>

definition signal_shutdown :: "nat \<Rightarrow> sse_profile \<Rightarrow> sse_profile" where
  "signal_shutdown i pf = pf\<lparr>pf_workers := (pf_workers pf)[i := (pf_workers pf ! i)\<lparr>wk_stop := True\<rparr>]\<rparr>"

definition signal_stored :: "sse_profile \<Rightarrow> sse_profile" where
  "signal_stored pf = (case pf_worker pf of None \<Rightarrow> pf | Some i \<Rightarrow> signal_shutdown i pf)"

text \<open>A fresh worker takes the place of the stored one, which is told to stop (by the caller, or when it is dropped); a job
  gets its hooks.\<close>

definition rotate_worker :: "job_kind \<Rightarrow> sse_profile \<Rightarrow> sse_profile" where
  "rotate_worker kind pf =
     (let pf1 = signal_stored pf; k = length (pf_workers pf1)
      in pf1\<lparr>pf_workers := pf_workers pf1 @ [new_worker], pf_worker := Some k,
             pf_jobs := pf_jobs pf1 @ [\<lparr>rj_kind = kind, rj_worker = k, rj_cancelled = False, rj_phase = JobWaiting\<rparr>]\<rparr>)"

text \<open>\<open>connect_sse\<close> spawns the thread of the worker; without a server URL it fails and nothing happens.\<close>

definition connect_sse :: "server_profile \<Rightarrow> nat \<Rightarrow> sse_profile \<Rightarrow> sse_profile" where
  "connect_sse profile k pf =
     (if sp_server_url profile = None then pf
      else pf\<lparr>pf_workers := (pf_workers pf)[k := (pf_workers pf ! k)\<lparr>wk_phase := Attempting\<rparr>]\<rparr>)"

definition begin_synchronization :: "bool \<Rightarrow> settings \<Rightarrow> server_profile \<Rightarrow> sse_profile \<Rightarrow> sse_profile" where
  "begin_synchronization initialized s profile pf =
     (if \<not> sy_activated (as_sync (se_app s)) \<or> initialized \<or> \<not> sp_is_active profile then pf
      else rotate_worker Bootstrap pf)"

definition prepare_sse_restart :: "settings \<Rightarrow> rstr \<Rightarrow> job_kind \<Rightarrow> sse_profile \<Rightarrow> sse_profile option" where
  "prepare_sse_restart s profile_id kind pf =
     (case find_profile profile_id (as_sync (se_app s)) of
        None \<Rightarrow> None
      | Some profile \<Rightarrow>
          if \<not> sy_activated (as_sync (se_app s)) \<or> \<not> sp_is_active profile then None
          else Some (rotate_worker kind pf))"

definition restart_sse_connection_for :: "settings \<Rightarrow> rstr \<Rightarrow> sse_profile \<Rightarrow> sse_profile" where
  "restart_sse_connection_for s profile_id pf =
     (case prepare_sse_restart s profile_id Silent pf of None \<Rightarrow> pf | Some pf1 \<Rightarrow> pf1)"

definition restart_sse_connection_for_with_progress :: "settings \<Rightarrow> rstr \<Rightarrow> nat \<Rightarrow> sse_profile \<Rightarrow> sse_profile" where
  "restart_sse_connection_for_with_progress s profile_id now pf =
     (case prepare_sse_restart s profile_id WithProgress pf of
        None \<Rightarrow> pf
      | Some pf1 \<Rightarrow> pf1\<lparr>pf_status := StatusConnecting, pf_connecting_since := Some now\<rparr>)"

definition stop_sse_connection_for :: "sse_profile \<Rightarrow> sse_profile" where
  "stop_sse_connection_for pf =
     (signal_stored pf)\<lparr>pf_worker := None, pf_status := NotActivated, pf_connecting_since := None,
        pf_repaints := pf_repaints pf + 1\<rparr>"

text \<open>The button of the progress notification.\<close>

definition cancel_restart :: "nat \<Rightarrow> sse_profile \<Rightarrow> sse_profile" where
  "cancel_restart j pf =
     pf\<lparr>pf_jobs := (pf_jobs pf)[j := (pf_jobs pf ! j)\<lparr>rj_cancelled := True\<rparr>], pf_status := Disconnected,
        pf_connecting_since := None\<rparr>"

text \<open>A job, step by step: the initial synchronization, its outcome with the start of the worker, and the report. The
  bootstrap looks at the key of the device first; a restart that shows its progress looks at the cancel flag first.\<close>

definition job_synchronize ::
  "version share_server \<Rightarrow> (shared_file list \<Rightarrow> shared_file list) \<Rightarrow> rstr + rstr option \<Rightarrow> restart_job \<Rightarrow> sse_profile
     \<Rightarrow> job_phase \<times> sse_profile" where
  "job_synchronize srv order key j pf =
     (let profile = ws_profile srv; (r, st) = initial_synchronization srv order (pf_shares pf) in
      if rj_kind j = Bootstrap then
        (case key of
           Inl e \<Rightarrow> (JobDone, pf\<lparr>pf_status := Disconnected\<rparr>)
         | Inr k \<Rightarrow>
             if sp_server_url profile = None \<or> sp_email profile = None \<or> k = None
             then (JobDone, pf\<lparr>pf_status := Disconnected\<rparr>)
             else (case r of
                     Inl e \<Rightarrow> (JobDone, pf\<lparr>pf_shares := st, pf_status := Disconnected\<rparr>)
                   | Inr oc \<Rightarrow> (JobSynced oc, pf\<lparr>pf_shares := st, pf_status := Connected\<rparr>)))
      else if rj_kind j = WithProgress \<and> rj_cancelled j then (JobDone, pf)
      else (case r of
              Inl e \<Rightarrow> (JobReport (Inl e), pf\<lparr>pf_shares := st\<rparr>)
            | Inr oc \<Rightarrow> (JobSynced oc, pf\<lparr>pf_shares := st\<rparr>)))"

definition job_connect ::
  "version share_server \<Rightarrow> rstr \<Rightarrow> initial_sync_outcome \<Rightarrow> restart_job \<Rightarrow> sse_profile \<Rightarrow> job_phase \<times> sse_profile" where
  "job_connect srv current oc j pf =
     (let profile = ws_profile srv;
          ((device, notes), st) = apply_initial_sync_outcome (ws_semver srv) current (sp_name profile) oc (pf_shares pf);
          pf1 = pf\<lparr>pf_shares := st\<rparr>
      in if rj_kind j = Bootstrap then (JobDone, connect_sse profile (rj_worker j) (notify_user notes pf1))
         else (JobReport (Inr (device, notes)), connect_sse profile (rj_worker j) pf1))"

definition job_report :: "rstr \<Rightarrow> sync_error + rstr \<times> rstr list \<Rightarrow> restart_job \<Rightarrow> sse_profile \<Rightarrow> job_phase \<times> sse_profile" where
  "job_report name r j pf =
     (if rj_kind j \<noteq> WithProgress then (JobDone, pf)
      else
        let (message, status) =
              (case r of
                 Inr (device, notes) \<Rightarrow>
                   (case notes of n # _ \<Rightarrow> n | [] \<Rightarrow> name @ lit '': Connection successful as '' @ device, Connected)
               | Inl e \<Rightarrow> (name @ lit '': Connection failed: '' @ sync_error_display e, status_from_error e))
        in (JobDone,
            notify_user [message] (push_events [ConnectionStatusChanged] (pf\<lparr>pf_status := status, pf_connecting_since := None\<rparr>))))"

text \<open>The consumer, on the UI thread.\<close>

definition handle_sse_event_for_profile :: "nat \<Rightarrow> sse_event \<Rightarrow> sse_profile \<Rightarrow> sse_profile" where
  "handle_sse_event_for_profile now ev pf =
     (case ev of
        ConnectionStatusChanged \<Rightarrow> pf\<lparr>pf_repaints := pf_repaints pf + 1\<rparr>
      | PendingSharesSnapshot \<Rightarrow> pf
      | Heartbeat timestamp \<Rightarrow>
          let pf1 = pf\<lparr>pf_last_heartbeat := Some now\<rparr> in
          if \<not> is_connected (pf_status pf1) then pf1\<lparr>pf_status := Connected, pf_repaints := pf_repaints pf1 + 1\<rparr> else pf1
      | SseError e \<Rightarrow> pf
      | ShareAvailable i \<Rightarrow>
          if (case pf_last_event pf of Some t \<Rightarrow> now - t < 500 | None \<Rightarrow> False) then pf
          else notify_user [lit ''New file received''] (pf\<lparr>pf_last_event := Some now, pf_repaints := pf_repaints pf + 1\<rparr>))"

section \<open>All interleavings\<close>

inductive profile_step :: "sse_profile \<Rightarrow> sse_profile \<Rightarrow> bool" where
    works: "\<lbrakk>i < length (pf_workers pf); sse_worker_step srv (pf_workers pf ! i, pf) (w', pf')\<rbrakk>
      \<Longrightarrow> profile_step pf (pf'\<lparr>pf_workers := (pf_workers pf')[i := w']\<rparr>)"
  | bootstraps: "profile_step pf (begin_synchronization initialized s profile pf)"
  | restarts: "profile_step pf (restart_sse_connection_for s profile_id pf)"
  | restarts_with_progress: "profile_step pf (restart_sse_connection_for_with_progress s profile_id now pf)"
  | stops_connection: "profile_step pf (stop_sse_connection_for pf)"
  | cancels: "\<lbrakk>j < length (pf_jobs pf); rj_kind (pf_jobs pf ! j) = WithProgress\<rbrakk> \<Longrightarrow> profile_step pf (cancel_restart j pf)"
  | synchronizes_job: "\<lbrakk>j < length (pf_jobs pf); rj_phase (pf_jobs pf ! j) = JobWaiting;
        job_synchronize srv order key (pf_jobs pf ! j) pf = (ph, pf')\<rbrakk>
      \<Longrightarrow> profile_step pf (pf'\<lparr>pf_jobs := (pf_jobs pf')[j := (pf_jobs pf' ! j)\<lparr>rj_phase := ph\<rparr>]\<rparr>)"
  | connects_job: "\<lbrakk>j < length (pf_jobs pf); rj_phase (pf_jobs pf ! j) = JobSynced oc;
        job_connect srv current oc (pf_jobs pf ! j) pf = (ph, pf')\<rbrakk>
      \<Longrightarrow> profile_step pf (pf'\<lparr>pf_jobs := (pf_jobs pf')[j := (pf_jobs pf' ! j)\<lparr>rj_phase := ph\<rparr>]\<rparr>)"
  | reports_job: "\<lbrakk>j < length (pf_jobs pf); rj_phase (pf_jobs pf ! j) = JobReport r;
        job_report name r (pf_jobs pf ! j) pf = (ph, pf')\<rbrakk>
      \<Longrightarrow> profile_step pf (pf'\<lparr>pf_jobs := (pf_jobs pf')[j := (pf_jobs pf' ! j)\<lparr>rj_phase := ph\<rparr>]\<rparr>)"
  | handles: "pf_events pf = ev # evs
      \<Longrightarrow> profile_step pf (handle_sse_event_for_profile now ev (pf\<lparr>pf_events := evs\<rparr>))"

inductive profile_reaches :: "sse_profile \<Rightarrow> sse_profile \<Rightarrow> bool" where
    p_here: "profile_reaches pf pf"
  | p_onward: "\<lbrakk>profile_reaches pf0 pf; profile_step pf pf'\<rbrakk> \<Longrightarrow> profile_reaches pf0 pf'"

section \<open>One connection at a time\<close>

definition simple_phase :: "nat \<Rightarrow> sse_phase \<Rightarrow> bool" where
  "simple_phase failures ph =
     (case ph of
        Waiting d \<Rightarrow> 500 \<le> d \<and> d \<le> BACKOFF_MAX
      | Streaming p \<Rightarrow> blen (sp_data p) \<le> MAX_SSE_EVENT_DATA_BYTES
      | Announcing s evs next \<Rightarrow> False
      | Publishing s evs next \<Rightarrow> False
      | _ \<Rightarrow> True)"

definition phase_ok :: "nat \<Rightarrow> sse_phase \<Rightarrow> bool" where
  "phase_ok failures ph =
     (case ph of
        Announcing s evs next \<Rightarrow> (s = Disconnected \<longrightarrow> TRANSIENT_RETRY_ATTEMPTS < failures) \<and> simple_phase failures next
      | Publishing s evs next \<Rightarrow> (s = Disconnected \<longrightarrow> TRANSIENT_RETRY_ATTEMPTS < failures) \<and> simple_phase failures next
      | _ \<Rightarrow> simple_phase failures ph)"

definition worker_ok :: "sse_worker \<Rightarrow> bool" where
  "worker_ok w \<longleftrightarrow> phase_ok (wk_failures w) (wk_phase w) \<and> wk_handoffs w \<le> SSE_SLOT_BUSY_FAST_ATTEMPTS"

definition only_stored_lives :: "nat option \<Rightarrow> sse_worker list \<Rightarrow> bool" where
  "only_stored_lives stored ws \<longleftrightarrow>
     (\<forall>i < length ws. wk_stop (ws ! i) \<or> stored = Some i)
     \<and> (case stored of None \<Rightarrow> True | Some i \<Rightarrow> i < length ws)"

definition profile_ok :: "sse_profile \<Rightarrow> bool" where
  "profile_ok pf \<longleftrightarrow> only_stored_lives (pf_worker pf) (pf_workers pf) \<and> list_all worker_ok (pf_workers pf)"

lemma record_failure_bounds:
  assumes "record_failure n = (d, n')"
  shows "1000 \<le> d" "d \<le> BACKOFF_MAX" "n' = n + 1"
  using assms by (auto simp: record_failure_def BACKOFF_INITIAL_def BACKOFF_MAX_def Let_def)

lemma record_failure_ok:
  assumes "record_failure n = (d, n')"
  shows "simple_phase f (Waiting d)"
  using record_failure_bounds [OF assms] by (simp add: simple_phase_def)

lemma simple_phases [simp]:
  "simple_phase f Attempting" "simple_phase f CatchingUp" "simple_phase f WorkerEnded" "simple_phase f NotStarted"
  "simple_phase f (Streaming new_sse_parser)" "simple_phase f (Waiting SSE_SLOT_BUSY_RETRY_DELAY)"
  by (simp_all add: simple_phase_def new_sse_parser_def SSE_SLOT_BUSY_RETRY_DELAY_def BACKOFF_MAX_def)

lemma simple_is_ok: "simple_phase f ph \<Longrightarrow> phase_ok f ph"
  by (auto simp: phase_ok_def simple_phase_def split: sse_phase.splits)

lemma announce_retry_ok: "simple_phase f ph \<Longrightarrow> phase_ok f (announce_retry f evs ph)"
proof (cases "TRANSIENT_RETRY_ATTEMPTS < f")
  case True
  assume "simple_phase f ph"
  then show ?thesis using True by (simp add: announce_retry_def retry_status_def phase_ok_def)
next
  case False
  assume "simple_phase f ph"
  then show ?thesis using False simple_is_ok by (simp add: announce_retry_def retry_status_def)
qed

lemma announcing_ok: "simple_phase f ph \<Longrightarrow> s \<noteq> Disconnected \<Longrightarrow> phase_ok f (Announcing s evs ph)"
  by (simp add: phase_ok_def)

text \<open>What no step of a worker touches.\<close>

definition same_frame :: "sse_profile \<Rightarrow> sse_profile \<Rightarrow> bool" where
  "same_frame pf pf' \<longleftrightarrow> pf_workers pf' = pf_workers pf \<and> pf_worker pf' = pf_worker pf \<and> pf_jobs pf' = pf_jobs pf"

lemma same_frame_simps [simp]:
  "same_frame pf pf"
  "same_frame pf (push_events evs pf') = same_frame pf pf'"
  "same_frame pf (pf'\<lparr>pf_shares := x\<rparr>) = same_frame pf pf'"
  "same_frame pf (pf'\<lparr>pf_status := s\<rparr>) = same_frame pf pf'"
  by (simp_all add: same_frame_def push_events_def)

lemma attempt_ok:
  assumes "attempt sv show_ureq answer w pf = (w', pf')" "worker_ok w"
  shows "worker_ok w' \<and> wk_stop w' = wk_stop w \<and> same_frame pf pf'"
proof (cases answer)
  case (TokenFailed e)
  obtain d n where r: "record_failure (wk_backoff w) = (d, n)" by (cases "record_failure (wk_backoff w)")
  then show ?thesis
    using assms TokenFailed record_failure_ok [OF r] by (auto simp: attempt_def worker_ok_def announcing_ok)
next
  case (CallFailed e)
  obtain d n where r: "record_failure (wk_backoff w) = (d, n)" by (cases "record_failure (wk_backoff w)")
  show ?thesis
  proof (cases "is_handoff_retry e (wk_handoffs w)")
    case True
    then show ?thesis using assms CallFailed
      by (auto simp: attempt_def worker_ok_def simple_is_ok is_handoff_retry_def sat_inc32_def)
  next
    case False
    then show ?thesis using assms CallFailed r record_failure_ok [OF r]
      by (auto simp: attempt_def worker_ok_def Let_def announce_retry_ok)
  qed
next
  case (Accepted v)
  obtain d n where r: "record_failure (wk_backoff w) = (d, n)" by (cases "record_failure (wk_backoff w)")
  then show ?thesis using assms Accepted record_failure_ok [OF r]
    by (auto simp: attempt_def worker_ok_def Let_def announcing_ok split: if_splits)
qed

lemma stream_closed_ok:
  assumes "worker_ok w"
  shows "worker_ok (stream_closed w)" "wk_stop (stream_closed w) = wk_stop w"
proof -
  obtain d n where r: "record_failure (wk_backoff w) = (d, n)" by (cases "record_failure (wk_backoff w)")
  then show "worker_ok (stream_closed w)" "wk_stop (stream_closed w) = wk_stop w"
    using assms record_failure_ok [OF r] by (auto simp: stream_closed_def worker_ok_def Let_def announce_retry_ok)
qed

lemma line_arrives_ok:
  assumes "line_arrives js srv gone r p w pf = (w', pf')" "worker_ok w" "wk_phase w = Streaming p"
  shows "worker_ok w' \<and> wk_stop w' = wk_stop w \<and> same_frame pf pf'"
proof (cases r)
  case (LineRead line)
  have "blen (sp_data p) \<le> MAX_SSE_EVENT_DATA_BYTES"
    using assms(2,3) by (simp add: worker_ok_def phase_ok_def simple_phase_def)
  then have "blen (sp_data (snd (feed_line js line p))) \<le> MAX_SSE_EVENT_DATA_BYTES" by (rule feed_line_bounded)
  then have s: "phase_ok f (Streaming (snd (feed_line js line p)))" for f
    by (simp add: phase_ok_def simple_phase_def)
  then show ?thesis using assms LineRead
    by (cases "feed_line js line p")
       (auto simp: line_arrives_def worker_ok_def simple_is_ok Let_def split: option.splits if_splits sse_event.splits)
qed (use assms stream_closed_ok [OF assms(2)] in \<open>auto simp: line_arrives_def worker_ok_def simple_is_ok\<close>)

lemma worker_step_ok:
  assumes "sse_worker_step srv (w, pf) (w', pf')" "worker_ok w"
  shows "worker_ok w' \<and> wk_stop w' = wk_stop w \<and> same_frame pf pf'"
  using assms(1)
proof cases
  case (attempts show_ureq answer)
  then show ?thesis using attempt_ok assms(2) by metis
next
  case (reads p r js gone)
  then show ?thesis using line_arrives_ok [OF _ assms(2)] by metis
next
  case (looks s evs nxt)
  then have "simple_phase (wk_failures w) nxt" "s = Disconnected \<longrightarrow> TRANSIENT_RETRY_ATTEMPTS < wk_failures w"
    using assms(2) by (auto simp: worker_ok_def phase_ok_def)
  then show ?thesis using looks assms(2) simple_is_ok
    by (cases "wk_stop w") (simp_all add: look_at_flag_def worker_ok_def phase_ok_def [of _ "Publishing _ _ _"])
next
  case (writes s evs nxt)
  then have "simple_phase (wk_failures w) nxt" using assms(2) by (simp add: worker_ok_def phase_ok_def)
  then show ?thesis using writes assms(2) simple_is_ok by (auto simp: write_status_def worker_ok_def)
qed (use assms(2) in \<open>auto simp: worker_ok_def simple_is_ok\<close>)

lemma ok_same_workers:
  "profile_ok pf \<Longrightarrow> pf_workers pf' = pf_workers pf \<Longrightarrow> pf_worker pf' = pf_worker pf \<Longrightarrow> profile_ok pf'"
  by (simp add: profile_ok_def)

lemma lives_update:
  assumes "only_stored_lives stored ws" "i < length ws" "wk_stop w' = wk_stop (ws ! i)"
  shows "only_stored_lives stored (ws[i := w'])"
  using assms by (auto simp: only_stored_lives_def nth_list_update split: option.splits)

lemma list_all_update: "list_all P xs \<Longrightarrow> P x \<Longrightarrow> list_all P (xs[i := x])"
  by (auto simp: list_all_iff dest!: subsetD [OF set_update_subset_insert])

lemma ok_update_worker:
  assumes "profile_ok pf" "worker_ok w'" "i < length (pf_workers pf)" "wk_stop w' = wk_stop (pf_workers pf ! i)"
    "pf_workers pf' = (pf_workers pf)[i := w']" "pf_worker pf' = pf_worker pf"
  shows "profile_ok pf'"
  using assms list_all_update [of worker_ok "pf_workers pf" w' i] by (simp add: profile_ok_def lives_update)

text \<open>With the stored worker told to stop, none is left that is not.\<close>

definition all_stopped :: "sse_worker list \<Rightarrow> bool" where
  "all_stopped ws \<longleftrightarrow> list_all wk_stop ws"

lemma stop_stored:
  assumes "only_stored_lives (Some k) ws"
  shows "k < length ws" "all_stopped (ws[k := (ws ! k)\<lparr>wk_stop := True\<rparr>])"
  using assms by (auto simp: only_stored_lives_def all_stopped_def list_all_length nth_list_update)

lemma stop_none: "only_stored_lives None ws \<Longrightarrow> all_stopped ws"
  by (simp add: only_stored_lives_def all_stopped_def list_all_length)

lemma signal_stored_stops_all:
  assumes "profile_ok pf"
  shows "list_all worker_ok (pf_workers (signal_stored pf))" "all_stopped (pf_workers (signal_stored pf))"
proof -
  have "list_all worker_ok (pf_workers (signal_stored pf)) \<and> all_stopped (pf_workers (signal_stored pf))"
  proof (cases "pf_worker pf")
    case None
    then show ?thesis using assms stop_none by (simp add: profile_ok_def signal_stored_def)
  next
    case (Some k)
    then have l: "only_stored_lives (Some k) (pf_workers pf)" "list_all worker_ok (pf_workers pf)"
      using assms by (simp_all add: profile_ok_def)
    have "worker_ok (pf_workers pf ! k)" using l(2) stop_stored(1) [OF l(1)] by (simp add: list_all_length)
    then have "worker_ok ((pf_workers pf ! k)\<lparr>wk_stop := True\<rparr>)" by (simp add: worker_ok_def)
    then show ?thesis using Some l(2) stop_stored(2) [OF l(1)]
      by (simp add: signal_stored_def signal_shutdown_def list_all_update)
  qed
  then show "list_all worker_ok (pf_workers (signal_stored pf))" "all_stopped (pf_workers (signal_stored pf))" by auto
qed

lemma lives_stopped: "all_stopped ws \<Longrightarrow> only_stored_lives None ws"
  by (simp add: all_stopped_def only_stored_lives_def list_all_length)

lemma lives_fresh: "all_stopped ws \<Longrightarrow> only_stored_lives (Some (length ws)) (ws @ [w])"
  by (auto simp: all_stopped_def only_stored_lives_def list_all_length nth_append)

lemma new_worker_ok: "worker_ok new_worker"
  by (simp add: worker_ok_def new_worker_def simple_is_ok)

lemma rotate_worker_ok:
  assumes "profile_ok pf"
  shows "profile_ok (rotate_worker kind pf)"
  using signal_stored_stops_all [OF assms] new_worker_ok
  by (simp add: rotate_worker_def Let_def profile_ok_def lives_fresh)

lemma prepared_ok: "prepare_sse_restart s i kind pf = Some pf' \<Longrightarrow> profile_ok pf \<Longrightarrow> profile_ok pf'"
  using rotate_worker_ok by (auto simp: prepare_sse_restart_def split: option.splits if_splits)

lemma connect_sse_ok:
  assumes "profile_ok pf"
  shows "profile_ok (connect_sse profile k pf)"
proof (cases "k < length (pf_workers pf) \<and> sp_server_url profile \<noteq> None")
  case True
  then have k: "k < length (pf_workers pf)" by simp
  have "worker_ok (pf_workers pf ! k)" using assms k by (simp add: profile_ok_def list_all_length)
  then have "worker_ok ((pf_workers pf ! k)\<lparr>wk_phase := Attempting\<rparr>)" by (simp add: worker_ok_def simple_is_ok)
  then show ?thesis using True by (intro ok_update_worker [OF assms, of "(pf_workers pf ! k)\<lparr>wk_phase := Attempting\<rparr>" k]) (auto simp: connect_sse_def)
next
  case False
  then have "pf_workers (connect_sse profile k pf) = pf_workers pf" "pf_worker (connect_sse profile k pf) = pf_worker pf"
    by (auto simp: connect_sse_def not_less list_update_beyond)
  then show ?thesis by (rule ok_same_workers [OF assms])
qed

lemma notify_user_frame [simp]: "pf_workers (notify_user ms pf) = pf_workers pf" "pf_worker (notify_user ms pf) = pf_worker pf"
  by (simp_all add: notify_user_def)

lemma push_events_frame [simp]: "pf_workers (push_events evs pf) = pf_workers pf" "pf_worker (push_events evs pf) = pf_worker pf"
  by (simp_all add: push_events_def)

lemma profile_step_ok: "profile_step pf pf' \<Longrightarrow> profile_ok pf \<Longrightarrow> profile_ok pf'"
proof (induction rule: profile_step.induct)
  case (works i pf srv w' pf')
  have "worker_ok (pf_workers pf ! i)" using works(1,3) by (simp add: profile_ok_def list_all_length)
  then have w: "worker_ok w'" "wk_stop w' = wk_stop (pf_workers pf ! i)" "same_frame pf pf'"
    using worker_step_ok [OF works(2)] by auto
  then show ?case using works(1) by (intro ok_update_worker [OF works(3) w(1) works(1) w(2)]) (auto simp: same_frame_def)
next
  case (bootstraps pf initialized s profile)
  then show ?case using rotate_worker_ok by (simp add: begin_synchronization_def)
next
  case (restarts pf s i)
  then show ?case using prepared_ok by (auto simp: restart_sse_connection_for_def split: option.splits)
next
  case (restarts_with_progress pf s i now)
  show ?case
  proof (cases "prepare_sse_restart s i WithProgress pf")
    case (Some pf1)
    then have "profile_ok pf1" using prepared_ok restarts_with_progress by blast
    then show ?thesis using Some ok_same_workers by (simp add: restart_sse_connection_for_with_progress_def)
  qed (use restarts_with_progress in \<open>simp add: restart_sse_connection_for_with_progress_def\<close>)
next
  case (stops_connection pf)
  then show ?case using signal_stored_stops_all [OF stops_connection]
    by (simp add: stop_sse_connection_for_def profile_ok_def lives_stopped)
next
  case (cancels j pf)
  then show ?case using ok_same_workers by (simp add: cancel_restart_def)
next
  case (synchronizes_job j pf srv order key ph pf')
  have "pf_workers pf' = pf_workers pf" "pf_worker pf' = pf_worker pf"
    using synchronizes_job(3)
    by (auto simp: job_synchronize_def Let_def split: prod.splits sum.splits if_splits)
  then show ?case using ok_same_workers [OF synchronizes_job(4)] by simp
next
  case (connects_job j pf oc srv current ph pf')
  obtain device msgs st where a:
    "apply_initial_sync_outcome (ws_semver srv) current (sp_name (ws_profile srv)) oc (pf_shares pf) = ((device, msgs), st)"
    by (metis prod.collapse)
  have "profile_ok (pf\<lparr>pf_shares := st\<rparr>)" "profile_ok (notify_user msgs (pf\<lparr>pf_shares := st\<rparr>))"
    using ok_same_workers [OF connects_job(4)] by simp_all
  then have "profile_ok pf'" using connects_job(3) a connect_sse_ok by (auto simp: job_connect_def Let_def split: if_splits)
  then show ?case using ok_same_workers by simp
next
  case (reports_job j pf r name ph pf')
  have "pf_workers pf' = pf_workers pf" "pf_worker pf' = pf_worker pf"
    using reports_job(3) by (auto simp: job_report_def Let_def split: prod.splits sum.splits if_splits list.splits)
  then show ?case using ok_same_workers [OF reports_job(4)] by simp
next
  case (handles pf ev evs now)
  then show ?case using ok_same_workers [OF handles(2)]
    by (cases ev) (auto simp: handle_sse_event_for_profile_def Let_def)
qed

lemma profile_reaches_ok: "profile_reaches pf0 pf \<Longrightarrow> profile_ok pf0 \<Longrightarrow> profile_ok pf"
  by (induction rule: profile_reaches.induct) (auto intro: profile_step_ok)

lemma new_profile_ok: "profile_ok (new_sse_profile s)"
  by (simp add: profile_ok_def only_stored_lives_def new_sse_profile_def)

text \<open>What is left of a worker that was told to stop.\<close>

fun steps_left :: "sse_phase \<Rightarrow> nat" where
  "steps_left (Announcing s evs next) = Suc (steps_left next)"
| "steps_left (Publishing s evs next) = Suc (steps_left next)"
| "steps_left CatchingUp = 2"
| "steps_left (Waiting d) = 1"
| "steps_left (Streaming p) = 1"
| "steps_left Attempting = 1"
| "steps_left NotStarted = 0"
| "steps_left WorkerEnded = 0"

lemma steps_left_bound: "phase_ok f ph \<Longrightarrow> steps_left ph \<le> 3"
  by (auto simp: phase_ok_def simple_phase_def split: sse_phase.splits)

lemma stopped_worker_step:
  assumes "sse_worker_step srv (w, pf) (w', pf')" "wk_stop w"
  shows "steps_left (wk_phase w') < steps_left (wk_phase w)
    \<and> (pf_status pf' = pf_status pf \<or> (\<exists>s evs next. wk_phase w = Publishing s evs next))"
  using assms(1)
proof cases
  case (looks s evs nxt)
  then show ?thesis using assms(2) by (simp add: look_at_flag_def push_events_def)
next
  case (writes s evs nxt)
  then show ?thesis by (simp add: write_status_def)
qed (use assms(2) in auto)

lemma stopped_worker_can_step:
  assumes "wk_stop w" "0 < steps_left (wk_phase w)"
  shows "\<exists>w' pf'. sse_worker_step srv (w, pf) (w', pf')"
proof (cases "wk_phase w")
  case (Announcing s evs nxt)
  then show ?thesis using sse_worker_step.looks [OF Announcing] by (metis surj_pair)
next
  case (Publishing s evs nxt)
  then show ?thesis using sse_worker_step.writes [OF Publishing] by (metis surj_pair)
next
  case CatchingUp
  then show ?thesis using sse_worker_step.catches_up [OF CatchingUp] by blast
qed (use assms sse_worker_step.stops in \<open>auto, blast+\<close>)

text \<open>C13: However connections of a profile are started, restarted, cancelled and stopped and whatever the workers and the
  server do, at most one worker is not told to stop, the stored one; every delay before an attempt is between half a
  second and five minutes, quick retries are at most ten in a row, the data kept of an event is bounded, and a worker
  reports the profile as disconnected only after more than five failures in a row. A worker that was told to stop takes
  at most three more steps, and of these only one that had looked at the flag before can write the status.\<close>

theorem one_live_connection_per_profile:
  assumes "profile_reaches (new_sse_profile s) pf"
  shows "(\<forall>i < length (pf_workers pf). wk_stop (pf_workers pf ! i) \<or> pf_worker pf = Some i)
    \<and> list_all worker_ok (pf_workers pf)
    \<and> (\<forall>w \<in> set (pf_workers pf). steps_left (wk_phase w) \<le> 3)
    \<and> (\<forall>srv w pf1 w' pf1'. sse_worker_step srv (w, pf1) (w', pf1') \<longrightarrow> wk_stop w \<longrightarrow>
         steps_left (wk_phase w') < steps_left (wk_phase w)
         \<and> (pf_status pf1' = pf_status pf1 \<or> (\<exists>s evs next. wk_phase w = Publishing s evs next)))"
proof -
  have ok: "profile_ok pf" using profile_reaches_ok [OF assms new_profile_ok] .
  then have "steps_left (wk_phase w) \<le> 3" if "w \<in> set (pf_workers pf)" for w
    using that steps_left_bound by (auto simp: profile_ok_def list_all_iff worker_ok_def)
  then show ?thesis using ok stopped_worker_step by (auto simp: profile_ok_def only_stored_lives_def)
qed

section \<open>A profile that is stopped while it connects\<close>

definition profile_a :: settings where
  "profile_a = new_settings\<lparr>se_app := (se_app new_settings)\<lparr>as_sync := \<lparr>sy_activated = True,
     sy_profiles = [(new_server_profile [112] [110])\<lparr>sp_is_active := True\<rparr>]\<rparr>\<rparr>\<rparr>"

definition restarted :: sse_profile where
  "restarted = restart_sse_connection_for_with_progress profile_a [112] 0 (new_sse_profile NotActivated)"

lemma restarted_reached: "profile_reaches (new_sse_profile NotActivated) restarted"
  unfolding restarted_def by (rule p_onward [OF p_here profile_step.restarts_with_progress])

lemma one_live_connection_per_profile_witness:
  "length (pf_workers restarted) = 1 \<and> \<not> wk_stop (pf_workers restarted ! 0) \<and> pf_worker restarted = Some 0"
proof -
  have "\<not> wk_stop (pf_workers restarted ! 0)" "length (pf_workers restarted) = 1"
    by (simp_all add: restarted_def restart_sse_connection_for_with_progress_def prepare_sse_restart_def profile_a_def
        find_profile_def rotate_worker_def signal_stored_def new_sse_profile_def new_worker_def new_server_profile_def Let_def)
  then show ?thesis using one_live_connection_per_profile [OF restarted_reached] by auto
qed

text \<open>The job does not look at the profile when it ends: stopped while it synchronizes, the profile is shown as connected
  although its only worker was told to stop.\<close>

lemma stopped_profile_ends_connected:
  assumes "pf_jobs pf = [j]" "rj_kind j = WithProgress" "rj_phase j = JobReport (Inr r)"
  shows "\<exists>pf'. profile_step (stop_sse_connection_for pf) pf' \<and> pf_status pf' = Connected \<and> pf_worker pf' = None"
proof -
  let ?s = "stop_sse_connection_for pf"
  have "pf_jobs (signal_stored pf) = pf_jobs pf" by (simp add: signal_stored_def signal_shutdown_def split: option.splits)
  then have jobs: "pf_jobs ?s = [j]" using assms(1) by (simp add: stop_sse_connection_for_def)
  obtain ph pf' where r: "job_report [] (Inr r) (pf_jobs ?s ! 0) ?s = (ph, pf')" by (metis surj_pair)
  then have c: "pf_status pf' = Connected" "pf_worker pf' = None"
    using assms(2) jobs
    by (auto simp: job_report_def Let_def notify_user_def push_events_def stop_sse_connection_for_def split: prod.splits list.splits)
  have "profile_step ?s (pf'\<lparr>pf_jobs := (pf_jobs pf')[0 := (pf_jobs pf' ! 0)\<lparr>rj_phase := ph\<rparr>]\<rparr>)"
    using r jobs assms(3) by (intro profile_step.reports_job) auto
  then show ?thesis using c by (intro exI [of _ "pf'\<lparr>pf_jobs := (pf_jobs pf')[0 := (pf_jobs pf' ! 0)\<lparr>rj_phase := ph\<rparr>]\<rparr>"]) simp
qed

text \<open>Cancelling after the synchronization has begun changes nothing of how the job ends: it reports success.\<close>

lemma late_cancel_ends_connected:
  assumes "rj_kind j = WithProgress"
  shows "pf_status (snd (job_report name (Inr r) (j\<lparr>rj_cancelled := True\<rparr>) pf)) = Connected"
  using assms by (auto simp: job_report_def Let_def notify_user_def push_events_def split: prod.splits list.splits)

text \<open>A heartbeat that waits in the channel when the profile is stopped sets the status to connected.\<close>

lemma heartbeat_revives_stopped_profile:
  "pf_status (handle_sse_event_for_profile now (Heartbeat t) (stop_sse_connection_for pf)) = Connected"
  by (simp add: handle_sse_event_for_profile_def stop_sse_connection_for_def is_connected_def Let_def)

text \<open>The first failure to get a token is shown as a failed authentication, whatever its cause, although five failed
  attempts to connect are passed over in silence.\<close>

lemma outage_reads_as_failed_authentication:
  "wk_phase (fst (attempt sv show_ureq (TokenFailed SyncConnectionFailed) new_worker pf))
     = Announcing StatusAuthenticationFailed [] (Waiting 1000)"
  by (simp add: attempt_def record_failure_def new_worker_def BACKOFF_INITIAL_def BACKOFF_MAX_def)

text \<open>A restart without progress that fails tells nobody and leaves the status as it was.\<close>

lemma silent_failure_changes_nothing:
  assumes "rj_kind j = Silent"
  shows "job_report name (Inl e) j pf = (JobDone, pf)"
  using assms by (simp add: job_report_def)

end
