(* ===== verification/Log_View.thy ===== *)
theory Log_View
  imports Session
begin

text \<open>
  \<^verbatim>\<open>src/fulgur/ui/log_view/\<close>: the log view of a tab, which shows the last lines of a growing file. One tab with its poll
  tasks, each with its cancel flag and, between the read in the background and its use on the UI thread, the chunk it
  read; the file changes at any moment. The rope of the editor component is a parameter: how many lines it counts and
  where a line starts. \<open>lv_shown\<close> is a record for the proofs: all text put into the view since it was last filled.
\<close>

section \<open>Trimming\<close>

definition LOG_LINE_CAP :: nat where "LOG_LINE_CAP = 10000"

definition log_toggle_available :: "rstr \<Rightarrow> bool" where
  "log_toggle_available path \<longleftrightarrow>
     map_option (map ascii_lower) (path_extension path)
       \<in> {Some (lit ''log''), Some (lit ''txt''), Some (lit ''out''), Some (lit ''err'')}"

definition newlines :: "rstr \<Rightarrow> nat" where
  "newlines s = length (filter (\<lambda>c. c = 10) s)"

text \<open>The scan for the line end after which the kept text begins.\<close>

fun cut_loop :: "nat \<Rightarrow> nat \<Rightarrow> nat \<Rightarrow> rstr \<Rightarrow> nat" where
  "cut_loop lines_to_drop seen idx [] = 0"
| "cut_loop lines_to_drop seen idx (c # cs) =
     (if c = 10 then
        if seen + 1 = lines_to_drop then idx + 1 else cut_loop lines_to_drop (seen + 1) (idx + 1) cs
      else cut_loop lines_to_drop seen (idx + 1) cs)"

definition trim_to_last_lines :: "rstr \<Rightarrow> nat \<Rightarrow> rstr \<times> bool" where
  "trim_to_last_lines buffer max_lines =
     (let newline_count = newlines buffer in
      if newline_count \<le> max_lines then (buffer, False)
      else (drop (cut_loop (newline_count - max_lines) 0 0 buffer) buffer, True))"

text \<open>What it means: the lines after the first ones.\<close>

fun drop_lines :: "nat \<Rightarrow> rstr \<Rightarrow> rstr" where
  "drop_lines 0 s = s"
| "drop_lines (Suc k) [] = []"
| "drop_lines (Suc k) (c # s) = (if c = 10 then drop_lines k s else drop_lines (Suc k) s)"

definition last_lines :: "nat \<Rightarrow> rstr \<Rightarrow> rstr" where
  "last_lines m s = drop_lines (newlines s - m) s"

section \<open>Reading\<close>

text \<open>The length that \<open>metadata\<close> reports, and the bytes there are when the file is read after it.\<close>

definition read_new_log_bytes :: "nat option \<Rightarrow> u8 list option \<Rightarrow> nat \<Rightarrow> (rstr \<times> nat \<times> bool) option" where
  "read_new_log_bytes len bytes offset =
     (case len of
        None \<Rightarrow> None
      | Some len \<Rightarrow>
          if len = offset then Some ([], offset, False)
          else if len < offset then
            (case bytes of None \<Rightarrow> None | Some bs \<Rightarrow> Some (from_utf8_lossy bs, length bs, True))
          else
            (case bytes of
               None \<Rightarrow> None
             | Some bs \<Rightarrow>
                 let buf = take (len - offset) (drop offset bs) in Some (from_utf8_lossy buf, offset + length buf, False)))"

section \<open>The view of a tab\<close>

record log_rope =
  rp_lines_len :: "rstr \<Rightarrow> nat"
  rp_line_start :: "rstr \<Rightarrow> nat \<Rightarrow> nat"

record log_tail_state =
  ts_byte_offset :: nat
  ts_dropped_lines :: bool
  ts_pending :: rstr

definition new_log_tail_state :: "nat \<Rightarrow> bool \<Rightarrow> log_tail_state" where
  "new_log_tail_state byte_offset dropped = \<lparr>ts_byte_offset = byte_offset, ts_dropped_lines = dropped, ts_pending = []\<rparr>"

datatype poll_phase = PollSleeping | PollRead "(rstr \<times> nat \<times> bool) option" | PollEnded

record poll_task =
  pt_cancelled :: bool
  pt_phase :: poll_phase

record log_view =
  lv_on :: bool
  lv_follow :: bool
  lv_full :: bool
  lv_content :: "rstr option"
  lv_tail :: "log_tail_state option"
  lv_cancel :: "nat option"
  lv_tasks :: "poll_task list"
  lv_buffer :: rstr
  lv_file :: "u8 list option"
  lv_errors :: nat
  lv_shown :: rstr

definition new_log_view :: "rstr \<Rightarrow> u8 list option \<Rightarrow> log_view" where
  "new_log_view buffer file = \<lparr>lv_on = False, lv_follow = False, lv_full = False, lv_content = None, lv_tail = None,
     lv_cancel = None, lv_tasks = [], lv_buffer = buffer, lv_file = file, lv_errors = 0, lv_shown = []\<rparr>"

fun drop_bytes :: "nat \<Rightarrow> rstr \<Rightarrow> rstr" where
  "drop_bytes 0 s = s"
| "drop_bytes (Suc n) [] = []"
| "drop_bytes (Suc n) (c # s) = drop_bytes (Suc n - len_utf8 c) s"

definition append_log_to_bottom :: "log_rope \<Rightarrow> rstr \<Rightarrow> rstr \<Rightarrow> bool \<Rightarrow> rstr \<times> bool" where
  "append_log_to_bottom rp content t log_full =
     (let s = (if t = [] then content else content @ t) in
      if log_full then (s, False)
      else
        let newline_count = rp_lines_len rp s - 1 in
        if LOG_LINE_CAP < newline_count then (drop_bytes (rp_line_start rp s (newline_count - LOG_LINE_CAP)) s, True)
        else (s, False))"

definition stop_polling :: "log_view \<Rightarrow> log_view" where
  "stop_polling lv =
     (case lv_cancel lv of
        None \<Rightarrow> lv
      | Some k \<Rightarrow> lv\<lparr>lv_cancel := None, lv_tasks := (lv_tasks lv)[k := (lv_tasks lv ! k)\<lparr>pt_cancelled := True\<rparr>]\<rparr>)"

definition start_polling :: "log_view \<Rightarrow> log_view" where
  "start_polling lv =
     (if lv_cancel lv \<noteq> None then lv
      else lv\<lparr>lv_cancel := Some (length (lv_tasks lv)),
              lv_tasks := lv_tasks lv @ [\<lparr>pt_cancelled = False, pt_phase = PollSleeping\<rparr>]\<rparr>)"

definition activate_log_view :: "log_view \<Rightarrow> log_view" where
  "activate_log_view lv =
     (let byte_offset = (case lv_file lv of None \<Rightarrow> 0 | Some bs \<Rightarrow> length bs);
          (display, dropped) = trim_to_last_lines (lv_buffer lv) LOG_LINE_CAP
      in start_polling
           (lv\<lparr>lv_on := True, lv_follow := True, lv_full := False, lv_content := Some display,
               lv_tail := Some (new_log_tail_state byte_offset dropped), lv_shown := lv_buffer lv\<rparr>))"

definition deactivate_log_view :: "log_view \<Rightarrow> log_view" where
  "deactivate_log_view lv = (stop_polling lv)\<lparr>lv_tail := None, lv_on := False, lv_full := False, lv_content := None\<rparr>"

definition toggle_log_view :: "rstr \<Rightarrow> log_view \<Rightarrow> log_view" where
  "toggle_log_view path lv =
     (if \<not> log_toggle_available path then lv
      else if lv_on lv then deactivate_log_view lv else activate_log_view lv)"

definition resume_view :: "log_view \<Rightarrow> log_view" where
  "resume_view lv = (if lv_content lv = None then activate_log_view lv else start_polling lv)"

definition flush_log_follow :: "log_rope \<Rightarrow> log_view \<Rightarrow> log_view" where
  "flush_log_follow rp lv =
     (case lv_content lv of
        None \<Rightarrow> lv
      | Some content \<Rightarrow>
          let pending = (case lv_tail lv of Some s \<Rightarrow> ts_pending s | None \<Rightarrow> []);
              dropped_before = (case lv_tail lv of Some s \<Rightarrow> ts_dropped_lines s | None \<Rightarrow> False);
              (content', dropped_now) = append_log_to_bottom rp content pending (lv_full lv)
          in lv\<lparr>lv_content := Some content',
                lv_tail := map_option (\<lambda>s. s\<lparr>ts_pending := [], ts_dropped_lines := dropped_before \<or> dropped_now\<rparr>) (lv_tail lv),
                lv_shown := lv_shown lv @ pending\<rparr>)"

definition toggle_log_follow :: "log_rope \<Rightarrow> log_view \<Rightarrow> log_view" where
  "toggle_log_follow rp lv =
     (if \<not> lv_on lv then lv
      else
        let enable = \<not> lv_follow lv; lv1 = lv\<lparr>lv_follow := enable\<rparr>
        in if enable then flush_log_follow rp lv1 else lv1)"

definition load_full_log :: "log_view \<Rightarrow> log_view" where
  "load_full_log lv =
     (if \<not> lv_on lv \<or> lv_content lv = None then lv
      else (case lv_file lv of
              None \<Rightarrow> lv\<lparr>lv_errors := lv_errors lv + 1\<rparr>
            | Some bytes \<Rightarrow>
                let full = from_utf8_lossy bytes in
                lv\<lparr>lv_content := Some full,
                   lv_tail := map_option (\<lambda>s. s\<lparr>ts_byte_offset := length bytes, ts_dropped_lines := False, ts_pending := []\<rparr>)
                                (lv_tail lv),
                   lv_full := True, lv_follow := True, lv_shown := full\<rparr>))"

section \<open>Polling\<close>

definition log_tail_offset :: "log_view \<Rightarrow> nat option" where
  "log_tail_offset lv = (if \<not> lv_on lv then None else map_option ts_byte_offset (lv_tail lv))"

definition set_phase :: "nat \<Rightarrow> poll_phase \<Rightarrow> log_view \<Rightarrow> log_view" where
  "set_phase k ph lv = lv\<lparr>lv_tasks := (lv_tasks lv)[k := (lv_tasks lv ! k)\<lparr>pt_phase := ph\<rparr>]\<rparr>"

text \<open>A task wakes up, asks for the offset and reads.\<close>

definition poll_read :: "nat \<Rightarrow> nat option \<Rightarrow> log_view \<Rightarrow> log_view" where
  "poll_read k len lv =
     (if pt_cancelled (lv_tasks lv ! k) then set_phase k PollEnded lv
      else (case log_tail_offset lv of
              None \<Rightarrow> set_phase k PollEnded lv
            | Some offset \<Rightarrow> set_phase k (PollRead (read_new_log_bytes len (lv_file lv) offset)) lv))"

definition apply_log_tail_chunk :: "log_rope \<Rightarrow> rstr \<Rightarrow> nat \<Rightarrow> bool \<Rightarrow> log_view \<Rightarrow> log_view" where
  "apply_log_tail_chunk rp t new_offset truncated lv =
     (case lv_content lv of
        None \<Rightarrow> lv
      | Some content \<Rightarrow>
          let lv1 = lv\<lparr>lv_tail := map_option (\<lambda>s. s\<lparr>ts_byte_offset := new_offset\<rparr>) (lv_tail lv)\<rparr> in
          if truncated then
            let (display, dropped) = (if lv_full lv then (t, False) else trim_to_last_lines t LOG_LINE_CAP)
            in lv1\<lparr>lv_content := Some display,
                   lv_tail := map_option (\<lambda>s. s\<lparr>ts_pending := [], ts_dropped_lines := dropped\<rparr>) (lv_tail lv1),
                   lv_shown := t\<rparr>
          else if \<not> lv_follow lv then
            lv1\<lparr>lv_tail := map_option (\<lambda>s. s\<lparr>ts_pending := ts_pending s @ t\<rparr>) (lv_tail lv1)\<rparr>
          else
            let dropped_before = (case lv_tail lv1 of Some s \<Rightarrow> ts_dropped_lines s | None \<Rightarrow> False);
                (content', dropped_now) = append_log_to_bottom rp content t (lv_full lv)
            in lv1\<lparr>lv_content := Some content',
                   lv_tail := map_option (\<lambda>s. s\<lparr>ts_pending := [], ts_dropped_lines := dropped_before \<or> dropped_now\<rparr>) (lv_tail lv1),
                   lv_shown := lv_shown lv @ t\<rparr>)"

definition poll_apply :: "log_rope \<Rightarrow> nat \<Rightarrow> (rstr \<times> nat \<times> bool) option \<Rightarrow> log_view \<Rightarrow> log_view" where
  "poll_apply rp k chunk lv =
     set_phase k PollSleeping
       (case chunk of
          None \<Rightarrow> lv
        | Some (t, new_offset, truncated) \<Rightarrow>
            if t = [] \<and> \<not> truncated then lv else apply_log_tail_chunk rp t new_offset truncated lv)"

section \<open>All interleavings\<close>

inductive log_step :: "log_rope \<Rightarrow> log_view \<Rightarrow> log_view \<Rightarrow> bool" for rp where
    toggles: "log_step rp lv (toggle_log_view path lv)"
  | activates: "log_step rp lv (activate_log_view lv)"
  | stops: "log_step rp lv (stop_polling lv)"
  | resumes: "lv_on lv \<Longrightarrow> log_step rp lv (resume_view lv)"
  | follows: "log_step rp lv (toggle_log_follow rp lv)"
  | loads_full: "log_step rp lv (load_full_log lv)"
  | polls: "\<lbrakk>k < length (lv_tasks lv); pt_phase (lv_tasks lv ! k) = PollSleeping\<rbrakk> \<Longrightarrow> log_step rp lv (poll_read k len lv)"
  | shows_chunk: "\<lbrakk>k < length (lv_tasks lv); pt_phase (lv_tasks lv ! k) = PollRead chunk\<rbrakk>
      \<Longrightarrow> log_step rp lv (poll_apply rp k chunk lv)"
  | file_changes: "log_step rp lv (lv\<lparr>lv_file := f\<rparr>)"
  | text_changes: "log_step rp lv (lv\<lparr>lv_buffer := b\<rparr>)"

inductive log_reaches :: "log_rope \<Rightarrow> log_view \<Rightarrow> log_view \<Rightarrow> bool" for rp where
    l_here: "log_reaches rp lv lv"
  | l_onward: "\<lbrakk>log_reaches rp lv0 lv; log_step rp lv lv'\<rbrakk> \<Longrightarrow> log_reaches rp lv0 lv'"

section \<open>Trimming keeps the last lines\<close>

lemma newlines_simps [simp]:
  "newlines [] = 0" "newlines (c # s) = (if c = 10 then Suc (newlines s) else newlines s)"
  "newlines (s @ t) = newlines s + newlines t"
  by (simp_all add: newlines_def)

lemma cut_loop_drops:
  "seen < n \<Longrightarrow> n \<le> seen + newlines s \<Longrightarrow> idx \<le> cut_loop n seen idx s \<and> drop (cut_loop n seen idx s - idx) s = drop_lines (n - seen) s"
proof (induction n seen idx s rule: cut_loop.induct)
  case (2 n seen idx c cs)
  show ?case
  proof (cases "c = 10")
    case False
    then have ih: "idx + 1 \<le> cut_loop n seen (idx + 1) cs"
      "drop (cut_loop n seen (idx + 1) cs - (idx + 1)) cs = drop_lines (n - seen) cs"
      using 2(2) [OF False 2(3)] 2(4) by auto
    obtain j where "n - seen = Suc j" using 2(3) by (metis Suc_diff_Suc)
    moreover have "cut_loop n seen (idx + 1) cs - idx = Suc (cut_loop n seen (idx + 1) cs - (idx + 1))" using ih(1) by simp
    ultimately show ?thesis using ih False by simp
  next
    case True
    show ?thesis
    proof (cases "seen + 1 = n")
      case False
      then have ih: "idx + 1 \<le> cut_loop n (seen + 1) (idx + 1) cs"
        "drop (cut_loop n (seen + 1) (idx + 1) cs - (idx + 1)) cs = drop_lines (n - (seen + 1)) cs"
        using 2(1) [OF True False] 2(3,4) True by auto
      have "n - seen = Suc (n - (seen + 1))" using 2(3) by simp
      moreover have "cut_loop n (seen + 1) (idx + 1) cs - idx = Suc (cut_loop n (seen + 1) (idx + 1) cs - (idx + 1))"
        using ih(1) by simp
      ultimately show ?thesis using ih True False by simp
    qed (use True in auto)
  qed
qed simp

lemma trim_to_last_lines_eq: "trim_to_last_lines s m = (last_lines m s, m < newlines s)"
  using cut_loop_drops [of 0 "newlines s - m" s 0] by (auto simp: trim_to_last_lines_def last_lines_def Let_def)

lemma drop_lines_append: "k \<le> newlines a \<Longrightarrow> drop_lines k (a @ b) = drop_lines k a @ b"
  by (induction k a rule: drop_lines.induct) (auto split: if_splits)

lemma drop_lines_Nil [simp]: "drop_lines k [] = []"
  by (cases k) simp_all

lemma drop_lines_add: "drop_lines (j + k) s = drop_lines j (drop_lines k s)"
  by (induction k s rule: drop_lines.induct) auto

lemma newlines_drop_lines: "newlines (drop_lines k s) = newlines s - k"
  by (induction k s rule: drop_lines.induct) auto

lemma newlines_last_lines: "newlines (last_lines m s) = min m (newlines s)"
  by (simp add: last_lines_def newlines_drop_lines min_def)

text \<open>Trimming after each chunk shows what trimming all of it at once would.\<close>

lemma last_lines_append: "last_lines m (last_lines m a @ b) = last_lines m (a @ b)"
proof (cases "newlines a \<le> m")
  case True
  then show ?thesis by (simp add: last_lines_def [of m a])
next
  case False
  then have "last_lines m (a @ b) = drop_lines (newlines b + (newlines a - m)) (a @ b)"
    by (simp add: last_lines_def add.commute)
  also have "\<dots> = drop_lines (newlines b) (drop_lines (newlines a - m) a @ b)"
    by (simp add: drop_lines_add drop_lines_append)
  also have "\<dots> = last_lines m (last_lines m a @ b)"
    using False by (simp add: last_lines_def [of m "last_lines m a @ b"] newlines_last_lines) (simp add: last_lines_def)
  finally show ?thesis by simp
qed

lemma last_lines_idem [simp]: "last_lines m (last_lines m a) = last_lines m a"
  using last_lines_append [of m a "[]"] by simp

section \<open>The view shows the last lines of what was read\<close>

text \<open>The documented behaviour of the rope: lines end at line feeds.\<close>

definition rope_ok :: "log_rope \<Rightarrow> bool" where
  "rope_ok rp \<longleftrightarrow> (\<forall>s. rp_lines_len rp s = Suc (newlines s)
     \<and> (\<forall>k. k \<le> newlines s \<longrightarrow> rp_line_start rp s k = blen s - blen (drop_lines k s)))"

lemma drop_bytes_blen: "drop_bytes (blen a) (a @ b) = b"
proof (induction a)
  case (Cons c a)
  obtain n where n: "len_utf8 c + blen a = Suc n" by (metis add_is_0 len_utf8_pos not0_implies_Suc not_less_zero)
  have "Suc n - len_utf8 c = blen a" using n by simp
  then show ?case using Cons n by simp
qed simp

lemma drop_lines_suffix: "\<exists>a. s = a @ drop_lines k s"
proof (induction k s rule: drop_lines.induct)
  case (3 k c s)
  then show ?case by (cases "c = 10") (metis append_Cons drop_lines.simps(3))+
qed auto

lemma blen_append: "blen (a @ b) = blen a + blen b"
  by (simp add: blen_def)

lemma appended:
  assumes "rope_ok rp"
  shows "append_log_to_bottom rp c t full
    = (if full then (c @ t, False) else (last_lines LOG_LINE_CAP (c @ t), LOG_LINE_CAP < newlines (c @ t)))"
proof -
  let ?s = "c @ t"
  have s: "(if t = [] then c else c @ t) = ?s" by simp
  obtain a where a: "?s = a @ drop_lines (newlines ?s - LOG_LINE_CAP) ?s" using drop_lines_suffix by blast
  have "blen ?s = blen a + blen (drop_lines (newlines ?s - LOG_LINE_CAP) ?s)"
    using blen_append [of a "drop_lines (newlines ?s - LOG_LINE_CAP) ?s"] unfolding a [symmetric] .
  then have "blen ?s - blen (drop_lines (newlines ?s - LOG_LINE_CAP) ?s) = blen a" by linarith
  then have "drop_bytes (rp_line_start rp ?s (newlines ?s - LOG_LINE_CAP)) ?s = last_lines LOG_LINE_CAP ?s"
    using assms drop_bytes_blen [of a "drop_lines (newlines ?s - LOG_LINE_CAP) ?s"] a
    by (simp add: rope_ok_def last_lines_def)
  moreover have "\<not> LOG_LINE_CAP < newlines ?s \<Longrightarrow> last_lines LOG_LINE_CAP ?s = ?s" by (simp add: last_lines_def)
  moreover have "rp_lines_len rp ?s - 1 = newlines ?s" using assms by (simp add: rope_ok_def del: newlines_simps)
  ultimately show ?thesis unfolding append_log_to_bottom_def s by (simp add: Let_def del: newlines_simps)
qed

definition view_ok :: "bool \<Rightarrow> bool \<Rightarrow> rstr option \<Rightarrow> log_tail_state option \<Rightarrow> rstr \<Rightarrow> bool" where
  "view_ok follow full content tail shown \<longleftrightarrow>
     content = Some (if full then shown else last_lines LOG_LINE_CAP shown)
     \<and> (\<exists>s. tail = Some s \<and> (follow \<longrightarrow> ts_pending s = [])
            \<and> ts_dropped_lines s = (\<not> full \<and> LOG_LINE_CAP < newlines shown))"

definition tasks_ok :: "bool \<Rightarrow> nat option \<Rightarrow> poll_task list \<Rightarrow> bool" where
  "tasks_ok on cancel ts \<longleftrightarrow>
     (case cancel of None \<Rightarrow> True | Some k \<Rightarrow> on \<and> k < length ts \<and> \<not> pt_cancelled (ts ! k))
     \<and> (\<forall>i < length ts. pt_cancelled (ts ! i) \<or> cancel = Some i \<and> pt_phase (ts ! i) \<noteq> PollEnded)"

definition log_ok :: "log_view \<Rightarrow> bool" where
  "log_ok lv \<longleftrightarrow>
     (if lv_on lv then view_ok (lv_follow lv) (lv_full lv) (lv_content lv) (lv_tail lv) (lv_shown lv)
      else lv_content lv = None \<and> lv_tail lv = None)
     \<and> tasks_ok (lv_on lv) (lv_cancel lv) (lv_tasks lv)"

lemma append_view_ok:
  assumes "rope_ok rp" "view_ok follow full (Some c) (Some s) shown" "append_log_to_bottom rp c t full = (c', d)"
  shows "view_ok follow' full (Some c') (Some (s'\<lparr>ts_pending := [], ts_dropped_lines := ts_dropped_lines s \<or> d\<rparr>)) (shown @ t)"
  using assms
  by (auto simp: view_ok_def appended last_lines_append newlines_last_lines split: if_splits)

lemma tasks_ok_stop:
  assumes "tasks_ok on (Some k) ts"
  shows "tasks_ok on' None (ts[k := (ts ! k)\<lparr>pt_cancelled := True\<rparr>])"
  using assms by (auto simp: tasks_ok_def nth_list_update)

lemma tasks_ok_none: "tasks_ok on None ts \<Longrightarrow> tasks_ok on' None ts"
  by (simp add: tasks_ok_def)

lemma tasks_ok_on: "tasks_ok on c ts \<Longrightarrow> tasks_ok True c ts"
  by (auto simp: tasks_ok_def split: option.splits)

lemma tasks_ok_start: "tasks_ok on None ts \<Longrightarrow> tasks_ok True (Some (length ts)) (ts @ [\<lparr>pt_cancelled = False, pt_phase = PollSleeping\<rparr>])"
  by (auto simp: tasks_ok_def nth_append)

lemma tasks_ok_phase:
  assumes "tasks_ok on c ts" "ph \<noteq> PollEnded \<or> pt_cancelled (ts ! k)"
  shows "tasks_ok on c (ts[k := (ts ! k)\<lparr>pt_phase := ph\<rparr>])"
  using assms by (cases "k < length ts") (auto simp: tasks_ok_def nth_list_update list_update_beyond not_less split: option.splits)

lemma start_polling_ok:
  assumes "lv_on lv" "tasks_ok on (lv_cancel lv) (lv_tasks lv)"
    "view_ok (lv_follow lv) (lv_full lv) (lv_content lv) (lv_tail lv) (lv_shown lv)"
  shows "log_ok (start_polling lv)"
proof (cases "lv_cancel lv")
  case None
  then show ?thesis using assms tasks_ok_start [of on "lv_tasks lv"] by (simp add: start_polling_def log_ok_def)
next
  case (Some k)
  then show ?thesis using assms tasks_ok_on [of on "Some k" "lv_tasks lv"] by (simp add: start_polling_def log_ok_def)
qed

lemma activate_ok:
  assumes "log_ok lv"
  shows "log_ok (activate_log_view lv)"
proof -
  obtain b where b: "(case lv_file lv of None \<Rightarrow> 0 | Some bs \<Rightarrow> length bs) = b" by simp
  let ?lv = "lv\<lparr>lv_on := True, lv_follow := True, lv_full := False, lv_content := Some (last_lines LOG_LINE_CAP (lv_buffer lv)),
     lv_tail := Some (new_log_tail_state b (LOG_LINE_CAP < newlines (lv_buffer lv))), lv_shown := lv_buffer lv\<rparr>"
  have "activate_log_view lv = start_polling ?lv"
    using b by (simp add: activate_log_view_def trim_to_last_lines_eq)
  moreover have "log_ok (start_polling ?lv)"
    using assms by (intro start_polling_ok [of _ "lv_on lv"]) (auto simp: log_ok_def view_ok_def new_log_tail_state_def)
  ultimately show ?thesis by simp
qed

lemma stop_polling_frame [simp]:
  "lv_on (stop_polling lv) = lv_on lv" "lv_follow (stop_polling lv) = lv_follow lv" "lv_full (stop_polling lv) = lv_full lv"
  "lv_content (stop_polling lv) = lv_content lv" "lv_tail (stop_polling lv) = lv_tail lv"
  "lv_shown (stop_polling lv) = lv_shown lv" "lv_cancel (stop_polling lv) = None"
  by (auto simp: stop_polling_def split: option.splits)

lemma stop_polling_tasks: "tasks_ok on (lv_cancel lv) (lv_tasks lv) \<Longrightarrow> tasks_ok on' None (lv_tasks (stop_polling lv))"
  using tasks_ok_stop [of on _ "lv_tasks lv"] tasks_ok_none by (auto simp: stop_polling_def split: option.splits)

lemma flush_ok:
  assumes "rope_ok rp" "lv_on lv" "tasks_ok True (lv_cancel lv) (lv_tasks lv)"
    "view_ok follow (lv_full lv) (lv_content lv) (lv_tail lv) (lv_shown lv)"
  shows "log_ok (flush_log_follow rp lv)"
proof -
  obtain c s where c: "lv_content lv = Some c" "lv_tail lv = Some s" using assms(4) by (auto simp: view_ok_def)
  obtain c' d where a: "append_log_to_bottom rp c (ts_pending s) (lv_full lv) = (c', d)" by (metis surj_pair)
  show ?thesis
    using assms c a append_view_ok [OF assms(1), of follow "lv_full lv" c s "lv_shown lv" "ts_pending s" c' d "lv_follow lv" s]
    by (simp add: flush_log_follow_def log_ok_def)
qed

lemma apply_chunk_ok:
  assumes "rope_ok rp" "log_ok lv"
  shows "log_ok (apply_log_tail_chunk rp t off truncated lv)"
proof (cases "lv_on lv")
  case False
  then show ?thesis using assms(2) by (simp add: log_ok_def apply_log_tail_chunk_def)
next
  case True
  then have v: "view_ok (lv_follow lv) (lv_full lv) (lv_content lv) (lv_tail lv) (lv_shown lv)"
    "tasks_ok True (lv_cancel lv) (lv_tasks lv)" using assms(2) by (simp_all add: log_ok_def)
  obtain c s where c: "lv_content lv = Some c" "lv_tail lv = Some s" using v(1) by (auto simp: view_ok_def)
  obtain c' d where a: "append_log_to_bottom rp c t (lv_full lv) = (c', d)" by (metis surj_pair)
  show ?thesis
  proof (cases "truncated \<or> \<not> lv_follow lv")
    case True
    then show ?thesis using v c \<open>lv_on lv\<close>
      by (auto simp: apply_log_tail_chunk_def log_ok_def view_ok_def trim_to_last_lines_eq Let_def split: if_splits)
  next
    case False
    then show ?thesis using v c a \<open>lv_on lv\<close>
        append_view_ok [OF assms(1), of "lv_follow lv" "lv_full lv" c s "lv_shown lv" t c' d "lv_follow lv" "s\<lparr>ts_byte_offset := off\<rparr>"]
      by (simp add: apply_log_tail_chunk_def log_ok_def)
  qed
qed

lemma set_phase_ok:
  assumes "log_ok lv" "ph \<noteq> PollEnded \<or> pt_cancelled (lv_tasks lv ! k)"
  shows "log_ok (set_phase k ph lv)"
  using assms tasks_ok_phase [of "lv_on lv" "lv_cancel lv" "lv_tasks lv" ph k] by (simp add: log_ok_def set_phase_def)

lemma live_task_has_offset:
  assumes "log_ok lv" "k < length (lv_tasks lv)" "\<not> pt_cancelled (lv_tasks lv ! k)"
  shows "log_tail_offset lv \<noteq> None"
proof -
  have t: "tasks_ok (lv_on lv) (lv_cancel lv) (lv_tasks lv)" using assms(1) by (simp add: log_ok_def)
  then have "lv_cancel lv = Some k" using assms(2,3) by (auto simp: tasks_ok_def)
  then have "lv_on lv" using t by (simp add: tasks_ok_def)
  then show ?thesis using assms(1) by (auto simp: log_ok_def view_ok_def log_tail_offset_def)
qed

lemma log_step_ok:
  assumes "rope_ok rp"
  shows "log_step rp lv lv' \<Longrightarrow> log_ok lv \<Longrightarrow> log_ok lv'"
proof (induction rule: log_step.induct)
  case (toggles lv path)
  have "log_ok (deactivate_log_view lv)" using toggles stop_polling_tasks [of "lv_on lv" lv False]
    by (simp add: deactivate_log_view_def log_ok_def)
  then show ?case using toggles activate_ok by (simp add: toggle_log_view_def)
next
  case (activates lv)
  then show ?case by (rule activate_ok)
next
  case (stops lv)
  then show ?case using stop_polling_tasks [of "lv_on lv" lv "lv_on lv"] by (simp add: log_ok_def)
next
  case (resumes lv)
  have "log_ok (start_polling lv)" using resumes by (intro start_polling_ok [of _ "lv_on lv"]) (simp_all add: log_ok_def)
  then show ?case using activate_ok [OF resumes(2)] by (simp add: resume_view_def)
next
  case (follows lv)
  show ?case
  proof (cases "lv_on lv \<and> \<not> lv_follow lv")
    case True
    then have "log_ok (flush_log_follow rp (lv\<lparr>lv_follow := True\<rparr>))"
      using follows by (intro flush_ok [OF assms, of _ "lv_follow lv"]) (simp_all add: log_ok_def)
    then show ?thesis using True by (simp add: toggle_log_follow_def)
  next
    case False
    then show ?thesis using follows by (auto simp: toggle_log_follow_def log_ok_def view_ok_def)
  qed
next
  case (loads_full lv)
  then show ?case by (auto simp: load_full_log_def log_ok_def view_ok_def Let_def split: option.splits if_splits)
next
  case (polls k lv len)
  then show ?case using live_task_has_offset [OF polls(3,1)] set_phase_ok [OF polls(3)]
    by (auto simp: poll_read_def split: option.splits)
next
  case (shows_chunk k lv chunk)
  have "log_ok (case chunk of None \<Rightarrow> lv
      | Some (t, off, truncated) \<Rightarrow> if t = [] \<and> \<not> truncated then lv else apply_log_tail_chunk rp t off truncated lv)"
    using shows_chunk(3) apply_chunk_ok [OF assms] by (auto split: option.splits prod.splits)
  then show ?case unfolding poll_apply_def by (intro set_phase_ok) simp_all
qed (simp_all add: log_ok_def)

lemma log_reaches_ok: "log_reaches rp lv0 lv \<Longrightarrow> rope_ok rp \<Longrightarrow> log_ok lv0 \<Longrightarrow> log_ok lv"
  by (induction rule: log_reaches.induct) (auto intro: log_step_ok)

lemma new_log_view_ok: "log_ok (new_log_view b f)"
  by (simp add: log_ok_def new_log_view_def tasks_ok_def)

text \<open>C16: Whatever the user, the poll tasks and the file do, a log view shows the last 10,000 lines of all the text that was
  put into it since it was filled, or all of it after the whole file was loaded; while it follows the file nothing is
  held back, and the mark of dropped lines is right. At most one poll task is not cancelled, and it never ends by
  itself.\<close>

theorem log_view_shows_last_lines:
  assumes "rope_ok rp" "log_reaches rp (new_log_view b f) lv"
  shows "(lv_on lv \<longrightarrow>
      lv_content lv = Some (if lv_full lv then lv_shown lv else last_lines LOG_LINE_CAP (lv_shown lv))
      \<and> (\<exists>s. lv_tail lv = Some s \<and> (lv_follow lv \<longrightarrow> ts_pending s = [])
             \<and> ts_dropped_lines s = (\<not> lv_full lv \<and> LOG_LINE_CAP < newlines (lv_shown lv))))
    \<and> (\<forall>i < length (lv_tasks lv). pt_cancelled (lv_tasks lv ! i)
          \<or> lv_cancel lv = Some i \<and> pt_phase (lv_tasks lv ! i) \<noteq> PollEnded \<and> lv_on lv)"
proof -
  have ok: "log_ok lv" using log_reaches_ok [OF assms(2,1) new_log_view_ok] .
  then show ?thesis by (auto simp: log_ok_def view_ok_def tasks_ok_def)
qed

definition sample_rope :: log_rope where
  "sample_rope = \<lparr>rp_lines_len = (\<lambda>s. Suc (newlines s)), rp_line_start = (\<lambda>s k. blen s - blen (drop_lines k s))\<rparr>"

lemma log_view_shows_last_lines_witness:
  "lv_content (activate_log_view (new_log_view [97, 10, 98] None)) = Some [97, 10, 98]
   \<and> last_lines LOG_LINE_CAP [97, 10, 98] = [97, 10, 98]"
proof -
  let ?lv = "activate_log_view (new_log_view [97, 10, 98] None)"
  have "rope_ok sample_rope" by (simp add: rope_ok_def sample_rope_def)
  moreover have "log_reaches sample_rope (new_log_view [97, 10, 98] None) ?lv"
    by (rule l_onward [OF l_here log_step.activates])
  moreover have "lv_on ?lv" "lv_full ?lv = False" "lv_shown ?lv = [97, 10, 98]"
    by (simp_all add: activate_log_view_def new_log_view_def start_polling_def split: prod.splits)
  ultimately show ?thesis using log_view_shows_last_lines [of sample_rope "[97, 10, 98]" None ?lv]
    by (simp add: last_lines_def LOG_LINE_CAP_def)
qed

section \<open>What is read\<close>

text \<open>A file that grew by whole characters is read exactly.\<close>

lemma grown_file_is_read:
  assumes "\<forall>c \<in> set t. is_scalar c" "t \<noteq> []"
  shows "read_new_log_bytes (Some (length (utf8 (s @ t)))) (Some (utf8 (s @ t))) (length (utf8 s))
    = Some (t, length (utf8 (s @ t)), False)"
proof -
  have "utf8 t \<noteq> []" using assms(2) by (cases t) (auto simp: utf8_char_def)
  then show ?thesis using utf8_decode_encode(2) [OF assms(1)] by (simp add: read_new_log_bytes_def)
qed

text \<open>A character whose bytes arrive in two polls is shown as replacement characters.\<close>

lemma split_character_is_lost:
  "map_option fst (read_new_log_bytes (Some 1) (Some [195]) 0) = Some [REPLACEMENT]
   \<and> map_option fst (read_new_log_bytes (Some 2) (Some [195, 169]) 1) = Some [REPLACEMENT]
   \<and> map_option fst (read_new_log_bytes (Some 2) (Some [195, 169]) 0) = Some [233]"
  by (simp add: read_new_log_bytes_def from_utf8_lossy_def decode_chunks.simps decode_step_def step_len_def seq_width_def
      second_ok_def is_cont_def byte_at_def REPLACEMENT_def Let_def)

text \<open>Loading the whole file between the read of a poll task and its use shows the new lines twice.\<close>

lemma full_load_duplicates_chunk:
  assumes "rope_ok rp" "lv_on lv" "lv_content lv \<noteq> None" "lv_file lv = Some (utf8 (s @ t))" "\<forall>c \<in> set (s @ t). is_scalar c"
    "t \<noteq> []" "lv_tail lv = Some st"
  shows "lv_content (poll_apply rp k (read_new_log_bytes (Some (length (utf8 (s @ t)))) (lv_file lv) (length (utf8 s)))
      (load_full_log lv)) = Some (s @ t @ t)"
proof -
  have r: "read_new_log_bytes (Some (length (utf8 (s @ t)))) (lv_file lv) (length (utf8 s)) = Some (t, length (utf8 (s @ t)), False)"
    using grown_file_is_read [of t s] assms(4,5,6) by simp
  have f: "from_utf8_lossy (utf8 (s @ t)) = s @ t" using utf8_decode_encode(2) assms(5) by blast
  show ?thesis unfolding r using assms(1,2,3,4,6,7) f
    by (auto simp: load_full_log_def poll_apply_def apply_log_tail_chunk_def set_phase_def appended Let_def simp del: utf8_simps)
qed

text \<open>The offset at activation is the length of the file, the text that of the buffer: what was appended between the
  load of the buffer and the activation is never shown.\<close>

lemma activation_skips_unread_text:
  assumes "lv_file lv = Some bs" "lv_cancel lv = None"
  shows "map_option ts_byte_offset (lv_tail (activate_log_view lv)) = Some (length bs)
    \<and> lv_content (activate_log_view lv) = Some (last_lines LOG_LINE_CAP (lv_buffer lv))"
  using assms by (simp add: activate_log_view_def trim_to_last_lines_eq start_polling_def new_log_tail_state_def)

end
