(* ===== verification/Window_Manager.thy ===== *)
theory Window_Manager
  imports Tabs "HOL-Library.List_Lexorder" "HOL-Library.Product_Lexorder" "HOL-Library.Multiset"
begin

text \<open>
  The windows of the process: \<^verbatim>\<open>src/fulgur/window_manager/\<close> (\<open>WindowManager\<close>, the snapshots for the menus of the
  system, the actions of these menus), \<^verbatim>\<open>src/fulgur/ui/menus/dock.rs\<close>, what the listener of
  \<^verbatim>\<open>src/fulgur/utils/single_instance.rs\<close> receives from another process, and the requests to open a file of \<^verbatim>\<open>src/main.rs\<close>.
  The order in which a \<open>HashMap\<close> yields its keys is not fixed: the keys are lists, and \<open>map_order\<close> rearranges
  them when a key is added.
\<close>

section \<open>Names of windows\<close>

function name_loop :: "nat \<Rightarrow> rstr \<Rightarrow> rstr" where
  "name_loop index name =
     (let name = (65 + index mod 26) # name in
      if index < 26 then name else name_loop (index div 26 - 1) name)"
  by pat_completeness auto
termination by (relation "measure fst") auto

declare name_loop.simps [simp del]

definition index_to_name :: "nat \<Rightarrow> rstr" where
  "index_to_name index = name_loop index []"

section \<open>The manager\<close>

record menu_tab =
  wt_path :: "rstr option"
  wt_title :: rstr

record window_manager =
  wm_windows :: "nat list"
  wm_last_focused :: "nat option"
  wm_names :: "(nat \<times> rstr) list"
  wm_next_name_index :: nat
  wm_menu_tabs :: "nat \<rightharpoonup> menu_tab list"

record map_order =
  mo_windows :: "nat list \<Rightarrow> nat list"
  mo_names :: "(nat \<times> rstr) list \<Rightarrow> (nat \<times> rstr) list"

definition new_window_manager :: window_manager where
  "new_window_manager =
     \<lparr>wm_windows = [], wm_last_focused = None, wm_names = [], wm_next_name_index = 0, wm_menu_tabs = Map.empty\<rparr>"

definition register_window :: "map_order \<Rightarrow> nat \<Rightarrow> window_manager \<Rightarrow> window_manager" where
  "register_window mo w m =
     m\<lparr>wm_windows := (if w \<in> set (wm_windows m) then wm_windows m else mo_windows mo (w # wm_windows m)),
       wm_last_focused := Some w,
       wm_names := mo_names mo ((w, index_to_name (wm_next_name_index m)) # filter (\<lambda>(k, n). k \<noteq> w) (wm_names m)),
       wm_next_name_index := wm_next_name_index m + 1\<rparr>"

definition unregister_window :: "nat \<Rightarrow> window_manager \<Rightarrow> window_manager" where
  "unregister_window w m =
     (let m1 = m\<lparr>wm_windows := filter (\<lambda>k. k \<noteq> w) (wm_windows m),
                 wm_names := filter (\<lambda>(k, n). k \<noteq> w) (wm_names m),
                 wm_menu_tabs := (wm_menu_tabs m)(w := None)\<rparr>
      in if wm_last_focused m1 = Some w
         then m1\<lparr>wm_last_focused := (case wm_windows m1 of [] \<Rightarrow> None | k # _ \<Rightarrow> Some k)\<rparr>
         else m1)"

definition set_focused :: "nat \<Rightarrow> window_manager \<Rightarrow> window_manager" where
  "set_focused w m = (if w \<in> set (wm_windows m) then m\<lparr>wm_last_focused := Some w\<rparr> else m)"

definition window_count :: "window_manager \<Rightarrow> nat" where
  "window_count m = length (wm_windows m)"

definition get_window_name :: "nat \<Rightarrow> window_manager \<Rightarrow> rstr option" where
  "get_window_name w m = (if length (wm_windows m) \<le> 1 then None else map_of (wm_names m) w)"

definition publish_window_menu_tabs :: "nat \<Rightarrow> menu_tab list \<Rightarrow> window_manager \<Rightarrow> bool \<times> window_manager" where
  "publish_window_menu_tabs w tabs m =
     (if w \<notin> set (wm_windows m) then (False, m)
      else if wm_menu_tabs m w = Some tabs then (False, m)
      else (True, m\<lparr>wm_menu_tabs := (wm_menu_tabs m)(w \<mapsto> tabs)\<rparr>))"

text \<open>The names are compared by length, then byte by byte; they are ASCII.\<close>

definition ordered_window_menu_tabs :: "window_manager \<Rightarrow> menu_tab list list" where
  "ordered_window_menu_tabs m =
     List.map_filter (\<lambda>(w, n). wm_menu_tabs m w) (sort_key (\<lambda>(w, n). (length n, n)) (wm_names m))"

text \<open>The windows whose entity is alive.\<close>

type_synonym live_windows = "nat \<rightharpoonup> fulgur"

definition find_window_with_file :: "live_windows \<Rightarrow> rstr \<Rightarrow> nat \<Rightarrow> window_manager \<Rightarrow> nat option" where
  "find_window_with_file live path current m =
     List.find (\<lambda>w. w \<noteq> current \<and> (case live w of None \<Rightarrow> False | Some st \<Rightarrow> find_tab_by_path path st \<noteq> None))
       (wm_windows m)"

section \<open>The menus of the system\<close>

datatype dock_menu_tab =
    DockFile rstr rstr
  | DockTitled rstr rstr

datatype menu_item =
    MenuRecent "rstr list"
  | MenuSeparator
  | MenuActivatePath rstr rstr
  | MenuActivateTitle rstr rstr
  | MenuNewTab
  | MenuNewWindow

definition window_menu_tab_of :: "tab \<Rightarrow> menu_tab" where
  "window_menu_tab_of t = \<lparr>wt_path = Option.bind (as_editor t) file_path, wt_title = tab_title t\<rparr>"

definition publish_window_menu_tabs_if_changed :: "nat \<Rightarrow> fulgur \<Rightarrow> window_manager \<Rightarrow> window_manager" where
  "publish_window_menu_tabs_if_changed w st m =
     (let tabs = map window_menu_tab_of (fg_tabs st) in
      if wm_menu_tabs m w = Some tabs then m else snd (publish_window_menu_tabs w tabs m))"

definition display_name_for_path :: "rstr list \<Rightarrow> rstr \<Rightarrow> rstr" where
  "display_name_for_path all_paths p =
     (let filename = (case path_file_name p of Some n \<Rightarrow> n | None \<Rightarrow> UNTITLED);
          has_duplicate = (\<exists>q \<in> set all_paths. q \<noteq> p \<and> path_file_name q = Some filename)
      in (case (has_duplicate, Option.bind (path_parent p) path_file_name) of
            (True, Some parent_name) \<Rightarrow> filename @ lit '' (../'' @ parent_name @ lit '')''
          | _ \<Rightarrow> filename))"

definition to_dock_menu_tabs :: "menu_tab list list \<Rightarrow> dock_menu_tab list list" where
  "to_dock_menu_tabs windows =
     (let all_paths = List.map_filter wt_path (concat windows) in
      map (map (\<lambda>t. case wt_path t of
                      Some p \<Rightarrow> DockFile (display_name_for_path all_paths p) p
                    | None \<Rightarrow> DockTitled (wt_title t) (wt_title t))) windows)"

fun dock_item :: "dock_menu_tab \<Rightarrow> menu_item" where
  "dock_item (DockFile name path) = MenuActivatePath name path"
| "dock_item (DockTitled name title) = MenuActivateTitle name title"

fun dock_groups :: "nat \<Rightarrow> dock_menu_tab list list \<Rightarrow> menu_item list" where
  "dock_groups i [] = []"
| "dock_groups i (w # ws) = (if 0 < i then [MenuSeparator] else []) @ map dock_item w @ dock_groups (i + 1) ws"

definition build_dock_menu :: "dock_menu_tab list list \<Rightarrow> rstr list \<Rightarrow> menu_item list" where
  "build_dock_menu windows recent_files =
     (let recent = (if recent_files = [] then [] else [MenuRecent recent_files, MenuSeparator]);
          non_empty = filter (\<lambda>w. w \<noteq> []) windows;
          tabs = (if non_empty = [] then [] else dock_groups 0 non_empty @ [MenuSeparator])
      in recent @ tabs @ [MenuNewTab, MenuNewWindow])"

text \<open>The actions: the tab in this window, else in the first other window that has it, which is raised.\<close>

definition handle_dock_activate ::
  "(fulgur \<Rightarrow> nat option) \<Rightarrow> nat \<Rightarrow> window_manager \<Rightarrow> live_windows \<Rightarrow> live_windows \<times> nat option" where
  "handle_dock_activate look this m live =
     (case live this of
        None \<Rightarrow> (live, None)
      | Some st \<Rightarrow>
          (case look st of
             Some index \<Rightarrow>
               (live(this \<mapsto> emit NotifyView (focus_active_tab (set_active_tab index st))), None)
           | None \<Rightarrow>
               (case List.find (\<lambda>w. w \<noteq> this \<and> (case live w of None \<Rightarrow> False | Some s \<Rightarrow> look s \<noteq> None)) (wm_windows m) of
                  None \<Rightarrow> (live, None)
                | Some w \<Rightarrow>
                    (live(w := map_option (\<lambda>s. case look s of Some i \<Rightarrow> set_active_tab i s | None \<Rightarrow> s) (live w)),
                     Some w))))"

definition handle_dock_activate_tab ::
  "rstr \<Rightarrow> nat \<Rightarrow> window_manager \<Rightarrow> live_windows \<Rightarrow> live_windows \<times> nat option" where
  "handle_dock_activate_tab path = handle_dock_activate (find_tab_by_path path)"

definition handle_dock_activate_tab_by_title ::
  "rstr \<Rightarrow> nat \<Rightarrow> window_manager \<Rightarrow> live_windows \<Rightarrow> live_windows \<times> nat option" where
  "handle_dock_activate_tab_by_title title =
     handle_dock_activate (\<lambda>st. position (\<lambda>t. tab_title t = title) (fg_tabs st))"

section \<open>Requests of other processes\<close>

definition CMD_PREFIX :: rstr where "CMD_PREFIX = lit ''CMD:''"

text \<open>What is written to the running instance, and what the listener makes of it: the lines, without a
  carriage return before the line feed, \<open>exists\<close> telling which paths there are.\<close>

definition try_forward_to_existing_instance :: "rstr list \<Rightarrow> rstr" where
  "try_forward_to_existing_instance paths = concat (map (\<lambda>p. p @ [10]) paths)"

definition try_send_command_to_existing_instance :: "rstr \<Rightarrow> rstr" where
  "try_send_command_to_existing_instance cmd = CMD_PREFIX @ cmd @ [10]"

fun rust_lines :: "rstr \<Rightarrow> rstr \<Rightarrow> rstr list" where
  "rust_lines acc [] = (if acc = [] then [] else [acc])"
| "rust_lines acc (c # s) =
     (if c = 10 then (if acc \<noteq> [] \<and> last acc = 13 then butlast acc else acc) # rust_lines [] s
      else rust_lines (acc @ [c]) s)"

definition ipc_line ::
  "(rstr \<Rightarrow> bool) \<Rightarrow> rstr \<Rightarrow> rstr list \<times> rstr list \<Rightarrow> rstr list \<times> rstr list" where
  "ipc_line exists line qs =
     (case qs of (pending_files, pending_ipc_commands) \<Rightarrow>
        if line = [] then qs
        else if starts_with CMD_PREFIX line
          then (pending_files, pending_ipc_commands @ [drop (length CMD_PREFIX) line])
        else if exists line then (pending_files @ [line], pending_ipc_commands)
        else qs)"

definition ipc_receive ::
  "(rstr \<Rightarrow> bool) \<Rightarrow> rstr \<Rightarrow> rstr list \<times> rstr list \<Rightarrow> rstr list \<times> rstr list" where
  "ipc_receive exists stream qs = fold (ipc_line exists) (rust_lines [] stream) qs"

text \<open>Only the window focused last serves the queues.\<close>

definition serves_queues :: "nat \<Rightarrow> window_manager \<Rightarrow> bool" where
  "serves_queues w m = (case wm_last_focused m of None \<Rightarrow> True | Some k \<Rightarrow> k = w)"

datatype ipc_action = IpcNewTab | IpcNewWindow | IpcUnknown rstr

definition ipc_action_of :: "rstr \<Rightarrow> ipc_action" where
  "ipc_action_of cmd =
     (if cmd = lit ''new-tab'' then IpcNewTab
      else if cmd = lit ''new-window'' then IpcNewWindow
      else IpcUnknown cmd)"

definition process_pending_ipc_commands ::
  "nat \<Rightarrow> window_manager \<Rightarrow> rstr list \<Rightarrow> ipc_action list \<times> rstr list" where
  "process_pending_ipc_commands w m q = (if serves_queues w m then (map ipc_action_of q, []) else ([], q))"

section \<open>Requests to open a file\<close>

text \<open>The first \<open>:\<close> ends the scheme.\<close>

definition is_ascii_alphabetic :: "uchar \<Rightarrow> bool" where
  "is_ascii_alphabetic c \<longleftrightarrow> (65 \<le> c \<and> c \<le> 90) \<or> (97 \<le> c \<and> c \<le> 122)"

definition has_url_scheme :: "rstr \<Rightarrow> bool" where
  "has_url_scheme input =
     (if 58 \<notin> set input then False
      else let scheme = takeWhile (\<lambda>c. c \<noteq> 58) input in
           2 \<le> blen scheme \<and> scheme \<noteq> [] \<and> is_ascii_alphabetic (hd scheme)
           \<and> (\<forall>c \<in> set scheme. is_ascii_alphabetic c \<or> is_ascii_digit c \<or> c \<in> {43, 45, 46}))"

text \<open>\<open>decode\<close> is the percent decoding of the \<open>urlencoding\<close> crate, \<open>is_file\<close> whether the path is a file.\<close>

definition url_to_path :: "(rstr \<Rightarrow> rstr option) \<Rightarrow> (rstr \<Rightarrow> bool) \<Rightarrow> rstr \<Rightarrow> rstr option" where
  "url_to_path decode is_file input =
     (let path = (if starts_with (lit ''file://'') input then decode (drop 7 input)
                  else if has_url_scheme input then None
                  else Some input)
      in (case path of
            None \<Rightarrow> None
          | Some p \<Rightarrow> if starts_with [47] p \<and> is_file p then Some p else None))"

definition cli_file_paths :: "(rstr \<Rightarrow> bool) \<Rightarrow> rstr list \<Rightarrow> rstr list" where
  "cli_file_paths is_file args =
     filter (\<lambda>a. a \<noteq> lit ''--new-tab'' \<and> a \<noteq> lit ''--new-window'' \<and> is_file a) (drop 1 args)"


section \<open>Names are given in increasing order\<close>

lemma snoc_less: "length a = length b \<Longrightarrow> (a::nat list) < b \<Longrightarrow> a @ [x] < b @ [y]"
  by (induction a b rule: list_induct2) auto

lemma snoc_last_less: "(x::nat) < y \<Longrightarrow> a @ [x] < a @ [y]"
  by (induction a) auto

lemma name_loop_acc: "name_loop i name = name_loop i [] @ name"
proof (induction i arbitrary: name rule: less_induct)
  case (less i)
  show ?case
  proof (cases "i < 26")
    case True
    then show ?thesis by (simp add: name_loop.simps [of i])
  next
    case False
    then have "i div 26 - 1 < i" using div_le_dividend [of i 26] by linarith
    note IH = less.IH [OF this]
    have "name_loop i n = name_loop (i div 26 - 1) [] @ [65 + i mod 26] @ n" for n
      using False IH [of "(65 + i mod 26) # n"] by (simp add: name_loop.simps [of i])
    from this [of name] this [of "[]"] show ?thesis by simp
  qed
qed

lemma index_to_name_simp:
  "index_to_name i = (if i < 26 then [65 + i] else index_to_name (i div 26 - 1) @ [65 + i mod 26])"
proof (cases "i < 26")
  case False
  then show ?thesis using name_loop_acc [of "i div 26 - 1" "[65 + i mod 26]"]
    by (simp add: index_to_name_def name_loop.simps [of i])
qed (simp add: index_to_name_def name_loop.simps [of i])

definition name_key :: "nat \<times> rstr \<Rightarrow> nat \<times> rstr" where
  "name_key = (\<lambda>(w, n). (length n, n))"

definition before :: "rstr \<Rightarrow> rstr \<Rightarrow> bool" where
  "before a b \<longleftrightarrow> (length a, a) < (length b, b)"

lemma before_snoc: "before a b \<Longrightarrow> before (a @ [x]) (b @ [y])"
  using snoc_less by (auto simp: before_def)

lemma index_to_name_nonempty: "0 < length (index_to_name i)"
  by (subst index_to_name_simp) simp

lemma index_to_name_mono: "i < j \<Longrightarrow> before (index_to_name i) (index_to_name j)"
proof (induction j arbitrary: i rule: less_induct)
  case (less j)
  show ?case
  proof (cases "j < 26")
    case True
    then show ?thesis using less.prems
      by (simp add: index_to_name_simp [of i] index_to_name_simp [of j] before_def)
  next
    case j: False
    show ?thesis
    proof (cases "i < 26")
      case True
      then show ?thesis using j index_to_name_nonempty [of "j div 26 - 1"]
        by (simp add: index_to_name_simp [of i] index_to_name_simp [of j] before_def)
    next
      case i: False
      have n: "index_to_name i = index_to_name (i div 26 - 1) @ [65 + i mod 26]"
        "index_to_name j = index_to_name (j div 26 - 1) @ [65 + j mod 26]"
        using i j by (simp_all add: index_to_name_simp [of i] index_to_name_simp [of j])
      consider "i div 26 < j div 26" | "i div 26 = j div 26" "i mod 26 < j mod 26"
      proof -
        have "i div 26 \<le> j div 26" using less.prems by (simp add: div_le_mono)
        moreover have "i div 26 = j div 26 \<Longrightarrow> i mod 26 < j mod 26"
          using less.prems by (metis div_mult_mod_eq nat_add_left_cancel_less)
        ultimately show thesis using that by fastforce
      qed
      then show ?thesis
      proof cases
        case 1
        then have "i div 26 - 1 < j div 26 - 1" using i by (simp add: div_greater_zero_iff diff_less_mono)
        moreover have "j div 26 - 1 < j" using j div_le_dividend [of j 26] by linarith
        ultimately have "before (index_to_name (i div 26 - 1)) (index_to_name (j div 26 - 1))" using less.IH by blast
        then show ?thesis unfolding n by (rule before_snoc)
      next
        case 2
        then show ?thesis unfolding n by (simp add: before_def snoc_last_less)
      qed
    qed
  qed
qed

section \<open>The order of the menus\<close>

datatype manager_op =
    OpRegister nat
  | OpUnregister nat
  | OpFocus nat
  | OpPublish nat "menu_tab list"

fun apply_op :: "map_order \<Rightarrow> manager_op \<Rightarrow> window_manager \<Rightarrow> window_manager" where
  "apply_op mo (OpRegister w) m = register_window mo w m"
| "apply_op mo (OpUnregister w) m = unregister_window w m"
| "apply_op mo (OpFocus w) m = set_focused w m"
| "apply_op mo (OpPublish w tabs) m = snd (publish_window_menu_tabs w tabs m)"

text \<open>The open windows in the order in which they were registered.\<close>

fun track_op :: "manager_op \<Rightarrow> nat list \<Rightarrow> nat list" where
  "track_op (OpRegister w) ws = filter (\<lambda>k. k \<noteq> w) ws @ [w]"
| "track_op (OpUnregister w) ws = filter (\<lambda>k. k \<noteq> w) ws"
| "track_op op ws = ws"

definition order_ok :: "map_order \<Rightarrow> bool" where
  "order_ok mo \<longleftrightarrow> (\<forall>xs. mset (mo_windows mo xs) = mset xs) \<and> (\<forall>xs. mset (mo_names mo xs) = mset xs)"

definition named :: "(nat \<times> nat) list \<Rightarrow> (nat \<times> rstr) list" where
  "named ps = map (\<lambda>(w, j). (w, index_to_name j)) ps"

definition names_ok :: "nat list \<Rightarrow> nat \<Rightarrow> (nat \<times> rstr) list \<Rightarrow> bool" where
  "names_ok ws next_index names \<longleftrightarrow>
     (\<exists>ps. map fst ps = ws \<and> sorted_wrt (<) (map snd ps) \<and> (\<forall>j \<in> set (map snd ps). j < next_index)
         \<and> mset names = mset (named ps))"

definition manager_ok :: "nat list \<Rightarrow> window_manager \<Rightarrow> bool" where
  "manager_ok ws m \<longleftrightarrow> distinct ws \<and> mset (wm_windows m) = mset ws
     \<and> names_ok ws (wm_next_name_index m) (wm_names m)
     \<and> (case wm_last_focused m of None \<Rightarrow> ws = [] | Some w \<Rightarrow> w \<in> set ws)
     \<and> dom (wm_menu_tabs m) \<subseteq> set ws"

lemma named_filter: "named (filter (\<lambda>p. fst p \<noteq> w) ps) = filter (\<lambda>(k, n). k \<noteq> w) (named ps)"
  by (induction ps) (auto simp: named_def)

lemma map_fst_filter: "map fst (filter (\<lambda>p. fst p \<noteq> w) ps) = filter (\<lambda>k. k \<noteq> w) (map fst ps)"
  by (induction ps) auto

lemma sorted_map_filter:
  assumes "sorted_wrt (<) (map snd (ps :: (nat \<times> nat) list))"
  shows "sorted_wrt (<) (map snd (filter P ps))"
  using assms by (induction ps) auto

lemma mset_filter_cong: "mset xs = mset ys \<Longrightarrow> mset (filter P xs) = mset (filter P ys)"
  by simp

lemma names_ok_remove:
  assumes "names_ok ws k names"
  shows "names_ok (filter (\<lambda>k. k \<noteq> w) ws) k (filter (\<lambda>(k, n). k \<noteq> w) names)"
proof -
  obtain ps where ps: "map fst ps = ws" "sorted_wrt (<) (map snd ps)" "\<forall>j \<in> set (map snd ps). j < k" "mset names = mset (named ps)"
    using assms by (auto simp: names_ok_def)
  let ?qs = "filter (\<lambda>p. fst p \<noteq> w) ps"
  have "mset (filter (\<lambda>(k, n). k \<noteq> w) names) = mset (named ?qs)"
    unfolding named_filter by (rule mset_filter_cong [OF ps(4)])
  then show ?thesis unfolding names_ok_def
    using ps map_fst_filter [of w ps] sorted_map_filter [OF ps(2)] by (intro exI [of _ ?qs]) auto
qed

lemma names_ok_add:
  assumes "names_ok ws k names" "mset names' = mset ((w, index_to_name k) # names)"
  shows "names_ok (ws @ [w]) (k + 1) names'"
proof -
  obtain ps where ps: "map fst ps = ws" "sorted_wrt (<) (map snd ps)" "\<forall>j \<in> set (map snd ps). j < k" "mset names = mset (named ps)"
    using assms by (auto simp: names_ok_def)
  show ?thesis unfolding names_ok_def
    using ps assms(2) by (intro exI [of _ "ps @ [(w, k)]"]) (force simp: sorted_wrt_append named_def)
qed

lemma filter_absent: "w \<notin> set ws \<Longrightarrow> filter (\<lambda>k. k \<noteq> w) ws = ws"
  by (induction ws) auto

lemma mset_move_last: "distinct ws \<Longrightarrow> w \<in> set ws \<Longrightarrow> mset (filter (\<lambda>k. k \<noteq> w) ws @ [w]) = mset ws"
  by (induction ws) (auto simp: filter_absent simp del: mset_filter)

lemma register_ok:
  assumes "order_ok mo" "manager_ok ws m"
  shows "manager_ok (track_op (OpRegister w) ws) (register_window mo w m)"
proof -
  have ws: "distinct ws" "mset (wm_windows m) = mset ws" "set (wm_windows m) = set ws"
    using assms(2) mset_eq_setD by (auto simp: manager_ok_def)
  have w: "mset (wm_windows (register_window mo w m)) = mset (filter (\<lambda>k. k \<noteq> w) ws @ [w])"
  proof (cases "w \<in> set ws")
    case True
    then have "mset (filter (\<lambda>k. k \<noteq> w) ws @ [w]) = mset ws" using mset_move_last [OF ws(1)] by simp
    then show ?thesis using True ws by (simp add: register_window_def)
  next
    case False
    then have "filter (\<lambda>k. k \<noteq> w) ws = ws" by (auto simp: filter_id_conv)
    then show ?thesis using False ws assms(1) by (simp add: register_window_def order_ok_def)
  qed
  have n: "names_ok (filter (\<lambda>k. k \<noteq> w) ws @ [w]) (wm_next_name_index m + 1) (wm_names (register_window mo w m))"
    using names_ok_remove [of ws _ _ w] assms
    by (intro names_ok_add) (auto simp: manager_ok_def register_window_def order_ok_def)
  show ?thesis using ws w n assms(2) by (auto simp: manager_ok_def register_window_def)
qed

lemma unregister_ok:
  assumes "manager_ok ws m"
  shows "manager_ok (track_op (OpUnregister w) ws) (unregister_window w m)"
proof -
  have ws: "distinct ws" "mset (wm_windows m) = mset ws" using assms by (auto simp: manager_ok_def)
  have w: "mset (filter (\<lambda>k. k \<noteq> w) (wm_windows m)) = mset (filter (\<lambda>k. k \<noteq> w) ws)" using ws(2) by simp
  have n: "names_ok (filter (\<lambda>k. k \<noteq> w) ws) (wm_next_name_index m) (filter (\<lambda>(k, n). k \<noteq> w) (wm_names m))"
    using assms by (intro names_ok_remove) (simp add: manager_ok_def)
  have f: "case (case filter (\<lambda>k. k \<noteq> w) (wm_windows m) of [] \<Rightarrow> None | k # _ \<Rightarrow> Some k) of
      None \<Rightarrow> filter (\<lambda>k. k \<noteq> w) ws = [] | Some x \<Rightarrow> x \<in> set (filter (\<lambda>k. k \<noteq> w) ws)"
    using mset_eq_setD [OF w] by (cases "filter (\<lambda>k. k \<noteq> w) (wm_windows m)") (auto dest: arg_cong [of _ _ set])
  show ?thesis
    using ws w n f assms by (auto simp: manager_ok_def unregister_window_def Let_def split: option.splits if_splits)
qed

lemma apply_op_ok:
  assumes "order_ok mo" "manager_ok ws m"
  shows "manager_ok (track_op op ws) (apply_op mo op m)"
proof (cases op)
  case (OpRegister w)
  then show ?thesis using register_ok [OF assms] by simp
next
  case (OpUnregister w)
  then show ?thesis using unregister_ok [OF assms(2)] by simp
next
  case (OpFocus w)
  then show ?thesis using assms(2) mset_eq_setD by (fastforce simp: manager_ok_def set_focused_def)
next
  case (OpPublish w tabs)
  have "set (wm_windows m) = set ws" using assms(2) mset_eq_setD by (auto simp: manager_ok_def)
  then show ?thesis using OpPublish assms(2) by (auto simp: manager_ok_def publish_window_menu_tabs_def)
qed

lemma fold_ops_ok: "order_ok mo \<Longrightarrow> manager_ok ws m \<Longrightarrow> manager_ok (fold track_op ops ws) (fold (apply_op mo) ops m)"
  by (induction ops arbitrary: ws m) (auto intro: apply_op_ok)

lemma new_manager_ok: "manager_ok [] new_window_manager"
  by (auto simp: manager_ok_def new_window_manager_def names_ok_def named_def)

lemma sorted_names:
  assumes "sorted_wrt (<) (map snd ps)"
  shows "sorted_wrt (<) (map name_key (named ps))"
proof -
  have "map name_key (named ps) = map (\<lambda>j. (length (index_to_name j), index_to_name j)) (map snd ps)"
    by (induction ps) (auto simp: named_def name_key_def)
  moreover have "sorted_wrt (\<lambda>i j. (length (index_to_name i), index_to_name i) < (length (index_to_name j), index_to_name j)) (map snd ps)"
    by (rule sorted_wrt_mono_rel [OF _ assms]) (rule index_to_name_mono [unfolded before_def])
  ultimately show ?thesis by (simp only: sorted_wrt_map)
qed

lemma sort_names:
  assumes "names_ok ws k names"
  shows "map fst (sort_key (\<lambda>(w, n). (length n, n)) names) = ws"
proof -
  obtain ps where ps: "map fst ps = ws" "sorted_wrt (<) (map snd ps)" "mset names = mset (named ps)"
    using assms by (auto simp: names_ok_def)
  have s: "sorted_wrt (<) (map name_key (named ps))" by (rule sorted_names [OF ps(2)])
  then have "distinct (map name_key (named ps))" by (simp add: strict_sorted_iff)
  then have "inj_on name_key (set (named ps))" by (simp add: distinct_map)
  then have inj: "inj_on name_key (set names)" using mset_eq_setD [OF ps(3)] by simp
  have "sorted (map name_key (named ps))" using s by (simp add: strict_sorted_iff)
  then have "sort_key name_key names = named ps" by (rule sort_key_inj_key_eq [OF ps(3) inj])
  then show ?thesis using ps(1) by (auto simp: name_key_def named_def)
qed

text \<open>However windows are opened, focused, closed and publish their tabs, and whatever order the hash maps have, the
  menus of the system list the tabs of the open windows in the order in which these were opened; the names of the
  windows are all different, and the window focused last is an open one.\<close>

theorem menus_in_registration_order:
  assumes "order_ok mo"
  defines "m \<equiv> \<lambda>ops. fold (apply_op mo) ops new_window_manager"
    and "open_windows \<equiv> \<lambda>ops. fold track_op ops []"
  shows "ordered_window_menu_tabs (m ops) = List.map_filter (wm_menu_tabs (m ops)) (open_windows ops)
    \<and> distinct (map snd (wm_names (m ops)))
    \<and> (case wm_last_focused (m ops) of None \<Rightarrow> open_windows ops = [] | Some w \<Rightarrow> w \<in> set (open_windows ops))"
proof -
  have ok: "manager_ok (open_windows ops) (m ops)"
    unfolding m_def open_windows_def by (rule fold_ops_ok [OF assms(1) new_manager_ok])
  then have n: "names_ok (open_windows ops) (wm_next_name_index (m ops)) (wm_names (m ops))" by (simp add: manager_ok_def)
  have "ordered_window_menu_tabs (m ops)
      = List.map_filter (wm_menu_tabs (m ops)) (map fst (sort_key (\<lambda>(w, n). (length n, n)) (wm_names (m ops))))"
    by (simp add: ordered_window_menu_tabs_def List.map_filter_def comp_def filter_map case_prod_beta)
  moreover have "distinct (map snd (wm_names (m ops)))"
  proof -
    obtain ps where ps: "sorted_wrt (<) (map snd ps)" "mset (wm_names (m ops)) = mset (named ps)"
      using n by (auto simp: names_ok_def)
    have "distinct (map name_key (named ps))" using sorted_names [OF ps(1)] by (simp add: strict_sorted_iff)
    then have "distinct (map (\<lambda>n. (length n, n)) (map snd (named ps)))" by (simp add: name_key_def comp_def case_prod_beta')
    then have "distinct (map snd (named ps))" by (metis distinct_map)
    moreover have "mset (map snd (wm_names (m ops))) = mset (map snd (named ps))" using ps(2) by simp
    ultimately show ?thesis using mset_eq_imp_distinct_iff by blast
  qed
  ultimately show ?thesis using sort_names [OF n] ok by (auto simp: manager_ok_def split: option.splits)
qed

lemma menus_in_registration_order_witness:
  "ordered_window_menu_tabs (fold (apply_op \<lparr>mo_windows = rev, mo_names = id\<rparr>)
     [OpRegister 7, OpRegister 3, OpPublish 3 [], OpPublish 7 [\<lparr>wt_path = None, wt_title = [97]\<rparr>]] new_window_manager)
   = [[\<lparr>wt_path = None, wt_title = [97]\<rparr>], []]"
proof -
  have "order_ok \<lparr>mo_windows = rev, mo_names = id\<rparr>" by (simp add: order_ok_def)
  from menus_in_registration_order [OF this, of "[OpRegister 7, OpRegister 3, OpPublish 3 [], OpPublish 7 [\<lparr>wt_path = None, wt_title = [97]\<rparr>]]"]
  show ?thesis
    by (simp add: register_window_def new_window_manager_def publish_window_menu_tabs_def List.map_filter_def)
qed

section \<open>What arrives from another process\<close>

definition plain_path :: "rstr \<Rightarrow> bool" where
  "plain_path p \<longleftrightarrow> p \<noteq> [] \<and> 10 \<notin> set p \<and> last p \<noteq> 13 \<and> \<not> starts_with CMD_PREFIX p"

lemma rust_lines_line: "10 \<notin> set p \<Longrightarrow>
  rust_lines acc (p @ 10 # s) = (if acc @ p \<noteq> [] \<and> last (acc @ p) = 13 then butlast (acc @ p) else acc @ p) # rust_lines [] s"
  by (induction p arbitrary: acc) auto

lemma forwarded_lines:
  "\<forall>p \<in> set paths. plain_path p \<Longrightarrow> rust_lines [] (try_forward_to_existing_instance paths) = paths"
  by (induction paths) (auto simp: try_forward_to_existing_instance_def rust_lines_line plain_path_def)

lemma fold_ipc_lines:
  "\<forall>p \<in> set paths. plain_path p \<Longrightarrow> fold (ipc_line exists) paths (files, cmds) = (files @ filter exists paths, cmds)"
  by (induction paths arbitrary: files) (auto simp: ipc_line_def plain_path_def)

text \<open>Paths forwarded to the running instance are queued there, in order, as far as they exist; a command is queued as
  that command.\<close>

lemma forwarded_paths_arrive:
  assumes "\<forall>p \<in> set paths. plain_path p"
  shows "ipc_receive exists (try_forward_to_existing_instance paths) (files, cmds) = (files @ filter exists paths, cmds)"
  using assms by (simp add: ipc_receive_def forwarded_lines fold_ipc_lines)

lemma starts_with_self: "starts_with p (p @ s)"
  by (simp add: starts_with_def)

lemma sent_command_arrives:
  assumes "10 \<notin> set cmd" "cmd \<noteq> []" "last cmd \<noteq> 13"
  shows "ipc_receive exists (try_send_command_to_existing_instance cmd) (files, cmds) = (files, cmds @ [cmd])"
proof -
  have "10 \<notin> set (CMD_PREFIX @ cmd)" using assms by (simp add: CMD_PREFIX_def)
  then have "rust_lines [] ((CMD_PREFIX @ cmd) @ 10 # []) = [CMD_PREFIX @ cmd]"
    using assms rust_lines_line [of "CMD_PREFIX @ cmd" "[]" "[]"] by simp
  then show ?thesis using starts_with_self [of CMD_PREFIX cmd]
    by (simp add: ipc_receive_def try_send_command_to_existing_instance_def ipc_line_def CMD_PREFIX_def)
qed

text \<open>The paths are not made absolute before they are sent: the running instance resolves a relative one against its own
  working directory, and drops it when there is no such file there.\<close>

lemma relative_path_is_resolved_elsewhere:
  assumes "plain_path p" "exists_here p" "\<not> exists_there p"
  shows "p \<in> set (cli_file_paths exists_here [prog, p]) \<or> p = lit ''--new-tab'' \<or> p = lit ''--new-window''"
    and "ipc_receive exists_there (try_forward_to_existing_instance [p]) (files, cmds) = (files, cmds)"
  using assms forwarded_paths_arrive [of "[p]" exists_there files cmds] by (auto simp: cli_file_paths_def)

section \<open>What a request opens\<close>

lemma url_to_path_absolute_file: "url_to_path decode is_file input = Some p \<Longrightarrow> starts_with [47] p \<and> is_file p"
  by (auto simp: url_to_path_def Let_def split: option.splits if_splits)

lemma url_scheme_rejected:
  "has_url_scheme input \<Longrightarrow> \<not> starts_with (lit ''file://'') input \<Longrightarrow> url_to_path decode is_file input = None"
  by (simp add: url_to_path_def)

end
