(* ===== verification/Open_Files.thy ===== *)
theory Open_Files
  imports Window_Manager Local_Save Session App_Settings
begin

text \<open>
  Opening local files: \<^verbatim>\<open>src/fulgur/files/file_operations/open_ops/\<close> (\<open>open_file\<close>, \<open>do_open_file\<close>, recent files,
  dropped files, files from other programs) and the dialog of \<^verbatim>\<open>src/fulgur/ui/dialogs/file_watcher.rs\<close> for a file that is
  open with unsaved changes. Reading runs in the background: \<open>ow_reads\<close> are the paths being read, and
  \<open>finish_open\<close> is what happens when one of them has been read, in any order. \<open>open_env\<close> is the system at that moment.
\<close>

section \<open>Model\<close>

record open_env =
  oe_app :: app_env
  oe_codecs :: codecs
  oe_now :: nat
  oe_canonicalize :: "rstr \<Rightarrow> rstr option"
  oe_size :: "rstr \<Rightarrow> nat"
  oe_bytes :: "rstr \<Rightarrow> u8 list option"
  oe_is_file :: "rstr \<Rightarrow> bool"

datatype file_read_outcome = FileDecoded decoded_contents | FileBinary | FileFailed

datatype open_note =
    OpeningLargeFile rstr
  | CannotOpenBinary rstr
  | AlreadyOpenElsewhere rstr
  | NoFilesDropped
  | IgnoredDropped nat
  | InvalidRemoteRecent ssh_error

record open_window =
  ow_win :: fulgur
  ow_settings :: App_Settings.settings
  ow_reads :: "rstr list"
  ow_reopen_dialogs :: "(rstr \<times> nat) list"
  ow_notes :: "open_note list"

definition note_open :: "open_note \<Rightarrow> open_window \<Rightarrow> open_window" where
  "note_open n w = w\<lparr>ow_notes := ow_notes w @ [n]\<rparr>"

definition canonical_or_given :: "open_env \<Rightarrow> rstr \<Rightarrow> rstr" where
  "canonical_or_given env p = (case oe_canonicalize env p of Some q \<Rightarrow> q | None \<Rightarrow> p)"

definition display_file_name :: "rstr \<Rightarrow> rstr \<Rightarrow> rstr" where
  "display_file_name fallback p = (case path_file_name p of Some n \<Rightarrow> n | None \<Rightarrow> fallback)"

definition show_reopen_modified_file_dialog :: "rstr \<Rightarrow> nat \<Rightarrow> open_window \<Rightarrow> open_window" where
  "show_reopen_modified_file_dialog p i w = w\<lparr>ow_reopen_dialogs := ow_reopen_dialogs w @ [(p, i)]\<rparr>"

definition focus_existing_local_tab_for_open :: "rstr \<Rightarrow> nat \<Rightarrow> open_window \<Rightarrow> open_window" where
  "focus_existing_local_tab_for_open p index w =
     (let st = ow_win w;
          t = nth_opt (fg_tabs st) index;
          is_modified = (case Option.bind t as_editor of Some e \<Rightarrow> et_modified e | None \<Rightarrow> False);
          w1 = (case (is_modified, t) of
                  (True, Some t) \<Rightarrow> show_reopen_modified_file_dialog p (tab_id t) w
                | _ \<Rightarrow> w)
      in w1\<lparr>ow_win := emit NotifyView (focus_active_tab (st\<lparr>fg_active := map_option tab_id t\<rparr>))\<rparr>)"

section \<open>Reading and placing\<close>

definition start_open :: "open_env \<Rightarrow> rstr \<Rightarrow> open_window \<Rightarrow> open_window" where
  "start_open env path w =
     (let p = canonical_or_given env path;
          w1 = (if LARGE_FILE_THRESHOLD_BYTES < oe_size env p
                then note_open (OpeningLargeFile (display_file_name (lit ''file'') p)) w else w)
      in w1\<lparr>ow_reads := ow_reads w1 @ [p]\<rparr>)"

definition read_and_classify :: "open_env \<Rightarrow> rstr \<Rightarrow> file_read_outcome" where
  "read_and_classify env p =
     (case oe_bytes env p of
        None \<Rightarrow> FileFailed
      | Some bytes \<Rightarrow>
          if looks_binary bytes then FileBinary
          else FileDecoded (detect_encoding_and_decode (oe_codecs env) bytes))"

definition opened_tab :: "open_env \<Rightarrow> rstr \<Rightarrow> decoded_contents \<Rightarrow> nat \<Rightarrow> nat \<Rightarrow> editor_settings \<Rightarrow> editor_tab" where
  "opened_tab env p d i fresh settings =
     (editor_tab_from_file (ae_langs (oe_app env)) fresh (oe_now env)
        \<lparr>fp_id = i, fp_path = p, fp_contents = dc_content d, fp_encoding = dc_encoding d, fp_is_modified = False\<rparr>
        settings)\<lparr>et_lossy_decode := dc_lossy d\<rparr>"

definition place_opened_file :: "open_env \<Rightarrow> rstr \<Rightarrow> decoded_contents \<Rightarrow> fulgur \<Rightarrow> fulgur" where
  "place_opened_file env p d st =
     (let (i, st1) = allocate_tab_id st;
          (fresh, st2) = take_fresh st1;
          (index, st3) = place_editor_tab_reusing_scratch (TabEditor (opened_tab env p d i fresh (fg_settings st2))) st2;
          st4 = maybe_open_markdown_preview_for_editor index st3;
          st5 = watch_file (oe_app env) p st4;
          st6 = (if opens_as_log_by_default p
                 then (case nth_opt (fg_tabs st5) index of Some t \<Rightarrow> emit (ActivateLogView (tab_id t)) st5 | None \<Rightarrow> st5)
                 else st5)
      in focus_active_tab st6)"

definition finish_open :: "open_env \<Rightarrow> rstr \<Rightarrow> open_window \<Rightarrow> open_window" where
  "finish_open env p w0 =
     (let w = w0\<lparr>ow_reads := remove1 p (ow_reads w0)\<rparr> in
      (case read_and_classify env p of
         FileFailed \<Rightarrow> w
       | FileBinary \<Rightarrow> note_open (CannotOpenBinary (display_file_name (lit ''file'') p)) w
       | FileDecoded d \<Rightarrow>
           w\<lparr>ow_win := emit NotifyView (emit SaveState (emit (OtherRequest ''update menus and title'')
                         (place_opened_file env p d (ow_win w)))),
             ow_settings := add_recent_file p (ow_settings w)\<rparr>))"

section \<open>The ways to open a file\<close>

text \<open>\<open>open_file\<close>, after the user has chosen a path in the prompt.\<close>

definition open_file_chosen :: "open_env \<Rightarrow> rstr \<Rightarrow> open_window \<Rightarrow> open_window" where
  "open_file_chosen env raw_path w =
     (let p = canonical_or_given env raw_path in
      (case find_tab_by_path p (ow_win w) of
         Some index \<Rightarrow> focus_existing_local_tab_for_open p index w
       | None \<Rightarrow> start_open env p w))"

text \<open>\<open>elsewhere\<close> is \<open>find_window_with_file\<close> for this window.\<close>

definition do_open_file :: "open_env \<Rightarrow> (rstr \<Rightarrow> nat option) \<Rightarrow> rstr \<Rightarrow> open_window \<Rightarrow> open_window" where
  "do_open_file env elsewhere path w =
     (let p = canonical_or_given env path in
      (case find_tab_by_path p (ow_win w) of
         Some index \<Rightarrow> focus_existing_local_tab_for_open p index w
       | None \<Rightarrow>
           (case elsewhere p of
              Some other \<Rightarrow> note_open (AlreadyOpenElsewhere (display_file_name (lit ''Unknown file'') p)) w
            | None \<Rightarrow> start_open env p w)))"

text \<open>The second component is the remote file \<open>do_open_remote_file\<close> is called with.\<close>

definition do_open_recent_file ::
  "open_env \<Rightarrow> (rstr \<Rightarrow> nat option) \<Rightarrow> rstr \<Rightarrow> open_window \<Rightarrow> open_window \<times> remote_spec option" where
  "do_open_recent_file env elsewhere path w =
     (if starts_with (lit ''ssh://'') path \<or> starts_with (lit ''sftp://'') path
      then (case parse_remote_url path of
              Inr spec \<Rightarrow> (w, Some spec)
            | Inl err \<Rightarrow> (note_open (InvalidRemoteRecent err) w, None))
      else (do_open_file env elsewhere path w, None))"

fun dropped_files :: "(rstr \<Rightarrow> bool) \<Rightarrow> rstr list \<Rightarrow> rstr list \<Rightarrow> nat \<Rightarrow> rstr list \<times> nat" where
  "dropped_files is_file [] files skipped = (files, skipped)"
| "dropped_files is_file (p # ps) files skipped =
     (if \<not> is_file p then dropped_files is_file ps files (skipped + 1)
      else if p \<in> set files then dropped_files is_file ps files skipped
      else dropped_files is_file ps (files @ [p]) skipped)"

definition handle_external_paths_drop ::
  "open_env \<Rightarrow> (rstr \<Rightarrow> nat option) \<Rightarrow> rstr list \<Rightarrow> open_window \<Rightarrow> open_window" where
  "handle_external_paths_drop env elsewhere paths w =
     (let (files, skipped) = dropped_files (oe_is_file env) paths [] 0 in
      if files = [] then (if 0 < skipped then note_open NoFilesDropped w else w)
      else let w1 = fold (do_open_file env elsewhere) files w
           in if 0 < skipped then note_open (IgnoredDropped skipped) w1 else w1)"

text \<open>The queue of files from other programs; \<open>serves\<close> tells whether this window was focused last.\<close>

definition process_pending_files ::
  "open_env \<Rightarrow> (rstr \<Rightarrow> nat option) \<Rightarrow> bool \<Rightarrow> rstr list \<Rightarrow> open_window \<Rightarrow> open_window \<times> rstr list" where
  "process_pending_files env elsewhere serves queue w =
     (if serves then (fold (do_open_file env elsewhere) queue w, []) else (w, queue))"

section \<open>Placing a tab\<close>

definition reusable_ids :: "fulgur \<Rightarrow> nat set" where
  "reusable_ids st = (case reusable_scratch_tab_id st of Some i \<Rightarrow> removed_ids i st | None \<Rightarrow> {})"

lemma place_tabs:
  assumes "distinct (tab_ids st)"
  shows "fg_tabs (snd (place_editor_tab_reusing_scratch t st))
    = filter (\<lambda>t. tab_id t \<notin> reusable_ids st) (fg_tabs st) @ [attach_content_subscription t]"
    and "fst (place_editor_tab_reusing_scratch t st) + 1 = length (fg_tabs (snd (place_editor_tab_reusing_scratch t st)))"
    and "fg_active (snd (place_editor_tab_reusing_scratch t st)) = Some (tab_id t)"
proof -
  have "fg_tabs (case reusable_scratch_tab_id st of Some i \<Rightarrow> remove_tab_by_id i st | None \<Rightarrow> st)
      = filter (\<lambda>t. tab_id t \<notin> reusable_ids st) (fg_tabs st)"
  proof (cases "reusable_scratch_tab_id st")
    case (Some i)
    then have "i \<in> set (tab_ids st)"
      by (auto simp: reusable_scratch_tab_id_def tab_ids_def split: if_splits tab.splits intro!: image_eqI [of _ _ "last (fg_tabs st)"]
        dest: last_in_set)
    then show ?thesis using Some remove_tab_tabs [OF assms] by (simp add: reusable_ids_def)
  qed (simp add: reusable_ids_def)
  then show "fg_tabs (snd (place_editor_tab_reusing_scratch t st))
    = filter (\<lambda>t. tab_id t \<notin> reusable_ids st) (fg_tabs st) @ [attach_content_subscription t]"
    by (simp add: place_editor_tab_reusing_scratch_def push_tab_def Let_def)
qed (simp_all add: place_editor_tab_reusing_scratch_def push_tab_def Let_def)

lemma preview_frame:
  "set (fg_tabs st) \<subseteq> set (fg_tabs (maybe_open_markdown_preview_for_editor index st))"
  "fg_active (maybe_open_markdown_preview_for_editor index st) = fg_active st"
  "fg_watch (maybe_open_markdown_preview_for_editor index st) = fg_watch st"
  by (auto simp: maybe_open_markdown_preview_for_editor_def build_preview_tab_def allocate_tab_id_def insert_tab_def
      Let_def split: option.splits prod.splits)


lemma scratch_facts:
  "reusable_scratch_tab_id st = Some i \<Longrightarrow> \<exists>s. fg_tabs st \<noteq> [] \<and> last (fg_tabs st) = TabEditor s \<and> et_id s = i
     \<and> is_untitled (et_location s) \<and> (\<forall>c \<in> set (es_text (et_content s)). is_ws c)"
  by (auto simp: reusable_scratch_tab_id_def split: if_splits tab.splits)

lemma removed_ids_cong: "fg_tabs st' = fg_tabs st \<Longrightarrow> removed_ids i st' = removed_ids i st"
proof -
  assume t: "fg_tabs st' = fg_tabs st"
  then have "linked_preview i st' = linked_preview i st" "tab_entity_of i st' = tab_entity_of i st"
    by (simp_all add: linked_preview_def tab_entity_of_def)
  then show "removed_ids i st' = removed_ids i st" unfolding removed_ids_def by (simp only:)
qed

lemma reusable_ids_cong: "fg_tabs st' = fg_tabs st \<Longrightarrow> reusable_ids st' = reusable_ids st"
  using removed_ids_cong [of st' st]
  by (simp add: reusable_ids_def reusable_scratch_tab_id_def cong: option.case_cong)

lemma reused_is_blank:
  assumes "distinct (tab_ids st)" "TabEditor e \<in> set (fg_tabs st)" "et_id e \<in> reusable_ids st"
  shows "is_untitled (et_location e) \<and> (\<forall>c \<in> set (es_text (et_content e)). is_ws c)"
proof -
  obtain i where i: "reusable_scratch_tab_id st = Some i" "et_id e \<in> removed_ids i st"
    using assms(3) by (auto simp: reusable_ids_def split: option.splits)
  then obtain s where s: "TabEditor s \<in> set (fg_tabs st)" "et_id s = i" "is_untitled (et_location s)"
    "\<forall>c \<in> set (es_text (et_content s)). is_ws c"
    using scratch_facts last_in_set by metis
  have same: "tab_id t = et_id e \<Longrightarrow> t \<in> set (fg_tabs st) \<Longrightarrow> t = TabEditor e" for t
    using assms(1,2) inj_onD [of tab_id "set (fg_tabs st)" t "TabEditor e"] by (simp add: tab_ids_def distinct_map)
  have "et_id e = i"
  proof (rule ccontr)
    assume "et_id e \<noteq> i"
    then obtain pid where "linked_preview i st = Some pid" "et_id e = pid"
      using i(2) by (auto simp: removed_ids_def split: option.splits tab.splits)
    then obtain v where "TabPreview v \<in> set (fg_tabs st)" "mp_id v = et_id e"
      using linked_preview_Some by blast
    then show False using same [of "TabPreview v"] by simp
  qed
  then have "TabEditor s = TabEditor e" using s same [of "TabEditor s"] by simp
  then show ?thesis using s by simp
qed

lemma opened_tab_facts:
  "et_id (opened_tab env p d i fresh settings) = i" "et_location (opened_tab env p d i fresh settings) = LocLocal p"
  "es_text (et_content (opened_tab env p d i fresh settings)) = dc_content d"
  "et_encoding (opened_tab env p d i fresh settings) = dc_encoding d"
  "et_lossy_decode (opened_tab env p d i fresh settings) = dc_lossy d"
  "\<not> et_modified (opened_tab env p d i fresh settings)"
  "\<not> content_differs_from_original (opened_tab env p d i fresh settings)"
  by (auto simp: opened_tab_def editor_tab_from_file_def content_differs_from_original_def rope_fingerprint
      content_fingerprint_from_str_def Let_def split: prod.splits if_splits)

lemma watch_file_watches:
  "fw_watched (fg_watch (watch_file env p st)) = Some ps \<Longrightarrow> ae_can_watch env p \<Longrightarrow> p \<in> set ps"
  by (auto simp: watch_file_def split: option.splits if_splits)

lemma focus_watch [simp]: "fg_watch (focus_active_tab st) = fg_watch st"
  by (simp add: focus_active_tab_def split: option.splits)

definition shows_file :: "rstr \<Rightarrow> decoded_contents \<Rightarrow> nat \<Rightarrow> editor_tab \<Rightarrow> bool" where
  "shows_file p d i e \<longleftrightarrow> et_id e = i \<and> et_location e = LocLocal p \<and> es_text (et_content e) = dc_content d
     \<and> et_encoding e = dc_encoding d \<and> et_lossy_decode e = dc_lossy d
     \<and> \<not> et_modified e \<and> \<not> content_differs_from_original e"

lemma shows_file_subscribed: "shows_file p d i e \<Longrightarrow> shows_file p d i (e\<lparr>et_content_subscription := s\<rparr>)"
proof -
  have "content_differs_from_original (e\<lparr>et_content_subscription := s\<rparr>) = content_differs_from_original e"
    by (simp add: content_differs_from_original_def)
  then show "shows_file p d i e \<Longrightarrow> shows_file p d i (e\<lparr>et_content_subscription := s\<rparr>)" by (simp add: shows_file_def)
qed

lemma opened_tab_shows: "shows_file p d i (opened_tab env p d i fresh settings)"
  by (simp add: shows_file_def opened_tab_facts)

lemma placed_file:
  fixes st :: fulgur and env :: open_env and p :: rstr and d :: decoded_contents
  assumes wf: "tabs_wf st"
  defines "st' \<equiv> place_opened_file env p d st"
  shows "tabs_wf st'"
    and "\<exists>e. TabEditor e \<in> set (fg_tabs st') \<and> fg_active st' = Some (et_id e) \<and> shows_file p d (fg_next_tab_id st) e"
    and "\<forall>t \<in> set (fg_tabs st). tab_id t \<notin> reusable_ids st \<longrightarrow> t \<in> set (fg_tabs st')"
    and "fw_watched (fg_watch st') = Some ps \<Longrightarrow> ae_can_watch (oe_app env) p \<Longrightarrow> p \<in> set ps"
proof -
  let ?s1 = "st\<lparr>fg_next_tab_id := Suc (fg_next_tab_id st)\<rparr>"
  let ?s2 = "?s1\<lparr>fg_fresh := Suc (fg_fresh st)\<rparr>"
  let ?e = "opened_tab env p d (fg_next_tab_id st) (fg_fresh st) (fg_settings st)"
  obtain index s3 where s3: "place_editor_tab_reusing_scratch (TabEditor ?e) ?s2 = (index, s3)" by fastforce
  define s5 where "s5 = watch_file (oe_app env) p (maybe_open_markdown_preview_for_editor index s3)"
  define s6 where "s6 = (if opens_as_log_by_default p
      then (case nth_opt (fg_tabs s5) index of Some t \<Rightarrow> emit (ActivateLogView (tab_id t)) s5 | None \<Rightarrow> s5) else s5)"
  have st': "st' = focus_active_tab s6"
    unfolding st'_def place_opened_file_def s6_def s5_def
    by (simp add: allocate_tab_id_def take_fresh_def s3 Let_def)
  have same: "fg_tabs st' = fg_tabs s5" "fg_active st' = fg_active s5" "fg_next_tab_id st' = fg_next_tab_id s5" "fg_watch st' = fg_watch s5"
    by (auto simp: st' s6_def split: option.splits)
  have d: "distinct (tab_ids ?s2)" using wf by (simp add: tabs_wf_def tab_ids_def)
  have r: "reusable_ids ?s2 = reusable_ids st"
    by (rule reusable_ids_cong) simp
  have s3tabs: "fg_tabs s3 = filter (\<lambda>t. tab_id t \<notin> reusable_ids st) (fg_tabs st) @ [attach_content_subscription (TabEditor ?e)]"
    and s3act: "fg_active s3 = Some (fg_next_tab_id st)"
    using place_tabs [OF d, of "TabEditor ?e"] s3 r by (simp_all add: opened_tab_facts)
  have sub: "set (fg_tabs s3) \<subseteq> set (fg_tabs st')" "fg_active st' = fg_active s3"
    using preview_frame [where st = s3 and index = index] by (simp_all add: same s5_def)
  have "tabs_wf (snd (place_editor_tab_reusing_scratch (TabEditor ?e) ((st\<lparr>fg_fresh := Suc (fg_fresh st)\<rparr>)\<lparr>fg_next_tab_id := Suc (fg_next_tab_id st)\<rparr>)))"
    using wf by (intro place_wf [of "st\<lparr>fg_fresh := Suc (fg_fresh st)\<rparr>", simplified]) (simp_all add: opened_tab_facts tabs_wf_def active_ok_def tab_ids_def)
  moreover have "(st\<lparr>fg_fresh := Suc (fg_fresh st)\<rparr>)\<lparr>fg_next_tab_id := Suc (fg_next_tab_id st)\<rparr> = ?s2" by (cases st) simp
  ultimately have "tabs_wf s3" using s3 by (simp only: snd_conv)
  then have "tabs_wf s5" unfolding s5_def by (simp add: maybe_preview_wf)
  then show "tabs_wf st'" using tabs_wf_cong [of st' s5] same by simp
  show "\<exists>e. TabEditor e \<in> set (fg_tabs st') \<and> fg_active st' = Some (et_id e) \<and> shows_file p d (fg_next_tab_id st) e"
    using sub s3tabs s3act opened_tab_facts(1) shows_file_subscribed [OF opened_tab_shows]
    by (intro exI [of _ "?e\<lparr>et_content_subscription := Some (es_id (et_content ?e))\<rparr>"]) simp
  show "\<forall>t \<in> set (fg_tabs st). tab_id t \<notin> reusable_ids st \<longrightarrow> t \<in> set (fg_tabs st')"
    using sub(1) s3tabs by auto
  show "fw_watched (fg_watch st') = Some ps \<Longrightarrow> ae_can_watch (oe_app env) p \<Longrightarrow> p \<in> set ps"
    unfolding same s5_def by (rule watch_file_watches)
qed

section \<open>Properties\<close>


definition sample_open_env :: open_env where
  "sample_open_env =
     \<lparr>oe_app = sample_app, oe_codecs = se_codecs sample_session_env, oe_now = 0, oe_canonicalize = (\<lambda>p. Some p),
      oe_size = (\<lambda>_. 2), oe_bytes = (\<lambda>_. Some [104, 105]), oe_is_file = (\<lambda>_. True)\<rparr>"

definition sample_open_window :: open_window where
  "sample_open_window =
     \<lparr>ow_win = empty_window sample_settings, ow_settings = new_settings, ow_reads = [lit ''/a.txt''],
      ow_reopen_dialogs = [], ow_notes = []\<rparr>"


text \<open>A binary file or one that cannot be read changes no tab.\<close>

lemma unreadable_file_opens_nothing:
  "(oe_bytes env p = None \<or> looks_binary (the (oe_bytes env p))) \<Longrightarrow> ow_win (finish_open env p w) = ow_win w
     \<and> ow_settings (finish_open env p w) = ow_settings w"
  by (auto simp: finish_open_def read_and_classify_def note_open_def split: option.splits)

section \<open>One tab per file\<close>

definition local_paths :: "fulgur \<Rightarrow> rstr list" where
  "local_paths st = List.map_filter (\<lambda>t. Option.bind (as_editor t) file_path) (fg_tabs st)"

lemma find_tab_by_path_None: "find_tab_by_path p st = None \<longleftrightarrow> p \<notin> set (local_paths st)"
proof -
  have "(case t of TabEditor e \<Rightarrow> file_path e = Some p | _ \<Rightarrow> False) \<longleftrightarrow> Option.bind (as_editor t) file_path = Some p" for t
    by (cases t) simp_all
  then have "find_tab_by_path p st = None \<longleftrightarrow> (\<forall>t \<in> set (fg_tabs st). Option.bind (as_editor t) file_path \<noteq> Some p)"
    by (simp add: find_tab_by_path_def position_None)
  also have "\<dots> \<longleftrightarrow> p \<notin> set (local_paths st)"
    unfolding local_paths_def List.map_filter_def by (force simp: image_iff)
  finally show ?thesis .
qed

text \<open>A path that is open is never read again: its tab is activated.\<close>

lemma open_path_is_focused:
  assumes "canonical_or_given env path \<in> set (local_paths (ow_win w))"
  shows "fg_tabs (ow_win (do_open_file env elsewhere path w)) = fg_tabs (ow_win w)
    \<and> ow_reads (do_open_file env elsewhere path w) = ow_reads w"
proof -
  obtain i where "find_tab_by_path (canonical_or_given env path) (ow_win w) = Some i"
    using assms find_tab_by_path_None by (metis option.exhaust)
  then show ?thesis
    by (auto simp: do_open_file_def focus_existing_local_tab_for_open_def show_reopen_modified_file_dialog_def Let_def
        split: option.splits bool.splits)
qed

text \<open>While a file is being read its path is in no tab, so opening it again reads it again, and two tabs show it.\<close>

lemma opened_twice_while_reading:
  assumes "canonical_or_given env path = p" "p \<notin> set (local_paths (ow_win w))" "elsewhere p = None" "oe_canonicalize env p = Some p"
  shows "ow_reads (do_open_file env elsewhere path (do_open_file env elsewhere path w)) = ow_reads w @ [p, p]"
  using assms find_tab_by_path_None [of p "ow_win w"]
  by (simp add: do_open_file_def start_open_def canonical_or_given_def note_open_def Let_def)

lemma duplicate_tabs:
  assumes "tabs_wf (ow_win w)" "oe_bytes env p = Some bytes" "\<not> looks_binary bytes"
  shows "\<exists>e e'. TabEditor e \<in> set (fg_tabs (ow_win (finish_open env p (finish_open env p w))))
     \<and> TabEditor e' \<in> set (fg_tabs (ow_win (finish_open env p (finish_open env p w))))
     \<and> et_id e < et_id e' \<and> file_path e = Some p \<and> file_path e' = Some p"
proof -
  let ?w1 = "finish_open env p w" and ?w2 = "finish_open env p (finish_open env p w)"
  let ?d = "detect_encoding_and_decode (oe_codecs env) bytes"
  have s: "ow_win (finish_open env p v) = emit NotifyView (emit SaveState (emit (OtherRequest ''update menus and title'')
      (place_opened_file env p ?d (ow_win v))))" for v
    using assms(2,3) by (simp add: finish_open_def read_and_classify_def)
  note p1 = placed_file [OF assms(1), of env p ?d]
  have wf1: "tabs_wf (ow_win ?w1)" using p1(1) by (simp add: s)
  note p2 = placed_file [OF wf1, of env p ?d]
  obtain e where e: "TabEditor e \<in> set (fg_tabs (ow_win ?w1))" "shows_file p ?d (fg_next_tab_id (ow_win w)) e"
    using p1(2) by (auto simp: s)
  obtain e' where e': "TabEditor e' \<in> set (fg_tabs (ow_win ?w2))" "shows_file p ?d (fg_next_tab_id (ow_win ?w1)) e'"
    using p2(2) by (auto simp: s)
  have "et_id e \<in> set (tab_ids (ow_win ?w1))" using e(1) by (force simp: tab_ids_def)
  then have lt: "et_id e < et_id e'" using wf1 e'(2) by (simp add: tabs_wf_def shows_file_def)
  have "et_id e \<notin> reusable_ids (ow_win ?w1)"
    using reused_is_blank [OF _ e(1)] wf1 e(2) by (auto simp: tabs_wf_def shows_file_def)
  then have "TabEditor e \<in> set (fg_tabs (ow_win ?w2))" using p2(3) e(1) by (auto simp: s)
  moreover have "file_path e = Some p" "file_path e' = Some p" using e(2) e'(2) by (simp_all add: shows_file_def file_path_def)
  ultimately show ?thesis using e'(1) lt by blast
qed

text \<open>The prompt does not ask the other windows, as every other way to open a file does.\<close>

lemma prompt_ignores_other_windows:
  assumes "p \<notin> set (local_paths (ow_win w))" "oe_canonicalize env p = Some p" "elsewhere p = Some other"
  shows "ow_reads (do_open_file env elsewhere p w) = ow_reads w"
    and "ow_reads (open_file_chosen env p w) = ow_reads w @ [p]"
  using assms find_tab_by_path_None [of p "ow_win w"]
  by (simp_all add: do_open_file_def open_file_chosen_def start_open_def canonical_or_given_def note_open_def Let_def)

text \<open>Opening a file that is open already activates its tab without \<open>set_active_tab\<close>: a conflict noted while the tab was
  in the background is not shown.\<close>

lemma reopening_skips_pending_conflict:
  assumes "find_tab_by_path (canonical_or_given env path) (ow_win w) = Some i"
  shows "fg_watch (ow_win (do_open_file env elsewhere path w)) = fg_watch (ow_win w)"
  using assms
  by (auto simp: do_open_file_def focus_existing_local_tab_for_open_def show_reopen_modified_file_dialog_def Let_def
      split: option.splits bool.splits)

text \<open>A drop opens every file once, in order.\<close>

lemma dropped_files_distinct:
  "distinct files \<Longrightarrow> dropped_files is_file ps files n = (files', m) \<Longrightarrow> distinct files' \<and> set files' = set files \<union> {p \<in> set ps. is_file p}"
proof (induction ps arbitrary: files n)
  case (Cons p ps)
  consider "\<not> is_file p" | "is_file p" "p \<in> set files" | "is_file p" "p \<notin> set files" by blast
  then show ?case
  proof cases
    case 1
    then show ?thesis using Cons.IH [of files "n + 1"] Cons.prems by (auto simp: conj_disj_distribR)
  next
    case 2
    then show ?thesis using Cons.IH [of files n] Cons.prems by auto
  next
    case 3
    then show ?thesis using Cons.IH [of "files @ [p]" n] Cons.prems by auto
  qed
qed simp

end
