(* ===== verification/Window_Close.thy ===== *)
theory Window_Close
  imports Window_Manager Local_Save Session
begin

text \<open>
  Closing windows and quitting: \<^verbatim>\<open>src/fulgur/window_manager/lifecycle.rs\<close>, \<^verbatim>\<open>src/fulgur/ui/dialogs/large_file_close.rs\<close> and
  \<open>quit\<close> of \<^verbatim>\<open>src/fulgur/ui/tabs/tab_manager/lifecycle/dialogs.rs\<close>. The state is that of the process: the window manager,
  the live windows with their dialogs, what the state writer has stored, and the files. \<open>ap_written\<close> is a record
  for the proofs: the files written by the dialogs, in order.
\<close>

section \<open>State\<close>

datatype close_continuation = ContinueQuit | ContinueCloseWindow

datatype close_choice = ChooseSave | ChooseDiscard | ChooseCancel

datatype close_dialog =
    LargeFileDialog nat "nat list" close_continuation
  | QuitDialog

datatype close_note =
    SaveStateFailed
  | SaveLargeFailed rstr

record close_window =
  cw_session :: session_window
  cw_confirm_exit :: bool
  cw_save_failed_once :: bool
  cw_dialogs :: "close_dialog list"
  cw_notes :: "close_note list"

record app =
  ap_manager :: window_manager
  ap_windows :: "nat \<rightharpoonup> close_window"
  ap_store :: "windows_state option"
  ap_files :: file_sys
  ap_counter :: nat
  ap_quit :: bool
  ap_written :: "(rstr \<times> u8 list) list"

record close_env =
  ce_disk :: disk
  ce_bounds :: gpui_bounds
  ce_display :: "nat option"
  ce_store_fails :: bool
  ce_codecs :: codecs
  ce_aw :: aw_env
  ce_now :: nat

definition upd_window :: "nat \<Rightarrow> (close_window \<Rightarrow> close_window) \<Rightarrow> app \<Rightarrow> app" where
  "upd_window i f a = a\<lparr>ap_windows := (ap_windows a)(i := map_option f (ap_windows a i))\<rparr>"

definition upd_fulgur :: "nat \<Rightarrow> (fulgur \<Rightarrow> fulgur) \<Rightarrow> app \<Rightarrow> app" where
  "upd_fulgur i f = upd_window i (\<lambda>w. w\<lparr>cw_session := (cw_session w)\<lparr>sn_app := f (sn_app (cw_session w))\<rparr>\<rparr>)"

definition fulgur_of :: "nat \<Rightarrow> app \<Rightarrow> fulgur option" where
  "fulgur_of i a = map_option (\<lambda>w. sn_app (cw_session w)) (ap_windows a i)"

definition note_close :: "nat \<Rightarrow> close_note \<Rightarrow> app \<Rightarrow> app" where
  "note_close i n = upd_window i (\<lambda>w. w\<lparr>cw_notes := cw_notes w @ [n]\<rparr>)"

definition open_close_dialog :: "nat \<Rightarrow> close_dialog \<Rightarrow> app \<Rightarrow> app" where
  "open_close_dialog i d = upd_window i (\<lambda>w. w\<lparr>cw_dialogs := d # cw_dialogs w\<rparr>)"

definition close_top_dialog :: "nat \<Rightarrow> app \<Rightarrow> app" where
  "close_top_dialog i = upd_window i (\<lambda>w. w\<lparr>cw_dialogs := tl (cw_dialogs w)\<rparr>)"

section \<open>Saving the session\<close>

definition snapshot :: "close_env \<Rightarrow> nat \<Rightarrow> app \<Rightarrow> windows_state" where
  "snapshot env i a =
     build_windows_state (ce_disk env) (ce_bounds env) (ce_display env) i
       (map (\<lambda>k. (k, map_option cw_session (ap_windows a k))) (wm_windows (ap_manager a)))"

text \<open>\<open>save_state\<close>, which waits for the state writer; \<open>False\<close> when it failed.\<close>

definition save_state :: "close_env \<Rightarrow> nat \<Rightarrow> app \<Rightarrow> bool \<times> app" where
  "save_state env i a =
     (if ce_store_fails env then (False, a) else (True, a\<lparr>ap_store := Some (snapshot env i a)\<rparr>))"

definition unregister :: "nat \<Rightarrow> app \<Rightarrow> app" where
  "unregister i a = a\<lparr>ap_manager := unregister_window i (ap_manager a)\<rparr>"

definition notify_all_windows :: "app \<Rightarrow> app" where
  "notify_all_windows a = fold (\<lambda>k. upd_fulgur k (emit NotifyView)) (wm_windows (ap_manager a)) a"

section \<open>Large files\<close>

definition needs_close_warning :: "tab \<Rightarrow> bool" where
  "needs_close_warning t =
     (case as_editor t of
        None \<Rightarrow> False
      | Some e \<Rightarrow> (case et_location e of LocLocal p \<Rightarrow> True | _ \<Rightarrow> False)
                  \<and> content_too_large_to_persist e \<and> content_differs_from_original e)"

definition large_modified_local_tabs :: "fulgur \<Rightarrow> nat list" where
  "large_modified_local_tabs st = map tab_id (filter needs_close_warning (fg_tabs st))"

definition tab_still_needs_close_warning :: "nat \<Rightarrow> fulgur \<Rightarrow> bool" where
  "tab_still_needs_close_warning i st = (case tab_entity_of i st of Some t \<Rightarrow> needs_close_warning t | None \<Rightarrow> False)"

definition tab_filename :: "nat \<Rightarrow> fulgur \<Rightarrow> rstr" where
  "tab_filename i st =
     (case editor_tab_of i st of
        None \<Rightarrow> lit ''file''
      | Some e \<Rightarrow> (case Option.bind (file_path e) path_file_name of Some n \<Rightarrow> n | None \<Rightarrow> et_title e))"

datatype blocking_error =
    TabGone
  | NotAnEditor
  | NotALocalFile
  | DecodedLossily
  | NotEncodable rstr
  | BlockingWriteFailed aw_error

definition save_local_tab_blocking :: "close_env \<Rightarrow> nat \<Rightarrow> nat \<Rightarrow> app \<Rightarrow> (blocking_error + unit) \<times> app" where
  "save_local_tab_blocking env w i a =
     (case Option.bind (fulgur_of w a) (tab_entity_of i) of
        None \<Rightarrow> (Inl TabGone, a)
      | Some t \<Rightarrow>
          (case as_editor t of
             None \<Rightarrow> (Inl NotAnEditor, a)
           | Some e \<Rightarrow>
               (case et_location e of
                  LocLocal path \<Rightarrow>
                    if et_lossy_decode e then (Inl DecodedLossily, a)
                    else (case encode_for_save (ce_codecs env) (es_text (et_content e)) (et_encoding e) of
                            EncodedLossy \<Rightarrow> (Inl (NotEncodable (et_encoding e)), a)
                          | Encoded bytes \<Rightarrow>
                              (case atomic_write_file (ce_aw env) (ap_counter a) path bytes (ap_files a) of
                                 (Inl err, fs, _, k) \<Rightarrow>
                                   (Inl (BlockingWriteFailed err), a\<lparr>ap_files := fs, ap_counter := k\<rparr>)
                               | (Inr _, fs, _, k) \<Rightarrow>
                                   (Inr (),
                                    upd_fulgur w
                                      (\<lambda>st. update_editor_tab i
                                              (\<lambda>e. update_file_tooltip_cache (ce_now env) (length bytes) (mark_as_saved e))
                                              (note_save (ce_now env) path st))
                                      (a\<lparr>ap_files := fs, ap_counter := k, ap_written := ap_written a @ [(path, bytes)]\<rparr>))))
                | _ \<Rightarrow> (Inl NotALocalFile, a))))"

section \<open>Quitting and closing\<close>

text \<open>\<open>quit_inner\<close>, and the OK button of its dialog, which stays open when saving fails.\<close>

definition quit_inner :: "close_env \<Rightarrow> nat \<Rightarrow> app \<Rightarrow> app" where
  "quit_inner env i a =
     (case ap_windows a i of
        None \<Rightarrow> a
      | Some w \<Rightarrow>
          if cw_confirm_exit w then open_close_dialog i QuitDialog a
          else (case save_state env i a of
                  (False, a1) \<Rightarrow> note_close i SaveStateFailed a1
                | (True, a1) \<Rightarrow> a1\<lparr>ap_quit := True\<rparr>))"

definition confirm_quit :: "close_env \<Rightarrow> nat \<Rightarrow> app \<Rightarrow> app" where
  "confirm_quit env i a =
     (case save_state env i a of
        (False, a1) \<Rightarrow> note_close i SaveStateFailed a1
      | (True, a1) \<Rightarrow> (close_top_dialog i a1)\<lparr>ap_quit := True\<rparr>)"

definition drop_window :: "nat \<Rightarrow> app \<Rightarrow> app" where
  "drop_window i a = a\<lparr>ap_windows := (ap_windows a)(i := None)\<rparr>"

definition finish_window_close :: "close_env \<Rightarrow> nat \<Rightarrow> app \<Rightarrow> app" where
  "finish_window_close env i a =
     (case save_state env i a of
        (False, a1) \<Rightarrow> note_close i SaveStateFailed a1
      | (True, a1) \<Rightarrow> drop_window i (notify_all_windows (unregister i a1)))"

fun run_close_continuation :: "close_env \<Rightarrow> close_continuation \<Rightarrow> nat \<Rightarrow> app \<Rightarrow> app" where
  "run_close_continuation env ContinueQuit i a = quit_inner env i a"
| "run_close_continuation env ContinueCloseWindow i a = finish_window_close env i a"

definition drive_large_file_close_warnings ::
  "close_env \<Rightarrow> nat list \<Rightarrow> close_continuation \<Rightarrow> nat \<Rightarrow> app \<Rightarrow> app" where
  "drive_large_file_close_warnings env remaining k i a =
     (case fulgur_of i a of
        None \<Rightarrow> a
      | Some st \<Rightarrow>
          (case dropWhile (\<lambda>t. \<not> tab_still_needs_close_warning t st) remaining of
             [] \<Rightarrow> run_close_continuation env k i a
           | t # rest \<Rightarrow>
               open_close_dialog i (LargeFileDialog t rest k)
                 (case tab_index_of t st of Some index \<Rightarrow> upd_fulgur i (set_active_tab index) a | None \<Rightarrow> a)))"

definition resolve_large_file_close_warning ::
  "close_env \<Rightarrow> close_choice \<Rightarrow> nat \<Rightarrow> nat list \<Rightarrow> close_continuation \<Rightarrow> nat \<Rightarrow> app \<Rightarrow> app" where
  "resolve_large_file_close_warning env c t rest k i a =
     (case c of
        ChooseCancel \<Rightarrow> a
      | ChooseDiscard \<Rightarrow> drive_large_file_close_warnings env rest k i a
      | ChooseSave \<Rightarrow>
          (case save_local_tab_blocking env i t a of
             (Inr _, a1) \<Rightarrow> drive_large_file_close_warnings env rest k i a1
           | (Inl err, a1) \<Rightarrow>
               (case fulgur_of i a1 of
                  None \<Rightarrow> a1
                | Some st \<Rightarrow> note_close i (SaveLargeFailed (tab_filename t st)) a1)))"

definition quit :: "close_env \<Rightarrow> nat \<Rightarrow> app \<Rightarrow> app" where
  "quit env i a =
     (case fulgur_of i a of
        None \<Rightarrow> a
      | Some st \<Rightarrow>
          let large = large_modified_local_tabs st in
          if large = [] then quit_inner env i a
          else drive_large_file_close_warnings env large ContinueQuit i a)"

text \<open>Saving before the framework closes the window; a second failure lets it close.\<close>

definition save_or_force :: "close_env \<Rightarrow> nat \<Rightarrow> close_window \<Rightarrow> app \<Rightarrow> bool \<times> app" where
  "save_or_force env i w a =
     (case save_state env i a of
        (True, a1) \<Rightarrow> (True, a1)
      | (False, a1) \<Rightarrow>
          if cw_save_failed_once w then (True, a1)
          else (False, note_close i SaveStateFailed (upd_window i (\<lambda>w. w\<lparr>cw_save_failed_once := True\<rparr>) a1)))"

definition on_window_close_requested :: "close_env \<Rightarrow> nat \<Rightarrow> app \<Rightarrow> bool \<times> app" where
  "on_window_close_requested env i a =
     (case ap_windows a i of
        None \<Rightarrow> (True, a)
      | Some w \<Rightarrow>
          let count = window_count (ap_manager a);
              large = large_modified_local_tabs (sn_app (cw_session w)) in
          if large \<noteq> []
          then (False, drive_large_file_close_warnings env large
                         (if count = 1 then ContinueQuit else ContinueCloseWindow) i a)
          else if count = 1 then
            (if cw_confirm_exit w then (False, quit env i a)
             else (case save_or_force env i w a of
                     (False, a1) \<Rightarrow> (False, a1)
                   | (True, a1) \<Rightarrow> (True, unregister i a1)))
          else (case save_or_force env i w a of
                  (False, a1) \<Rightarrow> (False, a1)
                | (True, a1) \<Rightarrow> (True, notify_all_windows (unregister i a1))))"

text \<open>The request as the framework handles it: an allowed one removes the window.\<close>

definition request_close :: "close_env \<Rightarrow> nat \<Rightarrow> app \<Rightarrow> app" where
  "request_close env i a =
     (case on_window_close_requested env i a of (True, a1) \<Rightarrow> drop_window i a1 | (False, a1) \<Rightarrow> a1)"

section \<open>The user's answers\<close>

datatype close_answer = AnswerLarge close_choice | AnswerQuit bool

text \<open>The answers to the dialog on top, one after another, each with the system at that moment; the second component
  lists the tabs that were asked about with the choices. An answer that does not fit the dialog on top ends the run.\<close>

fun answers :: "nat \<Rightarrow> (close_env \<times> close_answer) list \<Rightarrow> app \<Rightarrow> app \<times> (nat \<times> close_choice) list" where
  "answers i [] a = (a, [])"
| "answers i ((env, c) # cs) a =
     (case ap_windows a i of
        None \<Rightarrow> (a, [])
      | Some w \<Rightarrow>
          (case (cw_dialogs w, c) of
             (LargeFileDialog t rest k # ds, AnswerLarge choice) \<Rightarrow>
               (let (a', asked) = answers i cs
                      (resolve_large_file_close_warning env choice t rest k i (close_top_dialog i a))
                in (a', (t, choice) # asked))
           | (QuitDialog # ds, AnswerQuit ok) \<Rightarrow>
               answers i cs (if ok then confirm_quit env i a else close_top_dialog i a)
           | _ \<Rightarrow> (a, [])))"

definition window_closed :: "nat \<Rightarrow> app \<Rightarrow> bool" where
  "window_closed i a \<longleftrightarrow> ap_quit a \<or> i \<notin> set (wm_windows (ap_manager a))"


section \<open>Every large file is asked about\<close>

definition idle_window :: "nat \<Rightarrow> tab list \<Rightarrow> app \<Rightarrow> bool" where
  "idle_window i ts a \<longleftrightarrow>
     (\<exists>w. ap_windows a i = Some w \<and> cw_dialogs w = [] \<and> fg_tabs (sn_app (cw_session w)) = ts) \<and> \<not> window_closed i a"

lemma upd_window_frame [simp]:
  "ap_quit (upd_window i f a) = ap_quit a" "ap_manager (upd_window i f a) = ap_manager a"
  "ap_written (upd_window i f a) = ap_written a" "ap_store (upd_window i f a) = ap_store a"
  "ap_windows (upd_window i f a) i = map_option f (ap_windows a i)"
  "window_closed j (upd_window i f a) = window_closed j a"
  by (simp_all add: upd_window_def window_closed_def)

lemma close_frame [simp]:
  "window_closed j (open_close_dialog i d a) = window_closed j a" "window_closed j (close_top_dialog i a) = window_closed j a"
  "window_closed j (note_close i n a) = window_closed j a" "window_closed j (upd_fulgur i f a) = window_closed j a"
  "ap_written (open_close_dialog i d a) = ap_written a" "ap_written (close_top_dialog i a) = ap_written a"
  "ap_written (note_close i n a) = ap_written a" "ap_written (upd_fulgur i f a) = ap_written a"
  by (simp_all add: open_close_dialog_def close_top_dialog_def note_close_def upd_fulgur_def)

lemma idle_note: "idle_window i ts a \<Longrightarrow> idle_window i ts (note_close i n a)"
  by (auto simp: idle_window_def note_close_def)

lemma idle_answers: "idle_window i ts a \<Longrightarrow> answers i cs a = (a, [])"
  by (cases cs) (auto simp: idle_window_def split: close_answer.splits)

lemma idle_set_active: "idle_window i ts a \<Longrightarrow> idle_window i ts (upd_fulgur i (set_active_tab index) a)"
  by (auto simp: idle_window_def upd_fulgur_def)

lemma idle_dialog: "idle_window i ts a \<Longrightarrow> idle_window i ts (close_top_dialog i (open_close_dialog i d a))"
  by (auto simp: idle_window_def close_top_dialog_def open_close_dialog_def)

lemma idle_fulgur: "idle_window i ts a \<Longrightarrow> \<exists>st. fulgur_of i a = Some st \<and> fg_tabs st = ts"
  by (auto simp: idle_window_def fulgur_of_def)

definition tab_in :: "nat \<Rightarrow> tab list \<Rightarrow> tab option" where
  "tab_in i ts = List.find (\<lambda>t. tab_id t = i) ts"

lemma tab_entity_in: "tab_entity_of i st = tab_in i (fg_tabs st)"
  by (simp add: tab_entity_of_def tab_in_def)

lemma tab_in_update: "u \<noteq> t \<Longrightarrow> (\<And>x. tab_id (f x) = tab_id x) \<Longrightarrow> tab_in u (fg_tabs (update_tab t f st)) = tab_in u (fg_tabs st)"
proof -
  have "List.find (\<lambda>t. tab_id t = u) (xs[p := f (xs ! p)]) = List.find (\<lambda>t. tab_id t = u) xs"
    if "u \<noteq> t" "tab_id (xs ! p) = t" "p < length xs" "\<And>x. tab_id (f x) = tab_id x" for xs p
    using that(1-3) by (induction xs arbitrary: p) (auto simp: that(4) nth_Cons split: nat.splits)
  then show "u \<noteq> t \<Longrightarrow> (\<And>x. tab_id (f x) = tab_id x) \<Longrightarrow> ?thesis"
    using position_Some by (fastforce simp: tab_in_def update_tab_def tab_index_of_def split: option.splits)
qed

text \<open>What a blocking save leaves.\<close>

definition written_as :: "(rstr \<times> u8 list) list \<Rightarrow> editor_tab \<Rightarrow> bool" where
  "written_as ws e \<longleftrightarrow> (\<exists>p bytes cd. et_location e = LocLocal p \<and> \<not> et_lossy_decode e
     \<and> encode_for_save cd (es_text (et_content e)) (et_encoding e) = Encoded bytes \<and> (p, bytes) \<in> set ws)"

lemma blocking_save_ok:
  assumes "idle_window i ts a" "save_local_tab_blocking env i t a = (Inr (), a')"
  shows "\<exists>ts' e. idle_window i ts' a' \<and> tab_in t ts = Some (TabEditor e) \<and> written_as (ap_written a') e
    \<and> set (ap_written a) \<subseteq> set (ap_written a') \<and> (\<forall>u. u \<noteq> t \<longrightarrow> tab_in u ts' = tab_in u ts)"
proof -
  obtain w where w: "ap_windows a i = Some w" "cw_dialogs w = []" "fg_tabs (sn_app (cw_session w)) = ts" "\<not> window_closed i a"
    using assms(1) by (auto simp: idle_window_def)
  let ?st = "sn_app (cw_session w)"
  have fu: "fulgur_of i a = Some ?st" using w(1) by (simp add: fulgur_of_def)
  obtain x where x: "tab_entity_of t ?st = Some x" using assms(2) fu
    by (cases "tab_entity_of t ?st") (auto simp: save_local_tab_blocking_def)
  obtain e where e: "x = TabEditor e" using assms(2) fu x
    by (cases x) (auto simp: save_local_tab_blocking_def)
  obtain p where p: "et_location e = LocLocal p" "\<not> et_lossy_decode e" using assms(2) fu x e
    by (cases "et_location e") (auto simp: save_local_tab_blocking_def split: if_splits)
  obtain bytes where b: "encode_for_save (ce_codecs env) (es_text (et_content e)) (et_encoding e) = Encoded bytes"
    using assms(2) fu x e p
    by (cases "encode_for_save (ce_codecs env) (es_text (et_content e)) (et_encoding e)") (auto simp: save_local_tab_blocking_def)
  obtain r fs tr k where aw: "atomic_write_file (ce_aw env) (ap_counter a) p bytes (ap_files a) = (r, fs, tr, k)"
    by (metis prod_cases4)
  let ?f = "\<lambda>st. update_editor_tab t (\<lambda>e. update_file_tooltip_cache (ce_now env) (length bytes) (mark_as_saved e)) (note_save (ce_now env) p st)"
  have a': "a' = upd_fulgur i ?f (a\<lparr>ap_files := fs, ap_counter := k, ap_written := ap_written a @ [(p, bytes)]\<rparr>)"
    using assms(2) fu x e p b aw by (cases r) (auto simp: save_local_tab_blocking_def)
  have idle: "idle_window i (fg_tabs (?f ?st)) a'" using w
    by (simp add: a' idle_window_def upd_fulgur_def upd_window_def window_closed_def)
  have other: "tab_in u (fg_tabs (?f ?st)) = tab_in u ts" if "u \<noteq> t" for u
    using tab_in_update [OF that] w(3) unfolding update_editor_tab_def
    by (subst tab_in_update [OF that]) (auto simp: update_file_tooltip_cache_def split: tab.splits)
  show ?thesis
    using idle other x e p b w(3) by (intro exI [of _ "fg_tabs (?f ?st)"] exI [of _ e])
      (auto simp: a' tab_entity_in written_as_def)
qed

lemma blocking_save_failed:
  assumes "idle_window i ts a" "save_local_tab_blocking env i t a = (Inl err, a')"
  shows "idle_window i ts a'"
  using assms
  by (auto simp: save_local_tab_blocking_def idle_window_def window_closed_def
      split: option.splits tab_location.splits if_splits encoded_contents.splits prod.splits sum.splits)


lemma save_written [simp]: "ap_written (snd (save_state env i a)) = ap_written a"
  by (simp add: save_state_def)

lemma notify_written [simp]: "ap_written (notify_all_windows a) = ap_written a"
proof -
  have "ap_written (fold (\<lambda>k. upd_fulgur k f) ks b) = ap_written b" for ks b f
    by (induction ks arbitrary: b) simp_all
  then show ?thesis by (simp add: notify_all_windows_def)
qed

lemma quit_inner_written [simp]: "ap_written (quit_inner env i a) = ap_written a"
  by (auto simp: quit_inner_def save_state_def split: option.splits)

lemma confirm_written [simp]: "ap_written (confirm_quit env i a) = ap_written a"
  by (auto simp: confirm_quit_def save_state_def)

lemma finish_written [simp]: "ap_written (finish_window_close env i a) = ap_written a"
  by (auto simp: finish_window_close_def save_state_def drop_window_def unregister_def)

lemma drive_written [simp]: "ap_written (drive_large_file_close_warnings env rem k i a) = ap_written a"
  by (cases k) (auto simp: drive_large_file_close_warnings_def split: option.splits list.splits)

lemma blocking_written: "set (ap_written a) \<subseteq> set (ap_written (snd (save_local_tab_blocking env i t a)))"
  by (auto simp: save_local_tab_blocking_def
      split: option.splits tab_location.splits encoded_contents.splits prod.splits sum.splits)

lemma resolve_written: "set (ap_written a) \<subseteq> set (ap_written (resolve_large_file_close_warning env c t rest k i a))"
  using blocking_written [of a env i t]
  by (auto simp: resolve_large_file_close_warning_def split: close_choice.splits prod.splits sum.splits option.splits)

lemma close_top_written [simp]: "ap_written (if ok then confirm_quit env i a else close_top_dialog i a) = ap_written a"
  by simp

lemma answers_written: "set (ap_written a) \<subseteq> set (ap_written (fst (answers i cs a)))"
proof (induction cs arbitrary: a)
  case (Cons c cs)
  obtain env x where c: "c = (env, x)" by fastforce
  consider "answers i (c # cs) a = (a, [])"
    | t rest k choice where "fst (answers i (c # cs) a)
        = fst (answers i cs (resolve_large_file_close_warning env choice t rest k i (close_top_dialog i a)))"
    | ok where "answers i (c # cs) a = answers i cs (if ok then confirm_quit env i a else close_top_dialog i a)"
  proof (cases "ap_windows a i")
    case None
    then show thesis using that(1) by (simp add: c)
  next
    case w: (Some w)
    show thesis
    proof (cases "cw_dialogs w")
      case Nil
      then show thesis using that(1) w by (simp add: c)
    next
      case ds: (Cons d ds)
      show thesis
      proof (cases d)
        case (LargeFileDialog t rest k)
        then show thesis using that(1) that(2) [of _ t rest k] w ds by (cases x) (simp_all add: c case_prod_beta Let_def)
      next
        case QuitDialog
        then show thesis using that(1) that(3) w ds by (cases x) (simp_all add: c)
      qed
    qed
  qed
  then show ?case
  proof cases
    case 1
    then show ?thesis by simp
  next
    case (2 t rest k choice)
    have "set (ap_written a) \<subseteq> set (ap_written (resolve_large_file_close_warning env choice t rest k i (close_top_dialog i a)))"
      using resolve_written [of "close_top_dialog i a" env choice t rest k i] by simp
    then show ?thesis unfolding 2 using Cons.IH by (rule subset_trans)
  next
    case (3 ok)
    then show ?thesis using Cons.IH [of "if ok then confirm_quit env i a else close_top_dialog i a"]
      by (simp only: 3 close_top_written)
  qed
qed simp

text \<open>The user chose to discard the tab, or to save it and its text was written to its file.\<close>

definition settled_tab :: "app \<Rightarrow> (nat \<times> close_choice) list \<Rightarrow> nat \<Rightarrow> editor_tab \<Rightarrow> bool" where
  "settled_tab a asked t e \<longleftrightarrow>
     (t, ChooseDiscard) \<in> set asked \<or> (t, ChooseSave) \<in> set asked \<and> written_as (ap_written a) e"

lemma written_as_mono: "written_as ws e \<Longrightarrow> set ws \<subseteq> set ws' \<Longrightarrow> written_as ws' e"
  by (auto simp: written_as_def)

lemma settled_more: "settled_tab a asked t e \<Longrightarrow> set asked \<subseteq> set asked' \<Longrightarrow> settled_tab a asked' t e"
  by (auto simp: settled_tab_def)

definition all_settled :: "app \<Rightarrow> (nat \<times> close_choice) list \<Rightarrow> tab list \<Rightarrow> nat list \<Rightarrow> bool" where
  "all_settled a asked ts rem \<longleftrightarrow>
     (\<forall>t \<in> set rem. \<forall>e. tab_in t ts = Some (TabEditor e) \<and> needs_close_warning (TabEditor e) \<longrightarrow> settled_tab a asked t e)"

lemma still_needs: "tab_still_needs_close_warning t st \<longleftrightarrow> (\<exists>e. tab_in t (fg_tabs st) = Some (TabEditor e) \<and> needs_close_warning (TabEditor e))"
proof -
  have "needs_close_warning x \<Longrightarrow> \<exists>e. x = TabEditor e" for x by (cases x) (simp_all add: needs_close_warning_def)
  then show ?thesis by (force simp: tab_still_needs_close_warning_def tab_entity_in split: option.splits)
qed

lemma dropWhile_settled:
  assumes "dropWhile (\<lambda>t. \<not> tab_still_needs_close_warning t st) rem = queue" "fg_tabs st = ts" "all_settled a asked ts queue"
  shows "all_settled a asked ts rem"
  unfolding all_settled_def
proof (intro ballI allI impI)
  fix t e assume t: "t \<in> set rem" and e: "tab_in t ts = Some (TabEditor e) \<and> needs_close_warning (TabEditor e)"
  have "rem = takeWhile (\<lambda>t. \<not> tab_still_needs_close_warning t st) rem @ queue" using assms(1) by (metis takeWhile_dropWhile_id)
  then have "t \<in> set queue \<or> \<not> tab_still_needs_close_warning t st" using t set_takeWhileD by (metis UnE set_append)
  then show "settled_tab a asked t e" using assms(2,3) e still_needs by (auto simp: all_settled_def)
qed

lemma drive_settles:
  assumes "idle_window i ts a" "answers i cs (drive_large_file_close_warnings env rem k i a) = (a', asked)" "window_closed i a'"
  shows "all_settled a' asked ts rem"
  using assms
proof (induction cs arbitrary: ts a env rem k asked)
  case Nil
  obtain st where st: "fulgur_of i a = Some st" "fg_tabs st = ts" using idle_fulgur [OF Nil(1)] by blast
  have "dropWhile (\<lambda>t. \<not> tab_still_needs_close_warning t st) rem = []"
  proof (cases "dropWhile (\<lambda>t. \<not> tab_still_needs_close_warning t st) rem")
    case (Cons t rest)
    then have "window_closed i a" using Nil(2,3) st by (auto simp: drive_large_file_close_warnings_def split: option.splits)
    then show ?thesis using Nil(1) by (simp add: idle_window_def)
  qed
  then show ?case by (rule dropWhile_settled [OF _ st(2)]) (simp add: all_settled_def)
next
  case (Cons c cs)
  obtain st where st: "fulgur_of i a = Some st" "fg_tabs st = ts" using idle_fulgur [OF Cons.prems(1)] by blast
  show ?case
  proof (cases "dropWhile (\<lambda>t. \<not> tab_still_needs_close_warning t st) rem")
    case Nil
    then show ?thesis by (rule dropWhile_settled [OF _ st(2)]) (simp add: all_settled_def)
  next
    case queue: (Cons t rest)
    define b where "b = (case tab_index_of t st of Some index \<Rightarrow> upd_fulgur i (set_active_tab index) a | None \<Rightarrow> a)"
    have b: "idle_window i ts b" using Cons.prems(1) idle_set_active by (auto simp: b_def split: option.splits)
    then obtain w where w: "ap_windows b i = Some w" "cw_dialogs w = []" by (auto simp: idle_window_def)
    have ans: "answers i (c # cs) (open_close_dialog i (LargeFileDialog t rest k) b) = (a', asked)"
      using Cons.prems(2) st queue by (simp add: drive_large_file_close_warnings_def b_def)
    obtain env' choice where c: "c = (env', AnswerLarge choice)"
    proof -
      have "\<not> window_closed i (open_close_dialog i (LargeFileDialog t rest k) b)" using b by (simp add: idle_window_def)
      then show thesis using that ans Cons.prems(3) w
        by (cases c; cases "snd c") (auto simp: open_close_dialog_def)
    qed
    define d where "d = close_top_dialog i (open_close_dialog i (LargeFileDialog t rest k) b)"
    have d: "idle_window i ts d" unfolding d_def by (rule idle_dialog [OF b])
    obtain asked' where r: "answers i cs (resolve_large_file_close_warning env' choice t rest k i d) = (a', asked')"
      and asked: "asked = (t, choice) # asked'"
      using ans w unfolding c d_def by (auto simp: open_close_dialog_def split: prod.splits)
    have "all_settled a' asked ts (t # rest)"
    proof (cases choice)
      case ChooseCancel
      then have "a' = d" using r idle_answers [OF d] by (simp add: resolve_large_file_close_warning_def)
      then show ?thesis using d Cons.prems(3) by (simp add: idle_window_def)
    next
      case ChooseDiscard
      then have "all_settled a' asked' ts rest" using r d Cons.IH Cons.prems(3) by (simp add: resolve_large_file_close_warning_def)
      then show ?thesis using ChooseDiscard asked by (auto simp: all_settled_def settled_tab_def)
    next
      case ChooseSave
      obtain res x where sv: "save_local_tab_blocking env' i t d = (res, x)" by fastforce
      show ?thesis
      proof (cases res)
        case (Inl err)
        then have x: "idle_window i ts x" using blocking_save_failed [OF d] sv by simp
        obtain sx where "fulgur_of i x = Some sx" using idle_fulgur [OF x] by blast
        then have "a' = note_close i (SaveLargeFailed (tab_filename t sx)) x"
          using r sv Inl ChooseSave idle_answers [OF idle_note [OF x]] by (simp add: resolve_large_file_close_warning_def)
        then show ?thesis using x Cons.prems(3) by (simp add: idle_window_def)
      next
        case (Inr u)
        obtain ts' e where s: "idle_window i ts' x" "tab_in t ts = Some (TabEditor e)" "written_as (ap_written x) e"
          "\<forall>u. u \<noteq> t \<longrightarrow> tab_in u ts' = tab_in u ts"
          using blocking_save_ok [OF d] sv Inr by (metis (full_types) old.unit.exhaust)
        have r': "answers i cs (drive_large_file_close_warnings env' rest k i x) = (a', asked')"
          using r sv Inr ChooseSave by (simp add: resolve_large_file_close_warning_def)
        have IH: "all_settled a' asked' ts' rest" by (rule Cons.IH [OF s(1) r' Cons.prems(3)])
        have "set (ap_written x) \<subseteq> set (ap_written a')"
          using answers_written [of "drive_large_file_close_warnings env' rest k i x" i cs] r' by simp
        then have "settled_tab a' asked t e" using written_as_mono [OF s(3)] ChooseSave asked by (simp add: settled_tab_def)
        moreover have "settled_tab a' asked u f" if "u \<in> set rest" "u \<noteq> t" "tab_in u ts = Some (TabEditor f)" "needs_close_warning (TabEditor f)" for u f
        proof -
          have "settled_tab a' asked' u f" using IH that s(4) by (simp add: all_settled_def)
          then show ?thesis by (rule settled_more) (auto simp: asked)
        qed
        ultimately show ?thesis using s(2) unfolding all_settled_def by (metis option.inject set_ConsD tab.inject(1))
      qed
    qed
    then show ?thesis by (rule dropWhile_settled [OF queue st(2)])
  qed
qed

text \<open>C4: A window never closes, and the program never quits from it, with changes to a local file too large for the session
  unless the user was asked about each such tab of the window: for each the user chose to discard it, or chose to
  save it and its text was written, encoded without loss, to its file. Cancelling, or a save that fails, keeps the
  window open.\<close>

theorem closing_asks_for_large_files:
  assumes "ap_windows a i = Some w" "cw_dialogs w = []" "\<not> window_closed i a"
    "distinct (tab_ids (sn_app (cw_session w)))" "TabEditor e \<in> set (fg_tabs (sn_app (cw_session w)))"
    "et_location e = LocLocal p" "content_too_large_to_persist e" "content_differs_from_original e"
    "start = request_close env i a \<or> start = quit env i a"
    "answers i cs start = (a', asked)" "window_closed i a'"
  shows "(et_id e, ChooseDiscard) \<in> set asked
    \<or> (et_id e, ChooseSave) \<in> set asked
       \<and> (\<exists>bytes cd. encode_for_save cd (es_text (et_content e)) (et_encoding e) = Encoded bytes
             \<and> \<not> et_lossy_decode e \<and> (p, bytes) \<in> set (ap_written a'))"
proof -
  let ?st = "sn_app (cw_session w)"
  have n: "needs_close_warning (TabEditor e)" using assms(6-8) by (simp add: needs_close_warning_def)
  have m: "et_id e \<in> set (large_modified_local_tabs ?st)" using assms(5) n by (force simp: large_modified_local_tabs_def)
  then have ne: "large_modified_local_tabs ?st \<noteq> []" by auto
  have idle: "idle_window i (fg_tabs ?st) a" using assms(1-3) by (auto simp: idle_window_def)
  obtain k where "start = drive_large_file_close_warnings env (large_modified_local_tabs ?st) k i a"
  proof -
    have "request_close env i a = drive_large_file_close_warnings env (large_modified_local_tabs ?st)
        (if window_count (ap_manager a) = 1 then ContinueQuit else ContinueCloseWindow) i a"
      using assms(1) ne by (simp add: request_close_def on_window_close_requested_def)
    moreover have "quit env i a = drive_large_file_close_warnings env (large_modified_local_tabs ?st) ContinueQuit i a"
      using assms(1) ne by (simp add: quit_def fulgur_of_def)
    ultimately show thesis using that assms(9) by blast
  qed
  then have s: "all_settled a' asked (fg_tabs ?st) (large_modified_local_tabs ?st)"
    using drive_settles [OF idle] assms(10,11) by blast
  have "tab_in (et_id e) (fg_tabs ?st) = Some (TabEditor e)"
  proof -
    have "List.find (\<lambda>t. tab_id t = tab_id x) ts = Some x" if "distinct (map tab_id ts)" "x \<in> set ts" for x ts
      using that by (induction ts) force+
    from this [of "fg_tabs ?st" "TabEditor e"] show ?thesis using assms(4,5) by (simp add: tab_in_def tab_ids_def)
  qed
  then show ?thesis using s m n assms(6) by (auto simp: all_settled_def settled_tab_def written_as_def)
qed


definition large_sample :: editor_tab where
  "large_sample = (sample_file_tab 4 (lit ''/a''))\<lparr>et_large_file := True, et_modified := True\<rparr>"

definition sample_close_env :: close_env where
  "sample_close_env =
     \<lparr>ce_disk = sample_disk, ce_bounds = Windowed 0 0 0 0, ce_display = None, ce_store_fails = False,
      ce_codecs = se_codecs sample_session_env,
      ce_aw = \<lparr>aw_canonicalize = Some, aw_pid = 1, aw_nonce = 1, aw_created_mode = (\<lambda>_. 0), aw_fails = (\<lambda>_. False),
               aw_partial = 0, aw_remove_fails = False\<rparr>,
      ce_now = 0\<rparr>"

definition sample_close_app :: app where
  "sample_close_app =
     \<lparr>ap_manager = \<lparr>wm_windows = [1], wm_last_focused = Some 1, wm_names = [], wm_next_name_index = 1, wm_menu_tabs = Map.empty\<rparr>,
      ap_windows = [1 \<mapsto> \<lparr>cw_session = sample_session [TabEditor large_sample] 4, cw_confirm_exit = False,
                        cw_save_failed_once = False, cw_dialogs = [], cw_notes = []\<rparr>],
      ap_store = None, ap_files = Map.empty, ap_counter = 0, ap_quit = False, ap_written = []\<rparr>"

lemma large_sample_facts:
  "et_id large_sample = 4" "et_location large_sample = LocLocal (lit ''/a'')"
  "content_too_large_to_persist large_sample" "content_differs_from_original large_sample"
  by (simp_all add: large_sample_def sample_file_facts content_too_large_to_persist_def content_differs_from_original_def)

lemma closing_asks_for_large_files_witness:
  "\<exists>a' asked. answers 1 [(sample_close_env, AnswerLarge ChooseDiscard)] (request_close sample_close_env 1 sample_close_app) = (a', asked)
     \<and> ap_quit a' \<and> ((4, ChooseDiscard) \<in> set asked \<or> (4, ChooseSave) \<in> set asked)"
proof -
  let ?st = "sn_app (sample_session [TabEditor large_sample] 4)"
  have tabs: "fg_tabs ?st = [TabEditor large_sample]" by (simp add: sample_session_def)
  have n: "needs_close_warning (TabEditor large_sample)" using large_sample_facts by (simp add: needs_close_warning_def)
  have l: "large_modified_local_tabs ?st = [4]" using n tabs by (simp add: large_modified_local_tabs_def large_sample_facts)
  have t: "tab_still_needs_close_warning 4 ?st" using n tabs by (simp add: tab_still_needs_close_warning_def tab_entity_of_def large_sample_facts)
  have i: "tab_index_of 4 ?st = Some 0" using tabs by (simp add: tab_index_of_def large_sample_facts)
  obtain a' asked where r: "answers 1 [(sample_close_env, AnswerLarge ChooseDiscard)] (request_close sample_close_env 1 sample_close_app) = (a', asked)"
    by fastforce
  have q: "ap_quit a'"
    using r l t i
    by (auto simp: request_close_def on_window_close_requested_def sample_close_app_def window_count_def
        drive_large_file_close_warnings_def fulgur_of_def open_close_dialog_def close_top_dialog_def upd_fulgur_def upd_window_def
        resolve_large_file_close_warning_def quit_inner_def save_state_def sample_close_env_def)
  have s: "ap_windows sample_close_app 1 = Some \<lparr>cw_session = sample_session [TabEditor large_sample] 4, cw_confirm_exit = False,
      cw_save_failed_once = False, cw_dialogs = [], cw_notes = []\<rparr>" "\<not> window_closed 1 sample_close_app"
    by (simp_all add: sample_close_app_def window_closed_def)
  have "(4, ChooseDiscard) \<in> set asked \<or> (4, ChooseSave) \<in> set asked"
    using closing_asks_for_large_files [OF s(1) _ s(2) _ _ large_sample_facts(2-4) disjI1 [OF refl] r] q tabs
    by (auto simp: tab_ids_def large_sample_facts window_closed_def)
  then show ?thesis using r q by blast
qed

section \<open>Quitting keeps the session\<close>

lemma build_windows_state_member:
  "(k, Some w) \<in> set ws \<Longrightarrow>
     \<exists>s \<in> set (build_windows_state dk bounds display i ws). ws_window_id s = sn_persistent_id w \<and> ws_tabs s = build_tab_states dk w"
proof (induction ws)
  case (Cons x ws)
  then show ?case
    by (cases x) (auto simp: build_windows_state_def List.map_filter_simps build_window_state_def build_window_state_without_bounds_def
        Let_def split: if_splits option.splits)
qed simp

lemma confirm_quit_stores:
  assumes "\<not> ap_quit a" "ap_quit (confirm_quit env i a)"
  shows "ap_store (confirm_quit env i a) = Some (snapshot env i a)"
  using assms by (auto simp: confirm_quit_def save_state_def note_close_def close_top_dialog_def split: if_splits)

lemma quit_stores:
  assumes "\<not> ap_quit a" "ap_quit (quit env i a)"
  shows "ap_store (quit env i a) = Some (snapshot env i a)"
proof -
  have q: "ap_store (quit_inner env i a) = Some (snapshot env i a)" if "ap_quit (quit_inner env i a)"
    using that assms(1) by (auto simp: quit_inner_def save_state_def note_close_def open_close_dialog_def split: option.splits if_splits)
  obtain st where st: "fulgur_of i a = Some st" using assms by (auto simp: quit_def split: option.splits)
  show ?thesis
  proof (cases "dropWhile (\<lambda>t. \<not> tab_still_needs_close_warning t st) (large_modified_local_tabs st)")
    case Nil
    have "quit env i a = quit_inner env i a"
      unfolding quit_def drive_large_file_close_warnings_def st option.case Let_def Nil list.case by simp
    then show ?thesis using assms(2) q by simp
  next
    case (Cons t rest)
    then have "large_modified_local_tabs st \<noteq> []" by auto
    then have "quit env i a = open_close_dialog i (LargeFileDialog t rest ContinueQuit)
        (case tab_index_of t st of Some index \<Rightarrow> upd_fulgur i (set_active_tab index) a | None \<Rightarrow> a)"
      unfolding quit_def drive_large_file_close_warnings_def st option.case Let_def Cons list.case by simp
    then have "\<not> ap_quit (quit env i a)" using assms(1)
      by (simp add: open_close_dialog_def upd_fulgur_def split: option.splits)
    then show ?thesis using assms(2) by simp
  qed
qed



section \<open>What closing does not keep\<close>

text \<open>A window closed while others are open was saved, but is no longer registered: the next snapshot of another window
  replaces the stored session by one without it.\<close>

lemma closed_window_is_forgotten:
  assumes "i \<notin> set (wm_windows (ap_manager a))" "ce_store_fails env = False"
    "\<forall>k \<in> set (wm_windows (ap_manager a)). \<forall>w. ap_windows a k = Some w \<longrightarrow> sn_persistent_id (cw_session w) \<noteq> pid"
  shows "\<exists>ws. ap_store (snd (save_state env j a)) = Some ws \<and> pid \<notin> ws_window_id ` set ws"
proof -
  have nowin: "pid \<notin> ws_window_id ` set (build_windows_state dk bounds display j ws)"
    if "\<forall>(k, x) \<in> set ws. \<forall>w. x = Some w \<longrightarrow> sn_persistent_id w \<noteq> pid" for dk bounds display ws
    using that
    by (induction ws) (auto simp: build_windows_state_def List.map_filter_simps build_window_state_def
        build_window_state_without_bounds_def Let_def split: option.splits if_splits)
  have "pid \<notin> ws_window_id ` set (snapshot env j a)"
    unfolding snapshot_def by (rule nowin) (use assms(3) in \<open>auto split: option.splits\<close>)
  then show ?thesis using assms(2) by (simp add: save_state_def)
qed

text \<open>Quitting asks about the large files of the window it was started from only.\<close>

lemma quit_ignores_other_windows:
  assumes "ap_windows a i = Some w" "large_modified_local_tabs (sn_app (cw_session w)) = []" "\<not> cw_confirm_exit w"
    "ce_store_fails env = False"
  shows "ap_quit (quit env i a)"
  using assms by (simp add: quit_def fulgur_of_def quit_inner_def save_state_def)

lemma large_file_is_stored_without_text:
  assumes "et_location e = LocLocal p" "content_too_large_to_persist e"
  shows "\<exists>ts. tab_state_of_editor dk persist e = Some ts \<and> ts_content ts = None"
  using assms by (simp add: tab_state_of_editor_def keep_content_def tab_state_base_def)

text \<open>A large text without a file is dropped with the window without a question.\<close>

lemma large_untitled_is_not_asked_about:
  assumes "et_location e = LocUntitled" "content_too_large_to_persist e"
  shows "\<not> needs_close_warning (TabEditor e)" "tab_state_of_editor dk persist e = None"
  using assms by (simp_all add: needs_close_warning_def tab_state_of_editor_def)

text \<open>With the confirmation of the exit switched on, a session that cannot be stored can never be left.\<close>

lemma confirmed_exit_is_never_forced:
  assumes "ce_store_fails env" "ap_windows a i = Some w" "cw_confirm_exit w" "\<not> ap_quit a" "window_count (ap_manager a) = 1"
  shows "\<not> ap_quit (request_close env i a)" "ap_manager (request_close env i a) = ap_manager a"
    "\<not> ap_quit (confirm_quit env i a)"
  using assms
  by (auto simp: request_close_def on_window_close_requested_def quit_def fulgur_of_def quit_inner_def confirm_quit_def
      save_state_def note_close_def open_close_dialog_def drive_large_file_close_warnings_def upd_fulgur_def Let_def
      split: option.splits list.splits)

text \<open>Without it a second request closes the window.\<close>

lemma second_request_closes:
  assumes "ap_windows a i = Some w" "large_modified_local_tabs (sn_app (cw_session w)) = []"
    "window_count (ap_manager a) = 1 \<longrightarrow> \<not> cw_confirm_exit w" "cw_save_failed_once w"
  shows "fst (on_window_close_requested env i a)"
  using assms
  by (auto simp: on_window_close_requested_def save_or_force_def save_state_def Let_def split: prod.splits)

end
