(* ===== verification/Spec2Isabelle.thy ===== *)
theory Spec2Isabelle
  imports Session State_Writer Search Ssh_Task Sync_Worker Log_View Open_Files Window_Close
begin

text \<open>
  Fulgur is a text editor written in Rust on the gpui framework: windows with tabs, each an editor of an untitled text, a
  local file or a file on an SSH server; a session that survives restarts; and profiles that exchange files with the
  user's other devices through a server. This development models the logic of the program, under \<^verbatim>\<open>src/fulgur/\<close> (paths
  below are relative to it), and proves what makes it correct. Names are those of the source wherever Isabelle allows.

  \<^bold>\<open>How the code is modelled.\<close> A struct is a \<open>record\<close>, an enum a \<open>datatype\<close>, \<open>Result\<close> the sum type with \<open>Inl\<close> for the
  error, a \<open>str\<close> the list of its characters (\<open>rstr\<close>) and bytes are words of 8 bits; integers that can wrap are words,
  lengths and indices \<open>nat\<close>. A function that changes \<open>self\<close> returns the changed record. What an operation asks of the
  framework (focus, a dialog, a redraw, a save of the session) is a value in \<open>fg_effects\<close> or a result, and what a
  dialog or a background task does later is a definition of its own. Threads and tasks are inductive step relations
  over the state they share, so that the statements hold in every interleaving. Third-party code is a parameter: a
  record of functions (\<open>lang_env\<close>, \<open>codecs\<close>, \<open>share_env\<close>, \<open>sftp_server\<close>, \<open>disk\<close>, \<open>aw_env\<close>) or a hypothesis named for
  what it documents.

  \<^bold>\<open>Theories.\<close>
  \<^item> \<open>Prelude\<close>, \<open>Utf8\<close>: results, strings, paths, list updates and decoding of Rust's standard library.
  \<^item> \<open>Languages\<close>, \<open>Csv\<close>, \<open>Sanitize\<close>, \<open>Encoding\<close>: \<^verbatim>\<open>languages/supported_languages.rs\<close>; \<^verbatim>\<open>files/csv_support.rs\<close> and
    \<^verbatim>\<open>ui/tabs/editor_tab/csv_table/\<close>; \<^verbatim>\<open>utils/sanitize.rs\<close>; \<^verbatim>\<open>files/file_operations/encoding.rs\<close>. Parsing and writing of
    tables are inverse, every table command keeps tables rectangular (the locale \<open>csv_operation\<close>), UTF-8 files are
    read and written without loss.
  \<^item> \<open>Editor_Tab\<close>, \<open>Tabs\<close>: \<^verbatim>\<open>ui/tabs/\<close>. One editor with its fingerprint of the saved text, and the tabs of a window
    (\<open>fulgur\<close>, the part of the struct \<open>Fulgur\<close> the operations use). The invariant \<open>tabs_wf\<close> is kept by every command,
    the modified mark tracks the saved text, and no command closes a modified tab without the confirmation.
  \<^item> \<open>State_Db\<close>, \<open>Session_Roundtrip\<close>, \<open>Session\<close>, \<open>State_Writer\<close>: \<^verbatim>\<open>state/\<close>. The tables of the database with the
    differential write, what is persisted of the tabs and restored from it, and the thread that writes. A saved
    session loads back, unsaved texts survive a restart, the last snapshot requested is written, at most as often as
    the throttle allows.
  \<^item> \<open>Open_Files\<close>, \<open>File_Watch\<close>, \<open>Atomic_Write\<close>, \<open>Local_Save\<close>, \<open>Log_View\<close>: \<^verbatim>\<open>files/\<close>, \<^verbatim>\<open>utils/atomic_write.rs\<close> and
    \<^verbatim>\<open>ui/log_view/\<close>. Opening shows the file, changes by other programs are noticed and never discard edits without
    asking, a write leaves the old or the new contents at every moment, and a save marks exactly the edits made
    meanwhile as unsaved.
  \<^item> \<open>Window_Manager\<close>, \<open>Window_Close\<close>: \<^verbatim>\<open>window_manager/\<close>, \<^verbatim>\<open>ui/dialogs/large_file_close.rs\<close>, \<^verbatim>\<open>utils/single_instance.rs\<close>.
    The windows of the process, their menus, closing and quitting. \<open>Window_Close\<close> composes the tabs, the saving and
    the session: quitting keeps all unsaved work that can be persisted, and what cannot be is asked about.
  \<^item> \<open>Search\<close>: \<^verbatim>\<open>ui/bars/search_bar/\<close>. All occurrences are found, replacing all replaces each match, the current match is
    one of them.
  \<^item> \<open>Remote_Url\<close>, \<open>Known_Hosts\<close>, \<open>Sftp\<close>, \<open>Remote_Files\<close>, \<open>Ssh_Pool\<close>, \<open>Ssh_Task\<close>: \<^verbatim>\<open>sync/ssh/\<close> and the remote
    operations of \<^verbatim>\<open>files/file_operations/\<close>. Locations parse back, passwords are sent only to trusted hosts, a remote
    write keeps the old or the new file, only the newest request of a tab changes it, and a worker and its monitor
    report one outcome. The locale \<open>session_cache\<close> is what the operations rely on of the pool, \<open>completion\<close> what the
    task relies on of the slots of outcomes.
  \<^item> \<open>App_Settings\<close>: \<^verbatim>\<open>settings/\<close>. Loaded settings are in range, and saving keeps a backup that loads.
  \<^item> \<open>Sync_Types\<close>, \<open>Sync_Token\<close>, \<open>Sync_Share\<close>, \<open>Sync_Sse\<close>, \<open>Sync_Worker\<close>: \<^verbatim>\<open>sync/\<close>. One refresh of a token at a time, no
    received share is lost and each is accounted for as often as it arrived, events are decoded from the stream, at most one
    worker of a profile is not told to stop.

  \<^bold>\<open>Bounds and fuel.\<close> Constants are those of the source (10,000 lines of a log, 50 MB for a large file, 16 messages in
  the channel, 200 ms of throttle, 500 ms of debounce, the limits of shares). Loops that are not structural have a
  measure; \<open>read_line_loop\<close>, \<open>interruptible_sleep\<close> and the retries take the list of what they wait for, so that a run
  ends with the list; no model stops for lack of fuel. Counters of the program that cannot overflow in practice
  (tab and window identities, the counter of temporary files) are \<open>nat\<close>, the request identities wrap as \<open>u64\<close>.

  \<^bold>\<open>Not modelled.\<close> Rendering (\<^verbatim>\<open>render.rs\<close>, \<^verbatim>\<open>content_area.rs\<close>, \<^verbatim>\<open>ui/bars/\<close> but the search bar, \<^verbatim>\<open>ui/sheets/\<close>, the settings
  pages, most of \<^verbatim>\<open>ui/dialogs/\<close>), which builds elements of the framework from the state; menus, key bindings, icons and
  themes, which are tables; the colour picker, whose arithmetic is on the floating-point colours of a library; the
  Markdown toolbar and images; the queries of \<^verbatim>\<open>languages/syntax_highlighting/\<close>; \<^verbatim>\<open>utils/crypto_helper/\<close> and the key chain,
  which call libraries; \<^verbatim>\<open>sync/profile_lifecycle.rs\<close>, \<^verbatim>\<open>ping.rs\<close> and \<^verbatim>\<open>devices.rs\<close>; logging, updates, the jump list and the
  start of the program except its requests to open files. Of the modelled parts, the scrolling and layout of the
  editor component and the exact timing of the executor are left out.
\<close>

end
